(* ===== verification/Prelude.thy ===== *)
theory Prelude
  imports Complex_Main "HOL-Library.AList" "HOL-Library.Sublist" "HOL-Library.List_Lexorder"
    "HOL-Library.Char_ord" "HOL-Library.While_Combinator"
begin

text \<open>
  Shared vocabulary of the development: Python values as JSON carries them, dictionaries as
  association lists in insertion order, exceptions as a datatype of error values, the string
  helpers the kernel code uses, and the generic lemmas and hint collections that the component
  theories draw on.

  A Python string is a list of characters whose codes are below 256. Text that the code itself
  writes outside that range (the dash of the agent-facing notices) is kept as its UTF-8 bytes.
\<close>

named_theorems chat_simps \<open>unfolding rules of the conversation operations\<close>
named_theorems inv_intros \<open>operations that keep their component's invariant\<close>

section \<open>Values and errors\<close>

text \<open>Values of a decoded JSON document, as \<^verbatim>\<open>json.loads\<close> builds them.\<close>

datatype py =
    PNone
  | PBool bool
  | PInt int
  | PFloat rat
  | PStr string
  | PList "py list"
  | PDict "(string \<times> py) list"

type_synonym dict = "(string \<times> py) list"

text \<open>
  The exceptions the modelled code raises. The text of a message is kept where the code hands
  it to the agent; elsewhere the constructor's argument names the cause.
\<close>

datatype exc =
    ValueError string
  | TypeError string
  | KeyError string
  | AttributeError string
  | RuntimeError string
  | PermissionError string
  | PendingToolCallsError
  | IndexError
  | OSError string
  | OtherException string string
  | IllTyped string

section \<open>The sum monad of fallible operations\<close>

definition ebind :: "'e + 'a \<Rightarrow> ('a \<Rightarrow> 'e + 'b) \<Rightarrow> 'e + 'b" where
  "ebind x f = (case x of Inl e \<Rightarrow> Inl e | Inr a \<Rightarrow> f a)"

lemma ebind_simps [simp]: "ebind (Inl e) f = Inl e" "ebind (Inr a) f = f a"
  by (simp_all add: ebind_def)

lemma ebind_eq_InrD: "ebind x f = Inr b \<Longrightarrow> \<exists>a. x = Inr a \<and> f a = Inr b"
  by (cases x) simp_all

fun emap :: "('a \<Rightarrow> 'e + 'b) \<Rightarrow> 'a list \<Rightarrow> 'e + 'b list" where
  "emap f [] = Inr []"
| "emap f (x # xs) = ebind (f x) (\<lambda>y. ebind (emap f xs) (\<lambda>ys. Inr (y # ys)))"

lemma emap_cong [fundef_cong]:
  "xs = ys \<Longrightarrow> (\<And>x. x \<in> set ys \<Longrightarrow> f x = g x) \<Longrightarrow> emap f xs = emap g ys"
  by (induction ys arbitrary: xs) (auto simp: ebind_def split: sum.splits)

lemma emap_map_inverse: "(\<And>x. x \<in> set xs \<Longrightarrow> f (g x) = Inr x) \<Longrightarrow> emap f (map g xs) = Inr xs"
  by (induction xs) auto

lemma emap_map_Inr: "(\<And>x. x \<in> set xs \<Longrightarrow> f x = Inr (h x)) \<Longrightarrow> emap f xs = Inr (map h xs)"
  by (induction xs) auto

lemma emap_total: "(\<And>x. x \<in> set xs \<Longrightarrow> \<exists>y. f x = Inr y) \<Longrightarrow> \<exists>ys. emap f xs = Inr ys"
proof (induction xs)
  case (Cons x xs)
  then obtain y ys where "f x = Inr y" "emap f xs = Inr ys" by (metis list.set_intros)
  then show ?case by simp
qed simp

lemma emap_list_all2: "emap f xs = Inr ys \<Longrightarrow> list_all2 (\<lambda>x y. f x = Inr y) xs ys"
  by (induction xs arbitrary: ys) (auto dest!: ebind_eq_InrD)

section \<open>Dictionaries\<close>

text \<open>
  \<^verbatim>\<open>d.get(k)\<close>, \<^verbatim>\<open>d[k]\<close>, \<^verbatim>\<open>k in d\<close>, \<^verbatim>\<open>d[k] = v\<close> (in place, or at the end for
  a new key, which is the order Python keeps) and \<^verbatim>\<open>d.pop(k, None)\<close>.
\<close>

abbreviation dget :: "('k \<times> 'v) list \<Rightarrow> 'k \<Rightarrow> 'v option" where
  "dget d k \<equiv> map_of d k"

definition dgetd :: "('k \<times> 'v) list \<Rightarrow> 'k \<Rightarrow> 'v \<Rightarrow> 'v" where
  "dgetd d k v = (case map_of d k of None \<Rightarrow> v | Some w \<Rightarrow> w)"

definition dindex :: "(string \<times> 'v) list \<Rightarrow> string \<Rightarrow> exc + 'v" where
  "dindex d k = (case map_of d k of None \<Rightarrow> Inl (KeyError k) | Some w \<Rightarrow> Inr w)"

abbreviation dput :: "'k \<Rightarrow> 'v \<Rightarrow> ('k \<times> 'v) list \<Rightarrow> ('k \<times> 'v) list" where
  "dput \<equiv> AList.update"

definition dpop :: "'k \<Rightarrow> ('k \<times> 'v) list \<Rightarrow> ('k \<times> 'v) list" where
  "dpop k d = filter (\<lambda>(j, _). j \<noteq> k) d"

definition dkeys :: "('k \<times> 'v) list \<Rightarrow> 'k list" where
  "dkeys d = map fst d"

definition dhas :: "('k \<times> 'v) list \<Rightarrow> 'k \<Rightarrow> bool" where
  "dhas d k \<longleftrightarrow> k \<in> set (map fst d)"

lemma dhas_iff: "dhas d k \<longleftrightarrow> map_of d k \<noteq> None"
  by (simp add: dhas_def map_of_eq_None_iff)

lemma dget_dput [simp]: "map_of (dput k v d) j = (if j = k then Some v else map_of d j)"
  by (simp add: update_conv)

lemma dget_dpop [simp]: "map_of (dpop k d) j = (if j = k then None else map_of d j)"
  unfolding dpop_def by (induction d) auto

lemma dgetd_dput [simp]: "dgetd (dput k v d) j w = (if j = k then v else dgetd d j w)"
  by (simp add: dgetd_def)

lemma dgetd_Nil [simp]: "dgetd [] k v = v"
  by (simp add: dgetd_def)

lemma distinct_keys_dput: "distinct (map fst d) \<Longrightarrow> distinct (map fst (dput k v d))"
  by (rule distinct_update)

lemma distinct_keys_dpop: "distinct (map fst d) \<Longrightarrow> distinct (map fst (dpop k d))"
  unfolding dpop_def by (induction d) auto

text \<open>\<^verbatim>\<open>d[k] = d.get(k, 0) + 1\<close>: the counters of the loop guard and of the poll tracker.\<close>

definition dincr :: "'k \<Rightarrow> ('k \<times> int) list \<Rightarrow> ('k \<times> int) list" where
  "dincr k d = dput k (dgetd d k 0 + 1) d"

lemma dgetd_dincr [simp]: "dgetd (dincr k d) j 0 = (if j = k then dgetd d k 0 + 1 else dgetd d j 0)"
  by (simp add: dincr_def)

section \<open>Truth and equality of Python values\<close>

text \<open>\<^verbatim>\<open>bool(v)\<close>.\<close>

fun truthy :: "py \<Rightarrow> bool" where
  "truthy PNone = False"
| "truthy (PBool b) = b"
| "truthy (PInt i) = (i \<noteq> 0)"
| "truthy (PFloat r) = (r \<noteq> 0)"
| "truthy (PStr s) = (s \<noteq> [])"
| "truthy (PList xs) = (xs \<noteq> [])"
| "truthy (PDict d) = (d \<noteq> [])"

text \<open>The number a value counts as in a comparison: \<^verbatim>\<open>True == 1 == 1.0\<close>.\<close>

fun py_num :: "py \<Rightarrow> rat option" where
  "py_num (PBool b) = Some (if b then 1 else 0)"
| "py_num (PInt i) = Some (of_int i)"
| "py_num (PFloat r) = Some r"
| "py_num _ = None"

lemma size_zip_fst [termination_simp]: "(a, b) \<in> set (zip xs ys) \<Longrightarrow> size a < Suc (size_list size xs)"
  by (metis set_zip_leftD size_list_estimation less_Suc_eq_le order_refl size_list_estimation')

text \<open>\<^verbatim>\<open>a == b\<close>; dictionaries compare as mappings, whatever their order.\<close>

fun py_eq :: "py \<Rightarrow> py \<Rightarrow> bool" where
  "py_eq (PStr s) w = (case w of PStr t \<Rightarrow> s = t | _ \<Rightarrow> False)"
| "py_eq PNone w = (w = PNone)"
| "py_eq (PList xs) w =
     (case w of PList ys \<Rightarrow> length xs = length ys \<and> list_all (\<lambda>(x, y). py_eq x y) (zip xs ys)
      | _ \<Rightarrow> False)"
| "py_eq (PDict d) w =
     (case w of
        PDict e \<Rightarrow> length d = length e \<and>
          list_all (\<lambda>(k, v). case map_of e k of None \<Rightarrow> False | Some u \<Rightarrow> py_eq v u) d
      | _ \<Rightarrow> False)"
| "py_eq v w = (py_num v = py_num w)"

section \<open>Strings\<close>

definition startswith :: "string \<Rightarrow> string \<Rightarrow> bool" where
  "startswith s p \<longleftrightarrow> take (length p) s = p"

definition endswith :: "string \<Rightarrow> string \<Rightarrow> bool" where
  "endswith s p \<longleftrightarrow> length p \<le> length s \<and> drop (length s - length p) s = p"

lemma startswith_prefix: "startswith s p \<longleftrightarrow> prefix p s"
  by (auto simp: startswith_def prefix_def) (metis append_take_drop_id)

lemma startswith_self [simp]: "startswith (p @ s) p"
  by (simp add: startswith_def)

fun join_str :: "string \<Rightarrow> string list \<Rightarrow> string" where
  "join_str sep [] = []"
| "join_str sep [x] = x"
| "join_str sep (x # y # zs) = x @ sep @ join_str sep (y # zs)"

text \<open>\<^verbatim>\<open>s.split(c)\<close> for a one-character separator, and the part before its first occurrence.\<close>

fun split_char :: "char \<Rightarrow> string \<Rightarrow> string list" where
  "split_char c [] = [[]]"
| "split_char c (x # xs) =
     (if x = c then [] # split_char c xs
      else case split_char c xs of [] \<Rightarrow> [[x]] | y # ys \<Rightarrow> (x # y) # ys)"

definition before_char :: "char \<Rightarrow> string \<Rightarrow> string" where
  "before_char c s = takeWhile (\<lambda>x. x \<noteq> c) s"

definition after_char :: "char \<Rightarrow> string \<Rightarrow> string" where
  "after_char c s = drop 1 (dropWhile (\<lambda>x. x \<noteq> c) s)"

lemma split_char_nonempty: "split_char c s \<noteq> []"
  by (induction s) (auto split: list.splits)

lemma hd_split_char: "hd (split_char c s) = before_char c s"
  by (induction s) (auto simp: before_char_def split_char_nonempty split: list.splits)

lemma before_char_not_in: "c \<notin> set (before_char c s)"
  by (auto simp: before_char_def dest: set_takeWhileD)

text \<open>\<^verbatim>\<open>str(n)\<close> for an integer.\<close>

definition digit_char :: "nat \<Rightarrow> char" where
  "digit_char n = char_of (48 + n)"

fun nat_str :: "nat \<Rightarrow> string" where
  "nat_str n = (if n < 10 then [digit_char n] else nat_str (n div 10) @ [digit_char (n mod 10)])"

declare nat_str.simps [simp del]

definition int_str :: "int \<Rightarrow> string" where
  "int_str i = (if i < 0 then ''-'' @ nat_str (nat (- i)) else nat_str (nat i))"

lemma nat_str_nonempty: "nat_str n \<noteq> []"
  by (subst nat_str.simps) simp

text \<open>Characters with a name of their own, and \<^verbatim>\<open>str.isspace\<close>/\<^verbatim>\<open>str.strip\<close> on one byte.\<close>

definition nl :: string where "nl = [CHR 0x0A]"
definition dquote :: char where "dquote = CHR 0x22"
definition squote :: char where "squote = CHR 0x27"
definition backslash :: char where "backslash = CHR 0x5C"
definition backquote :: string where "backquote = [CHR 0x60]"

text \<open>The long dash of the agent-facing notices, as its three UTF-8 bytes.\<close>

definition em_dash :: string where
  "em_dash = [char_of (226::nat), char_of (128::nat), char_of (148::nat)]"

definition is_space :: "char \<Rightarrow> bool" where
  "is_space c \<longleftrightarrow> c \<in> set [CHR '' '', CHR 0x09, CHR 0x0A, CHR 0x0B, CHR 0x0C, CHR 0x0D, CHR 0x1C,
     CHR 0x1D, CHR 0x1E, CHR 0x1F, CHR 0x85, CHR 0xA0]"

definition lstrip :: "string \<Rightarrow> string" where
  "lstrip s = dropWhile is_space s"

definition strip :: "string \<Rightarrow> string" where
  "strip s = rev (dropWhile is_space (rev (dropWhile is_space s)))"

definition is_digit :: "char \<Rightarrow> bool" where
  "is_digit c \<longleftrightarrow> 48 \<le> (of_char c :: nat) \<and> (of_char c :: nat) \<le> 57"

definition is_upper :: "char \<Rightarrow> bool" where
  "is_upper c \<longleftrightarrow> 65 \<le> (of_char c :: nat) \<and> (of_char c :: nat) \<le> 90"

definition is_lower :: "char \<Rightarrow> bool" where
  "is_lower c \<longleftrightarrow> 97 \<le> (of_char c :: nat) \<and> (of_char c :: nat) \<le> 122"

text \<open>\<^verbatim>\<open>s.lower()\<close> on ASCII letters; \<^verbatim>\<open>s.split(sep)\<close> for a separator that is not empty.\<close>

definition lower :: "string \<Rightarrow> string" where
  "lower s = map (\<lambda>c. if is_upper c then char_of ((of_char c :: nat) + 32) else c) s"

function split_on :: "string \<Rightarrow> string \<Rightarrow> string list" where
  "split_on sep s =
     (if sep = [] \<or> s = [] then [s]
      else if startswith s sep then [] # split_on sep (drop (length sep) s)
      else case split_on sep (tl s) of [] \<Rightarrow> [[hd s]] | y # ys \<Rightarrow> (hd s # y) # ys)"
  by pat_completeness auto
termination
  by (relation "measure (\<lambda>(sep, s). length s)") auto

declare split_on.simps [simp del]

text \<open>\<^verbatim>\<open>list(dict.fromkeys(xs))\<close>: the first occurrence of each element, in order.\<close>

definition uniq :: "'a list \<Rightarrow> 'a list" where
  "uniq xs = rev (remdups (rev xs))"

text \<open>\<^verbatim>\<open>str(v)\<close> and \<^verbatim>\<open>repr(v)\<close>; \<open>fr\<close> renders a float.\<close>

definition hex_digit :: "nat \<Rightarrow> char" where
  "hex_digit n = (if n < 10 then digit_char n else char_of (87 + n))"

definition repr_char :: "char \<Rightarrow> char \<Rightarrow> string" where
  "repr_char q c =
     (let n = (of_char c :: nat) in
      if c = q \<or> c = backslash then [backslash, c]
      else if n = 10 then [backslash, CHR ''n'']
      else if n = 13 then [backslash, CHR ''r'']
      else if n = 9 then [backslash, CHR ''t'']
      else if n < 32 \<or> (127 \<le> n \<and> n \<le> 160) \<or> n = 173
        then [backslash, CHR ''x'', hex_digit (n div 16), hex_digit (n mod 16)]
      else [c])"

definition str_repr :: "string \<Rightarrow> string" where
  "str_repr s =
     (let q = (if squote \<in> set s \<and> dquote \<notin> set s then dquote else squote)
      in [q] @ concat (map (repr_char q) s) @ [q])"

fun py_repr :: "(rat \<Rightarrow> string) \<Rightarrow> py \<Rightarrow> string" where
  "py_repr fr PNone = ''None''"
| "py_repr fr (PBool b) = (if b then ''True'' else ''False'')"
| "py_repr fr (PInt i) = int_str i"
| "py_repr fr (PFloat r) = fr r"
| "py_repr fr (PStr s) = str_repr s"
| "py_repr fr (PList xs) = ''['' @ join_str '', '' (map (py_repr fr) xs) @ '']''"
| "py_repr fr (PDict d) =
     ''{'' @ join_str '', '' (map (\<lambda>(k, v). str_repr k @ '': '' @ py_repr fr v) d) @ ''}''"

definition py_str :: "(rat \<Rightarrow> string) \<Rightarrow> py \<Rightarrow> string" where
  "py_str fr v = (case v of PStr s \<Rightarrow> s | _ \<Rightarrow> py_repr fr v)"

text \<open>
  \<^verbatim>\<open>json.dumps(v)\<close> with the default separators and \<^verbatim>\<open>ensure_ascii\<close>, and its \<^verbatim>\<open>sort_keys\<close> form.
\<close>

definition json_char :: "char \<Rightarrow> string" where
  "json_char c =
     (let n = (of_char c :: nat) in
      if c = dquote \<or> c = backslash then [backslash, c]
      else if n = 10 then [backslash, CHR ''n'']
      else if n = 13 then [backslash, CHR ''r'']
      else if n = 9 then [backslash, CHR ''t'']
      else if n = 12 then [backslash, CHR ''f'']
      else if n = 8 then [backslash, CHR ''b'']
      else if n < 32 \<or> 127 \<le> n
        then [backslash] @ ''u00'' @ [hex_digit (n div 16), hex_digit (n mod 16)]
      else [c])"

definition json_string :: "string \<Rightarrow> string" where
  "json_string s = [dquote] @ concat (map json_char s) @ [dquote]"

fun json_dumps :: "(rat \<Rightarrow> string) \<Rightarrow> bool \<Rightarrow> py \<Rightarrow> string" where
  "json_dumps fr srt PNone = ''null''"
| "json_dumps fr srt (PBool b) = (if b then ''true'' else ''false'')"
| "json_dumps fr srt (PInt i) = int_str i"
| "json_dumps fr srt (PFloat r) = fr r"
| "json_dumps fr srt (PStr s) = json_string s"
| "json_dumps fr srt (PList xs) = ''['' @ join_str '', '' (map (json_dumps fr srt) xs) @ '']''"
| "json_dumps fr srt (PDict d) =
     (let items = map (\<lambda>(k, v). (k, json_string k @ '': '' @ json_dumps fr srt v)) d;
          ordered = (if srt then sort_key fst items else items)
      in ''{'' @ join_str '', '' (map snd ordered) @ ''}'')"

text \<open>\<^verbatim>\<open>s.replace(c, t)\<close> for a one-character pattern, and \<^verbatim>\<open>xs[:n]\<close> with Python's negative counts.\<close>

definition replace_char :: "char \<Rightarrow> string \<Rightarrow> string \<Rightarrow> string" where
  "replace_char c t s = concat (map (\<lambda>x. if x = c then t else [x]) s)"

definition py_take :: "int \<Rightarrow> 'a list \<Rightarrow> 'a list" where
  "py_take n xs = (if 0 \<le> n then take (nat n) xs else take (length xs - nat (- n)) xs)"

section \<open>Lists\<close>

text \<open>The first index whose element satisfies a test: the loops that search, act and return.\<close>

fun find_index :: "('a \<Rightarrow> bool) \<Rightarrow> 'a list \<Rightarrow> nat option" where
  "find_index p [] = None"
| "find_index p (x # xs) = (if p x then Some 0 else map_option Suc (find_index p xs))"

lemma find_index_SomeD:
  "find_index p xs = Some i \<Longrightarrow> i < length xs \<and> p (xs ! i) \<and> (\<forall>j<i. \<not> p (xs ! j))"
proof (induction xs arbitrary: i)
  case (Cons x xs)
  show ?case
  proof (cases "p x")
    case False
    with Cons.prems obtain k where k: "find_index p xs = Some k" "i = Suc k" by auto
    from Cons.IH [OF k(1)] False k(2) show ?thesis by (auto simp: less_Suc_eq_0_disj)
  qed (use Cons.prems in auto)
qed simp

lemma find_index_None_iff: "find_index p xs = None \<longleftrightarrow> (\<forall>x\<in>set xs. \<not> p x)"
  by (induction xs) auto

definition remove_nth :: "nat \<Rightarrow> 'a list \<Rightarrow> 'a list" where
  "remove_nth i xs = take i xs @ drop (Suc i) xs"

lemma set_remove_nth_subset: "set (remove_nth i xs) \<subseteq> set xs"
  by (auto simp: remove_nth_def dest: in_set_takeD in_set_dropD)

text \<open>\<^verbatim>\<open>xs[-n:]\<close> for a positive count.\<close>

definition last_n :: "nat \<Rightarrow> 'a list \<Rightarrow> 'a list" where
  "last_n n xs = drop (length xs - n) xs"

lemma length_last_n [simp]: "length (last_n n xs) = min n (length xs)"
  by (auto simp: last_n_def)

lemma set_last_n_subset: "set (last_n n xs) \<subseteq> set xs"
  by (simp add: last_n_def set_drop_subset)

lemma set_subseq: "subseq xs ys \<Longrightarrow> set xs \<subseteq> set ys"
  by (auto dest: list_emb_set)

lemma subseq_sorted_wrt: "subseq xs ys \<Longrightarrow> sorted_wrt P ys \<Longrightarrow> sorted_wrt P xs"
proof (induction rule: list_emb.induct)
  case (list_emb_Cons2 x y xs ys)
  then show ?case by (auto dest: set_subseq)
qed (auto dest: set_subseq)

lemma map_filter_append [simp]: "List.map_filter f (xs @ ys) = List.map_filter f xs @ List.map_filter f ys"
  by (induction xs) (auto simp: List.map_filter_simps split: option.splits)

lemma butlast_last_cases: "xs = [] \<or> (\<exists>ys y. xs = ys @ [y])"
  by (metis append_butlast_last_id)

lemma rev_dropWhile_rev_prefix: "prefix (rev (dropWhile p (rev xs))) xs"
proof -
  have "xs = rev (dropWhile p (rev xs)) @ rev (takeWhile p (rev xs))"
    by (metis rev_append rev_rev_ident takeWhile_dropWhile_id)
  then show ?thesis by (rule prefixI)
qed

section \<open>Threading a state through a list\<close>

fun map_state :: "('a \<Rightarrow> 's \<Rightarrow> 'b \<times> 's) \<Rightarrow> 'a list \<Rightarrow> 's \<Rightarrow> 'b list \<times> 's" where
  "map_state f [] s = ([], s)"
| "map_state f (x # xs) s =
     (let (y, s1) = f x s; (ys, s2) = map_state f xs s1 in (y # ys, s2))"

lemma map_state_Cons [simp]:
  "fst (map_state f (x # xs) s) = fst (f x s) # fst (map_state f xs (snd (f x s)))"
  "snd (map_state f (x # xs) s) = snd (map_state f xs (snd (f x s)))"
  by (simp_all add: Let_def split_beta)

declare map_state.simps(2) [simp del]

lemma map_state_map:
  "(\<And>x s. x \<in> set xs \<Longrightarrow> g (fst (f x s)) = h x) \<Longrightarrow> map g (fst (map_state f xs s)) = map h xs"
  by (induction xs arbitrary: s) auto

lemma map_state_length [simp]: "length (fst (map_state f xs s)) = length xs"
  by (induction xs arbitrary: s) auto

lemma map_state_set: "y \<in> set (fst (map_state f xs s)) \<Longrightarrow> \<exists>x\<in>set xs. \<exists>t. y = fst (f x t)"
  by (induction xs arbitrary: s) auto

lemma map_state_run:
  "(\<And>x s. x \<in> set xs \<Longrightarrow> f x s = (h x, u x s)) \<Longrightarrow> map_state f xs s = (map h xs, fold u xs s)"
  by (induction xs arbitrary: s) (auto simp: prod_eq_iff)

lemma map_state_inv:
  "P s \<Longrightarrow> (\<And>x s. x \<in> set xs \<Longrightarrow> P s \<Longrightarrow> P (snd (f x s))) \<Longrightarrow> P (snd (map_state f xs s))"
  by (induction xs arbitrary: s) auto

lemma list_all2_image: "list_all2 P xs ys \<Longrightarrow> y \<in> set ys \<Longrightarrow> \<exists>x\<in>set xs. P x y"
  by (induction rule: list_all2_induct) auto

section \<open>Reachable states\<close>

inductive reach :: "'s \<Rightarrow> ('s \<Rightarrow> 's \<Rightarrow> bool) \<Rightarrow> 's \<Rightarrow> bool" for s0 step where
  reach_init: "reach s0 step s0"
| reach_step: "reach s0 step s \<Longrightarrow> step s t \<Longrightarrow> reach s0 step t"

text \<open>
  The contract of an inductive invariant. A component interprets it on its own step relation and
  gets the invariant, and everything the invariant implies, in every reachable state.
\<close>

locale step_invariant =
  fixes s0 :: 's and step :: "'s \<Rightarrow> 's \<Rightarrow> bool" and inv :: "'s \<Rightarrow> bool"
  assumes inv_init: "inv s0"
    and inv_step: "inv s \<Longrightarrow> step s t \<Longrightarrow> inv t"
begin

lemma reach_inv: "reach s0 step s \<Longrightarrow> inv s"
  by (induction rule: reach.induct) (auto intro: inv_init inv_step)

lemma reach_imp: "(\<And>s. inv s \<Longrightarrow> P s) \<Longrightarrow> reach s0 step s \<Longrightarrow> P s"
  by (blast dest: reach_inv)

end

section \<open>Loops\<close>

text \<open>
  A loop whose measure goes down ends, and what the body keeps constant under the invariant has the same
  value at the end.
\<close>

lemma while_result:
  fixes m :: "'s \<Rightarrow> nat"
  assumes "\<And>s. P s \<Longrightarrow> b s \<Longrightarrow> P (c s) \<and> m (c s) < m s \<and> f (c s) = f s" "P s"
  shows "\<exists>t. while_option b c s = Some t \<and> P t \<and> \<not> b t \<and> f t = f s"
  using assms(2)
proof (induction "m s" arbitrary: s rule: less_induct)
  case less
  show ?case
  proof (cases "b s")
    case True
    with assms(1) less.prems have step: "P (c s)" "m (c s) < m s" "f (c s) = f s" by blast+
    from less.hyps [OF step(2,1)] step(3) True show ?thesis
      by (subst while_option_unfold) simp
  next
    case False
    with less.prems show ?thesis by (subst while_option_unfold) simp
  qed
qed

end
