(* ===== verification/Loop_Guard.thy ===== *)
theory Loop_Guard
  imports Prelude
begin

text \<open>
  The ACTIVE-turn tool-call progress meter (\<^verbatim>\<open>kernel/loop_guard.py\<close>, limits from
  \<^verbatim>\<open>kernel/safety_limits.py\<close>): the emergency fuse on the number of calls of one turn, the
  soft notice at every crossed interval, the advisory for repeated identical calls and the
  limit on tool names the model invented.
\<close>

section \<open>State\<close>

definition ACTIVE_TURN_TOOL_CALL_EMERGENCY_LIMIT :: int where
  "ACTIVE_TURN_TOOL_CALL_EMERGENCY_LIMIT = 10000"

definition ACTIVE_TURN_TOOL_CALL_NOTICE_INTERVAL :: int where
  "ACTIVE_TURN_TOOL_CALL_NOTICE_INTERVAL = 500"

text \<open>The escalation levels of the advisory, in increasing order of urgency.\<close>

datatype severity = Caution | Warning | Strong_Warning

record dup_verdict =
  dv_count :: int
  dv_blocked :: bool
  dv_warning :: "string option"
  dv_severity :: "severity option"

record loop_guard =
  lg_max_total_calls :: int
  lg_total_calls :: int
  lg_notice_interval :: int
  lg_progress_notice :: "string option"
  lg_dup_free_passes :: int
  lg_dup_hard_block :: int
  lg_dup_counts :: "((string \<times> string) \<times> int) list"
  lg_invalid_tool_limit :: int
  lg_invalid_tool_counts :: "(string \<times> int) list"
  lg_total_invalid_tools :: int

text \<open>
  The constructor. The keyword \<^verbatim>\<open>warning_interval\<close> is the older spelling of the cadence and is
  read only when \<^verbatim>\<open>notice_interval\<close> is absent.
\<close>

definition init_guard ::
  "int \<Rightarrow> int \<Rightarrow> int \<Rightarrow> int \<Rightarrow> int option \<Rightarrow> int option \<Rightarrow> loop_guard" where
  "init_guard max_total free hard invalid notice warning_kw =
     \<lparr>lg_max_total_calls = max_total, lg_total_calls = 0,
      lg_notice_interval =
        (case notice of
           Some n \<Rightarrow> n
         | None \<Rightarrow> (case warning_kw of Some n \<Rightarrow> n | None \<Rightarrow> ACTIVE_TURN_TOOL_CALL_NOTICE_INTERVAL)),
      lg_progress_notice = None, lg_dup_free_passes = free, lg_dup_hard_block = hard,
      lg_dup_counts = [], lg_invalid_tool_limit = invalid, lg_invalid_tool_counts = [],
      lg_total_invalid_tools = 0\<rparr>"

definition default_guard :: loop_guard where
  "default_guard = init_guard ACTIVE_TURN_TOOL_CALL_EMERGENCY_LIMIT 3 8 2 None None"

section \<open>The fuse and the progress meter\<close>

definition check_limit :: "loop_guard \<Rightarrow> int \<Rightarrow> string option" where
  "check_limit g n =
     (if n \<le> 0 then None
      else if lg_total_calls g + n > lg_max_total_calls g then
        Some (''ACTIVE-turn tool-call safety fuse would be exceeded after ''
              @ int_str (lg_total_calls g) @ '' calls'')
      else None)"

definition build_progress_notice :: "loop_guard \<Rightarrow> int \<Rightarrow> int \<Rightarrow> string option" where
  "build_progress_notice g before after =
     (if lg_notice_interval g \<le> 0 then None
      else let crossed = after div lg_notice_interval g;
               previous = before div lg_notice_interval g
           in if crossed \<le> previous then None
              else let boundary = crossed * lg_notice_interval g
                   in if boundary \<le> 0 then None
                      else Some (''Soft self-check: this ACTIVE turn has made '' @ int_str after
                        @ '' tool calls so far. Take a moment to notice whether you may be repeating a ''
                        @ ''loop; if the work is still progressing, continue normally.''))"

definition record_calls :: "loop_guard \<Rightarrow> int \<Rightarrow> loop_guard \<times> string option" where
  "record_calls g n =
     (if n \<le> 0 then (g\<lparr>lg_progress_notice := None\<rparr>, None)
      else let before = lg_total_calls g;
               g' = g\<lparr>lg_total_calls := before + n\<rparr>;
               notice = build_progress_notice g' before (lg_total_calls g')
           in (g'\<lparr>lg_progress_notice := notice\<rparr>, notice))"

definition progress_metadata :: "loop_guard \<Rightarrow> dict" where
  "progress_metadata g =
     [(''active_turn_tool_calls'', PInt (lg_total_calls g))] @
     (case lg_progress_notice g of
        Some t \<Rightarrow> if t \<noteq> [] then [(''active_turn_tool_call_notice'', PStr t)] else []
      | None \<Rightarrow> [])"

definition clear_progress_notice :: "loop_guard \<Rightarrow> loop_guard" where
  "clear_progress_notice g = g\<lparr>lg_progress_notice := None\<rparr>"

section \<open>Invented tool names\<close>

definition record_invalid_tool :: "loop_guard \<Rightarrow> string \<Rightarrow> loop_guard" where
  "record_invalid_tool g name =
     g\<lparr>lg_invalid_tool_counts := dincr name (lg_invalid_tool_counts g),
       lg_total_invalid_tools := lg_total_invalid_tools g + 1\<rparr>"

definition check_invalid_tool_limit :: "loop_guard \<Rightarrow> string option" where
  "check_invalid_tool_limit g =
     (case find (\<lambda>(_, c). c > lg_invalid_tool_limit g) (lg_invalid_tool_counts g) of
        Some (name, c) \<Rightarrow>
          Some (''tool '' @ [squote] @ name @ [squote] @ '' was rejected '' @ int_str c
                @ '' times (limit: '' @ int_str (lg_invalid_tool_limit g) @ '') '' @ em_dash
                @ '' the model is hallucinating tool names not in its schema'')
      | None \<Rightarrow>
          if lg_total_invalid_tools g > lg_invalid_tool_limit g * 2 then
            Some (int_str (lg_total_invalid_tools g) @ '' total invalid tool calls (limit: ''
                  @ int_str (lg_invalid_tool_limit g * 2) @ '') '' @ em_dash
                  @ '' the model is hallucinating tool names'')
          else None)"

section \<open>Repeated calls\<close>

definition STRIP_KEYS :: "string list" where
  "STRIP_KEYS = [''commentary'', ''_sync'', ''_reasoning'']"

text \<open>
  The key under which a call is counted: its name and its arguments, the metadata keys stripped and
  the rest serialised with sorted keys. \<open>fr\<close> renders a float. On the values of a decoded call
  \<^verbatim>\<open>json.dumps\<close> cannot raise, so the fallback rendering is never reached.
\<close>

definition dedup_key :: "(rat \<Rightarrow> string) \<Rightarrow> string \<Rightarrow> dict option \<Rightarrow> string \<times> string" where
  "dedup_key fr name args =
     (let cleaned = (case args of
                       None \<Rightarrow> []
                     | Some d \<Rightarrow> filter (\<lambda>(k, _). k \<notin> set STRIP_KEYS) d)
      in (name, json_dumps fr True (PDict cleaned)))"

definition severity_for_count :: "int \<Rightarrow> severity" where
  "severity_for_count count =
     (if count \<le> 4 then Caution else if count < 10 then Warning else Strong_Warning)"

definition warning_for_count :: "string \<Rightarrow> int \<Rightarrow> severity \<Rightarrow> string" where
  "warning_for_count name count sev =
     (let q = [squote] @ name @ [squote] in
      case sev of
        Caution \<Rightarrow>
          ''Repeated tool-call advisory: '' @ q @ '' has been called '' @ int_str count
          @ '' times with identical semantic arguments. Execution was NOT blocked; ''
          @ ''the tool still ran. If this was intentional, continue. Otherwise, ''
          @ ''consult the referenced skill for repeated-call and polling best ''
          @ ''practices before calling again.''
      | Warning \<Rightarrow>
          ''Repeated tool-call warning: '' @ q @ '' has been called '' @ int_str count
          @ '' times with identical semantic arguments. Execution was NOT blocked, but ''
          @ ''this pattern may be a polling/control-loop that wastes tokens or ''
          @ ''API calls. Consult the referenced skill for repeated-call and ''
          @ ''polling best practices before calling again.''
      | Strong_Warning \<Rightarrow>
          ''Strong repeated tool-call advisory: '' @ q @ '' has been called '' @ int_str count
          @ '' times with identical semantic arguments. Execution was NOT blocked, ''
          @ ''but this is likely a wasteful loop. Consult the referenced skill for ''
          @ ''repeated-call and polling best practices before calling again.'')"

definition record_tool_call ::
  "(rat \<Rightarrow> string) \<Rightarrow> loop_guard \<Rightarrow> string \<Rightarrow> dict option \<Rightarrow> loop_guard \<times> dup_verdict" where
  "record_tool_call fr g name args =
     (let key = dedup_key fr name args;
          count = dgetd (lg_dup_counts g) key 0 + 1;
          g' = g\<lparr>lg_dup_counts := dput key count (lg_dup_counts g)\<rparr>
      in if count \<le> lg_dup_free_passes g then
           (g', \<lparr>dv_count = count, dv_blocked = False, dv_warning = None, dv_severity = None\<rparr>)
         else
           let sev = severity_for_count count
           in (g', \<lparr>dv_count = count, dv_blocked = False,
                    dv_warning = Some (warning_for_count name count sev), dv_severity = Some sev\<rparr>))"

definition severity_str :: "severity \<Rightarrow> string" where
  "severity_str s =
     (case s of Caution \<Rightarrow> ''caution'' | Warning \<Rightarrow> ''warning'' | Strong_Warning \<Rightarrow> ''strong_warning'')"

definition advisory_metadata :: "dup_verdict \<Rightarrow> dict option" where
  "advisory_metadata v =
     (case dv_warning v of
        None \<Rightarrow> None
      | Some w \<Rightarrow>
          if w = [] then None
          else Some [(''type'', PStr ''duplicate_tool_call''),
            (''severity'', PStr (case dv_severity v of None \<Rightarrow> ''caution'' | Some s \<Rightarrow> severity_str s)),
            (''semantic_duplicate'', PBool True), (''repeat_count'', PInt (dv_count v)),
            (''ignored_fields'', PList (map PStr (sort STRIP_KEYS))), (''allowed'', PBool True),
            (''blocked'', PBool False), (''advisory_only'', PBool True), (''message'', PStr w),
            (''skill_refs'', PList (map PStr
              [''system-manual'', ''shell-manual'', ''daemon-manual'', ''email-manual'']))])"

section \<open>The loop that uses the guard\<close>

text \<open>
  The contract in the class's docstring: before a batch of \<open>n\<close> calls the caller asks
  \<^verbatim>\<open>check_limit\<close> and stops when it answers; otherwise it records the batch.
\<close>

fun guarded_batches :: "loop_guard \<Rightarrow> int list \<Rightarrow> loop_guard" where
  "guarded_batches g [] = g"
| "guarded_batches g (n # ns) =
     (case check_limit g n of
        Some _ \<Rightarrow> g
      | None \<Rightarrow> guarded_batches (clear_progress_notice (fst (record_calls g n))) ns)"

text \<open>A run of recorded calls, the verdict of each in order.\<close>

fun record_run ::
  "(rat \<Rightarrow> string) \<Rightarrow> loop_guard \<Rightarrow> (string \<times> dict option) list \<Rightarrow> loop_guard \<times> dup_verdict list" where
  "record_run fr g [] = (g, [])"
| "record_run fr g ((name, args) # cs) =
     (let (g', v) = record_tool_call fr g name args;
          (g'', vs) = record_run fr g' cs
      in (g'', v # vs))"

section \<open>Severity as an order\<close>

instantiation severity :: linorder
begin

definition severity_rank :: "severity \<Rightarrow> nat" where
  "severity_rank s = (case s of Caution \<Rightarrow> 0 | Warning \<Rightarrow> 1 | Strong_Warning \<Rightarrow> 2)"

definition less_eq_severity :: "severity \<Rightarrow> severity \<Rightarrow> bool" where
  "less_eq_severity a b \<longleftrightarrow> severity_rank a \<le> severity_rank b"

definition less_severity :: "severity \<Rightarrow> severity \<Rightarrow> bool" where
  "less_severity a b \<longleftrightarrow> severity_rank a < severity_rank b"

instance
  by standard (auto simp: less_eq_severity_def less_severity_def severity_rank_def split: severity.splits)

end

lemma severity_for_count_mono: "m \<le> n \<Longrightarrow> severity_for_count m \<le> severity_for_count n"
  by (auto simp: severity_for_count_def less_eq_severity_def severity_rank_def)

section \<open>Lemmas\<close>

lemma check_limit_None_iff:
  "check_limit g n = None \<longleftrightarrow> n \<le> 0 \<or> lg_total_calls g + n \<le> lg_max_total_calls g"
  by (auto simp: check_limit_def)

lemma record_calls_total [simp]:
  "lg_total_calls (fst (record_calls g n)) = lg_total_calls g + max 0 n"
  "lg_max_total_calls (fst (record_calls g n)) = lg_max_total_calls g"
  by (auto simp: record_calls_def Let_def)

lemma clear_progress_notice_frame [simp]:
  "lg_total_calls (clear_progress_notice g) = lg_total_calls g"
  "lg_max_total_calls (clear_progress_notice g) = lg_max_total_calls g"
  by (simp_all add: clear_progress_notice_def)

lemma guarded_batches_limit: "lg_max_total_calls (guarded_batches g ns) = lg_max_total_calls g"
  by (induction g ns rule: guarded_batches.induct) (simp_all split: option.splits)

lemma guarded_batches_bounded:
  "lg_total_calls g \<le> lg_max_total_calls g \<Longrightarrow>
   lg_total_calls (guarded_batches g ns) \<le> lg_max_total_calls g"
  by (induction g ns rule: guarded_batches.induct)
     (auto simp: check_limit_None_iff max_def split: option.splits)

lemma guarded_batches_all:
  "lg_total_calls g + sum_list (map (max 0) ns) \<le> lg_max_total_calls g \<Longrightarrow>
   lg_total_calls (guarded_batches g ns) = lg_total_calls g + sum_list (map (max 0) ns)"
proof (induction g ns rule: guarded_batches.induct)
  case (2 g n ns)
  have "0 \<le> sum_list (map (max 0) ns)" by (rule sum_list_nonneg) auto
  with "2.prems" have "check_limit g n = None" by (auto simp: check_limit_None_iff)
  with 2 show ?case by (simp add: algebra_simps)
qed simp

lemma div_mult_le_int: "(0::int) < m \<Longrightarrow> (x div m) * m \<le> x"
  by (metis minus_mod_eq_div_mult pos_mod_sign diff_le_eq le_add_same_cancel1)

lemma div_less_iff_multiple:
  fixes a b m :: int
  assumes m: "0 < m"
  shows "a div m < b div m \<longleftrightarrow> (\<exists>k. a < k * m \<and> k * m \<le> b)"
proof
  assume lt: "a div m < b div m"
  have "a < (a div m + 1) * m"
    using pos_mod_bound [OF m, of a] div_mult_mod_eq [of a m] unfolding distrib_right mult_1 by linarith
  also have "\<dots> \<le> (b div m) * m" using lt m by (simp add: mult_right_mono)
  finally show "\<exists>k. a < k * m \<and> k * m \<le> b" using div_mult_le_int [OF m, of b] by blast
next
  assume "\<exists>k. a < k * m \<and> k * m \<le> b"
  then obtain k where k: "a < k * m" "k * m \<le> b" by blast
  have "k \<le> b div m" using zdiv_mono1 [OF k(2) m] m by simp
  moreover have "a div m < k"
  proof (rule ccontr)
    assume "\<not> a div m < k"
    then have "k * m \<le> (a div m) * m" using m by (simp add: mult_right_mono)
    with div_mult_le_int [OF m, of a] k(1) show False by linarith
  qed
  ultimately show "a div m < b div m" by simp
qed

lemma record_tool_call_counts:
  "lg_dup_counts (fst (record_tool_call fr g name args)) = dincr (dedup_key fr name args) (lg_dup_counts g)"
  "lg_dup_free_passes (fst (record_tool_call fr g name args)) = lg_dup_free_passes g"
  by (simp_all add: record_tool_call_def Let_def dincr_def)

lemma record_tool_call_verdict:
  "dv_count (snd (record_tool_call fr g name args)) = dgetd (lg_dup_counts g) (dedup_key fr name args) 0 + 1"
  "dv_blocked (snd (record_tool_call fr g name args)) = False"
  "dv_warning (snd (record_tool_call fr g name args)) = None \<longleftrightarrow>
     dgetd (lg_dup_counts g) (dedup_key fr name args) 0 + 1 \<le> lg_dup_free_passes g"
  by (simp_all add: record_tool_call_def Let_def)

abbreviation call_key :: "(rat \<Rightarrow> string) \<Rightarrow> string \<times> dict option \<Rightarrow> string \<times> string" where
  "call_key fr c \<equiv> dedup_key fr (fst c) (snd c)"

lemma record_run_length: "length (snd (record_run fr g cs)) = length cs"
  by (induction cs arbitrary: g) (auto simp: split_beta Let_def)

lemma record_run_nth:
  assumes "i < length cs"
  shows "snd (record_run fr g cs) ! i =
    snd (record_tool_call fr (fst (record_run fr g (take i cs))) (fst (cs ! i)) (snd (cs ! i)))"
  using assms
proof (induction cs arbitrary: g i)
  case (Cons c cs)
  then show ?case by (cases i; cases c) (auto simp: split_beta Let_def)
qed simp

lemma record_run_counts:
  "dgetd (lg_dup_counts (fst (record_run fr g cs))) k 0 =
     dgetd (lg_dup_counts g) k 0 + int (count_list (map (call_key fr) cs) k)"
  "lg_dup_free_passes (fst (record_run fr g cs)) = lg_dup_free_passes g"
  by (induction cs arbitrary: g) (auto simp: split_beta Let_def record_tool_call_counts)

section \<open>Properties\<close>

text \<open>C32: the emergency fuse. Under the documented loop the number of recorded calls never passes
  the limit, and no batch is refused as long as the whole run fits under it.\<close>

theorem fuse_bounds_the_turn:
  assumes "lg_total_calls g \<le> lg_max_total_calls g"
  shows "lg_total_calls (guarded_batches g ns) \<le> lg_max_total_calls (guarded_batches g ns) \<and>
    (lg_total_calls g + sum_list (map (max 0) ns) \<le> lg_max_total_calls g \<longrightarrow>
     lg_total_calls (guarded_batches g ns) = lg_total_calls g + sum_list (map (max 0) ns))"
  using assms by (simp add: guarded_batches_bounded guarded_batches_limit guarded_batches_all)

theorem fuse_bounds_the_turn_witness:
  "lg_total_calls (guarded_batches default_guard [4000, 5000, 2000]) = 9000 \<and>
   lg_total_calls (guarded_batches default_guard [4000, 5000]) = 9000"
proof -
  have h: "lg_total_calls default_guard \<le> lg_max_total_calls default_guard"
    by (simp add: default_guard_def init_guard_def ACTIVE_TURN_TOOL_CALL_EMERGENCY_LIMIT_def)
  have "lg_total_calls (guarded_batches default_guard [4000, 5000, 2000]) = 9000"
    by (simp add: default_guard_def init_guard_def check_limit_def
        ACTIVE_TURN_TOOL_CALL_EMERGENCY_LIMIT_def)
  moreover have "lg_total_calls (guarded_batches default_guard [4000, 5000]) = 9000"
    using fuse_bounds_the_turn [OF h, of "[4000, 5000]"]
    by (simp add: default_guard_def init_guard_def ACTIVE_TURN_TOOL_CALL_EMERGENCY_LIMIT_def)
  ultimately show ?thesis by simp
qed

text \<open>the soft notice. It appears on a batch exactly when a multiple of the configured interval
  lies in the range of call numbers the batch covers.\<close>

theorem notice_iff_boundary_crossed:
  assumes "0 < lg_notice_interval g" and "0 \<le> lg_total_calls g" and "0 < n"
  shows "snd (record_calls g n) \<noteq> None \<longleftrightarrow>
    (\<exists>k. lg_total_calls g < k * lg_notice_interval g \<and> k * lg_notice_interval g \<le> lg_total_calls g + n)"
proof -
  let ?m = "lg_notice_interval g" and ?a = "lg_total_calls g"
  have pos: "0 < ((?a + n) div ?m) * ?m" if "?a div ?m < (?a + n) div ?m"
    using that assms pos_imp_zdiv_nonneg_iff [OF assms(1), of ?a] by simp
  have "snd (record_calls g n) \<noteq> None \<longleftrightarrow> ?a div ?m < (?a + n) div ?m"
    using assms pos by (auto simp: record_calls_def build_progress_notice_def Let_def not_le)
  then show ?thesis by (simp add: div_less_iff_multiple [OF assms(1)])
qed

theorem notice_iff_boundary_crossed_witness:
  "snd (record_calls (default_guard\<lparr>lg_total_calls := 499\<rparr>) 2) \<noteq> None"
proof -
  let ?g = "default_guard\<lparr>lg_total_calls := 499\<rparr>"
  have i: "lg_notice_interval ?g = 500"
    by (simp add: default_guard_def init_guard_def ACTIVE_TURN_TOOL_CALL_NOTICE_INTERVAL_def)
  have "\<exists>k. lg_total_calls ?g < k * lg_notice_interval ?g \<and> k * lg_notice_interval ?g \<le> lg_total_calls ?g + 2"
    by (rule exI [of _ 1]) (simp add: i)
  then show ?thesis by (subst notice_iff_boundary_crossed) (simp_all add: i)
qed

text \<open>duplicate detection is advisory. In any run of recorded calls the verdict of the
  \<open>i\<close>-th call counts the earlier calls with the same key, never blocks, and carries a warning
  exactly when the count is past the free passes.\<close>

theorem duplicate_verdict:
  assumes "i < length cs" and "lg_dup_counts g = []"
  shows "let v = snd (record_run fr g cs) ! i;
             n = int (count_list (map (call_key fr) (take i cs)) (call_key fr (cs ! i))) + 1
         in dv_count v = n \<and> \<not> dv_blocked v \<and> (dv_warning v = None \<longleftrightarrow> n \<le> lg_dup_free_passes g)"
  using assms(2)
  by (simp add: Let_def record_run_nth [OF assms(1)] record_tool_call_verdict record_run_counts
      del: not_None_eq)

theorem duplicate_verdict_witness:
  "dv_count (snd (record_run (\<lambda>_. ''{}'') default_guard (replicate 4 (''bash'', None))) ! 3) = 4"
  using duplicate_verdict [of 3 "replicate 4 (''bash'', None)" default_guard "\<lambda>_. ''{}''"]
  by (simp add: Let_def default_guard_def init_guard_def numeral_eq_Suc)

end
