(* ===== verification/Chat_Blocks.thy ===== *)
theory Chat_Blocks
  imports Prelude
begin

text \<open>
  Content blocks and entries of the canonical conversation (\<^verbatim>\<open>kernel/llm/interface.py\<close>, first
  half): the four block types, their dictionary form in both directions, the text of a placeholder
  result, and \<^verbatim>\<open>InterfaceEntry\<close> with its dictionary form.
\<close>

section \<open>Blocks\<close>

record tool_call =
  tc_id :: string
  tc_name :: string
  tc_args :: dict

text \<open>\<^verbatim>\<open>_agent_pending\<close> is a runtime capture that no dictionary form carries.\<close>

record tool_result =
  tr_id :: string
  tr_name :: string
  tr_content :: py
  tr_metadata :: dict
  tr_synthesized :: bool
  tr_agent_pending :: "dict option"

datatype block =
    TextBlock string
  | ToolCallBlock tool_call
  | ToolResultBlock tool_result
  | ThinkingBlock string dict

fun is_text :: "block \<Rightarrow> bool" where
  "is_text (TextBlock _) = True"
| "is_text _ = False"

fun is_call :: "block \<Rightarrow> bool" where
  "is_call (ToolCallBlock _) = True"
| "is_call _ = False"

fun is_result :: "block \<Rightarrow> bool" where
  "is_result (ToolResultBlock _) = True"
| "is_result _ = False"

text \<open>\<^verbatim>\<open>block.text\<close>: an attribute of two of the four classes.\<close>

fun block_text :: "block \<Rightarrow> exc + string" where
  "block_text (TextBlock t) = Inr t"
| "block_text (ThinkingBlock t _) = Inr t"
| "block_text _ = Inl (AttributeError ''text'')"

section \<open>Dictionary form of a block\<close>

definition tool_call_to_dict :: "tool_call \<Rightarrow> dict" where
  "tool_call_to_dict c =
     [(''type'', PStr ''tool_call''), (''id'', PStr (tc_id c)), (''name'', PStr (tc_name c)),
      (''args'', PDict (tc_args c))]"

definition tool_result_to_dict :: "tool_result \<Rightarrow> dict" where
  "tool_result_to_dict r =
     [(''type'', PStr ''tool_result''), (''id'', PStr (tr_id r)), (''name'', PStr (tr_name r)),
      (''content'', tr_content r)]
     @ (if tr_metadata r \<noteq> [] then [(''metadata'', PDict (tr_metadata r))] else [])
     @ (if tr_synthesized r then [(''synthesized'', PBool True)] else [])"

fun block_to_dict :: "block \<Rightarrow> dict" where
  "block_to_dict (TextBlock t) = [(''type'', PStr ''text''), (''text'', PStr t)]"
| "block_to_dict (ToolCallBlock c) = tool_call_to_dict c"
| "block_to_dict (ToolResultBlock r) = tool_result_to_dict r"
| "block_to_dict (ThinkingBlock t pd) =
     [(''type'', PStr ''thinking''), (''text'', PStr t)]
     @ (if pd \<noteq> [] then [(''provider_data'', PDict pd)] else [])"

text \<open>Reading a field at its declared type; \<^verbatim>\<open>d[k]\<close> of an absent key is a \<^verbatim>\<open>KeyError\<close>.\<close>

definition str_field :: "dict \<Rightarrow> string \<Rightarrow> exc + string" where
  "str_field d k = ebind (dindex d k) (\<lambda>v. case v of PStr s \<Rightarrow> Inr s | _ \<Rightarrow> Inl (IllTyped k))"

definition dict_field :: "dict \<Rightarrow> string \<Rightarrow> exc + dict" where
  "dict_field d k = ebind (dindex d k) (\<lambda>v. case v of PDict e \<Rightarrow> Inr e | _ \<Rightarrow> Inl (IllTyped k))"

definition dict_field_or_empty :: "dict \<Rightarrow> string \<Rightarrow> exc + dict" where
  "dict_field_or_empty d k =
     (case dget d k of None \<Rightarrow> Inr [] | Some (PDict e) \<Rightarrow> Inr e | Some _ \<Rightarrow> Inl (IllTyped k))"

definition bool_field_or_false :: "dict \<Rightarrow> string \<Rightarrow> exc + bool" where
  "bool_field_or_false d k =
     (case dget d k of None \<Rightarrow> Inr False | Some (PBool b) \<Rightarrow> Inr b | Some _ \<Rightarrow> Inl (IllTyped k))"

definition opt_str_field :: "dict \<Rightarrow> string \<Rightarrow> exc + string option" where
  "opt_str_field d k =
     (case dget d k of None \<Rightarrow> Inr None | Some PNone \<Rightarrow> Inr None | Some (PStr s) \<Rightarrow> Inr (Some s)
      | Some _ \<Rightarrow> Inl (IllTyped k))"

definition content_block_from_dict :: "dict \<Rightarrow> exc + block" where
  "content_block_from_dict d =
     ebind (dindex d ''type'') (\<lambda>btype.
       if btype = PStr ''text'' then ebind (str_field d ''text'') (\<lambda>t. Inr (TextBlock t))
       else if btype = PStr ''tool_call'' then
         ebind (str_field d ''id'') (\<lambda>i.
         ebind (str_field d ''name'') (\<lambda>n.
         ebind (dict_field d ''args'') (\<lambda>a.
           Inr (ToolCallBlock \<lparr>tc_id = i, tc_name = n, tc_args = a\<rparr>))))
       else if btype = PStr ''tool_result'' then
         ebind (str_field d ''id'') (\<lambda>i.
         ebind (str_field d ''name'') (\<lambda>n.
         ebind (dindex d ''content'') (\<lambda>c.
         ebind (dict_field_or_empty d ''metadata'') (\<lambda>m.
         ebind (bool_field_or_false d ''synthesized'') (\<lambda>b.
           Inr (ToolResultBlock \<lparr>tr_id = i, tr_name = n, tr_content = c, tr_metadata = m,
                                 tr_synthesized = b, tr_agent_pending = None\<rparr>))))))
       else if btype = PStr ''thinking'' then
         ebind (str_field d ''text'') (\<lambda>t.
         ebind (dict_field_or_empty d ''provider_data'') (\<lambda>pd. Inr (ThinkingBlock t pd)))
       else Inl (ValueError ''Unknown content block type''))"

text \<open>What survives the dictionary form: everything but the runtime capture.\<close>

fun durable :: "block \<Rightarrow> bool" where
  "durable (ToolResultBlock r) = (tr_agent_pending r = None)"
| "durable _ = True"

lemmas field_readers = dindex_def str_field_def dict_field_def dict_field_or_empty_def
  bool_field_or_false_def opt_str_field_def

lemma content_block_roundtrip: "durable b \<Longrightarrow> content_block_from_dict (block_to_dict b) = Inr b"
  by (cases b) (auto simp: content_block_from_dict_def tool_call_to_dict_def tool_result_to_dict_def
      field_readers)

section \<open>The text of a placeholder result\<close>

text \<open>\<^verbatim>\<open>_tool_call_context\<close>; \<open>fr\<close> renders a float argument.\<close>

definition context_line :: "(rat \<Rightarrow> string) \<Rightarrow> dict \<Rightarrow> string \<Rightarrow> string list" where
  "context_line fr args k =
     (case dget args k of
        Some v \<Rightarrow> [''shell '' @ k @ '': '' @ py_str fr v]
      | None \<Rightarrow> [])"

definition command_preview :: "dict \<Rightarrow> string list" where
  "command_preview args =
     (case dget args ''command'' of
        Some (PStr s) \<Rightarrow>
          if s = [] then []
          else let preview = replace_char (CHR 0x0A) [backslash, CHR ''n''] s;
                   cut = (if length preview > 240 then take 240 preview @ ''...'' else preview)
               in [''shell command preview: '' @ cut]
      | _ \<Rightarrow> [])"

definition tool_call_context :: "(rat \<Rightarrow> string) \<Rightarrow> tool_call option \<Rightarrow> string" where
  "tool_call_context fr tc =
     (case tc of
        None \<Rightarrow> ''''
      | Some c \<Rightarrow>
          let args = tc_args c;
              first = [''Tool call id: '' @ tc_id c];
              rest =
                (if tc_name c = ''shell'' \<or> tc_name c = ''bash'' then
                   let action = dgetd args ''action'' (PStr ''run'');
                       args' = (case dget args ''input'' of Some (PDict d) \<Rightarrow> d | _ \<Rightarrow> args)
                   in [''shell action: '' @ py_str fr action]
                      @ context_line fr args' ''working_dir''
                      @ context_line fr args' ''timeout''
                      @ context_line fr args' ''async''
                      @ context_line fr args' ''job_id''
                      @ command_preview args'
                 else if args \<noteq> [] then
                   let keys = join_str '', '' (take 12 (sort (dkeys args)))
                   in if keys \<noteq> [] then [''tool args present: '' @ keys] else []
                 else [])
          in join_str nl (first @ rest))"

definition synthesized_abort_message ::
  "(rat \<Rightarrow> string) \<Rightarrow> string \<Rightarrow> string \<Rightarrow> bool \<Rightarrow> bool \<Rightarrow> tool_call option \<Rightarrow> exc + string" where
  "synthesized_abort_message fr tool_name reason completed not_dispatched tc =
     (if completed \<and> not_dispatched then
        Inl (ValueError ''tool_completed and tool_not_dispatched are mutually exclusive'')
      else
        let ctx = tool_call_context fr tc;
            ctx_block = (if ctx \<noteq> [] then nl @ nl @ ''Recovery metadata:'' @ nl @ ctx else '''');
            name = backquote @ tool_name @ backquote
        in if not_dispatched then Inr
             (''[kernel notice '' @ em_dash @ '' tool call NOT dispatched]'' @ nl @ nl
              @ ''A prior assistant call to '' @ name @ '' was NOT dispatched. ''
              @ ''The kernel stopped the tool loop before invoking the tool handler.'' @ nl @ nl
              @ ''No side effects occurred from this tool call. It did not write ''
              @ ''files, send messages, start processes, or mutate agent state.'' @ nl @ nl
              @ ''This synthetic tool result is now visible in the conversation ''
              @ ''transcript. Do not retry the same blocked call unchanged. ''
              @ ''Summarize the blocked/completed work and either switch strategy ''
              @ ''or ask the human for direction.'' @ nl @ nl
              @ ''Reason recorded by the kernel: '' @ reason @ ctx_block)
           else if completed then Inr
             (''[kernel notice '' @ em_dash @ '' tool call completed but LLM continuation failed]'' @ nl @ nl
              @ ''A prior call to '' @ name @ '' already executed, but the LLM ''
              @ ''continuation after the tool result failed. The adapter reverted ''
              @ ''the committed result from the conversation so the interface could recover.'' @ nl @ nl
              @ ''**Do not blindly retry the tool.** Its side effect (file write, ''
              @ ''email send, mail reply, state change, daemon spawn, etc.) very ''
              @ ''likely took effect. Check the actual state before deciding '' @ em_dash
              @ '' read the file, check the inbox, list the daemon, etc. ''
              @ ''If the side effect is confirmed, continue from where you ''
              @ ''left off without re-executing the tool.'' @ nl @ nl
              @ ''Reason recorded by the kernel: '' @ reason @ ctx_block)
           else Inr
             (''[kernel notice '' @ em_dash @ '' tool call did not complete]'' @ nl @ nl
              @ ''A prior call to '' @ name @ '' was left without a result. The tool ''
              @ ''execution may have timed out, errored, or been interrupted before ''
              @ ''its result could be committed to the conversation.'' @ nl @ nl
              @ ''**Important:** the side effect of '' @ name @ '' MAY OR MAY NOT have ''
              @ ''happened. The kernel cannot tell. Do not assume the action took ''
              @ ''effect. If the action mattered (file write, email send, mail reply, ''
              @ ''state change, daemon spawn, etc.), verify the actual state before ''
              @ ''retrying '' @ em_dash @ '' read the file, check the inbox, list the daemon, etc. ''
              @ ''Only retry the call if you'' @ [squote] @ ''ve confirmed it didn'' @ [squote]
              @ ''t take effect.'' @ nl @ nl
              @ ''Reason recorded by the kernel: '' @ reason @ ctx_block))"

lemma synthesized_abort_message_total:
  "\<not> (completed \<and> not_dispatched) \<Longrightarrow>
   \<exists>s. synthesized_abort_message fr name reason completed not_dispatched tc = Inr s"
  by (cases not_dispatched; cases completed) (simp_all add: synthesized_abort_message_def Let_def)

section \<open>Entries\<close>

datatype role = System | User | Assistant

definition role_str :: "role \<Rightarrow> string" where
  "role_str r = (case r of System \<Rightarrow> ''system'' | User \<Rightarrow> ''user'' | Assistant \<Rightarrow> ''assistant'')"

definition role_of_str :: "string \<Rightarrow> exc + role" where
  "role_of_str s =
     (if s = ''system'' then Inr System
      else if s = ''user'' then Inr User
      else if s = ''assistant'' then Inr Assistant
      else Inl (IllTyped ''role''))"

lemma role_of_role_str [simp]: "role_of_str (role_str r) = Inr r"
  by (cases r) (simp_all add: role_of_str_def role_str_def)

record chat_entry =
  e_id :: int
  e_role :: role
  e_content :: "block list"
  e_timestamp :: rat
  e_provider_data :: dict
  e_model :: "string option"
  e_provider :: "string option"
  e_usage :: "(string \<times> int) list"
  e_tools :: "py list option"

definition usage_to_dict :: "(string \<times> int) list \<Rightarrow> dict" where
  "usage_to_dict u = map (\<lambda>(k, n). (k, PInt n)) u"

definition entry_to_dict :: "chat_entry \<Rightarrow> exc + dict" where
  "entry_to_dict e =
     (if e_role e = System then
        ebind (case e_content e of [] \<Rightarrow> Inr '''' | b # _ \<Rightarrow> block_text b) (\<lambda>t.
          Inr ([(''id'', PInt (e_id e)), (''role'', PStr (role_str (e_role e))), (''system'', PStr t),
                (''timestamp'', PFloat (e_timestamp e))]
               @ (case e_tools e of None \<Rightarrow> [] | Some ts \<Rightarrow> [(''tools'', PList ts)])))
      else
        Inr ([(''id'', PInt (e_id e)), (''role'', PStr (role_str (e_role e))),
              (''content'', PList (map (\<lambda>b. PDict (block_to_dict b)) (e_content e))),
              (''timestamp'', PFloat (e_timestamp e))]
             @ (if e_provider_data e \<noteq> [] then [(''provider_data'', PDict (e_provider_data e))] else [])
             @ (case e_model e of None \<Rightarrow> [] | Some m \<Rightarrow> [(''model'', PStr m)])
             @ (case e_provider e of None \<Rightarrow> [] | Some p \<Rightarrow> [(''provider'', PStr p)])
             @ (if e_usage e \<noteq> [] then [(''usage'', PDict (usage_to_dict (e_usage e)))] else [])))"

definition int_field :: "dict \<Rightarrow> string \<Rightarrow> exc + int" where
  "int_field d k = ebind (dindex d k) (\<lambda>v. case v of PInt i \<Rightarrow> Inr i | _ \<Rightarrow> Inl (IllTyped k))"

definition number_field :: "dict \<Rightarrow> string \<Rightarrow> exc + rat" where
  "number_field d k =
     ebind (dindex d k) (\<lambda>v. case v of PFloat r \<Rightarrow> Inr r | PInt i \<Rightarrow> Inr (of_int i) | _ \<Rightarrow> Inl (IllTyped k))"

definition list_field :: "dict \<Rightarrow> string \<Rightarrow> exc + py list" where
  "list_field d k = ebind (dindex d k) (\<lambda>v. case v of PList xs \<Rightarrow> Inr xs | _ \<Rightarrow> Inl (IllTyped k))"

definition opt_list_field :: "dict \<Rightarrow> string \<Rightarrow> exc + py list option" where
  "opt_list_field d k =
     (case dget d k of None \<Rightarrow> Inr None | Some PNone \<Rightarrow> Inr None | Some (PList xs) \<Rightarrow> Inr (Some xs)
      | Some _ \<Rightarrow> Inl (IllTyped k))"

definition as_dict :: "py \<Rightarrow> exc + dict" where
  "as_dict v = (case v of PDict d \<Rightarrow> Inr d | _ \<Rightarrow> Inl (IllTyped ''block''))"

definition usage_from_dict :: "dict \<Rightarrow> exc + (string \<times> int) list" where
  "usage_from_dict d =
     emap (\<lambda>(k, v). case v of PInt n \<Rightarrow> Inr (k, n) | _ \<Rightarrow> Inl (IllTyped k)) d"

definition entry_from_dict :: "dict \<Rightarrow> exc + chat_entry" where
  "entry_from_dict d =
     ebind (str_field d ''role'') (\<lambda>r.
     if r = ''system'' \<and> dhas d ''system'' then
       ebind (int_field d ''id'') (\<lambda>i.
       ebind (str_field d ''system'') (\<lambda>t.
       ebind (number_field d ''timestamp'') (\<lambda>ts.
       ebind (opt_list_field d ''tools'') (\<lambda>tools.
         Inr \<lparr>e_id = i, e_role = System, e_content = [TextBlock t], e_timestamp = ts,
              e_provider_data = [], e_model = None, e_provider = None, e_usage = [], e_tools = tools\<rparr>))))
     else
       ebind (int_field d ''id'') (\<lambda>i.
       ebind (role_of_str r) (\<lambda>ro.
       ebind (list_field d ''content'') (\<lambda>bs.
       ebind (emap (\<lambda>b. ebind (as_dict b) content_block_from_dict) bs) (\<lambda>content.
       ebind (number_field d ''timestamp'') (\<lambda>ts.
       ebind (dict_field_or_empty d ''provider_data'') (\<lambda>pd.
       ebind (opt_str_field d ''model'') (\<lambda>m.
       ebind (opt_str_field d ''provider'') (\<lambda>p.
       ebind (dict_field_or_empty d ''usage'') (\<lambda>ud.
       ebind (usage_from_dict ud) (\<lambda>u.
         Inr \<lparr>e_id = i, e_role = ro, e_content = content, e_timestamp = ts, e_provider_data = pd,
              e_model = m, e_provider = p, e_usage = u, e_tools = None\<rparr>)))))))))))"

lemmas entry_readers = field_readers int_field_def number_field_def list_field_def opt_list_field_def
  as_dict_def

text \<open>
  The entries the dictionary form keeps whole. A system entry is written as its first text and its
  tools snapshot, so it has exactly one text block and none of the assistant-only fields; no other
  entry carries a tools snapshot.
\<close>

definition durable_entry :: "chat_entry \<Rightarrow> bool" where
  "durable_entry e \<longleftrightarrow>
     (if e_role e = System then
        (\<exists>t. e_content e = [TextBlock t]) \<and> e_provider_data e = [] \<and> e_model e = None \<and>
        e_provider e = None \<and> e_usage e = []
      else (\<forall>b\<in>set (e_content e). durable b) \<and> e_tools e = None)"

lemma usage_roundtrip: "usage_from_dict (usage_to_dict u) = Inr u"
  unfolding usage_from_dict_def usage_to_dict_def by (rule emap_map_inverse) auto

lemma content_roundtrip:
  "\<forall>b\<in>set bs. durable b \<Longrightarrow>
   emap (\<lambda>b. ebind (as_dict b) content_block_from_dict) (map (\<lambda>b. PDict (block_to_dict b)) bs) = Inr bs"
  by (rule emap_map_inverse) (simp add: as_dict_def content_block_roundtrip)

lemma system_entry_roundtrip:
  assumes "e_role e = System" "durable_entry e"
  shows "\<exists>d. entry_to_dict e = Inr d \<and> entry_from_dict d = Inr e"
proof -
  from assms obtain t where t: "e_content e = [TextBlock t]" and rest: "e_provider_data e = []"
    "e_model e = None" "e_provider e = None" "e_usage e = []"
    by (auto simp: durable_entry_def)
  define d where "d = [(''id'', PInt (e_id e)), (''role'', PStr ''system''), (''system'', PStr t),
     (''timestamp'', PFloat (e_timestamp e))]
     @ (case e_tools e of None \<Rightarrow> [] | Some ts \<Rightarrow> [(''tools'', PList ts)])"
  have to: "entry_to_dict e = Inr d"
    by (simp add: entry_to_dict_def assms(1) t d_def role_str_def)
  have "entry_from_dict d = Inr e"
    by (cases "e_tools e"; cases e)
      (use assms(1) t rest in \<open>simp_all add: d_def entry_from_dict_def entry_readers dhas_def\<close>)
  with to show ?thesis by blast
qed

lemma turn_entry_roundtrip:
  assumes "e_role e \<noteq> System" "durable_entry e"
  shows "\<exists>d. entry_to_dict e = Inr d \<and> entry_from_dict d = Inr e"
proof -
  from assms have du: "\<forall>b\<in>set (e_content e). durable b" and tl: "e_tools e = None"
    by (simp_all add: durable_entry_def)
  define d where "d = [(''id'', PInt (e_id e)), (''role'', PStr (role_str (e_role e))),
      (''content'', PList (map (\<lambda>b. PDict (block_to_dict b)) (e_content e))),
      (''timestamp'', PFloat (e_timestamp e))]
     @ (if e_provider_data e \<noteq> [] then [(''provider_data'', PDict (e_provider_data e))] else [])
     @ (case e_model e of None \<Rightarrow> [] | Some m \<Rightarrow> [(''model'', PStr m)])
     @ (case e_provider e of None \<Rightarrow> [] | Some p \<Rightarrow> [(''provider'', PStr p)])
     @ (if e_usage e \<noteq> [] then [(''usage'', PDict (usage_to_dict (e_usage e)))] else [])"
  have to: "entry_to_dict e = Inr d"
    by (simp add: entry_to_dict_def assms(1) d_def)
  have r: "role_str (e_role e) \<noteq> ''system''" using assms(1) by (cases "e_role e") (simp_all add: role_str_def)
  have fields:
    "str_field d ''role'' = Inr (role_str (e_role e))"
    "int_field d ''id'' = Inr (e_id e)"
    "list_field d ''content'' = Inr (map (\<lambda>b. PDict (block_to_dict b)) (e_content e))"
    "number_field d ''timestamp'' = Inr (e_timestamp e)"
    by (simp_all add: d_def entry_readers)
  have "dict_field_or_empty d ''provider_data'' = Inr (e_provider_data e)"
    "opt_str_field d ''model'' = Inr (e_model e)"
    "opt_str_field d ''provider'' = Inr (e_provider e)"
    "dict_field_or_empty d ''usage'' = Inr (usage_to_dict (e_usage e))"
    by (auto simp: d_def entry_readers usage_to_dict_def split: option.splits)
  with fields r tl have "entry_from_dict d = Inr e"
    by (simp add: entry_from_dict_def content_roundtrip [OF du] usage_roundtrip)
  with to show ?thesis by blast
qed

lemma entry_roundtrip:
  "durable_entry e \<Longrightarrow> \<exists>d. entry_to_dict e = Inr d \<and> entry_from_dict d = Inr e"
  by (cases "e_role e = System") (simp_all add: system_entry_roundtrip turn_entry_roundtrip)

end
