(* ===== verification/Chat_Interface.thy ===== *)
theory Chat_Interface
  imports Chat_Blocks
begin

text \<open>
  The canonical conversation log, \<^verbatim>\<open>ChatInterface\<close> of \<^verbatim>\<open>kernel/llm/interface.py\<close>: its state, every
  operation that changes it, the read-only queries, and \<^verbatim>\<open>kernel/token_counter.py\<close>, which the context
  estimate calls.

  An operation takes the clock reading \<open>now\<close> where the code calls \<^verbatim>\<open>time.time()\<close> and \<open>fr\<close>, the
  rendering of a float, where it prints arguments. One that can raise returns the exception or the
  value together with the state it leaves behind.
\<close>

section \<open>State\<close>

text \<open>A recovery lookup may raise, find nothing, or return a result block.\<close>

type_synonym recovery = "tool_call \<Rightarrow> exc + tool_result option"

record chat =
  entries :: "chat_entry list"
  next_id :: int
  current_system_text :: "string option"
  current_tools :: "py list option"
  recovery_lookup :: "recovery option"
  pending_system :: "(string \<times> py list option) option"

type_synonym 'a outcome = "(exc + 'a) \<times> chat"

definition init_chat :: chat where
  "init_chat = \<lparr>entries = [], next_id = 0, current_system_text = None, current_tools = None,
                recovery_lookup = None, pending_system = None\<rparr>"

definition new_entry :: "int \<Rightarrow> role \<Rightarrow> block list \<Rightarrow> rat \<Rightarrow> dict \<Rightarrow> chat_entry" where
  "new_entry i r bs now pd =
     \<lparr>e_id = i, e_role = r, e_content = bs, e_timestamp = now, e_provider_data = pd,
      e_model = None, e_provider = None, e_usage = [], e_tools = None\<rparr>"

text \<open>
  \<^verbatim>\<open>_append\<close>; \<open>upd\<close> is what the caller then sets on the entry it gets back (model, provider, usage
  or the tools snapshot).
\<close>

definition append_entry ::
  "rat \<Rightarrow> role \<Rightarrow> block list \<Rightarrow> dict \<Rightarrow> (chat_entry \<Rightarrow> chat_entry) \<Rightarrow> chat \<Rightarrow> chat" where
  "append_entry now r bs pd upd c =
     c\<lparr>entries := entries c @ [upd (new_entry (next_id c) r bs now pd)], next_id := next_id c + 1\<rparr>"

section \<open>Pending calls\<close>

definition has_calls :: "chat_entry \<Rightarrow> bool" where
  "has_calls e \<longleftrightarrow> e_role e = Assistant \<and> list_ex is_call (e_content e)"

definition tail_pending :: "chat_entry list \<Rightarrow> bool" where
  "tail_pending es \<longleftrightarrow> es \<noteq> [] \<and> has_calls (last es)"

definition has_pending_tool_calls :: "chat \<Rightarrow> bool" where
  "has_pending_tool_calls c \<longleftrightarrow> tail_pending (entries c)"

definition calls_of :: "block list \<Rightarrow> tool_call list" where
  "calls_of bs = List.map_filter (\<lambda>b. case b of ToolCallBlock t \<Rightarrow> Some t | _ \<Rightarrow> None) bs"

definition results_of :: "block list \<Rightarrow> tool_result list" where
  "results_of bs = List.map_filter (\<lambda>b. case b of ToolResultBlock t \<Rightarrow> Some t | _ \<Rightarrow> None) bs"

definition results_only :: "block list \<Rightarrow> bool" where
  "results_only bs \<longleftrightarrow> bs \<noteq> [] \<and> list_all is_result bs"

text \<open>\<^verbatim>\<open>close_pending_tool_calls\<close>, one pending call: a recovered result with the same id and name, or the placeholder.\<close>

definition close_one ::
  "(rat \<Rightarrow> string) \<Rightarrow> recovery option \<Rightarrow> string \<Rightarrow> bool \<Rightarrow> bool \<Rightarrow> tool_call \<Rightarrow> exc + tool_result" where
  "close_one fr lookup reason completed not_dispatched t =
     (let recovered = (case lookup of
                         None \<Rightarrow> None
                       | Some f \<Rightarrow> (case f t of Inl _ \<Rightarrow> None | Inr r \<Rightarrow> r));
          placeholder =
            ebind (synthesized_abort_message fr (tc_name t) reason completed not_dispatched (Some t)) (\<lambda>s.
              Inr \<lparr>tr_id = tc_id t, tr_name = tc_name t, tr_content = PStr s, tr_metadata = [],
                   tr_synthesized = True, tr_agent_pending = None\<rparr>)
      in case recovered of
           Some r \<Rightarrow> if tr_id r = tc_id t \<and> tr_name r = tc_name t then Inr r else placeholder
         | None \<Rightarrow> placeholder)"

definition close_pending_tool_calls ::
  "(rat \<Rightarrow> string) \<Rightarrow> rat \<Rightarrow> string \<Rightarrow> bool \<Rightarrow> bool \<Rightarrow> recovery option \<Rightarrow> chat \<Rightarrow> unit outcome" where
  "close_pending_tool_calls fr now reason completed not_dispatched arg_lookup c =
     (if \<not> has_pending_tool_calls c then (Inr (), c)
      else
        let pending = calls_of (e_content (last (entries c)));
            lookup = (case arg_lookup of Some f \<Rightarrow> Some f | None \<Rightarrow> recovery_lookup c)
        in case emap (close_one fr lookup reason completed not_dispatched) pending of
             Inl e \<Rightarrow> (Inl e, c)
           | Inr rs \<Rightarrow> (Inr (), append_entry now User (map ToolResultBlock rs) [] id c))"

section \<open>System entries\<close>

text \<open>\<^verbatim>\<open>==\<close> on an optional list of tool schemas.\<close>

definition tools_eq :: "py list option \<Rightarrow> py list option \<Rightarrow> bool" where
  "tools_eq a b =
     (case (a, b) of
        (None, None) \<Rightarrow> True
      | (Some xs, Some ys) \<Rightarrow> py_eq (PList xs) (PList ys)
      | _ \<Rightarrow> False)"

definition append_system :: "rat \<Rightarrow> string \<Rightarrow> py list option \<Rightarrow> chat \<Rightarrow> chat" where
  "append_system now text tools c =
     append_entry now System [TextBlock text] [] (\<lambda>e. e\<lparr>e_tools := tools\<rparr>) c"

definition add_system :: "rat \<Rightarrow> string \<Rightarrow> py list option \<Rightarrow> chat \<Rightarrow> chat" where
  "add_system now text tools c =
     (if current_system_text c = Some text \<and> tools_eq tools (current_tools c)
      then c\<lparr>pending_system := None\<rparr>
      else
        let c1 = c\<lparr>current_system_text := Some text, current_tools := tools\<rparr>
        in if has_pending_tool_calls c1 then c1\<lparr>pending_system := Some (text, tools)\<rparr>
           else append_system now text tools (c1\<lparr>pending_system := None\<rparr>))"

definition last_with :: "(chat_entry \<Rightarrow> bool) \<Rightarrow> chat_entry list \<Rightarrow> chat_entry option" where
  "last_with p es = find p (rev es)"

definition flush_pending_system :: "rat \<Rightarrow> chat \<Rightarrow> unit outcome" where
  "flush_pending_system now c =
     (case pending_system c of
        None \<Rightarrow> (Inr (), c)
      | Some (text, tools) \<Rightarrow>
          if has_pending_tool_calls c then (Inr (), c)
          else
            let c1 = c\<lparr>pending_system := None\<rparr>
            in case last_with (\<lambda>e. e_role e = System) (entries c1) of
                 None \<Rightarrow> (Inr (), append_system now text tools c1)
               | Some s \<Rightarrow>
                   (case (case e_content s of [] \<Rightarrow> Inr None | b # _ \<Rightarrow> ebind (block_text b) (\<lambda>t. Inr (Some t))) of
                      Inl e \<Rightarrow> (Inl e, c1)
                    | Inr last_text \<Rightarrow>
                        if last_text = Some text \<and> tools_eq (e_tools s) tools then (Inr (), c1)
                        else (Inr (), append_system now text tools c1)))"

section \<open>Pairing before a send\<close>

definition call_ids :: "chat_entry list \<Rightarrow> string list" where
  "call_ids es = concat (map (\<lambda>e. map tc_id (calls_of (e_content e))) es)"

definition answered_ids :: "chat_entry list \<Rightarrow> string list" where
  "answered_ids es = concat (map (\<lambda>e. map tr_id (results_of (e_content e))) es)"

fun unanswered :: "string set \<Rightarrow> block \<Rightarrow> bool" where
  "unanswered answered (ToolCallBlock t) = (tc_id t \<notin> answered)"
| "unanswered answered _ = False"

fun unasked :: "string set \<Rightarrow> block \<Rightarrow> bool" where
  "unasked calls (ToolResultBlock r) = (tr_id r \<notin> calls)"
| "unasked calls _ = False"

definition strip_calls :: "string set \<Rightarrow> block list \<Rightarrow> block list" where
  "strip_calls answered bs =
     (let names = map tc_name (calls_of (filter (unanswered answered) bs));
          kept = filter (\<lambda>b. \<not> unanswered answered b) bs
      in if kept = [] then
           [TextBlock (''[Tool calls '' @ join_str '', '' names @ '' were cancelled before completion.]'')]
         else kept)"

definition strip_results :: "string set \<Rightarrow> block list \<Rightarrow> block list" where
  "strip_results calls bs =
     (let names = map tr_name (results_of (filter (unasked calls) bs));
          kept = filter (\<lambda>b. \<not> unasked calls b) bs
             @ (if names \<noteq> [] then
                  [TextBlock (''[Tool results ignored (no matching tool call): ''
                     @ join_str '', '' names @ '']'')]
                else [])
      in if kept \<noteq> [] then kept else bs)"

definition repair_entry :: "string set \<Rightarrow> string set \<Rightarrow> chat_entry \<Rightarrow> chat_entry" where
  "repair_entry calls answered e =
     (case e_role e of
        Assistant \<Rightarrow> e\<lparr>e_content := strip_calls answered (e_content e)\<rparr>
      | User \<Rightarrow> e\<lparr>e_content := strip_results calls (e_content e)\<rparr>
      | System \<Rightarrow> e)"

definition pair_entries :: "chat_entry list \<Rightarrow> chat_entry list" where
  "pair_entries es =
     (let calls = set (call_ids es); answered = set (answered_ids es)
      in if es = [] \<or> calls = answered then es
         else if tail_pending es then map (repair_entry calls answered) (butlast es) @ [last es]
         else map (repair_entry calls answered) es)"

definition enforce_tool_pairing :: "rat \<Rightarrow> chat \<Rightarrow> unit outcome" where
  "enforce_tool_pairing now c =
     (case flush_pending_system now c of
        (Inl e, c1) \<Rightarrow> (Inl e, c1)
      | (Inr _, c1) \<Rightarrow> (Inr (), c1\<lparr>entries := pair_entries (entries c1)\<rparr>))"

section \<open>Adding messages\<close>

definition add_user_message :: "rat \<Rightarrow> string \<Rightarrow> chat \<Rightarrow> unit outcome" where
  "add_user_message now text c =
     (if has_pending_tool_calls c then (Inl PendingToolCallsError, c)
      else (Inr (), append_entry now User [TextBlock text] [] id c))"

definition add_assistant_message ::
  "rat \<Rightarrow> block list \<Rightarrow> dict \<Rightarrow> string option \<Rightarrow> string option \<Rightarrow> (string \<times> int) list \<Rightarrow> chat \<Rightarrow> chat"
where
  "add_assistant_message now bs pd m p u c =
     append_entry now Assistant bs pd (\<lambda>e. e\<lparr>e_model := m, e_provider := p, e_usage := u\<rparr>) c"

definition add_user_blocks :: "rat \<Rightarrow> block list \<Rightarrow> chat \<Rightarrow> unit outcome" where
  "add_user_blocks now bs c =
     (if has_pending_tool_calls c \<and> \<not> results_only bs then (Inl PendingToolCallsError, c)
      else (Inr (), append_entry now User bs [] id c))"

text \<open>
  \<^verbatim>\<open>add_tool_results\<close>. An incoming result takes the place of the first synthesized result with its
  id in a user entry; the ones that find none are appended together. The value is the index of the
  entry that received the last block (\<^verbatim>\<open>None\<close> when nothing came in).
\<close>

fun is_placeholder :: "string \<Rightarrow> block \<Rightarrow> bool" where
  "is_placeholder i (ToolResultBlock r) = (tr_id r = i \<and> tr_synthesized r)"
| "is_placeholder i _ = False"

definition holds_placeholder :: "string \<Rightarrow> chat_entry \<Rightarrow> bool" where
  "holds_placeholder i e \<longleftrightarrow> e_role e = User \<and> list_ex (is_placeholder i) (e_content e)"

definition replace_block :: "tool_result \<Rightarrow> chat_entry \<Rightarrow> chat_entry" where
  "replace_block r e =
     (case find_index (is_placeholder (tr_id r)) (e_content e) of
        None \<Rightarrow> e
      | Some k \<Rightarrow> e\<lparr>e_content := (e_content e)[k := ToolResultBlock r]\<rparr>)"

definition place_result :: "tool_result \<Rightarrow> chat_entry list \<Rightarrow> (nat \<times> chat_entry list) option" where
  "place_result r es =
     (case find_index (holds_placeholder (tr_id r)) es of
        None \<Rightarrow> None
      | Some i \<Rightarrow> Some (i, es[i := replace_block r (es ! i)]))"

fun place_results ::
  "tool_result list \<Rightarrow> chat_entry list \<Rightarrow> nat option \<Rightarrow> chat_entry list \<times> tool_result list \<times> nat option"
where
  "place_results [] es touched = (es, [], touched)"
| "place_results (r # rs) es touched =
     (case place_result r es of
        Some (i, es') \<Rightarrow> place_results rs es' (Some i)
      | None \<Rightarrow>
          (case place_results rs es touched of (es', left, t) \<Rightarrow> (es', r # left, t)))"

definition add_tool_results :: "rat \<Rightarrow> tool_result list \<Rightarrow> chat \<Rightarrow> nat option \<times> chat" where
  "add_tool_results now rs c =
     (case place_results rs (entries c) None of
        (es, left, touched) \<Rightarrow>
          if left \<noteq> [] then
            (Some (length es), append_entry now User (map ToolResultBlock left) [] id (c\<lparr>entries := es\<rparr>))
          else (touched, c\<lparr>entries := es\<rparr>))"

section \<open>Removing pairs and tails\<close>

text \<open>The one call of an assistant entry whose other blocks are all text.\<close>

fun sole_call_from :: "tool_call option \<Rightarrow> block list \<Rightarrow> tool_call option" where
  "sole_call_from acc [] = acc"
| "sole_call_from acc (ToolCallBlock t # bs) =
     (case acc of Some _ \<Rightarrow> None | None \<Rightarrow> sole_call_from (Some t) bs)"
| "sole_call_from acc (TextBlock _ # bs) = sole_call_from acc bs"
| "sole_call_from acc (_ # bs) = None"

definition removable_pair :: "(tool_call \<Rightarrow> tool_result \<Rightarrow> bool) \<Rightarrow> chat_entry \<Rightarrow> chat_entry \<Rightarrow> bool" where
  "removable_pair p a u \<longleftrightarrow>
     e_role a = Assistant \<and> e_role u = User \<and>
     (case (sole_call_from None (e_content a), e_content u) of
        (Some t, [ToolResultBlock r]) \<Rightarrow> p t r
      | _ \<Rightarrow> False)"

fun remove_first_pair :: "(chat_entry \<Rightarrow> chat_entry \<Rightarrow> bool) \<Rightarrow> chat_entry list \<Rightarrow> chat_entry list option" where
  "remove_first_pair p (a # u # es) =
     (if p a u then Some es else map_option (Cons a) (remove_first_pair p (u # es)))"
| "remove_first_pair p _ = None"

definition remove_pair :: "(tool_call \<Rightarrow> tool_result \<Rightarrow> bool) \<Rightarrow> chat \<Rightarrow> bool \<times> chat" where
  "remove_pair p c =
     (case remove_first_pair (removable_pair p) (entries c) of
        None \<Rightarrow> (False, c)
      | Some es \<Rightarrow> (True, c\<lparr>entries := es\<rparr>))"

definition remove_pair_by_call_id :: "string \<Rightarrow> chat \<Rightarrow> bool \<times> chat" where
  "remove_pair_by_call_id i c = remove_pair (\<lambda>t r. tc_id t = i \<and> tr_id r = i) c"

definition remove_pair_by_notif_id :: "string \<Rightarrow> chat \<Rightarrow> bool \<times> chat" where
  "remove_pair_by_notif_id n c =
     remove_pair (\<lambda>t r. dget (tc_args t) ''action'' = Some (PStr ''notification'') \<and>
                        dget (tc_args t) ''notif_id'' = Some (PStr n) \<and> tc_id t = tr_id r) c"

definition drop_trailing :: "(chat_entry \<Rightarrow> bool) \<Rightarrow> chat \<Rightarrow> chat_entry list \<times> chat" where
  "drop_trailing p c =
     (rev (takeWhile p (rev (entries c))), c\<lparr>entries := rev (dropWhile p (rev (entries c)))\<rparr>)"

definition is_result_entry :: "chat_entry \<Rightarrow> bool" where
  "is_result_entry e \<longleftrightarrow> e_role e = User \<and> results_only (e_content e)"

definition pop_orphan_tool_call :: "chat \<Rightarrow> bool \<times> chat" where
  "pop_orphan_tool_call c =
     (let es = rev (dropWhile is_result_entry (rev (entries c)));
          es' = (if tail_pending es then butlast es else es)
      in (length es' < length (entries c), c\<lparr>entries := es'\<rparr>))"

definition truncate_to :: "int \<Rightarrow> chat \<Rightarrow> chat_entry list \<times> chat" where
  "truncate_to i c =
     (case find_index (\<lambda>e. e_id e = i) (entries c) of
        None \<Rightarrow> ([], c)
      | Some k \<Rightarrow> (drop (k + 1) (entries c), c\<lparr>entries := take (k + 1) (entries c)\<rparr>))"

definition conversation_entries :: "chat \<Rightarrow> chat_entry list" where
  "conversation_entries c = filter (\<lambda>e. e_role e \<noteq> System) (entries c)"

definition truncate :: "int \<Rightarrow> int option \<Rightarrow> chat \<Rightarrow> chat" where
  "truncate max_entries keep_recent c =
     (let conv = filter (\<lambda>e. e_role e \<noteq> System) (entries c);
          kept = (case keep_recent of
                    Some k \<Rightarrow> drop (nat (max 0 (int (length conv) - k))) conv
                  | None \<Rightarrow> py_take max_entries conv)
      in if int (length conv) \<le> max_entries then c
         else case entries c of
                e # _ \<Rightarrow> if e_role e = System then c\<lparr>entries := e # kept\<rparr> else c\<lparr>entries := kept\<rparr>
              | [] \<Rightarrow> c\<lparr>entries := kept\<rparr>)"

section \<open>Queries\<close>

definition last_assistant_entry :: "chat \<Rightarrow> chat_entry option" where
  "last_assistant_entry c = last_with (\<lambda>e. e_role e = Assistant) (entries c)"

record usage_totals =
  input_tokens :: int
  output_tokens :: int
  thinking_tokens :: int
  calls :: int

definition zero_usage :: usage_totals where
  "zero_usage = \<lparr>input_tokens = 0, output_tokens = 0, thinking_tokens = 0, calls = 0\<rparr>"

definition add_usage :: "(string \<times> int) list \<Rightarrow> usage_totals \<Rightarrow> usage_totals" where
  "add_usage u t =
     \<lparr>input_tokens = input_tokens t + dgetd u ''input_tokens'' 0,
      output_tokens = output_tokens t + dgetd u ''output_tokens'' 0,
      thinking_tokens = thinking_tokens t + dgetd u ''thinking_tokens'' 0,
      calls = calls t + 1\<rparr>"

definition total_usage :: "chat \<Rightarrow> usage_totals" where
  "total_usage c =
     fold (\<lambda>e t. if e_role e = Assistant \<and> e_usage e \<noteq> [] then add_usage (e_usage e) t else t)
       (entries c) zero_usage"

definition usage_by_model :: "chat \<Rightarrow> (string \<times> usage_totals) list" where
  "usage_by_model c =
     fold (\<lambda>e d. case e_model e of
                   Some m \<Rightarrow>
                     if e_role e = Assistant \<and> m \<noteq> [] \<and> e_usage e \<noteq> []
                     then dput m (add_usage (e_usage e) (dgetd d m zero_usage)) d else d
                 | None \<Rightarrow> d)
       (entries c) []"

fun message_block :: "block \<Rightarrow> dict" where
  "message_block (TextBlock t) = [(''type'', PStr ''text''), (''text'', PStr t)]"
| "message_block (ThinkingBlock t _) = [(''type'', PStr ''thinking''), (''text'', PStr t)]"
| "message_block b = block_to_dict b"

definition to_messages :: "chat \<Rightarrow> dict list" where
  "to_messages c =
     map (\<lambda>e. [(''role'', PStr (role_str (e_role e))),
               (''content'', PList (map (\<lambda>b. PDict (message_block b)) (e_content e)))])
       (filter (\<lambda>e. e_role e \<noteq> System) (entries c))"

text \<open>
  \<^verbatim>\<open>token_counter.py\<close>: the tokenizer found when the module is first used (that of google-genai when
  sentencepiece is importable, else tiktoken's), or the character estimate.
\<close>

type_synonym tokenizer = "string \<Rightarrow> int"

definition init_tokenizer :: "bool \<Rightarrow> tokenizer option \<Rightarrow> tokenizer option \<Rightarrow> tokenizer option" where
  "init_tokenizer sentencepiece genai tiktoken =
     (case (if sentencepiece then genai else None) of Some f \<Rightarrow> Some f | None \<Rightarrow> tiktoken)"

definition count_tokens :: "tokenizer option \<Rightarrow> string \<Rightarrow> int" where
  "count_tokens backend text =
     (if text = [] then 0
      else case backend of Some f \<Rightarrow> f text | None \<Rightarrow> int (length text) div 4)"

definition block_tokens :: "(rat \<Rightarrow> string) \<Rightarrow> (string \<Rightarrow> int) \<Rightarrow> block \<Rightarrow> int" where
  "block_tokens fr count b =
     (case b of
        TextBlock t \<Rightarrow> count t
      | ThinkingBlock t _ \<Rightarrow> count t
      | ToolCallBlock t \<Rightarrow> count (tc_name t @ ''('' @ json_dumps fr False (PDict (tc_args t)) @ '')'')
      | ToolResultBlock r \<Rightarrow>
          count (case tr_content r of PStr s \<Rightarrow> s | v \<Rightarrow> json_dumps fr False v)
          + (if tr_metadata r \<noteq> [] then count (json_dumps fr False (PDict (tr_metadata r))) else 0))"

definition estimate_context_tokens ::
  "(rat \<Rightarrow> string) \<Rightarrow> (string \<Rightarrow> int) \<Rightarrow> string option \<Rightarrow> py list option \<Rightarrow> chat \<Rightarrow> int" where
  "estimate_context_tokens fr count system_prompt tools c =
     (let sp = (case system_prompt of Some s \<Rightarrow> Some s | None \<Rightarrow> current_system_text c);
          ts = (case tools of Some t \<Rightarrow> Some t | None \<Rightarrow> current_tools c)
      in (case sp of Some s \<Rightarrow> if s \<noteq> [] then count s else 0 | None \<Rightarrow> 0)
         + (case ts of Some t \<Rightarrow> if t \<noteq> [] then count (json_dumps fr False (PList t)) else 0 | None \<Rightarrow> 0)
         + sum_list (map (block_tokens fr count)
             (concat (map e_content (filter (\<lambda>e. e_role e \<noteq> System) (entries c))))))"

text \<open>
  \<^verbatim>\<open>find_compaction_boundary\<close>: the backward walk meets the user turns (a text among blocks that are
  not all results) and stops at the \<open>keep\<close>-th. The walk is over the reversed list; the position it
  stops at is converted back.
\<close>

definition starts_turn :: "chat_entry \<Rightarrow> bool" where
  "starts_turn e \<longleftrightarrow> e_role e = User \<and> list_ex is_text (e_content e) \<and> \<not> list_all is_result (e_content e)"

fun walk_turns :: "int \<Rightarrow> int \<Rightarrow> chat_entry list \<Rightarrow> nat option" where
  "walk_turns keep found [] = None"
| "walk_turns keep found (e # es) =
     (if starts_turn e then
        (if found + 1 \<ge> keep then Some 0 else map_option Suc (walk_turns keep (found + 1) es))
      else map_option Suc (walk_turns keep found es))"

definition find_compaction_boundary :: "int \<Rightarrow> chat \<Rightarrow> int option" where
  "find_compaction_boundary keep c =
     (let conv = filter (\<lambda>e. e_role e \<noteq> System) (entries c) in
      if length conv < 6 then None
      else case walk_turns keep 0 (rev conv) of
             None \<Rightarrow> None
           | Some k \<Rightarrow> let i = length conv - 1 - k in if i = 0 then None else Some (e_id (conv ! i)))"

definition summary_line :: "(rat \<Rightarrow> string) \<Rightarrow> role \<Rightarrow> block \<Rightarrow> string list" where
  "summary_line fr r b =
     (let tag = ''['' @ role_str r @ ''] '' in
      case b of
        TextBlock t \<Rightarrow> [tag @ t]
      | ToolCallBlock t \<Rightarrow>
          [tag @ ''tool_use: '' @ tc_name t @ ''(''
            @ take 200 (json_dumps fr False (PDict (tc_args t))) @ '')'']
      | ToolResultBlock q \<Rightarrow>
          [tag @ ''tool_result('' @ tr_name q @ ''): ''
            @ (case tr_content q of PStr s \<Rightarrow> s | v \<Rightarrow> json_dumps fr False v)]
      | ThinkingBlock _ _ \<Rightarrow> [])"

definition format_for_summary :: "(rat \<Rightarrow> string) \<Rightarrow> int \<Rightarrow> chat \<Rightarrow> string" where
  "format_for_summary fr up_to c =
     join_str nl (concat (map (\<lambda>e. concat (map (summary_line fr (e_role e)) (e_content e)))
       (filter (\<lambda>e. e_role e \<noteq> System) (takeWhile (\<lambda>e. e_id e < up_to) (entries c)))))"

section \<open>Dictionary form of the log\<close>

definition chat_to_dict :: "chat \<Rightarrow> exc + dict list" where
  "chat_to_dict c = emap entry_to_dict (entries c)"

definition note_system :: "chat_entry \<Rightarrow> chat \<Rightarrow> chat" where
  "note_system e c =
     (if e_role e = System then
        (case e_content e of
           [] \<Rightarrow> c
         | TextBlock t # _ \<Rightarrow> c\<lparr>current_system_text := Some t, current_tools := e_tools e\<rparr>
         | _ # _ \<Rightarrow> c\<lparr>current_tools := e_tools e\<rparr>)
      else c)"

definition restore_entries :: "chat_entry list \<Rightarrow> chat" where
  "restore_entries es =
     (let c = fold note_system es (init_chat\<lparr>entries := es\<rparr>)
      in if es = [] then c else c\<lparr>next_id := Max (set (map e_id es)) + 1\<rparr>)"

definition chat_from_dict :: "dict list \<Rightarrow> exc + chat" where
  "chat_from_dict ds = ebind (emap entry_from_dict ds) (\<lambda>es. Inr (restore_entries es))"

end
