(* ===== verification/Chat_Laws.thy ===== *)
theory Chat_Laws
  imports Chat_Interface
begin

text \<open>
  The laws of the conversation log. Two invariants, the order of the entry ids and the pairing of
  every call entry with the entry that answers it, hold in every state a disciplined caller can
  reach; the healing and repair operations meet their contracts; the dictionary form loses nothing.
\<close>

section \<open>Collecting calls and results\<close>

lemma calls_of_simps [simp]:
  "calls_of [] = []"
  "calls_of (TextBlock t # bs) = calls_of bs"
  "calls_of (ToolCallBlock c # bs) = c # calls_of bs"
  "calls_of (ToolResultBlock r # bs) = calls_of bs"
  "calls_of (ThinkingBlock t d # bs) = calls_of bs"
  by (simp_all add: calls_of_def List.map_filter_simps)

lemma results_of_simps [simp]:
  "results_of [] = []"
  "results_of (TextBlock t # bs) = results_of bs"
  "results_of (ToolCallBlock c # bs) = results_of bs"
  "results_of (ToolResultBlock r # bs) = r # results_of bs"
  "results_of (ThinkingBlock t d # bs) = results_of bs"
  by (simp_all add: results_of_def List.map_filter_simps)

lemma calls_of_append [simp]: "calls_of (as @ bs) = calls_of as @ calls_of bs"
  by (simp add: calls_of_def)

lemma results_of_append [simp]: "results_of (as @ bs) = results_of as @ results_of bs"
  by (simp add: results_of_def)

lemma set_calls_of: "set (calls_of bs) = {t. ToolCallBlock t \<in> set bs}"
proof (induction bs)
  case (Cons b bs)
  then show ?case by (cases b) auto
qed simp

lemma set_results_of: "set (results_of bs) = {r. ToolResultBlock r \<in> set bs}"
proof (induction bs)
  case (Cons b bs)
  then show ?case by (cases b) auto
qed simp

lemma list_ex_is_call: "list_ex is_call bs \<longleftrightarrow> calls_of bs \<noteq> []"
proof (induction bs)
  case (Cons b bs)
  then show ?case by (cases b) auto
qed simp

lemma results_of_map [simp]: "results_of (map ToolResultBlock rs) = rs"
  by (induction rs) auto

lemma calls_of_map_results [simp]: "calls_of (map ToolResultBlock rs) = []"
  by (induction rs) auto

lemma results_only_map [simp]: "results_only (map ToolResultBlock rs) \<longleftrightarrow> rs \<noteq> []"
  by (auto simp: results_only_def list_all_iff)

lemma results_only_no_calls: "results_only bs \<Longrightarrow> calls_of bs = []"
proof (induction bs)
  case (Cons b bs)
  then show ?case by (cases b; cases bs) (auto simp: results_only_def)
qed simp

lemma call_ids_simps [simp]:
  "call_ids [] = []"
  "call_ids (e # es) = map tc_id (calls_of (e_content e)) @ call_ids es"
  "call_ids (es @ fs) = call_ids es @ call_ids fs"
  by (simp_all add: call_ids_def)

lemma answered_ids_simps [simp]:
  "answered_ids [] = []"
  "answered_ids (e # es) = map tr_id (results_of (e_content e)) @ answered_ids es"
  "answered_ids (es @ fs) = answered_ids es @ answered_ids fs"
  by (simp_all add: answered_ids_def)

lemma tail_pending_simps [simp]:
  "\<not> tail_pending []"
  "tail_pending (es @ [e]) \<longleftrightarrow> has_calls e"
  "tail_pending [e] \<longleftrightarrow> has_calls e"
  "tail_pending (d # e # es) \<longleftrightarrow> tail_pending (e # es)"
  by (simp_all add: tail_pending_def)

lemma new_entry_simps [simp]:
  "e_id (new_entry i r bs now pd) = i"
  "e_role (new_entry i r bs now pd) = r"
  "e_content (new_entry i r bs now pd) = bs"
  by (simp_all add: new_entry_def)

lemma append_entry_simps [simp]:
  "entries (append_entry now r bs pd upd c) = entries c @ [upd (new_entry (next_id c) r bs now pd)]"
  "next_id (append_entry now r bs pd upd c) = next_id c + 1"
  "pending_system (append_entry now r bs pd upd c) = pending_system c"
  "recovery_lookup (append_entry now r bs pd upd c) = recovery_lookup c"
  by (simp_all add: append_entry_def)

section \<open>The steps of a disciplined caller\<close>

text \<open>
  One step is one call of an operation. The premises are the discipline the turn loop follows: an
  assistant turn is recorded when no call is pending, it is not empty and carries no result; results
  answer exactly the pending calls or replace placeholders; blocks a converter adds outside that
  carry neither calls nor results.
\<close>

definition answers_ids :: "chat_entry \<Rightarrow> string set \<Rightarrow> bool" where
  "answers_ids a ids \<longleftrightarrow> ids = set (map tc_id (calls_of (e_content a)))"

inductive chat_step :: "(rat \<Rightarrow> string) \<Rightarrow> chat \<Rightarrow> chat \<Rightarrow> bool" for fr where
  step_user: "add_user_message now t c = (Inr (), c') \<Longrightarrow> chat_step fr c c'"
| step_assistant:
    "\<lbrakk>\<not> has_pending_tool_calls c; bs \<noteq> []; results_of bs = []\<rbrakk>
     \<Longrightarrow> chat_step fr c (add_assistant_message now bs pd m p u c)"
| step_blocks:
    "\<lbrakk>add_user_blocks now bs c = (Inr (), c');
      if has_pending_tool_calls c
      then answers_ids (last (entries c)) (set (map tr_id (results_of bs)))
      else calls_of bs = [] \<and> results_of bs = []\<rbrakk> \<Longrightarrow> chat_step fr c c'"
| step_results:
    "\<lbrakk>place_results rs (entries c) None = (es, left, touched);
      left \<noteq> [] \<Longrightarrow> has_pending_tool_calls c \<and> answers_ids (last (entries c)) (set (map tr_id left))\<rbrakk>
     \<Longrightarrow> chat_step fr c (snd (add_tool_results now rs c))"
| step_close: "chat_step fr c (snd (close_pending_tool_calls fr now reason tcd tnd lk c))"
| step_system: "chat_step fr c (add_system now t tools c)"
| step_enforce: "chat_step fr c (snd (enforce_tool_pairing now c))"
| step_remove_call: "chat_step fr c (snd (remove_pair_by_call_id i c))"
| step_remove_notif: "chat_step fr c (snd (remove_pair_by_notif_id i c))"
| step_pop: "chat_step fr c (snd (pop_orphan_tool_call c))"
| step_drop: "chat_step fr c (snd (drop_trailing pr c))"
| step_truncate_to: "chat_step fr c (snd (truncate_to i c))"
| step_lookup: "chat_step fr c (c\<lparr>recovery_lookup := lk\<rparr>)"

section \<open>Entry ids\<close>

definition ids_ok :: "chat \<Rightarrow> bool" where
  "ids_ok c \<longleftrightarrow> sorted_wrt (<) (map e_id (entries c)) \<and> (\<forall>e\<in>set (entries c). e_id e < next_id c)"

text \<open>Operations that drop entries, keep the id of those that stay and leave the counter alone.\<close>

lemma ids_ok_subseq:
  assumes "ids_ok c" "subseq (map e_id es) (map e_id (entries c))" "next_id c' = next_id c" "entries c' = es"
  shows "ids_ok c'"
proof -
  have "sorted_wrt (<) (map e_id es)"
    using assms(1,2) by (auto simp: ids_ok_def intro: subseq_sorted_wrt)
  moreover have "set (map e_id es) \<subseteq> set (map e_id (entries c))"
    using assms(2) by (rule set_subseq)
  ultimately show ?thesis using assms(1,3,4) by (fastforce simp: ids_ok_def)
qed

lemma ids_ok_prefix:
  "ids_ok c \<Longrightarrow> prefix es (entries c) \<Longrightarrow> next_id c' = next_id c \<Longrightarrow> entries c' = es \<Longrightarrow> ids_ok c'"
  by (rule ids_ok_subseq) (auto simp: prefix_def)

lemma ids_ok_same:
  "ids_ok c \<Longrightarrow> map e_id (entries c') = map e_id (entries c) \<Longrightarrow> next_id c' = next_id c \<Longrightarrow> ids_ok c'"
  by (rule ids_ok_subseq [of c "entries c'"]) auto

lemma ids_ok_append:
  "ids_ok c \<Longrightarrow> (\<And>e. e_id (upd e) = e_id e) \<Longrightarrow> ids_ok (append_entry now r bs pd upd c)"
  by (auto simp: ids_ok_def sorted_wrt_append intro: less_trans)

lemma ids_place_result: "place_result r es = Some (i, es') \<Longrightarrow> map e_id es' = map e_id es"
  by (auto simp: place_result_def replace_block_def map_update split: option.splits
      dest!: find_index_SomeD intro!: list_update_same_conv [THEN iffD2])

lemma ids_place_results: "place_results rs es t = (es', left, t') \<Longrightarrow> map e_id es' = map e_id es"
  by (induction rs es t arbitrary: es' left t' rule: place_results.induct)
    (auto split: option.splits prod.splits dest: ids_place_result)

lemma ids_add_tool_results [inv_intros]: "ids_ok c \<Longrightarrow> ids_ok (snd (add_tool_results now rs c))"
  by (auto simp: add_tool_results_def split: prod.splits dest!: ids_place_results
      intro!: ids_ok_append intro: ids_ok_same)

lemma subseq_remove_first_pair: "remove_first_pair p es = Some es' \<Longrightarrow> subseq es' es"
  by (induction p es arbitrary: es' rule: remove_first_pair.induct) (auto split: if_splits)

lemma ids_remove_pair: "ids_ok c \<Longrightarrow> ids_ok (snd (remove_pair p c))"
  by (auto simp: remove_pair_def split: option.splits
      intro: ids_ok_subseq [OF _ subseq_map [OF subseq_remove_first_pair]])

lemma ids_append_system: "ids_ok c \<Longrightarrow> ids_ok (append_system now t tools c)"
  by (auto simp: append_system_def intro: ids_ok_append)

lemma ids_add_system [inv_intros]: "ids_ok c \<Longrightarrow> ids_ok (add_system now t tools c)"
  by (auto simp: add_system_def Let_def intro!: ids_append_system elim: ids_ok_same)

lemma ids_flush: "ids_ok c \<Longrightarrow> ids_ok (snd (flush_pending_system now c))"
  by (auto simp: flush_pending_system_def Let_def split: option.splits sum.splits list.splits
      intro!: ids_append_system elim: ids_ok_same)

lemma ids_repair [simp]: "e_id (repair_entry cs as e) = e_id e"
  by (simp add: repair_entry_def split: role.splits)

lemma ids_pair_entries [simp]: "map e_id (pair_entries es) = map e_id es"
proof (cases "es = []")
  case False
  then obtain fs l where "es = fs @ [l]" using butlast_last_cases by blast
  then show ?thesis by (simp add: pair_entries_def Let_def)
qed (simp add: pair_entries_def)

lemma ids_enforce [inv_intros]: "ids_ok c \<Longrightarrow> ids_ok (snd (enforce_tool_pairing now c))"
  using ids_flush [of c now]
  by (auto simp: enforce_tool_pairing_def split: prod.splits sum.splits elim: ids_ok_same)

lemma ids_close [inv_intros]: "ids_ok c \<Longrightarrow> ids_ok (snd (close_pending_tool_calls fr now r a b lk c))"
  by (auto simp: close_pending_tool_calls_def Let_def split: sum.splits intro: ids_ok_append)

lemma prefix_pop: "prefix (entries (snd (pop_orphan_tool_call c))) (entries c)"
  unfolding pop_orphan_tool_call_def Let_def snd_conv
  by (cases "tail_pending (rev (dropWhile is_result_entry (rev (entries c))))")
    (simp_all add: rev_dropWhile_rev_prefix prefix_order.trans [OF prefixeq_butlast rev_dropWhile_rev_prefix]
      del: butlast_rev)

lemma pop_frame [simp]:
  "next_id (snd (pop_orphan_tool_call c)) = next_id c"
  "next_id (snd (drop_trailing pr c)) = next_id c"
  "next_id (snd (truncate_to i c)) = next_id c"
  by (auto simp: pop_orphan_tool_call_def drop_trailing_def truncate_to_def Let_def split: option.splits)

lemma prefix_drop_trailing: "prefix (entries (snd (drop_trailing pr c))) (entries c)"
  by (simp add: drop_trailing_def rev_dropWhile_rev_prefix)

lemma prefix_truncate_to: "prefix (entries (snd (truncate_to i c))) (entries c)"
  by (auto simp: truncate_to_def take_is_prefix split: option.splits)

lemma ids_ok_step:
  assumes ok: "ids_ok c" and "chat_step fr c c'"
  shows "ids_ok c'"
  using assms(2)
proof cases
  case (step_user now t)
  with ok show ?thesis by (auto simp: add_user_message_def intro: ids_ok_append split: if_splits)
next
  case (step_assistant bs now pd m p u)
  with ok show ?thesis by (auto simp: add_assistant_message_def intro: ids_ok_append)
next
  case (step_blocks now bs)
  with ok show ?thesis by (auto simp: add_user_blocks_def intro: ids_ok_append split: if_splits)
next
  case (step_remove_call i)
  with ok show ?thesis by (simp add: remove_pair_by_call_id_def ids_remove_pair)
next
  case (step_remove_notif i)
  with ok show ?thesis by (simp add: remove_pair_by_notif_id_def ids_remove_pair)
next
  case step_pop
  with ok show ?thesis using ids_ok_prefix [OF ok prefix_pop] by simp
next
  case (step_drop pr)
  with ok show ?thesis using ids_ok_prefix [OF ok prefix_drop_trailing] by simp
next
  case (step_truncate_to i)
  with ok show ?thesis using ids_ok_prefix [OF ok prefix_truncate_to] by simp
next
  case (step_lookup lk)
  with ok show ?thesis by (simp add: ids_ok_def)
qed (simp_all add: ok inv_intros)

interpretation chat_ids: step_invariant init_chat "chat_step fr" ids_ok for fr
  by unfold_locales (simp add: ids_ok_def init_chat_def, rule ids_ok_step)

section \<open>Every call entry is answered by the next entry\<close>

definition answers :: "chat_entry \<Rightarrow> chat_entry \<Rightarrow> bool" where
  "answers a u \<longleftrightarrow> is_result_entry u \<and> answers_ids a (set (map tr_id (results_of (e_content u))))"

text \<open>An entry outside a pair holds no results, and calls only in an assistant turn, which is never empty.\<close>

definition opens :: "chat_entry \<Rightarrow> bool" where
  "opens e \<longleftrightarrow> results_of (e_content e) = [] \<and> (e_role e = Assistant \<longrightarrow> e_content e \<noteq> []) \<and>
     (\<not> has_calls e \<longrightarrow> calls_of (e_content e) = [])"

fun well_paired :: "chat_entry list \<Rightarrow> bool" where
  "well_paired [] = True"
| "well_paired [e] = opens e"
| "well_paired (a # u # es) =
     (opens a \<and> (if has_calls a then answers a u \<and> well_paired es else well_paired (u # es)))"

lemma has_calls_iff: "has_calls e \<longleftrightarrow> e_role e = Assistant \<and> calls_of (e_content e) \<noteq> []"
  by (simp add: has_calls_def list_ex_is_call)

lemma result_entryD:
  "is_result_entry u \<Longrightarrow> e_role u = User \<and> calls_of (e_content u) = [] \<and> \<not> has_calls u"
  by (simp add: is_result_entry_def results_only_no_calls has_calls_def)

lemma well_paired_append:
  "well_paired es \<Longrightarrow> \<not> tail_pending es \<Longrightarrow> well_paired (es @ fs) = well_paired fs"
proof (induction es rule: well_paired.induct)
  case (2 e)
  then show ?case by (cases fs) (auto simp: tail_pending_def)
next
  case (3 a u es)
  then show ?case by (cases es) (auto simp: tail_pending_def dest: result_entryD simp: answers_def)
qed simp

lemma well_paired_answer:
  "well_paired es \<Longrightarrow> tail_pending es \<Longrightarrow> well_paired (es @ [u]) = answers (last es) u"
proof (induction es rule: well_paired.induct)
  case (2 e)
  then show ?case by (simp add: tail_pending_def)
next
  case (3 a u es)
  then show ?case by (cases es) (auto simp: tail_pending_def dest: result_entryD simp: answers_def)
qed simp

lemma well_paired_prefix_append: "well_paired (es @ fs) \<Longrightarrow> well_paired es"
proof (induction es rule: well_paired.induct)
  case (2 e)
  then show ?case by (cases fs) auto
qed (auto split: if_splits)

lemma well_paired_prefix: "prefix es fs \<Longrightarrow> well_paired fs \<Longrightarrow> well_paired es"
  by (auto simp: prefix_def intro: well_paired_prefix_append)

lemma well_paired_balanced:
  "well_paired es \<Longrightarrow> \<not> tail_pending es \<Longrightarrow> set (call_ids es) = set (answered_ids es)"
proof (induction es rule: well_paired.induct)
  case (2 e)
  then show ?case by (auto simp: tail_pending_def opens_def)
next
  case (3 a u es)
  show ?case
  proof (cases "has_calls a")
    case True
    with "3.prems" have "answers a u" "well_paired es" "opens a" by auto
    moreover have "\<not> tail_pending es" using "3.prems" by (auto simp: tail_pending_def split: if_splits)
    moreover have "e_content u \<noteq> []" and "calls_of (e_content u) = []"
      using \<open>answers a u\<close> by (auto simp: answers_def is_result_entry_def results_only_def results_only_no_calls)
    ultimately show ?thesis using "3.IH"(1) [OF True]
      by (auto simp: answers_def opens_def answers_ids_def)
  next
    case False
    with "3.prems" have "\<not> tail_pending (u # es)" "well_paired (u # es)" "opens a"
      by (auto simp: tail_pending_def)
    with "3.IH"(2) [OF False] False show ?thesis by (auto simp: opens_def)
  qed
qed simp

lemma answer_not_pending:
  assumes "well_paired (bs @ [l])" "has_calls l"
  shows "\<not> tail_pending bs"
proof
  assume "tail_pending bs"
  with well_paired_answer [of bs l] well_paired_prefix_append [OF assms(1)] assms
  show False by (auto simp: answers_def dest: result_entryD)
qed

lemma well_paired_nonempty:
  "well_paired es \<Longrightarrow> e \<in> set es \<Longrightarrow> e_role e = Assistant \<Longrightarrow> e_content e \<noteq> []"
proof (induction es rule: well_paired.induct)
  case (3 a u es)
  then show ?case by (auto simp: opens_def answers_def is_result_entry_def split: if_splits)
qed (auto simp: opens_def)

lemma filter_unanswered_none:
  "set (map tc_id (calls_of bs)) \<subseteq> A \<Longrightarrow> filter (\<lambda>b. \<not> unanswered A b) bs = bs"
proof (induction bs)
  case (Cons b bs)
  then show ?case by (cases b) auto
qed simp

lemma filter_unasked_none:
  "set (map tr_id (results_of bs)) \<subseteq> A \<Longrightarrow>
   filter (\<lambda>b. \<not> unasked A b) bs = bs \<and> filter (unasked A) bs = []"
proof (induction bs)
  case (Cons b bs)
  then show ?case by (cases b) auto
qed simp

lemma repair_entry_id:
  assumes "set (map tc_id (calls_of (e_content e))) \<subseteq> answered"
    and "set (map tr_id (results_of (e_content e))) \<subseteq> cs"
    and "e_role e = Assistant \<Longrightarrow> e_content e \<noteq> []"
  shows "repair_entry cs answered e = e"
  using assms
  by (simp add: repair_entry_def strip_calls_def strip_results_def filter_unanswered_none
      filter_unasked_none split: role.splits)

lemma ids_in_entry:
  "e \<in> set es \<Longrightarrow> set (map tc_id (calls_of (e_content e))) \<subseteq> set (call_ids es)"
  "e \<in> set es \<Longrightarrow> set (map tr_id (results_of (e_content e))) \<subseteq> set (answered_ids es)"
  by (auto simp: call_ids_def answered_ids_def)

lemma pair_entries_well_paired:
  assumes "well_paired es"
  shows "pair_entries es = es"
proof (cases "tail_pending es")
  case False
  with well_paired_balanced [OF assms] show ?thesis by (simp add: pair_entries_def Let_def)
next
  case True
  then obtain bs l where es: "es = bs @ [l]" and l: "has_calls l"
    using butlast_last_cases [of es] by auto
  have bs: "set (call_ids bs) = set (answered_ids bs)"
    using assms answer_not_pending [of bs l] l es
    by (auto intro!: well_paired_balanced intro: well_paired_prefix_append)
  have "map (repair_entry (set (call_ids es)) (set (answered_ids es))) bs = bs"
  proof (rule map_idI)
    fix e assume e: "e \<in> set bs"
    show "repair_entry (set (call_ids es)) (set (answered_ids es)) e = e"
      by (rule repair_entry_id)
        (use ids_in_entry [OF e] bs es e well_paired_nonempty [OF assms, of e] in auto)
  qed
  then show ?thesis using True by (simp add: pair_entries_def Let_def es)
qed

subsection \<open>The invariant under each operation\<close>

text \<open>What the invariant looks at in an entry; operations that keep it keep the invariant.\<close>

definition shape :: "chat_entry \<Rightarrow> role \<times> string list \<times> string list \<times> bool \<times> bool" where
  "shape e = (e_role e, map tc_id (calls_of (e_content e)), map tr_id (results_of (e_content e)),
              results_only (e_content e), e_content e = [])"

lemma shape_eqD:
  assumes "shape e = shape f"
  shows "has_calls e = has_calls f" "opens e = opens f" "answers a e = answers a f"
    "answers e u = answers f u"
proof -
  from assms have *: "e_role e = e_role f"
    "map tc_id (calls_of (e_content e)) = map tc_id (calls_of (e_content f))"
    "map tr_id (results_of (e_content e)) = map tr_id (results_of (e_content f))"
    "results_only (e_content e) = results_only (e_content f)" "e_content e = [] \<longleftrightarrow> e_content f = []"
    by (simp_all add: shape_def)
  then have "calls_of (e_content e) = [] \<longleftrightarrow> calls_of (e_content f) = []"
    "results_of (e_content e) = [] \<longleftrightarrow> results_of (e_content f) = []"
    by (metis map_is_Nil_conv)+
  with * show "has_calls e = has_calls f" "opens e = opens f" "answers a e = answers a f"
    "answers e u = answers f u"
    by (auto simp: has_calls_iff opens_def answers_def is_result_entry_def answers_ids_def
        simp flip: set_map)
qed

lemma well_paired_shape: "map shape es = map shape fs \<Longrightarrow> well_paired es = well_paired fs"
proof (induction es arbitrary: fs rule: well_paired.induct)
  case (2 e)
  then obtain f where "fs = [f]" "shape e = shape f" by (cases fs) simp_all
  then show ?case using shape_eqD(2) [of e f] by simp
next
  case (3 a u es)
  then obtain b v gs where fs: "fs = b # v # gs" by (auto simp: Cons_eq_map_conv)
  have ab: "shape a = shape b" and uv: "shape u = shape v" and es: "map shape es = map shape gs"
    using "3.prems" by (simp_all add: fs)
  have "answers a u = answers b v"
    using shape_eqD(3) [OF uv] shape_eqD(4) [OF ab] by (rule trans)
  moreover have "has_calls a \<Longrightarrow> well_paired es = well_paired gs"
    by (rule "3.IH"(1) [OF _ es])
  moreover have "\<not> has_calls a \<Longrightarrow> well_paired (u # es) = well_paired (v # gs)"
    by (rule "3.IH"(2)) (simp_all add: uv es)
  ultimately show ?case
    unfolding fs well_paired.simps using shape_eqD(1,2) [OF ab] by (cases "has_calls a") simp_all
qed simp

lemma tail_pending_shape:
  assumes "map shape es = map shape fs"
  shows "tail_pending es = tail_pending fs"
proof (cases "es = []")
  case False
  with assms have "fs \<noteq> []" by auto
  with False assms have "shape (last es) = shape (last fs)" by (metis last_map)
  from shape_eqD(1) [OF this] False \<open>fs \<noteq> []\<close> show ?thesis by (simp add: tail_pending_def)
qed (use assms in simp)

lemma calls_of_update_result:
  "k < length bs \<Longrightarrow> is_placeholder (tr_id r) (bs ! k) \<Longrightarrow>
   calls_of (bs[k := ToolResultBlock r]) = calls_of bs \<and>
   map tr_id (results_of (bs[k := ToolResultBlock r])) = map tr_id (results_of bs) \<and>
   list_all is_result (bs[k := ToolResultBlock r]) = list_all is_result bs"
proof (induction bs arbitrary: k)
  case (Cons b bs)
  then show ?case by (cases k; cases b) auto
qed simp

lemma shape_replace_block [simp]: "shape (replace_block r e) = shape e"
  by (auto simp: replace_block_def shape_def results_only_def calls_of_update_result
      split: option.splits dest!: find_index_SomeD)

lemma shape_place_result: "place_result r es = Some (i, es') \<Longrightarrow> map shape es' = map shape es"
  by (auto simp: place_result_def map_update split: option.splits
      dest!: find_index_SomeD intro!: list_update_same_conv [THEN iffD2])

lemma shape_place_results: "place_results rs es t = (es', left, t') \<Longrightarrow> map shape es' = map shape es"
  by (induction rs es t arbitrary: es' left t' rule: place_results.induct)
    (auto split: option.splits prod.splits dest: shape_place_result)

lemma close_one_id: "close_one fr lk reason tcd tnd t = Inr r \<Longrightarrow> tr_id r = tc_id t \<and> tr_name r = tc_name t"
  by (auto simp: close_one_def Let_def split: option.splits sum.splits if_splits dest!: ebind_eq_InrD)

lemma emap_Inr_map:
  "emap f xs = Inr ys \<Longrightarrow> (\<And>x y. f x = Inr y \<Longrightarrow> g y = h x) \<Longrightarrow> map g ys = map h xs"
  by (induction xs arbitrary: ys) (auto dest!: ebind_eq_InrD)

lemma close_ids:
  "emap (close_one fr lk reason tcd tnd) ts = Inr rs \<Longrightarrow> map tr_id rs = map tc_id ts"
  by (erule emap_Inr_map) (simp add: close_one_id)

lemma answers_map:
  "e_role u = User \<Longrightarrow> e_content u = map ToolResultBlock rs \<Longrightarrow> rs \<noteq> [] \<Longrightarrow>
   answers a u \<longleftrightarrow> answers_ids a (set (map tr_id rs))"
  by (simp add: answers_def is_result_entry_def)

lemma sole_call_calls: "sole_call_from acc bs = Some t \<Longrightarrow> (case acc of None \<Rightarrow> [] | Some a \<Rightarrow> [a]) @ calls_of bs = [t]"
  by (induction acc bs rule: sole_call_from.induct) (auto split: option.splits)

lemma removable_pair_has_calls: "removable_pair p a u \<Longrightarrow> has_calls a \<and> e_role u = User"
  by (auto simp: removable_pair_def has_calls_iff split: option.splits list.splits block.splits
      dest!: sole_call_calls)

lemma well_paired_remove:
  "well_paired es \<Longrightarrow> remove_first_pair (removable_pair p) es = Some es' \<Longrightarrow> well_paired es'"
proof (induction es arbitrary: es' rule: well_paired.induct)
  case (3 a u es)
  show ?case
  proof (cases "has_calls a")
    case True
    with "3.prems" have wp: "opens a" "answers a u" "well_paired es" by auto
    then have u: "\<not> removable_pair p u v" for v
      by (auto simp: removable_pair_def answers_def dest: result_entryD)
    show ?thesis
    proof (cases "removable_pair p a u")
      case True
      with "3.prems" wp show ?thesis by simp
    next
      case False
      with "3.prems"(2) obtain es1 where es1: "remove_first_pair (removable_pair p) (u # es) = Some es1"
        "es' = a # es1" by auto
      with u obtain es2 where es2: "remove_first_pair (removable_pair p) es = Some es2" "es1 = u # es2"
        by (cases es) auto
      with "3.IH"(1) [OF True wp(3) es2(1)] wp es1 True show ?thesis by simp
    qed
  next
    case False
    with "3.prems" obtain es1 where es1: "remove_first_pair (removable_pair p) (u # es) = Some es1"
      "es' = a # es1" "opens a" "well_paired (u # es)"
      by (auto dest: removable_pair_has_calls split: if_splits)
    with "3.IH"(2) [OF False es1(4,1)] False show ?thesis by (cases es1) auto
  qed
qed auto

definition wire_ok :: "chat \<Rightarrow> bool" where
  "wire_ok c \<longleftrightarrow> well_paired (entries c)"

lemma wire_append:
  assumes "wire_ok c" "\<not> has_pending_tool_calls c" "opens (upd (new_entry (next_id c) r bs now pd))"
  shows "wire_ok (append_entry now r bs pd upd c)"
  using assms by (simp add: wire_ok_def has_pending_tool_calls_def well_paired_append)

lemma wire_answer:
  assumes "wire_ok c" "has_pending_tool_calls c" "results_only bs"
    "answers_ids (last (entries c)) (set (map tr_id (results_of bs)))"
  shows "wire_ok (append_entry now User bs pd id c)"
  using assms
  by (simp add: wire_ok_def has_pending_tool_calls_def well_paired_answer answers_def is_result_entry_def)

lemma wire_append_system: "wire_ok c \<Longrightarrow> \<not> has_pending_tool_calls c \<Longrightarrow> wire_ok (append_system now t tools c)"
  by (auto simp: append_system_def opens_def intro!: wire_append)

lemma wire_add_system: "wire_ok c \<Longrightarrow> wire_ok (add_system now t tools c)"
  by (auto simp: add_system_def Let_def wire_ok_def has_pending_tool_calls_def append_system_def
      well_paired_append opens_def)

lemma wire_flush: "wire_ok c \<Longrightarrow> wire_ok (snd (flush_pending_system now c))"
  by (auto simp: flush_pending_system_def Let_def wire_ok_def has_pending_tool_calls_def append_system_def
      well_paired_append opens_def split: option.splits sum.splits)

lemma wire_enforce:
  assumes "wire_ok c"
  shows "wire_ok (snd (enforce_tool_pairing now c))"
proof -
  have "well_paired (entries (snd (flush_pending_system now c)))"
    using wire_flush [OF assms] by (simp add: wire_ok_def)
  then show ?thesis
    by (auto simp: enforce_tool_pairing_def wire_ok_def pair_entries_well_paired split: prod.splits sum.splits)
qed

lemma wire_close:
  assumes "wire_ok c"
  shows "wire_ok (snd (close_pending_tool_calls fr now reason tcd tnd lk c))"
proof (cases "has_pending_tool_calls c")
  case True
  then have ne: "calls_of (e_content (last (entries c))) \<noteq> []"
    by (simp add: has_pending_tool_calls_def tail_pending_def has_calls_iff)
  show ?thesis
  proof (cases "snd (close_pending_tool_calls fr now reason tcd tnd lk c) = c")
    case False
    with True obtain lk' rs where rs:
      "emap (close_one fr lk' reason tcd tnd) (calls_of (e_content (last (entries c)))) = Inr rs"
      "snd (close_pending_tool_calls fr now reason tcd tnd lk c)
         = append_entry now User (map ToolResultBlock rs) [] id c"
      by (auto simp: close_pending_tool_calls_def Let_def split: sum.splits)
    have "rs \<noteq> []" using close_ids [OF rs(1)] ne by auto
    then show ?thesis unfolding rs(2)
      using wire_answer [OF assms True, of "map ToolResultBlock rs"] close_ids [OF rs(1)]
      by (simp add: answers_ids_def flip: set_map)
  qed (simp add: assms)
qed (simp add: close_pending_tool_calls_def assms)

lemma wire_results:
  assumes ok: "wire_ok c" and pl: "place_results rs (entries c) None = (es, left, touched)"
    and left: "left \<noteq> [] \<Longrightarrow> has_pending_tool_calls c \<and> answers_ids (last (entries c)) (set (map tr_id left))"
  shows "wire_ok (snd (add_tool_results now rs c))"
proof -
  have sh: "map shape es = map shape (entries c)" by (rule shape_place_results [OF pl])
  have ok': "wire_ok (c\<lparr>entries := es\<rparr>)"
    using ok well_paired_shape [OF sh] by (simp add: wire_ok_def)
  show ?thesis
  proof (cases "left = []")
    case False
    with left have pend: "has_pending_tool_calls c"
      and ids: "answers_ids (last (entries c)) (set (map tr_id left))" by auto
    have pend': "has_pending_tool_calls (c\<lparr>entries := es\<rparr>)"
      using pend tail_pending_shape [OF sh] by (simp add: has_pending_tool_calls_def)
    have "shape (last es) = shape (last (entries c))"
      using sh pend by (metis has_pending_tool_calls_def tail_pending_def last_map map_is_Nil_conv)
    then have "map tc_id (calls_of (e_content (last es))) = map tc_id (calls_of (e_content (last (entries c))))"
      by (simp add: shape_def)
    with ids have "answers_ids (last es) (set (map tr_id left))"
      unfolding answers_ids_def by metis
    with False pl show ?thesis
      using wire_answer [OF ok' pend', of "map ToolResultBlock left" now] by (simp add: add_tool_results_def)
  qed (use pl ok' in \<open>simp add: add_tool_results_def\<close>)
qed

lemma wire_remove: "wire_ok c \<Longrightarrow> wire_ok (snd (remove_pair p c))"
  by (auto simp: remove_pair_def wire_ok_def split: option.splits dest: well_paired_remove)

lemma wire_blocks:
  assumes "wire_ok c" "add_user_blocks now bs c = (Inr (), c')"
    and "if has_pending_tool_calls c then answers_ids (last (entries c)) (set (map tr_id (results_of bs)))
         else calls_of bs = [] \<and> results_of bs = []"
  shows "wire_ok c'"
proof (cases "has_pending_tool_calls c")
  case True
  with assms(2) have "results_only bs" "c' = append_entry now User bs [] id c"
    by (auto simp: add_user_blocks_def split: if_splits)
  with True assms show ?thesis by (simp add: wire_answer)
next
  case False
  with assms have "c' = append_entry now User bs [] id c" "calls_of bs = []" "results_of bs = []"
    by (auto simp: add_user_blocks_def)
  with False assms(1) show ?thesis by (auto simp: opens_def intro: wire_append)
qed

lemma wire_ok_step:
  assumes ok: "wire_ok c" and "chat_step fr c c'"
  shows "wire_ok c'"
  using assms(2)
proof cases
  case (step_user now t)
  with ok show ?thesis
    by (auto simp: add_user_message_def opens_def intro!: wire_append split: if_splits)
next
  case (step_assistant bs now pd m p u)
  with ok show ?thesis
    by (auto simp: add_assistant_message_def opens_def has_calls_def list_ex_is_call intro!: wire_append)
next
  case (step_blocks now bs)
  then show ?thesis using wire_blocks [OF ok] by blast
next
  case (step_results rs es left touched now)
  then show ?thesis using wire_results [OF ok] by blast
next
  case (step_remove_call i)
  with ok show ?thesis by (simp add: remove_pair_by_call_id_def wire_remove)
next
  case (step_remove_notif i)
  with ok show ?thesis by (simp add: remove_pair_by_notif_id_def wire_remove)
next
  case step_pop
  with ok well_paired_prefix [OF prefix_pop] show ?thesis by (simp add: wire_ok_def)
next
  case (step_drop pr)
  with ok well_paired_prefix [OF prefix_drop_trailing] show ?thesis by (simp add: wire_ok_def)
next
  case (step_truncate_to i)
  with ok well_paired_prefix [OF prefix_truncate_to] show ?thesis by (simp add: wire_ok_def)
next
  case (step_lookup lk)
  with ok show ?thesis by (simp add: wire_ok_def)
qed (simp_all add: ok wire_close wire_enforce wire_add_system)

interpretation chat_wire: step_invariant init_chat "chat_step fr" wire_ok for fr
  by unfold_locales (simp add: wire_ok_def init_chat_def, rule wire_ok_step)

lemma well_paired_nth:
  "well_paired es \<Longrightarrow> i < length es \<Longrightarrow> has_calls (es ! i) \<Longrightarrow>
   Suc i = length es \<or> (Suc i < length es \<and> answers (es ! i) (es ! Suc i))"
proof (induction es arbitrary: i rule: well_paired.induct)
  case (3 a u es)
  show ?case
  proof (cases i)
    case (Suc k)
    show ?thesis
    proof (cases "has_calls a")
      case True
      with "3.prems" have "\<not> has_calls u" by (auto simp: answers_def dest: result_entryD)
      with "3.prems" Suc have "k \<noteq> 0" by (cases k) auto
      then obtain m where "k = Suc m" by (cases k) auto
      with "3.IH"(1) [OF True, of m] "3.prems" Suc True show ?thesis by auto
    next
      case False
      with "3.IH"(2) [OF False, of k] "3.prems" Suc show ?thesis by auto
    qed
  qed (use "3.prems" in auto)
qed auto

section \<open>Repair before a send\<close>

lemma calls_of_filter: "calls_of (filter P bs) = filter (\<lambda>t. P (ToolCallBlock t)) (calls_of bs)"
proof (induction bs)
  case (Cons b bs)
  then show ?case by (cases b) auto
qed simp

lemma results_of_filter: "results_of (filter P bs) = filter (\<lambda>t. P (ToolResultBlock t)) (results_of bs)"
proof (induction bs)
  case (Cons b bs)
  then show ?case by (cases b) auto
qed simp

lemma strip_calls_contents [simp]:
  "calls_of (strip_calls A bs) = filter (\<lambda>t. tc_id t \<in> A) (calls_of bs)"
  "results_of (strip_calls A bs) = results_of bs"
  "strip_calls A bs \<noteq> []"
proof -
  have *: "calls_of (filter (\<lambda>b. \<not> unanswered A b) bs) = filter (\<lambda>t. tc_id t \<in> A) (calls_of bs)"
    "results_of (filter (\<lambda>b. \<not> unanswered A b) bs) = results_of bs"
    by (simp_all add: calls_of_filter results_of_filter)
  show "calls_of (strip_calls A bs) = filter (\<lambda>t. tc_id t \<in> A) (calls_of bs)"
    "results_of (strip_calls A bs) = results_of bs" "strip_calls A bs \<noteq> []"
    using * by (auto simp: strip_calls_def Let_def simp del: filter_empty_conv)
qed

lemma strip_results_contents [simp]:
  "calls_of (strip_results C bs) = calls_of bs"
  "results_of (strip_results C bs) = filter (\<lambda>t. tr_id t \<in> C) (results_of bs)"
proof -
  have *: "calls_of (filter (\<lambda>b. \<not> unasked C b) bs) = calls_of bs"
    "results_of (filter (\<lambda>b. \<not> unasked C b) bs) = filter (\<lambda>t. tr_id t \<in> C) (results_of bs)"
    by (simp_all add: calls_of_filter results_of_filter)
  have empty: "bs = []" if "filter (\<lambda>b. \<not> unasked C b) bs = []" "results_of (filter (unasked C) bs) = []"
    using that
  proof (induction bs)
    case (Cons b bs)
    then show ?case by (cases b) (auto split: if_splits)
  qed simp
  show "calls_of (strip_results C bs) = calls_of bs"
    "results_of (strip_results C bs) = filter (\<lambda>t. tr_id t \<in> C) (results_of bs)"
    using * empty by (auto simp: strip_results_def Let_def simp del: filter_empty_conv)
qed

lemma repair_contents:
  "e_role (repair_entry C A e) = e_role e"
  "calls_of (e_content (repair_entry C A e)) =
     (if e_role e = Assistant then filter (\<lambda>t. tc_id t \<in> A) (calls_of (e_content e)) else calls_of (e_content e))"
  "results_of (e_content (repair_entry C A e)) =
     (if e_role e = User then filter (\<lambda>t. tr_id t \<in> C) (results_of (e_content e)) else results_of (e_content e))"
  "e_role e = Assistant \<Longrightarrow> e_content (repair_entry C A e) \<noteq> []"
  by (simp_all add: repair_entry_def split: role.splits)

lemma repair_twice:
  assumes "e_role e = Assistant \<Longrightarrow> set (map tc_id (calls_of (e_content (repair_entry C A e)))) \<subseteq> A'"
    and "e_role e = User \<Longrightarrow> set (map tr_id (results_of (e_content (repair_entry C A e)))) \<subseteq> C'"
  shows "repair_entry C' A' (repair_entry C A e) = repair_entry C A e"
proof -
  let ?f = "repair_entry C A e"
  have role: "e_role ?f = e_role e" by (rule repair_contents)
  show ?thesis
  proof (cases "e_role e")
    case Assistant
    with repair_contents(4) [of e C A] have "strip_calls A' (e_content ?f) = e_content ?f"
      using filter_unanswered_none [OF assms(1)] by (simp add: strip_calls_def Let_def)
    with Assistant role show ?thesis unfolding repair_entry_def [of C' A'] by simp
  next
    case User
    then have "strip_results C' (e_content ?f) = e_content ?f"
      using filter_unasked_none [OF assms(2)] by (simp add: strip_results_def Let_def)
    with User role show ?thesis unfolding repair_entry_def [of C' A'] by simp
  qed (use role in \<open>simp add: repair_entry_def [of C' A']\<close>)
qed

text \<open>The entries the repair walks over, and what it leaves for the healing operation.\<close>

definition repaired :: "chat_entry list \<Rightarrow> chat_entry list" where
  "repaired es = (if tail_pending es then butlast es else es)"

lemma repaired_split: "es = repaired es @ (if tail_pending es then [last es] else [])"
  by (auto simp: repaired_def tail_pending_def)

lemma pair_entries_alt:
  "pair_entries es =
    (if set (call_ids es) = set (answered_ids es) then es
     else map (repair_entry (set (call_ids es)) (set (answered_ids es))) (repaired es)
            @ (if tail_pending es then [last es] else []))"
  by (auto simp: pair_entries_def repaired_def Let_def)

lemma has_calls_repair: "has_calls (repair_entry C A e) \<Longrightarrow> has_calls e"
  by (auto simp: has_calls_iff repair_contents split: if_splits)

lemma tail_pending_pair: "tail_pending (pair_entries es) = tail_pending es"
proof (cases "tail_pending es \<or> es = []")
  case True
  then show ?thesis by (auto simp: pair_entries_alt) (simp_all add: tail_pending_def)
next
  case False
  then obtain fs l where "es = fs @ [l]" using butlast_last_cases by blast
  with False show ?thesis by (auto simp: pair_entries_alt repaired_def dest: has_calls_repair)
qed

lemma repaired_pair:
  "set (call_ids es) \<noteq> set (answered_ids es) \<Longrightarrow>
   repaired (pair_entries es) = map (repair_entry (set (call_ids es)) (set (answered_ids es))) (repaired es)"
  using tail_pending_pair [of es] by (auto simp: pair_entries_alt repaired_def)

lemma set_ids:
  "set (call_ids es) = (\<Union>e\<in>set es. tc_id ` set (calls_of (e_content e)))"
  "set (answered_ids es) = (\<Union>e\<in>set es. tr_id ` set (results_of (e_content e)))"
  by (auto simp: call_ids_def answered_ids_def)

text \<open>An id both called and answered before the repair is both afterwards.\<close>

lemma pair_keeps_matched:
  assumes "i \<in> set (call_ids es)" "i \<in> set (answered_ids es)"
  shows "i \<in> set (call_ids (pair_entries es)) \<and> i \<in> set (answered_ids (pair_entries es))"
proof (cases "set (call_ids es) = set (answered_ids es)")
  case False
  let ?C = "set (call_ids es)" and ?A = "set (answered_ids es)"
  have es': "set (pair_entries es) = repair_entry ?C ?A ` set (repaired es) \<union> (if tail_pending es then {last es} else {})"
    using False by (simp add: pair_entries_alt)
  have es: "set es = set (repaired es) \<union> (if tail_pending es then {last es} else {})"
    by (subst repaired_split) simp
  from assms(1) obtain e t where e: "e \<in> set es" "t \<in> set (calls_of (e_content e))" "i = tc_id t"
    by (auto simp: set_ids)
  have "\<exists>e\<in>set (pair_entries es). t \<in> set (calls_of (e_content e))"
    using e assms(2) unfolding es es' by (auto simp: repair_contents split: if_splits)
  moreover from assms(2) obtain f r where f: "f \<in> set es" "r \<in> set (results_of (e_content f))" "i = tr_id r"
    by (auto simp: set_ids)
  have "\<exists>e\<in>set (pair_entries es). r \<in> set (results_of (e_content e))"
    using f assms(1) unfolding es es' by (auto simp: repair_contents split: if_splits)
  ultimately show ?thesis unfolding set_ids e(3) using e(3) f(3) by blast
qed (use assms in \<open>simp add: pair_entries_alt\<close>)

lemma pair_no_orphan:
  assumes "e \<in> set (repaired (pair_entries es))"
  shows "e_role e = Assistant \<Longrightarrow> set (map tc_id (calls_of (e_content e))) \<subseteq> set (answered_ids (pair_entries es))"
    and "e_role e = User \<Longrightarrow> set (map tr_id (results_of (e_content e))) \<subseteq> set (call_ids (pair_entries es))"
proof -
  let ?C = "set (call_ids es)" and ?A = "set (answered_ids es)"
  have sub: "set (repaired es) \<subseteq> set es" by (auto simp: repaired_def dest: in_set_butlastD)
  have both: "(e_role e = Assistant \<longrightarrow> set (map tc_id (calls_of (e_content e))) \<subseteq> set (answered_ids (pair_entries es)))
    \<and> (e_role e = User \<longrightarrow> set (map tr_id (results_of (e_content e))) \<subseteq> set (call_ids (pair_entries es)))"
  proof (cases "?C = ?A")
    case True
    with assms sub show ?thesis using ids_in_entry [of e es] by (auto simp: pair_entries_alt)
  next
    case False
    with assms obtain f where f: "f \<in> set (repaired es)" "e = repair_entry ?C ?A f"
      by (auto simp: repaired_pair)
    with sub have "f \<in> set es" by blast
    from ids_in_entry [OF this] show ?thesis unfolding f(2)
      using pair_keeps_matched [of _ es] by (auto simp: repair_contents)
  qed
  then show "e_role e = Assistant \<Longrightarrow> set (map tc_id (calls_of (e_content e))) \<subseteq> set (answered_ids (pair_entries es))"
    "e_role e = User \<Longrightarrow> set (map tr_id (results_of (e_content e))) \<subseteq> set (call_ids (pair_entries es))"
    by blast+
qed

lemma pair_entries_idem: "pair_entries (pair_entries es) = pair_entries es"
proof (cases "set (call_ids es) = set (answered_ids es)")
  case False
  let ?fs = "pair_entries es"
  have "map (repair_entry (set (call_ids ?fs)) (set (answered_ids ?fs))) (repaired ?fs) = repaired ?fs"
  proof (rule map_idI)
    fix f assume f: "f \<in> set (repaired ?fs)"
    with False obtain e where e: "f = repair_entry (set (call_ids es)) (set (answered_ids es)) e"
      by (auto simp: repaired_pair)
    show "repair_entry (set (call_ids ?fs)) (set (answered_ids ?fs)) f = f"
      unfolding e
      by (rule repair_twice; use pair_no_orphan [OF f] in \<open>simp add: e repair_contents(1)\<close>)
  qed
  then show ?thesis
    using repaired_split [of ?fs] by (subst pair_entries_alt) (simp add: tail_pending_pair)
qed (simp add: pair_entries_alt)

end
