(* ===== verification/Result_Artifacts.thy ===== *)
theory Result_Artifacts
  imports Chat_Laws
begin

text \<open>
  The tool-result artifact store (\<^verbatim>\<open>kernel/tool_result_artifacts.py\<close>): the preventive spill of an
  oversized result into a sidecar file, the retroactive compaction of a conversation's history, and the
  marking of manifests whose sidecar is gone when the history file is read back.

  The clock, the random names, the file system and the redaction of durable text are arguments
  (\<open>spill_env\<close>) over a world that the operations thread. A path is its list of components.
\<close>

section \<open>JSON text\<close>

text \<open>\<^verbatim>\<open>json.dumps(v, ensure_ascii=False)\<close>, and its form with \<^verbatim>\<open>indent=2\<close>.\<close>

definition raw_json_char :: "char \<Rightarrow> string" where
  "raw_json_char c = (if 127 \<le> (of_char c :: nat) then [c] else json_char c)"

definition raw_json_string :: "string \<Rightarrow> string" where
  "raw_json_string s = [dquote] @ concat (map raw_json_char s) @ [dquote]"

fun json_text :: "(rat \<Rightarrow> string) \<Rightarrow> py \<Rightarrow> string" where
  "json_text fr PNone = ''null''"
| "json_text fr (PBool b) = (if b then ''true'' else ''false'')"
| "json_text fr (PInt i) = int_str i"
| "json_text fr (PFloat r) = fr r"
| "json_text fr (PStr s) = raw_json_string s"
| "json_text fr (PList xs) = ''['' @ join_str '', '' (map (json_text fr) xs) @ '']''"
| "json_text fr (PDict d) =
     ''{'' @ join_str '', '' (map (\<lambda>(k, v). raw_json_string k @ '': '' @ json_text fr v) d) @ ''}''"

definition json_pad :: "nat \<Rightarrow> string" where
  "json_pad level = nl @ replicate (2 * level) CHR '' ''"

definition json_block :: "string \<Rightarrow> string \<Rightarrow> nat \<Rightarrow> string list \<Rightarrow> string" where
  "json_block l r level items =
     (if items = [] then l @ r
      else l @ json_pad (Suc level) @ join_str ('','' @ json_pad (Suc level)) items @ json_pad level @ r)"

fun json_indented :: "(rat \<Rightarrow> string) \<Rightarrow> nat \<Rightarrow> py \<Rightarrow> string" where
  "json_indented fr level (PList xs) = json_block ''['' '']'' level (map (json_indented fr (Suc level)) xs)"
| "json_indented fr level (PDict d) =
     json_block ''{'' ''}'' level (map (\<lambda>(k, v). raw_json_string k @ '': '' @ json_indented fr (Suc level) v) d)"
| "json_indented fr level v = json_text fr v"

definition serialized_len :: "(rat \<Rightarrow> string) \<Rightarrow> py \<Rightarrow> int" where
  "serialized_len fr v = (case v of PStr s \<Rightarrow> int (length s) | _ \<Rightarrow> int (length (json_text fr v)))"

definition utf8_len :: "string \<Rightarrow> int" where
  "utf8_len s = int (length s + length (filter (\<lambda>c. 128 \<le> (of_char c :: nat)) s))"

section \<open>Manifests\<close>

definition ARTIFACT_MARKER :: string where
  "ARTIFACT_MARKER = ''lingtai_tool_result_spill''"

definition WEB_ARTIFACT_MARKER :: string where
  "WEB_ARTIFACT_MARKER = ''lingtai_web_output_artifact/v1''"

definition HOISTED_RESERVED_FIELDS :: "string list" where
  "HOISTED_RESERVED_FIELDS = [''_advisory'']"

definition PREVENTIVE_MAX_CHARS :: int where
  "PREVENTIVE_MAX_CHARS = 200000"

definition RETROACTIVE_MAX_CHARS :: int where
  "RETROACTIVE_MAX_CHARS = 5000"

text \<open>\<^verbatim>\<open>isinstance(d.get(k), str)\<close> and \<^verbatim>\<open>isinstance(d.get(k), int)\<close>; a bool is an int.\<close>

definition has_str :: "dict \<Rightarrow> string \<Rightarrow> bool" where
  "has_str d k \<longleftrightarrow> (case dget d k of Some (PStr _) \<Rightarrow> True | _ \<Rightarrow> False)"

definition has_int :: "dict \<Rightarrow> string \<Rightarrow> bool" where
  "has_int d k \<longleftrightarrow> (case dget d k of Some (PInt _) \<Rightarrow> True | Some (PBool _) \<Rightarrow> True | _ \<Rightarrow> False)"

definition is_manifest_dict :: "dict \<Rightarrow> bool" where
  "is_manifest_dict d \<longleftrightarrow>
     (dget d ''artifact'' = Some (PStr WEB_ARTIFACT_MARKER) \<and> has_str d ''file_path'' \<and>
      has_int d ''content_chars'' \<and> has_str d ''content_sha256'') \<or>
     (dget d ''status'' = Some (PStr ''spilled'') \<and> dhas d ''spill_path'' \<and>
      (dget d ''artifact'' = Some (PStr ARTIFACT_MARKER) \<or>
       has_int d ''cap_chars'' \<and> has_int d ''original_char_count''))"

fun is_spill_manifest :: "py \<Rightarrow> bool" where
  "is_spill_manifest (PDict d) = is_manifest_dict d"
| "is_spill_manifest _ = False"

section \<open>File names and the artifact write\<close>

text \<open>\<^verbatim>\<open>re.sub("[^A-Za-z0-9_.-]+", "_", s)\<close>, then \<^verbatim>\<open>strip("_")\<close>.\<close>

definition filename_safe :: "char \<Rightarrow> bool" where
  "filename_safe c \<longleftrightarrow> is_upper c \<or> is_lower c \<or> is_digit c \<or> c \<in> set ''_.-''"

fun sub_unsafe :: "bool \<Rightarrow> string \<Rightarrow> string" where
  "sub_unsafe in_run [] = []"
| "sub_unsafe in_run (c # cs) =
     (if filename_safe c then c # sub_unsafe False cs
      else if in_run then sub_unsafe True cs else CHR ''_'' # sub_unsafe True cs)"

definition strip_char :: "char \<Rightarrow> string \<Rightarrow> string" where
  "strip_char c s = rev (dropWhile (\<lambda>x. x = c) (rev (dropWhile (\<lambda>x. x = c) s)))"

definition slug :: "string \<Rightarrow> string" where
  "slug s =
     (let cleaned = strip_char (CHR ''_'') (sub_unsafe False s)
      in take 40 (if cleaned = [] then ''tool'' else cleaned))"

type_synonym path = "string list"

definition path_str :: "path \<Rightarrow> string" where
  "path_str p = join_str ''/'' p"

text \<open>
  What the store asks of its surroundings: two renderings of the current time, fresh hexadecimal names,
  the atomic write (whose failure is an \<^verbatim>\<open>OSError\<close>: its class and its text), \<^verbatim>\<open>Path.resolve\<close> and the
  redaction of text that becomes durable.
\<close>

record 'w spill_env =
  se_float :: "rat \<Rightarrow> string"
  se_stamp :: "'w \<Rightarrow> string"
  se_iso :: "'w \<Rightarrow> string"
  se_hex :: "nat \<Rightarrow> 'w \<Rightarrow> string \<times> 'w"
  se_write :: "path \<Rightarrow> string \<Rightarrow> 'w \<Rightarrow> (string \<times> string) option \<times> 'w"
  se_resolve :: "path \<Rightarrow> string"
  se_redact :: "string \<Rightarrow> string"

definition build_artifact_filename :: "'w spill_env \<Rightarrow> string \<Rightarrow> string \<Rightarrow> 'w \<Rightarrow> string \<times> 'w" where
  "build_artifact_filename env stem_slug ext w =
     (let (unique, w') = se_hex env 6 w
      in (se_stamp env w @ ''-'' @ stem_slug @ ''-'' @ unique @ ''.'' @ ext, w'))"

text \<open>
  \<^verbatim>\<open>write_artifact_file\<close>: the directory is given below the working directory, as both callers do, and
  the name is either complete or built from its stem and extension. The result is the pair of paths, or
  the error text.
\<close>

definition write_artifact_file ::
  "'w spill_env \<Rightarrow> path \<Rightarrow> path \<Rightarrow> string + string \<times> string \<Rightarrow> string \<Rightarrow> 'w \<Rightarrow> (string + string \<times> string) \<times> 'w"
where
  "write_artifact_file env working_dir subdir naming artifact_text w =
     (let (filename, w1) = (case naming of Inl f \<Rightarrow> (f, w) | Inr (stem, ext) \<Rightarrow> build_artifact_filename env stem ext w);
          relative = subdir @ [filename];
          (failure, w2) = se_write env (working_dir @ relative) artifact_text w1
      in (case failure of
            Some (t, m) \<Rightarrow> (Inl (t @ '': '' @ m), w2)
          | None \<Rightarrow> (Inr (path_str relative, se_resolve env (working_dir @ relative)), w2)))"

section \<open>The spill\<close>

definition opt_py :: "string option \<Rightarrow> py" where
  "opt_py s = (case s of None \<Rightarrow> PNone | Some t \<Rightarrow> PStr t)"

definition canonical_text :: "(rat \<Rightarrow> string) \<Rightarrow> py \<Rightarrow> string" where
  "canonical_text fr v = (case v of PStr s \<Rightarrow> s | _ \<Rightarrow> json_indented fr 0 v)"

definition preview_budget :: "int \<Rightarrow> int" where
  "preview_budget max_chars = min (max 0 (max_chars - 1500)) 2000"

definition first_preview :: "int \<Rightarrow> string \<Rightarrow> string" where
  "first_preview max_chars s =
     (let budget = preview_budget max_chars in
      take (nat budget) s @
      (if int (length s) > budget
       then nl @ ''[... '' @ int_str (int (length s) - budget) @ '' more chars in artifact ...]'' else []))"

definition spill_warning :: "int \<Rightarrow> int \<Rightarrow> string" where
  "spill_warning original max_chars =
     ''Tool result was too large ('' @ int_str original @ '' chars, cap '' @ int_str max_chars @ '') ''
     @ ''and was written to a sidecar file under tmp/tool-results/ which is ''
     @ ''ephemeral and may be cleaned up. If the file is missing, the full ''
     @ ''content is gone '' @ em_dash @ '' use the preview below or rerun the source tool.''"

text \<open>\<^verbatim>\<open>for _ in range(4)\<close>: halve the preview while the manifest is over the cap.\<close>

fun trim_preview :: "(rat \<Rightarrow> string) \<Rightarrow> int \<Rightarrow> nat \<Rightarrow> dict \<Rightarrow> dict" where
  "trim_preview fr max_chars 0 m = m"
| "trim_preview fr max_chars (Suc n) m =
     (if serialized_len fr (PDict m) \<le> max_chars then m
      else (case dget m ''preview'' of
              Some (PStr p) \<Rightarrow>
                if p = [] then m
                else trim_preview fr max_chars n (dput ''preview'' (PStr (take (length p div 2) p)) m)
            | _ \<Rightarrow> m))"

definition hoist_reserved :: "py \<Rightarrow> dict \<Rightarrow> dict" where
  "hoist_reserved result m =
     (case result of
        PDict d \<Rightarrow>
          fold (\<lambda>k m. case dget d k of Some v \<Rightarrow> dput k v m | None \<Rightarrow> m) HOISTED_RESERVED_FIELDS m
      | _ \<Rightarrow> m)"

record spill_request =
  sr_max_chars :: int
  sr_tool_name :: "string option"
  sr_tool_call_id :: "string option"
  sr_working_dir :: "path option"
  sr_source :: string

definition spill_manifest ::
  "spill_request \<Rightarrow> string \<Rightarrow> int \<Rightarrow> string \<Rightarrow> (string + string \<times> string) option \<Rightarrow> dict" where
  "spill_manifest rq iso_time original content_text outcome =
     (let (rel, absolute) = (case outcome of Some (Inr (r, a)) \<Rightarrow> (PStr r, PStr a) | _ \<Rightarrow> (PNone, PNone)) in
      [(''artifact'', PStr ARTIFACT_MARKER), (''status'', PStr ''spilled''), (''source'', PStr (sr_source rq)),
       (''warning'', PStr (spill_warning original (sr_max_chars rq))), (''spill_path'', rel),
       (''spill_path_abs'', absolute), (''tool_name'', opt_py (sr_tool_name rq)),
       (''tool_call_id'', opt_py (sr_tool_call_id rq)), (''original_char_count'', PInt original),
       (''original_byte_count'', PInt (utf8_len content_text)), (''cap_chars'', PInt (sr_max_chars rq)),
       (''timestamp'', PStr iso_time), (''preview'', PStr (first_preview (sr_max_chars rq) content_text)),
       (''artifact_lifetime'', PStr ''ephemeral_tmp''),
       (''artifact_state'', PStr (case outcome of Some (Inr _) \<Rightarrow> ''available'' | _ \<Rightarrow> ''unavailable''))]
      @ (case outcome of
           Some (Inl err) \<Rightarrow> [(''spill_error'', PStr err)]
         | None \<Rightarrow> [(''spill_error'', PStr ''no working_dir configured'')]
         | Some (Inr _) \<Rightarrow> []))"

text \<open>
  \<^verbatim>\<open>spill_oversized_result\<close>: \<open>None\<close> stands for handing back the very object that was given, \<open>Some m\<close>
  for the manifest that replaces it.
\<close>

definition spill_oversized_result ::
  "'w spill_env \<Rightarrow> spill_request \<Rightarrow> py \<Rightarrow> 'w \<Rightarrow> dict option \<times> 'w" where
  "spill_oversized_result env rq result w =
     (let fr = se_float env; original = serialized_len fr result in
      if sr_max_chars rq \<le> 0 \<or> is_spill_manifest result \<or> original \<le> sr_max_chars rq then (None, w)
      else
        let content_text = canonical_text fr result;
            tool_slug = slug (case sr_tool_name rq of Some t \<Rightarrow> if t = [] then ''tool'' else t | None \<Rightarrow> ''tool'');
            (id_slug, w1) = (case sr_tool_call_id rq of
                               Some i \<Rightarrow> if i = [] then se_hex env 8 w else (slug i, w)
                             | None \<Rightarrow> se_hex env 8 w);
            ext = (case result of PStr _ \<Rightarrow> ''txt'' | _ \<Rightarrow> ''json'');
            (unique, w2) = se_hex env 6 w1;
            filename = se_stamp env w @ ''-'' @ tool_slug @ ''-'' @ id_slug @ ''-'' @ unique @ ''.'' @ ext;
            (outcome, w3) =
              (case sr_working_dir rq of
                 None \<Rightarrow> (None, w2)
               | Some wd \<Rightarrow>
                   let (r, w') = write_artifact_file env wd [''tmp'', ''tool-results''] (Inl filename)
                                   (se_redact env content_text) w2
                   in (Some r, w'));
            manifest = hoist_reserved result (spill_manifest rq (se_iso env w) original content_text outcome)
        in (Some (trim_preview fr (sr_max_chars rq) 4 manifest), w3))"

section \<open>Retroactive compaction\<close>

record compaction_stats =
  cs_scanned :: int
  cs_compacted :: int
  cs_original :: int
  cs_replacement :: int
  cs_paths :: "py list"

definition init_stats :: compaction_stats where
  "init_stats = \<lparr>cs_scanned = 0, cs_compacted = 0, cs_original = 0, cs_replacement = 0, cs_paths = []\<rparr>"

definition stats_log_fields :: "compaction_stats \<Rightarrow> dict" where
  "stats_log_fields st =
     [(''scanned_blocks'', PInt (cs_scanned st)), (''compacted_blocks'', PInt (cs_compacted st)),
      (''original_chars_total'', PInt (cs_original st)),
      (''replacement_chars_total'', PInt (cs_replacement st)), (''artifact_paths'', PList (cs_paths st))]"

definition MAX_LOGGED_ARTIFACT_PATHS :: nat where
  "MAX_LOGGED_ARTIFACT_PATHS = 16"

type_synonym log_event = "string \<times> dict"

text \<open>The state of one pass: its statistics, what it logged, and the world.\<close>

type_synonym 'w pass = "compaction_stats \<times> log_event list \<times> 'w"

definition oversized :: "'w spill_env \<Rightarrow> int \<Rightarrow> py \<Rightarrow> bool" where
  "oversized env max_chars v \<longleftrightarrow> \<not> is_spill_manifest v \<and> serialized_len (se_float env) v > max_chars"

text \<open>\<^verbatim>\<open>v.get(k)\<close>, where only a dictionary has entries.\<close>

definition py_get :: "py \<Rightarrow> string \<Rightarrow> py" where
  "py_get v k = (case v of PDict d \<Rightarrow> dgetd d k PNone | _ \<Rightarrow> PNone)"

definition retro_request :: "int \<Rightarrow> path option \<Rightarrow> tool_result \<Rightarrow> spill_request" where
  "retro_request max_chars working_dir r =
     \<lparr>sr_max_chars = max_chars, sr_tool_name = Some (tr_name r), sr_tool_call_id = Some (tr_id r),
      sr_working_dir = working_dir, sr_source = ''retroactive''\<rparr>"

text \<open>
  What one compacted block adds to the statistics and, with a logger that does not raise, to the log. The
  fields of the event are computed inside the \<^verbatim>\<open>try\<close>, so content that is no dictionary logs nothing.
\<close>

definition account :: "py \<Rightarrow> int \<Rightarrow> int \<Rightarrow> compaction_stats \<Rightarrow> compaction_stats" where
  "account manifest current replacement st =
     (let spill_path = py_get manifest ''spill_path'' in
      st\<lparr>cs_compacted := cs_compacted st + 1, cs_original := cs_original st + current,
         cs_replacement := cs_replacement st + replacement,
         cs_paths := (if truthy spill_path \<and> length (cs_paths st) < MAX_LOGGED_ARTIFACT_PATHS
                      then cs_paths st @ [spill_path] else cs_paths st)\<rparr>)"

definition compaction_event :: "tool_result \<Rightarrow> py \<Rightarrow> log_event list" where
  "compaction_event r manifest =
     (case manifest of
        PDict _ \<Rightarrow>
          [(''tool_result_compacted_retroactively'',
            [(''tool_name'', PStr (tr_name r)), (''tool_call_id'', PStr (tr_id r)),
             (''original_char_count'', py_get manifest ''original_char_count''),
             (''spill_path'', py_get manifest ''spill_path'')])]
      | _ \<Rightarrow> [])"

definition compact_result ::
  "'w spill_env \<Rightarrow> int \<Rightarrow> path option \<Rightarrow> tool_result \<Rightarrow> 'w pass \<Rightarrow> tool_result \<times> 'w pass" where
  "compact_result env max_chars working_dir r ps =
     (case ps of (st0, events, w) \<Rightarrow>
        let st = st0\<lparr>cs_scanned := cs_scanned st0 + 1\<rparr> in
        if \<not> oversized env max_chars (tr_content r) then (r, st, events, w)
        else
          let (outcome, w') = spill_oversized_result env (retro_request max_chars working_dir r) (tr_content r) w;
              manifest = (case outcome of None \<Rightarrow> tr_content r | Some m \<Rightarrow> PDict m)
          in (r\<lparr>tr_content := manifest\<rparr>,
              account manifest (serialized_len (se_float env) (tr_content r))
                (serialized_len (se_float env) manifest) st,
              events @ compaction_event r manifest, w'))"

fun compact_block ::
  "'w spill_env \<Rightarrow> int \<Rightarrow> path option \<Rightarrow> block \<Rightarrow> 'w pass \<Rightarrow> block \<times> 'w pass" where
  "compact_block env max_chars working_dir (ToolResultBlock r) ps =
     (case compact_result env max_chars working_dir r ps of (r', ps') \<Rightarrow> (ToolResultBlock r', ps'))"
| "compact_block env max_chars working_dir b ps = (b, ps)"

definition compact_entry ::
  "'w spill_env \<Rightarrow> int \<Rightarrow> path option \<Rightarrow> chat_entry \<Rightarrow> 'w pass \<Rightarrow> chat_entry \<times> 'w pass" where
  "compact_entry env max_chars working_dir e ps =
     (case map_state (compact_block env max_chars working_dir) (e_content e) ps of
        (bs, ps') \<Rightarrow> (e\<lparr>e_content := bs\<rparr>, ps'))"

definition compact_oversized_history ::
  "'w spill_env \<Rightarrow> int \<Rightarrow> path option \<Rightarrow> chat \<Rightarrow> 'w \<Rightarrow> chat \<times> 'w pass" where
  "compact_oversized_history env max_chars working_dir c w =
     (case map_state (compact_entry env max_chars working_dir) (entries c) (init_stats, [], w) of
        (es, ps) \<Rightarrow> (c\<lparr>entries := es\<rparr>, ps))"

section \<open>The history file\<close>

text \<open>\<^verbatim>\<open>str.splitlines()\<close>: more characters end a line there than in a JSON lines file.\<close>

definition line_break :: "char \<Rightarrow> bool" where
  "line_break c \<longleftrightarrow> c \<in> set [CHR 0x0A, CHR 0x0B, CHR 0x0C, CHR 0x0D, CHR 0x1C, CHR 0x1D, CHR 0x1E, CHR 0x85]"

fun splitlines :: "string \<Rightarrow> string list" where
  "splitlines [] = []"
| "splitlines (c # cs) =
     (if line_break c then
        [] # splitlines (drop (if c = CHR 0x0D \<and> take 1 cs = [CHR 0x0A] then 1 else 0) cs)
      else (case splitlines cs of [] \<Rightarrow> [[c]] | l # ls \<Rightarrow> (c # l) # ls))"

text \<open>The text \<^verbatim>\<open>_save_chat_history\<close> writes for the entries of a conversation.\<close>

definition history_text :: "(rat \<Rightarrow> string) \<Rightarrow> dict list \<Rightarrow> string" where
  "history_text fr messages = join_str nl (map (\<lambda>m. json_text fr (PDict m)) messages) @ nl"

section \<open>Expired sidecars\<close>

definition expired_warning :: string where
  "expired_warning =
     ''EXPIRED: This tool result was stored in a temporary ''
     @ ''sidecar file that no longer exists. The full content is ''
     @ ''unavailable. Use the preview below if sufficient, or ''
     @ ''rerun the source tool to regenerate the result.''"

text \<open>
  One manifest, with \<open>present\<close> telling whether the file at its path exists. The result says whether
  anything changed and whether the manifest is newly expired. A path that is no string does not join.
\<close>

definition mark_present :: "dict \<Rightarrow> bool \<Rightarrow> dict \<times> bool \<times> int" where
  "mark_present m changed =
     (if dget m ''artifact_state'' \<noteq> Some (PStr ''available'')
      then (dpop ''artifact_expired_at'' (dput ''artifact_state'' (PStr ''available'') m), True, 0)
      else (m, changed, 0))"

definition mark_missing :: "string \<Rightarrow> dict \<Rightarrow> bool \<Rightarrow> dict \<times> bool \<times> int" where
  "mark_missing now m changed =
     (let (m1, c1, n) =
        (if dget m ''artifact_state'' \<noteq> Some (PStr ''expired'') then
           (dput ''warning'' (PStr expired_warning)
              (dput ''artifact_expired_at'' (PStr now) (dput ''artifact_state'' (PStr ''expired'') m)), True, 1)
         else if \<not> dhas m ''artifact_expired_at'' then (dput ''artifact_expired_at'' (PStr now) m, True, 0)
         else (m, changed, 0))
      in if dget m1 ''warning'' \<noteq> Some (PStr expired_warning)
         then (dput ''warning'' (PStr expired_warning) m1, True, n) else (m1, c1, n))"

definition mark_manifest :: "(string \<Rightarrow> bool) \<Rightarrow> string \<Rightarrow> dict \<Rightarrow> exc + dict \<times> bool \<times> int" where
  "mark_manifest present now m =
     (let sp = dgetd m ''spill_path'' PNone in
      if \<not> truthy sp then Inr (m, False, 0)
      else
        case sp of
          PStr p \<Rightarrow>
            let (m1, c1) = (if dhas m ''artifact_lifetime'' then (m, False)
                            else (dput ''artifact_lifetime'' (PStr ''ephemeral_tmp'') m, True))
            in Inr (if present p then mark_present m1 c1 else mark_missing now m1 c1)
        | _ \<Rightarrow> Inl (TypeError ''unsupported operand type(s) for /''))"

text \<open>\<^verbatim>\<open>_walk\<close>: every manifest in a decoded entry, outermost ones only.\<close>

fun walk_manifests :: "(string \<Rightarrow> bool) \<Rightarrow> string \<Rightarrow> py \<Rightarrow> exc + py \<times> bool \<times> int" where
  "walk_manifests present now (PDict d) =
     (if is_manifest_dict d then
        ebind (mark_manifest present now d) (\<lambda>(d', c, n). Inr (PDict d', c, n))
      else
        ebind (emap (\<lambda>(k, v). ebind (walk_manifests present now v) (\<lambda>(v', c, n). Inr (k, v', c, n))) d)
          (\<lambda>rs. Inr (PDict (map (\<lambda>(k, v, _). (k, v)) rs), list_ex (\<lambda>(_, _, c, _). c) rs,
                     sum_list (map (\<lambda>(_, _, _, n). n) rs))))"
| "walk_manifests present now (PList xs) =
     ebind (emap (walk_manifests present now) xs)
       (\<lambda>rs. Inr (PList (map fst rs), list_ex (\<lambda>(_, c, _). c) rs, sum_list (map (\<lambda>(_, _, n). n) rs)))"
| "walk_manifests present now v = Inr (v, False, 0)"

text \<open>
  \<^verbatim>\<open>mark_expired_spill_manifests\<close> on the text of the history file (absent when there is none), with
  \<open>loads\<close> for \<^verbatim>\<open>json.loads\<close>: the count, and the text that replaces the file when anything changed.
\<close>

definition mark_line ::
  "(rat \<Rightarrow> string) \<Rightarrow> (string \<Rightarrow> py option) \<Rightarrow> (string \<Rightarrow> bool) \<Rightarrow> string \<Rightarrow> string \<Rightarrow> exc + string \<times> bool \<times> int" where
  "mark_line fr loads present now line =
     (if strip line = [] then Inr (line, False, 0)
      else (case loads line of
              None \<Rightarrow> Inr (line, False, 0)
            | Some v \<Rightarrow> ebind (walk_manifests present now v) (\<lambda>(v', c, n). Inr (json_text fr v', c, n))))"

definition mark_expired_spill_manifests ::
  "(rat \<Rightarrow> string) \<Rightarrow> (string \<Rightarrow> py option) \<Rightarrow> (string \<Rightarrow> bool) \<Rightarrow> string \<Rightarrow> string option \<Rightarrow> exc + int \<times> string option" where
  "mark_expired_spill_manifests fr loads present now history =
     (case history of
        None \<Rightarrow> Inr (0, None)
      | Some h \<Rightarrow>
          ebind (emap (mark_line fr loads present now) (splitlines h)) (\<lambda>rs.
            let new_lines = map fst rs in
            Inr (sum_list (map (\<lambda>(_, _, n). n) rs),
                 if list_ex (\<lambda>(_, c, _). c) rs
                 then Some (join_str nl new_lines @ (if new_lines = [] then [] else nl)) else None)))"

section \<open>Laws of the spill\<close>

lemma trim_preview_other: "k \<noteq> ''preview'' \<Longrightarrow> dget (trim_preview fr n i m) k = dget m k"
  by (induction fr n i m rule: trim_preview.induct) (auto split: option.splits py.splits)

lemma hoist_reserved_other: "k \<noteq> ''_advisory'' \<Longrightarrow> dget (hoist_reserved v m) k = dget m k"
  by (auto simp: hoist_reserved_def HOISTED_RESERVED_FIELDS_def split: py.splits option.splits)

lemma spill_manifest_fields:
  assumes "k \<noteq> ''preview''" "k \<noteq> ''_advisory''"
  shows "dget (trim_preview fr n i (hoist_reserved v (spill_manifest rq iso_time original t outcome))) k =
    dget (spill_manifest rq iso_time original t outcome) k"
  using assms by (simp add: trim_preview_other hoist_reserved_other)

lemma spill_manifest_core:
  "dget (spill_manifest rq iso_time original t outcome) ''artifact'' = Some (PStr ARTIFACT_MARKER)"
  "dget (spill_manifest rq iso_time original t outcome) ''status'' = Some (PStr ''spilled'')"
  "dget (spill_manifest rq iso_time original t outcome) ''original_char_count'' = Some (PInt original)"
  "dget (spill_manifest rq iso_time original t outcome) ''spill_path'' =
     Some (case outcome of Some (Inr (r, _)) \<Rightarrow> PStr r | _ \<Rightarrow> PNone)"
  by (auto simp: spill_manifest_def Let_def split: option.splits sum.splits prod.splits)

lemma spill_SomeD:
  assumes "spill_oversized_result env rq v w = (Some m, w')"
  shows "sr_max_chars rq > 0" "\<not> is_spill_manifest v" "serialized_len (se_float env) v > sr_max_chars rq"
    "is_manifest_dict m" "dget m ''original_char_count'' = Some (PInt (serialized_len (se_float env) v))"
proof -
  let ?c = "sr_max_chars rq \<le> 0 \<or> is_spill_manifest v \<or> serialized_len (se_float env) v \<le> sr_max_chars rq"
  from assms have c: "\<not> ?c" by (auto simp: spill_oversized_result_def Let_def)
  with assms obtain t outcome iso_time where
    m: "m = trim_preview (se_float env) (sr_max_chars rq) 4
          (hoist_reserved v (spill_manifest rq iso_time (serialized_len (se_float env) v) t outcome))"
    by (auto simp: spill_oversized_result_def Let_def split: prod.splits)
  show "sr_max_chars rq > 0" "\<not> is_spill_manifest v" "serialized_len (se_float env) v > sr_max_chars rq"
    using c by simp_all
  show "is_manifest_dict m"
    by (simp add: is_manifest_dict_def m spill_manifest_fields spill_manifest_core dhas_iff)
  show "dget m ''original_char_count'' = Some (PInt (serialized_len (se_float env) v))"
    by (simp add: m spill_manifest_fields spill_manifest_core)
qed

lemma spill_None_iff:
  "fst (spill_oversized_result env rq v w) = None \<longleftrightarrow>
   sr_max_chars rq \<le> 0 \<or> is_spill_manifest v \<or> serialized_len (se_float env) v \<le> sr_max_chars rq"
  by (auto simp: spill_oversized_result_def Let_def split: prod.splits)

section \<open>Laws of the compaction\<close>

definition replaced_content :: "(rat \<Rightarrow> string) \<Rightarrow> py \<Rightarrow> py \<Rightarrow> bool" where
  "replaced_content fr v v' \<longleftrightarrow>
     v' = v \<or> (\<exists>m. v' = PDict m \<and> is_manifest_dict m \<and>
                dget m ''original_char_count'' = Some (PInt (serialized_len fr v)))"

fun compacted_block :: "(rat \<Rightarrow> string) \<Rightarrow> block \<Rightarrow> block \<Rightarrow> bool" where
  "compacted_block fr (ToolResultBlock r) b =
     (case b of
        ToolResultBlock r' \<Rightarrow> \<exists>v. r' = r\<lparr>tr_content := v\<rparr> \<and> replaced_content fr (tr_content r) v
      | _ \<Rightarrow> False)"
| "compacted_block fr a b = (b = a)"

definition compacted_entry :: "(rat \<Rightarrow> string) \<Rightarrow> chat_entry \<Rightarrow> chat_entry \<Rightarrow> bool" where
  "compacted_entry fr e e' \<longleftrightarrow>
     (\<exists>bs. e' = e\<lparr>e_content := bs\<rparr> \<and> list_all2 (compacted_block fr) (e_content e) bs)"

fun settled_block :: "'w spill_env \<Rightarrow> int \<Rightarrow> block \<Rightarrow> bool" where
  "settled_block env n (ToolResultBlock r) = (\<not> oversized env n (tr_content r))"
| "settled_block env n _ = True"

lemma compact_result_cases:
  obtains "fst (compact_result env n wd r ps) = r" "0 < n \<Longrightarrow> \<not> oversized env n (tr_content r)"
  | m where "fst (compact_result env n wd r ps) = r\<lparr>tr_content := PDict m\<rparr>" "is_manifest_dict m"
      "dget m ''original_char_count'' = Some (PInt (serialized_len (se_float env) (tr_content r)))"
proof (cases ps)
  case (fields st0 events w)
  show ?thesis
  proof (cases "oversized env n (tr_content r)")
    case False
    then show ?thesis using that(1) by (simp add: compact_result_def Let_def fields)
  next
    case True
    let ?s = "spill_oversized_result env (retro_request n wd r) (tr_content r) w"
    show ?thesis
    proof (cases "fst ?s")
      case None
      then have "\<not> 0 < n" using True by (auto simp: spill_None_iff oversized_def retro_request_def)
      with None show ?thesis
        by (intro that(1)) (auto simp: compact_result_def Let_def fields split: prod.splits)
    next
      case (Some m)
      then have s: "?s = (Some m, snd ?s)" by (simp add: prod_eq_iff)
      from spill_SomeD(4,5) [OF s] True Some show ?thesis
        by (intro that(2) [of m]) (auto simp: compact_result_def Let_def fields split: prod.splits)
    qed
  qed
qed

lemma compact_block_compacted: "compacted_block (se_float env) b (fst (compact_block env n wd b ps))"
proof (cases b)
  case (ToolResultBlock r)
  then show ?thesis
    by (cases rule: compact_result_cases [of env n wd r ps])
      (auto simp: replaced_content_def split: prod.splits intro: exI [of _ "tr_content r"])
qed auto

lemma compact_block_settled: "0 < n \<Longrightarrow> settled_block env n (fst (compact_block env n wd b ps))"
proof (cases b)
  case (ToolResultBlock r)
  assume "0 < n"
  with ToolResultBlock show ?thesis
    by (cases rule: compact_result_cases [of env n wd r ps])
      (auto simp: oversized_def split: prod.splits)
qed auto

lemma list_all2_map_state: "(\<And>x s. x \<in> set xs \<Longrightarrow> P x (fst (f x s))) \<Longrightarrow> list_all2 P xs (fst (map_state f xs s))"
  by (induction xs arbitrary: s) auto

lemma compact_entry_compacted: "compacted_entry (se_float env) e (fst (compact_entry env n wd e ps))"
  by (auto simp: compacted_entry_def compact_entry_def split_beta intro!: list_all2_map_state compact_block_compacted)

lemma compact_entry_settled:
  "0 < n \<Longrightarrow> list_all (settled_block env n) (e_content (fst (compact_entry env n wd e ps)))"
  by (auto simp: compact_entry_def split_beta list_all_iff dest!: map_state_set intro: compact_block_settled)

lemma compacted_blocks_shape:
  "list_all2 (compacted_block fr) bs bs' \<Longrightarrow>
   calls_of bs' = calls_of bs \<and> map tr_id (results_of bs') = map tr_id (results_of bs) \<and>
   list_all is_result bs' = list_all is_result bs \<and> (bs' = [] \<longleftrightarrow> bs = [])"
proof (induction rule: list_all2_induct)
  case (Cons b bs b' bs')
  then show ?case by (cases b; cases b') auto
qed simp

lemma compacted_entry_shape: "compacted_entry fr e e' \<Longrightarrow> shape e' = shape e \<and> e_id e' = e_id e"
  by (auto simp: compacted_entry_def shape_def results_only_def dest: compacted_blocks_shape)

text \<open>A settled block costs one scan and nothing else.\<close>

definition scan :: "nat \<Rightarrow> compaction_stats \<Rightarrow> compaction_stats" where
  "scan k st = st\<lparr>cs_scanned := cs_scanned st + int k\<rparr>"

lemma compact_settled_blocks:
  "list_all (settled_block env n) bs \<Longrightarrow>
   map_state (compact_block env n wd) bs (st, ev, w) = (bs, scan (length (results_of bs)) st, ev, w)"
proof (induction bs arbitrary: st)
  case (Cons b bs)
  then show ?case
    by (cases b) (auto simp: map_state.simps(2) compact_result_def scan_def Let_def algebra_simps)
qed (simp add: scan_def)

lemma compact_settled_entries:
  "list_all (\<lambda>e. list_all (settled_block env n) (e_content e)) es \<Longrightarrow>
   map_state (compact_entry env n wd) es (st, ev, w) =
     (es, scan (length (concat (map (\<lambda>e. results_of (e_content e)) es))) st, ev, w)"
proof (induction es arbitrary: st)
  case (Cons e es)
  then show ?case
    by (simp add: map_state.simps(2) compact_entry_def compact_settled_blocks) (simp add: scan_def algebra_simps)
qed (simp add: scan_def)

section \<open>Laws of the history file\<close>

lemma splitlines_clean: "l \<in> set (splitlines s) \<Longrightarrow> c \<in> set l \<Longrightarrow> \<not> line_break c"
proof (induction s arbitrary: l rule: splitlines.induct)
  case (2 d cs)
  show ?case
  proof (cases "line_break d")
    case False
    with "2.prems" "2.IH"(2) show ?thesis
      by (cases "splitlines cs") (simp, force)
  qed (use "2.prems" "2.IH"(1) in \<open>simp, fastforce\<close>)
qed simp

lemma splitlines_line: "\<forall>c\<in>set l. \<not> line_break c \<Longrightarrow> splitlines (l @ nl @ rest) = l # splitlines rest"
  by (induction l) (auto simp: nl_def line_break_def)

lemma splitlines_lines:
  "\<forall>l\<in>set ls. \<forall>c\<in>set l. \<not> line_break c \<Longrightarrow> splitlines (concat (map (\<lambda>l. l @ nl) ls)) = ls"
  by (induction ls) (auto simp: splitlines_line)

lemma join_nl: "ls \<noteq> [] \<Longrightarrow> join_str nl ls @ nl = concat (map (\<lambda>l. l @ nl) ls)"
  by (induction nl ls rule: join_str.induct) auto

text \<open>No control character survives in JSON text, so only U+0085 can end a line inside it.\<close>

definition visible :: "char \<Rightarrow> bool" where
  "visible c \<longleftrightarrow> 32 \<le> (of_char c :: nat)"

lemma visible_break: "visible c \<Longrightarrow> line_break c \<longleftrightarrow> c = CHR 0x85"
  by (auto simp: visible_def line_break_def)

lemma visible_digit: "n < 10 \<Longrightarrow> visible (digit_char n)"
  by (simp add: visible_def digit_char_def)

lemma visible_hex: "n < 16 \<Longrightarrow> visible (hex_digit n)"
  by (simp add: hex_digit_def visible_digit) (simp add: visible_def)

lemma visible_nat_str: "\<forall>c\<in>set (nat_str n). visible c"
proof (induction n rule: nat_str.induct)
  case (1 n)
  then show ?case by (subst nat_str.simps) (auto simp: visible_digit)
qed

lemma visible_int_str: "c \<in> set (int_str i) \<Longrightarrow> visible c"
  using visible_nat_str by (auto simp: int_str_def visible_def split: if_splits)

lemma visible_raw_char: "d \<in> set (raw_json_char c) \<Longrightarrow> visible d"
proof -
  have lt: "(of_char c :: nat) div 16 < 16" "(of_char c :: nat) mod 16 < 16"
    using nat_of_char_less_256 [of c] by (simp_all add: div_less_iff_less_mult)
  then show "d \<in> set (raw_json_char c) \<Longrightarrow> visible d"
    by (auto simp: raw_json_char_def json_char_def Let_def visible_hex split: if_splits)
      (auto simp: visible_def backslash_def dquote_def)
qed

lemma visible_raw_string: "d \<in> set (raw_json_string s) \<Longrightarrow> visible d"
  by (auto simp: raw_json_string_def dest: visible_raw_char) (auto simp: visible_def dquote_def)

lemma set_join_str: "set (join_str sep xs) \<subseteq> set sep \<union> (\<Union>x\<in>set xs. set x)"
  by (induction sep xs rule: join_str.induct) auto

lemma visible_join:
  assumes "\<And>x c. x \<in> set xs \<Longrightarrow> c \<in> set x \<Longrightarrow> visible c" "c \<in> set (join_str '', '' xs)"
  shows "visible c"
  using assms set_join_str [of "'', ''" xs] by (fastforce simp: visible_def)

lemma visible_json_null: "c \<in> set ''null'' \<Longrightarrow> visible c"
  by (auto simp: visible_def)

lemma visible_json_text: "(\<And>r c. c \<in> set (fr r) \<Longrightarrow> visible c) \<Longrightarrow> c \<in> set (json_text fr v) \<Longrightarrow> visible c"
proof (induction fr v arbitrary: c rule: json_text.induct)
  case (6 fr xs)
  from "6.prems"(2) consider "c = CHR ''[''" | "c = CHR '']''" | "c \<in> set (join_str '', '' (map (json_text fr) xs))"
    by auto
  then show ?case
  proof cases
    case 3
    show ?thesis by (rule visible_join [OF _ 3]) (use "6.IH" "6.prems"(1) in auto)
  qed (simp_all add: visible_def)
next
  case (7 fr d)
  let ?items = "map (\<lambda>(k, v). raw_json_string k @ '': '' @ json_text fr v) d"
  from "7.prems"(2) consider "c = CHR ''{''" | "c = CHR ''}''" | "c \<in> set (join_str '', '' ?items)"
    by auto
  then show ?case
  proof cases
    case 3
    have "visible e" if item: "x \<in> set ?items" and e: "e \<in> set x" for x e
    proof -
      from item obtain k v where kv: "(k, v) \<in> set d" "x = raw_json_string k @ '': '' @ json_text fr v"
        by auto
      have "visible e" if "e \<in> set (json_text fr v)"
        by (rule "7.IH" [OF kv(1) refl "7.prems"(1) that])
      with e kv(2) show ?thesis by (auto dest: visible_raw_string) (simp_all add: visible_def)
    qed
    then show ?thesis by (rule visible_join [OF _ 3])
  qed (simp_all add: visible_def)
next
  case (2 fr b)
  then show ?case by (cases b) (auto simp: visible_def)
qed (auto simp: visible_json_null dest: visible_int_str visible_raw_string)

section \<open>Laws of the expiry marks\<close>

text \<open>The manifests that the walk visits, and what a manifest must say after it.\<close>

fun manifests :: "py \<Rightarrow> dict list" where
  "manifests (PDict d) = (if is_manifest_dict d then [d] else concat (map (\<lambda>(_, v). manifests v) d))"
| "manifests (PList xs) = concat (map manifests xs)"
| "manifests _ = []"

definition state_accurate :: "(string \<Rightarrow> bool) \<Rightarrow> dict \<Rightarrow> bool" where
  "state_accurate present m \<longleftrightarrow>
     (\<forall>p. dget m ''spill_path'' = Some (PStr p) \<longrightarrow> p \<noteq> [] \<longrightarrow>
        dget m ''artifact_state'' = Some (PStr (if present p then ''available'' else ''expired'')) \<and>
        (\<not> present p \<longrightarrow> dget m ''warning'' = Some (PStr expired_warning) \<and> dhas m ''artifact_expired_at''))"

lemma is_manifest_cong:
  "(\<And>k. k \<notin> {''artifact_state'', ''artifact_expired_at'', ''warning'', ''artifact_lifetime''} \<Longrightarrow> dget m k = dget d k) \<Longrightarrow>
   is_manifest_dict m = is_manifest_dict d"
  by (simp add: is_manifest_dict_def has_str_def has_int_def dhas_iff)

lemma dhas_dput [simp]: "dhas (dput k v d) j \<longleftrightarrow> j = k \<or> dhas d j"
  by (simp add: dhas_iff)

lemma dhas_dpop [simp]: "dhas (dpop k d) j \<longleftrightarrow> j \<noteq> k \<and> dhas d j"
  by (simp add: dhas_iff)

lemma mark_present_frame:
  "k \<notin> {''artifact_state'', ''artifact_expired_at''} \<Longrightarrow> dget (fst (mark_present m c)) k = dget m k"
  by (simp add: mark_present_def)

lemma mark_missing_frame:
  "k \<notin> {''artifact_state'', ''artifact_expired_at'', ''warning''} \<Longrightarrow> dget (fst (mark_missing now m c)) k = dget m k"
  by (simp add: mark_missing_def Let_def)

lemma mark_present_twice [simp]:
  "mark_present (fst (mark_present m c)) e = (fst (mark_present m c), e, 0)"
  by (simp add: mark_present_def)

lemma mark_missing_state:
  "dget (fst (mark_missing now m c)) ''artifact_state'' = Some (PStr ''expired'')"
  "dget (fst (mark_missing now m c)) ''warning'' = Some (PStr expired_warning)"
  "dhas (fst (mark_missing now m c)) ''artifact_expired_at''"
  by (auto simp: mark_missing_def Let_def)

lemma mark_present_state: "dget (fst (mark_present m c)) ''artifact_state'' = Some (PStr ''available'')"
  by (simp add: mark_present_def)

lemma mark_missing_twice [simp]:
  "mark_missing now' (fst (mark_missing now m c)) e = (fst (mark_missing now m c), e, 0)"
proof -
  have "mark_missing now' d e = (d, e, 0)"
    if "dget d ''artifact_state'' = Some (PStr ''expired'')" "dget d ''warning'' = Some (PStr expired_warning)"
      "dhas d ''artifact_expired_at''" for d
    using that by (simp add: mark_missing_def)
  then show ?thesis using mark_missing_state by blast
qed

lemma mark_manifest_fst:
  assumes "mark_manifest present now m = Inr (m', c, n)"
  shows "is_manifest_dict m' = is_manifest_dict m" "dget m' ''spill_path'' = dget m ''spill_path''"
    "state_accurate present m'" "mark_manifest present now' m' = Inr (m', False, 0)"
proof -
  let ?l = "if dhas m ''artifact_lifetime'' then (m, False)
            else (dput ''artifact_lifetime'' (PStr ''ephemeral_tmp'') m, True)"
  let ?r = "\<lambda>p. if present p then mark_present (fst ?l) (snd ?l) else mark_missing now (fst ?l) (snd ?l)"
  consider "\<not> truthy (dgetd m ''spill_path'' PNone)" "m' = m"
    | p where "dget m ''spill_path'' = Some (PStr p)" "p \<noteq> []" "m' = fst (?r p)"
  proof (cases "truthy (dgetd m ''spill_path'' PNone)")
    case True
    then obtain v where v: "dget m ''spill_path'' = Some v" "truthy v" by (auto simp: dgetd_def split: option.splits)
    with assms obtain p where p: "v = PStr p" by (cases v) (auto simp: mark_manifest_def dgetd_def)
    with v assms have "Inr (m', c, n) = (Inr (?r p) :: exc + dict \<times> bool \<times> int)"
      by (simp add: mark_manifest_def dgetd_def Let_def split_beta)
    then have "m' = fst (?r p)" by (metis fst_conv sum.inject(2))
    with v p show ?thesis by (intro that(2)) simp_all
  next
    case False
    with assms have "Inr (m', c, n) = (Inr (m, False, 0) :: exc + dict \<times> bool \<times> int)"
      unfolding mark_manifest_def Let_def by argo
    then have "m' = m" by blast
    with False show ?thesis by (rule that(1))
  qed
  then have "is_manifest_dict m' = is_manifest_dict m \<and> dget m' ''spill_path'' = dget m ''spill_path'' \<and>
    state_accurate present m' \<and> mark_manifest present now' m' = Inr (m', False, 0)"
  proof cases
    case 1
    then show ?thesis by (auto simp: mark_manifest_def state_accurate_def dgetd_def)
  next
    case 2
    have l: "dget (fst ?l) k = dget m k" if "k \<noteq> ''artifact_lifetime''" for k using that by simp
    have life: "dhas (fst ?l) ''artifact_lifetime''" by simp
    have frame: "dget m' k = dget m k"
      if "k \<notin> {''artifact_state'', ''artifact_expired_at'', ''warning'', ''artifact_lifetime''}" for k
      using that l by (simp add: 2(3) mark_present_frame mark_missing_frame)
    have sp: "dget m' ''spill_path'' = Some (PStr p)" by (simp add: frame 2(1))
    have life': "dhas m' ''artifact_lifetime''"
      using life by (simp add: 2(3) dhas_iff mark_present_frame mark_missing_frame)
    have "mark_manifest present now' m' = Inr (m', False, 0)"
    proof -
      have "(if present p then mark_present m' False else mark_missing now' m' False) = (m', False, 0)"
        unfolding 2(3) by simp
      with sp 2(2) life' show ?thesis by (simp add: mark_manifest_def dgetd_def)
    qed
    moreover have "state_accurate present m'"
      unfolding state_accurate_def sp by (simp add: 2(3) mark_missing_state mark_present_state)
    moreover have "is_manifest_dict m' = is_manifest_dict m" by (rule is_manifest_cong) (rule frame)
    ultimately show ?thesis by (simp add: sp 2(1))
  qed
  then show "is_manifest_dict m' = is_manifest_dict m" "dget m' ''spill_path'' = dget m ''spill_path''"
    "state_accurate present m'" "mark_manifest present now' m' = Inr (m', False, 0)" by simp_all
qed

text \<open>The walk replaces containers by containers and leaves every scalar alone.\<close>

fun container :: "py \<Rightarrow> bool" where
  "container (PDict _) = True"
| "container (PList _) = True"
| "container _ = False"

definition same_scalar :: "py \<Rightarrow> py \<Rightarrow> bool" where
  "same_scalar v v' \<longleftrightarrow> v' = v \<or> container v \<and> container v'"

lemma walk_same_scalar: "walk_manifests present now v = Inr (v', c, n) \<Longrightarrow> same_scalar v v'"
  by (cases v) (auto simp: same_scalar_def split: if_splits dest!: ebind_eq_InrD)

lemma same_scalar_get:
  assumes "list_all2 (\<lambda>(k, v) (k', v'). k' = k \<and> same_scalar v v') d d'"
  shows "rel_option same_scalar (dget d k) (dget d' k)"
  using assms by (induction rule: list_all2_induct) auto

lemma is_manifest_same_scalar:
  assumes "list_all2 (\<lambda>(k, v) (k', v'). k' = k \<and> same_scalar v v') d d'"
  shows "is_manifest_dict d' = is_manifest_dict d"
proof -
  have get: "dget d' k = Some (PStr s) \<longleftrightarrow> dget d k = Some (PStr s)" "has_str d' k = has_str d k"
    "has_int d' k = has_int d k" "dhas d' k = dhas d k" for k s
    using same_scalar_get [OF assms, of k]
    by (auto simp: same_scalar_def has_str_def has_int_def dhas_iff option_rel_Some1 split: option.splits py.splits
        elim!: option.rel_cases)
  show ?thesis by (simp add: is_manifest_dict_def get)
qed

lemma walk_dict:
  assumes "\<not> is_manifest_dict d" "walk_manifests present now (PDict d) = Inr (v', c, n)"
  obtains rs where "v' = PDict (map (\<lambda>(k, v, _). (k, v)) rs)"
    "list_all2 (\<lambda>(k, v) (k', v', c, n). k' = k \<and> walk_manifests present now v = Inr (v', c, n)) d rs"
proof -
  from assms obtain rs where
    "emap (\<lambda>(k, v). ebind (walk_manifests present now v) (\<lambda>(v', c, n). Inr (k, v', c, n))) d = Inr rs"
    and "v' = PDict (map (\<lambda>(k, v, _). (k, v)) rs)"
    by (auto dest!: ebind_eq_InrD)
  then show ?thesis
  proof (intro that [of rs])
    assume em: "emap (\<lambda>(k, v). ebind (walk_manifests present now v) (\<lambda>(v', c, n). Inr (k, v', c, n))) d = Inr rs"
    show "list_all2 (\<lambda>(k, v) (k', v', c, n). k' = k \<and> walk_manifests present now v = Inr (v', c, n)) d rs"
    proof (rule list_all2_mono [OF emap_list_all2 [OF em]])
      fix x y
      assume "(case x of (k, v) \<Rightarrow> ebind (walk_manifests present now v) (\<lambda>(v', c, n). Inr (k, v', c, n))) = Inr y"
      then show "(case x of (k, v) \<Rightarrow> \<lambda>(k', v', c, n). k' = k \<and> walk_manifests present now v = Inr (v', c, n)) y"
        by (cases x; cases "walk_manifests present now (snd x)") auto
    qed
  qed simp
qed

lemma walk_settles:
  "walk_manifests present now v = Inr (v', c, n) \<Longrightarrow>
   walk_manifests present now' v' = Inr (v', False, 0) \<and> (\<forall>m\<in>set (manifests v'). state_accurate present m)"
proof (induction present now v arbitrary: v' c n rule: walk_manifests.induct)
  case (1 present now d)
  show ?case
  proof (cases "is_manifest_dict d")
    case True
    with "1.prems" obtain d' where "mark_manifest present now d = Inr (d', c, n)" "v' = PDict d'"
      by (auto dest!: ebind_eq_InrD)
    with mark_manifest_fst [OF this(1)] True show ?thesis by simp
  next
    case False
    obtain rs where v': "v' = PDict (map (\<lambda>(k, v, _). (k, v)) rs)"
      and rs: "list_all2 (\<lambda>(k, v) (k', v', c, n). k' = k \<and> walk_manifests present now v = Inr (v', c, n)) d rs"
      by (rule walk_dict [OF False "1.prems"])
    have each: "walk_manifests present now' u = Inr (u, False, 0) \<and> (\<forall>m\<in>set (manifests u). state_accurate present m)"
      if "(k, u, c, n) \<in> set rs" for k u c n
    proof -
      from list_all2_image [OF rs that] obtain v where "(k, v) \<in> set d" "walk_manifests present now v = Inr (u, c, n)"
        by auto
      with "1.IH" [OF False] show ?thesis by blast
    qed
    let ?d = "map (\<lambda>(k, v, _). (k, v)) rs"
    have "is_manifest_dict ?d = is_manifest_dict d"
      by (rule is_manifest_same_scalar)
        (use rs in \<open>auto simp: list.rel_map elim!: list_all2_mono dest: walk_same_scalar split: prod.splits\<close>)
    moreover have "emap (\<lambda>(k, v). ebind (walk_manifests present now' v) (\<lambda>(v', c, n). Inr (k, v', c, n))) ?d =
        Inr (map (\<lambda>(k, v). (k, v, False, 0 :: int)) ?d)"
      by (rule emap_map_Inr) (use each in auto)
    ultimately show ?thesis using False each
      by (auto simp: v' comp_def split_beta list_ex_iff sum_list_0)
  qed
next
  case (2 present now xs)
  from "2.prems" obtain rs where em: "emap (walk_manifests present now) xs = Inr rs" and v': "v' = PList (map fst rs)"
    by (auto dest!: ebind_eq_InrD)
  have each: "walk_manifests present now' u = Inr (u, False, 0) \<and> (\<forall>m\<in>set (manifests u). state_accurate present m)"
    if "u \<in> set (map fst rs)" for u
  proof -
    from that obtain e where "(u, e) \<in> set rs" by auto
    from list_all2_image [OF emap_list_all2 [OF em] this] obtain v where
      "v \<in> set xs" "walk_manifests present now v = Inr (u, e)" by blast
    with "2.IH" show ?thesis by (cases e) blast
  qed
  have "emap (walk_manifests present now') (map fst rs) = Inr (map (\<lambda>u. (u, False, 0 :: int)) (map fst rs))"
    by (rule emap_map_Inr) (use each in auto)
  then show ?case using each by (auto simp: v' comp_def list_ex_iff)
qed auto

section \<open>Properties\<close>

lemma compaction_es:
  assumes "compact_oversized_history env n wd c w = (c', ps)"
  shows "c' = c\<lparr>entries := entries c'\<rparr>" "list_all2 (compacted_entry (se_float env)) (entries c) (entries c')"
    "0 < n \<Longrightarrow> list_all (\<lambda>e. list_all (settled_block env n) (e_content e)) (entries c')"
proof -
  let ?es = "fst (map_state (compact_entry env n wd) (entries c) (init_stats, [], w))"
  have c': "c' = c\<lparr>entries := ?es\<rparr>"
    using assms by (auto simp: compact_oversized_history_def split: prod.splits)
  then show "c' = c\<lparr>entries := entries c'\<rparr>" by simp
  show "list_all2 (compacted_entry (se_float env)) (entries c) (entries c')"
    by (simp add: c' list_all2_map_state compact_entry_compacted)
  show "list_all (\<lambda>e. list_all (settled_block env n) (e_content e)) (entries c')" if "0 < n"
    using compact_entry_settled [OF that, of env wd] by (fastforce simp: c' list_all_iff dest!: map_state_set)
qed

text \<open>C25: compacting a conversation before a retry is safe and idempotent. It changes nothing but the
  contents of tool results: every entry keeps its id, role and place, every block its call id, name and
  flags, and a changed content is a manifest that records the length of what it replaced. The entry-id
  order and the pairing of calls with results therefore survive, and a second pass, whatever the world it
  runs in, finds nothing to do: it writes no file, logs nothing and leaves the conversation as it is.\<close>

theorem compaction_safe_and_idempotent:
  assumes "0 < max_chars" and "compact_oversized_history env max_chars wd c w = (c', st, events, w')"
  shows "list_all2 (compacted_entry (se_float env)) (entries c) (entries c') \<and>
    (ids_ok c \<longrightarrow> ids_ok c') \<and> (wire_ok c \<longrightarrow> wire_ok c') \<and>
    (\<exists>st'. compact_oversized_history env max_chars wd' c' v = (c', st', [], v) \<and> cs_compacted st' = 0)"
proof -
  note es = compaction_es [OF assms(2)]
  have "map shape (entries c') = map shape (entries c) \<and> map e_id (entries c') = map e_id (entries c)"
    using es(2) by (induction rule: list_all2_induct) (auto dest: compacted_entry_shape)
  moreover have "next_id c' = next_id c" by (subst es(1)) simp
  ultimately have "ids_ok c \<Longrightarrow> ids_ok c'" "wire_ok c \<Longrightarrow> wire_ok c'"
    by (auto intro: ids_ok_same simp: wire_ok_def dest: well_paired_shape)
  moreover have "compact_oversized_history env max_chars wd' c' v =
      (c', scan (length (concat (map (\<lambda>e. results_of (e_content e)) (entries c')))) init_stats, [], v)"
    by (simp add: compact_oversized_history_def compact_settled_entries [OF es(3) [OF assms(1)]])
  ultimately show ?thesis using es(2) by (simp add: scan_def init_stats_def)
qed

definition sample_env :: "nat spill_env" where
  "sample_env = \<lparr>se_float = (\<lambda>_. ''0.0''), se_stamp = (\<lambda>_. ''20260101T000000''), se_iso = (\<lambda>_. ''2026-01-01''),
     se_hex = (\<lambda>k w. (replicate k (CHR ''a''), w + 1)), se_write = (\<lambda>_ _ w. (None, w)),
     se_resolve = path_str, se_redact = id\<rparr>"

definition sample_big :: chat where
  "sample_big = snd (add_tool_results 1 [\<lparr>tr_id = ''t1'', tr_name = ''read'', tr_content = PStr ''0123456789'',
     tr_metadata = [], tr_synthesized = False, tr_agent_pending = None\<rparr>] init_chat)"

lemma compaction_safe_and_idempotent_witness:
  "\<exists>c' ps st'. compact_oversized_history sample_env 5 (Some [''w'']) sample_big 0 = (c', ps) \<and> ids_ok c' \<and>
     compact_oversized_history sample_env 5 None c' 7 = (c', st', [], 7) \<and> cs_compacted st' = 0"
proof -
  obtain c' st events w' where
    r: "compact_oversized_history sample_env 5 (Some [''w'']) sample_big 0 = (c', st, events, w')"
    by (metis prod_cases4)
  have "ids_ok sample_big"
    unfolding sample_big_def by (rule ids_add_tool_results) (simp add: ids_ok_def init_chat_def)
  with compaction_safe_and_idempotent [OF _ r, of None 7] r show ?thesis by auto
qed



text \<open>after the restart walk over a history entry every spilled result it contains says truthfully
  whether its file is still there (and carries the warning and an expiry time when it is not), and a second
  walk over the same files changes nothing and reports no newly expired result.\<close>

theorem expiry_walk_truthful:
  assumes "walk_manifests present now v = Inr (v', changed, n)"
  shows "(\<forall>m\<in>set (manifests v'). state_accurate present m) \<and>
    walk_manifests present later v' = Inr (v', False, 0)"
  using walk_settles [OF assms, of later] by blast

lemma expiry_walk_truthful_witness:
  "\<exists>v'. walk_manifests (\<lambda>_. False) ''now'' (PList [PDict [(''status'', PStr ''spilled''), (''spill_path'', PStr ''a''),
      (''artifact'', PStr ARTIFACT_MARKER)]]) = Inr (v', True, 1) \<and>
    walk_manifests (\<lambda>_. False) ''later'' v' = Inr (v', False, 0)"
proof -
  let ?v = "PList [PDict [(''status'', PStr ''spilled''), (''spill_path'', PStr ''a''), (''artifact'', PStr ARTIFACT_MARKER)]]"
  obtain v' where r: "walk_manifests (\<lambda>_. False) ''now'' ?v = Inr (v', True, 1)"
    by (simp add: is_manifest_dict_def dhas_def mark_manifest_def dgetd_def mark_missing_def)
  with expiry_walk_truthful [OF r, of "''later''"] show ?thesis by blast
qed

section \<open>Where the code does something else\<close>

text \<open>A sidecar that comes back turns its manifest available again, but the warning still says expired.\<close>

lemma reappeared_artifact_keeps_warning:
  assumes "dget m ''artifact_state'' = Some (PStr ''expired'')" "dget m ''spill_path'' = Some (PStr p)" "p \<noteq> []"
    "present p" "mark_manifest present now m = Inr (m', c, n)"
  shows "dget m' ''artifact_state'' = Some (PStr ''available'') \<and> dget m' ''warning'' = dget m ''warning''"
  using assms by (auto simp: mark_manifest_def mark_present_def dgetd_def Let_def split: if_splits)

text \<open>Without a working directory the pass is no no-op: an oversized result loses its content.\<close>

lemma compaction_without_workdir_loses_content:
  assumes "0 < n" "oversized env n (tr_content r)"
  shows "\<exists>m. tr_content (fst (compact_result env n None r (st, ev, w))) = PDict m \<and> is_manifest_dict m \<and>
    dget m ''spill_path'' = Some PNone"
proof -
  let ?s = "spill_oversized_result env (retro_request n None r) (tr_content r) w"
  have "fst ?s \<noteq> None" using assms by (simp add: spill_None_iff oversized_def retro_request_def)
  then obtain m where m: "fst ?s = Some m" by blast
  then have s: "?s = (Some m, snd ?s)" by (simp add: prod_eq_iff)
  have "dget m ''spill_path'' = Some PNone"
    using s assms(1) spill_SomeD(2,3) [OF s]
    by (auto simp: spill_oversized_result_def Let_def retro_request_def spill_manifest_fields spill_manifest_core
        split: prod.splits)
  with spill_SomeD(4) [OF s] m assms(2) show ?thesis
    by (auto simp: compact_result_def Let_def split: prod.splits)
qed

end
