(* ===== verification/Tool_Guard.thy ===== *)
theory Tool_Guard
  imports Prelude
begin

text \<open>
  The guard chain that a proposed tool call passes before dispatch (\<^verbatim>\<open>kernel/tool_call_guard.py\<close>),
  the turn-scoped permission broker (\<^verbatim>\<open>kernel/turn_permissions.py\<close>) and the committed-results
  notification (\<^verbatim>\<open>kernel/turn_events.py\<close>). The locale \<open>gate_check\<close> is the contract of a check that
  guards something; the broker check interprets it here and the risky-action check elsewhere.
\<close>

section \<open>Proposals and decisions\<close>

record proposal =
  pr_tool_name :: string
  pr_tool_args :: dict
  pr_tool_call_id :: "string option"
  pr_tool_trace_id :: "string option"
  pr_context :: dict

definition opt_str :: "string option \<Rightarrow> py" where
  "opt_str s = (case s of None \<Rightarrow> PNone | Some t \<Rightarrow> PStr t)"

definition proposal_payload :: "proposal \<Rightarrow> dict" where
  "proposal_payload p =
     [(''tool_name'', PStr (pr_tool_name p)), (''tool_args'', PDict (pr_tool_args p)),
      (''tool_call_id'', opt_str (pr_tool_call_id p)), (''tool_trace_id'', opt_str (pr_tool_trace_id p)),
      (''context'', PDict (pr_context p))]"

record guard_decision =
  gd_allowed :: bool
  gd_check_name :: string
  gd_reason :: string
  gd_action :: string
  gd_severity :: string
  gd_metadata :: dict
  gd_checks :: "dict list"

definition allow_decision :: "string \<Rightarrow> string \<Rightarrow> string \<Rightarrow> string \<Rightarrow> dict \<Rightarrow> guard_decision" where
  "allow_decision name reason action severity meta =
     \<lparr>gd_allowed = True, gd_check_name = name, gd_reason = reason, gd_action = action, gd_severity = severity,
      gd_metadata = meta, gd_checks = []\<rparr>"

definition deny_decision :: "string \<Rightarrow> string \<Rightarrow> string \<Rightarrow> string \<Rightarrow> dict \<Rightarrow> guard_decision" where
  "deny_decision name reason action severity meta =
     \<lparr>gd_allowed = False, gd_check_name = name, gd_reason = reason, gd_action = action, gd_severity = severity,
      gd_metadata = meta, gd_checks = []\<rparr>"

definition default_allow :: guard_decision where
  "default_allow = allow_decision ''default_allow'' '''' ''allow'' ''info'' []"

definition allow_named :: "string \<Rightarrow> guard_decision" where
  "allow_named name = allow_decision name '''' ''allow'' ''info'' []"

definition approval_mode :: "guard_decision \<Rightarrow> string" where
  "approval_mode d =
     (if gd_check_name d = ''default_allow'' \<and> gd_allowed d \<and> gd_action d = ''allow'' then ''pass_through''
      else ''guard'')"

definition is_structured :: "guard_decision \<Rightarrow> bool" where
  "is_structured d \<longleftrightarrow>
     \<not> (gd_allowed d \<and> gd_check_name d = ''default_allow'' \<and> gd_action d = ''allow'' \<and> gd_reason d = [] \<and>
        gd_metadata d = [] \<and> gd_checks d = [])"

definition decision_payload :: "guard_decision \<Rightarrow> proposal option \<Rightarrow> dict" where
  "decision_payload d p =
     [(''allowed'', PBool (gd_allowed d)), (''check_name'', PStr (gd_check_name d)),
      (''reason'', PStr (gd_reason d)), (''action'', PStr (gd_action d)), (''severity'', PStr (gd_severity d)),
      (''metadata'', PDict (gd_metadata d)), (''checks'', PList (map PDict (gd_checks d)))]
     @ (case p of None \<Rightarrow> [] | Some q \<Rightarrow> [(''proposal'', PDict (proposal_payload q))])"

definition guard_advisory :: "guard_decision \<Rightarrow> proposal option \<Rightarrow> dict option" where
  "guard_advisory d p =
     (if gd_allowed d \<and> gd_action d = ''allow'' \<and> gd_severity d \<notin> {''warning'', ''error''} then None
      else Some (dput ''message'' (PStr (gd_reason d))
             (dput ''type'' (PStr ''tool_call_guard'') (decision_payload d p))))"

section \<open>The chain\<close>

text \<open>What a check returns, and a check with its \<^verbatim>\<open>__name__\<close>.\<close>

datatype guard_raw = RDecision guard_decision | RBool bool | RNone

type_synonym guard_check = "string option \<times> (proposal \<Rightarrow> exc + guard_raw)"

fun exc_type :: "exc \<Rightarrow> string" where
  "exc_type (ValueError _) = ''ValueError''"
| "exc_type (TypeError _) = ''TypeError''"
| "exc_type (KeyError _) = ''KeyError''"
| "exc_type (AttributeError _) = ''AttributeError''"
| "exc_type (RuntimeError _) = ''RuntimeError''"
| "exc_type (PermissionError _) = ''PermissionError''"
| "exc_type PendingToolCallsError = ''PendingToolCallsError''"
| "exc_type IndexError = ''IndexError''"
| "exc_type (OSError _) = ''OSError''"
| "exc_type (OtherException n _) = n"
| "exc_type (IllTyped _) = ''TypeError''"

fun exc_text :: "exc \<Rightarrow> string" where
  "exc_text (KeyError k) = str_repr k"
| "exc_text (ValueError s) = s"
| "exc_text (TypeError s) = s"
| "exc_text (AttributeError s) = s"
| "exc_text (RuntimeError s) = s"
| "exc_text (PermissionError s) = s"
| "exc_text PendingToolCallsError = ''''"
| "exc_text IndexError = ''list index out of range''"
| "exc_text (OSError s) = s"
| "exc_text (OtherException _ s) = s"
| "exc_text (IllTyped s) = s"

definition check_name :: "string option \<Rightarrow> nat \<Rightarrow> string" where
  "check_name n index =
     (case n of Some s \<Rightarrow> if s \<noteq> [] then s else ''check_'' @ nat_str index | None \<Rightarrow> ''check_'' @ nat_str index)"

definition check_exception_decision :: "string option \<Rightarrow> nat \<Rightarrow> exc \<Rightarrow> guard_decision" where
  "check_exception_decision n index e =
     (let name = check_name n index
      in deny_decision name
           (''Tool-call guard check '' @ name @ '' raised '' @ exc_type e @ '': '' @ exc_text e)
           ''deny'' ''error'' [(''exception_type'', PStr (exc_type e))])"

definition coerce_decision :: "string option \<Rightarrow> nat \<Rightarrow> guard_raw \<Rightarrow> guard_decision" where
  "coerce_decision n index raw =
     (case raw of
        RDecision d \<Rightarrow> d
      | RBool False \<Rightarrow>
          deny_decision (check_name n index) (''Tool call denied by guard check '' @ check_name n index)
            ''deny'' ''error'' []
      | _ \<Rightarrow> allow_named (check_name n index))"

definition run_check :: "proposal \<Rightarrow> nat \<Rightarrow> guard_check \<Rightarrow> guard_decision" where
  "run_check p index c =
     (case snd c p of
        Inl e \<Rightarrow> check_exception_decision (fst c) index e
      | Inr raw \<Rightarrow> coerce_decision (fst c) index raw)"

definition raises_strength :: "guard_decision \<Rightarrow> bool" where
  "raises_strength d \<longleftrightarrow> gd_action d \<noteq> ''allow'' \<or> gd_severity d \<in> {''warning'', ''error''}"

fun evaluate_from :: "proposal \<Rightarrow> nat \<Rightarrow> dict list \<Rightarrow> guard_decision \<Rightarrow> guard_check list \<Rightarrow> guard_decision" where
  "evaluate_from p index payloads strongest [] =
     (if payloads \<noteq> [] \<and> gd_check_name strongest \<noteq> ''default_allow''
      then strongest\<lparr>gd_allowed := True, gd_checks := payloads\<rparr> else default_allow)"
| "evaluate_from p index payloads strongest (c # cs) =
     (let d = run_check p index c;
          payloads' = payloads @ [decision_payload d None]
      in if \<not> gd_allowed d then d\<lparr>gd_allowed := False, gd_checks := payloads'\<rparr>
         else evaluate_from p (index + 1) payloads' (if raises_strength d then d else strongest) cs)"

definition evaluate :: "guard_check list \<Rightarrow> proposal \<Rightarrow> guard_decision" where
  "evaluate cs p = evaluate_from p 0 [] default_allow cs"

section \<open>What the chain guarantees\<close>

text \<open>The verdict of one check, without its wording.\<close>

definition grants :: "proposal \<Rightarrow> guard_check \<Rightarrow> bool" where
  "grants p c \<longleftrightarrow>
     (case snd c p of
        Inl _ \<Rightarrow> False
      | Inr (RDecision d) \<Rightarrow> gd_allowed d
      | Inr (RBool b) \<Rightarrow> b
      | Inr RNone \<Rightarrow> True)"

lemma run_check_allowed [simp]: "gd_allowed (run_check p index c) \<longleftrightarrow> grants p c"
  by (auto simp: run_check_def grants_def check_exception_decision_def coerce_decision_def deny_decision_def
      allow_decision_def allow_named_def Let_def split: sum.splits guard_raw.splits bool.splits)

lemma evaluate_from_allowed: "gd_allowed (evaluate_from p index payloads strongest cs) \<longleftrightarrow> list_all (grants p) cs"
  by (induction p index payloads strongest cs rule: evaluate_from.induct)
    (auto simp: Let_def default_allow_def allow_decision_def)

lemma evaluate_from_denied:
  "\<not> grants p c \<Longrightarrow> list_all (grants p) cs \<Longrightarrow>
   evaluate_from p index payloads strongest (cs @ c # ds) =
     (let d = run_check p (index + length cs) c
      in d\<lparr>gd_checks := payloads @ map (\<lambda>(i, c). decision_payload (run_check p i c) None) (enumerate index (cs @ [c]))\<rparr>)"
proof (induction cs arbitrary: index payloads strongest)
  case Nil
  then have "\<not> gd_allowed (run_check p index c)" by simp
  then show ?case
    by (cases "run_check p index c") (simp add: Let_def)
next
  case (Cons c' cs)
  then show ?case by (simp add: Let_def)
qed

text \<open>
  A check that gates something: it always answers with a decision (or raises), and an allowing
  decision means that what it guards was granted.
\<close>

locale gate_check =
  fixes check :: "proposal \<Rightarrow> exc + guard_raw" and granted :: "proposal \<Rightarrow> bool"
  assumes decides: "check p = Inr raw \<Longrightarrow> \<exists>d. raw = RDecision d"
    and sound: "check p = Inr (RDecision d) \<Longrightarrow> gd_allowed d \<Longrightarrow> granted p"
begin

lemma grants_granted: "grants p (n, check) \<Longrightarrow> granted p"
  by (auto simp: grants_def split: sum.splits guard_raw.splits dest: decides sound)

lemma chain_granted:
  "(n, check) \<in> set cs \<Longrightarrow> gd_allowed (evaluate cs p) \<Longrightarrow> granted p"
  using grants_granted by (auto simp: evaluate_def evaluate_from_allowed list_all_iff)

end

section \<open>The permission broker\<close>

datatype permission_decision = Permit | Refuse

record permission_request =
  rq_tool_call_id :: string
  rq_tool_name :: string

text \<open>What a broker hands back: one of the two values, or anything else.\<close>

type_synonym broker = "permission_request \<Rightarrow> exc + permission_decision option"

definition or_else :: "string option \<Rightarrow> string option \<Rightarrow> string" where
  "or_else a b =
     (case a of Some s \<Rightarrow> if s \<noteq> [] then s else (case b of Some t \<Rightarrow> t | None \<Rightarrow> '''')
      | None \<Rightarrow> (case b of Some t \<Rightarrow> t | None \<Rightarrow> ''''))"

definition broker_permission_check :: "broker option \<Rightarrow> proposal \<Rightarrow> guard_decision" where
  "broker_permission_check current p =
     (case current of
        None \<Rightarrow> default_allow
      | Some b \<Rightarrow>
          let result = (case b \<lparr>rq_tool_call_id = or_else (pr_tool_trace_id p) (pr_tool_call_id p),
                                rq_tool_name = pr_tool_name p\<rparr> of
                          Inl _ \<Rightarrow> Some Refuse | Inr r \<Rightarrow> r)
          in if result = Some Permit then allow_named ''turn_permission_broker''
             else deny_decision ''turn_permission_broker'' ''tool permission was not granted'' ''deny'' ''error'' [])"

definition broker_grants :: "broker option \<Rightarrow> proposal \<Rightarrow> bool" where
  "broker_grants current p \<longleftrightarrow>
     (case current of
        None \<Rightarrow> True
      | Some b \<Rightarrow> b \<lparr>rq_tool_call_id = or_else (pr_tool_trace_id p) (pr_tool_call_id p),
                     rq_tool_name = pr_tool_name p\<rparr> = Inr (Some Permit))"

interpretation broker_gate: gate_check "\<lambda>p. Inr (RDecision (broker_permission_check current p))" "broker_grants current"
  for current
  by unfold_locales
    (auto simp: broker_permission_check_def broker_grants_def deny_decision_def Let_def
      split: option.splits if_splits sum.splits)

section \<open>Committed tool results\<close>

record committed_event =
  ev_tool_call_id :: string
  ev_binding :: string

text \<open>An observer's handler for the committed fact, when it defines one; it may raise.\<close>

type_synonym committed_handler = "committed_event \<Rightarrow> exc option"

definition notify_tool_results_committed :: "committed_handler option option \<Rightarrow> committed_event \<Rightarrow> bool" where
  "notify_tool_results_committed observer ev =
     (case observer of
        None \<Rightarrow> False
      | Some None \<Rightarrow> False
      | Some (Some h) \<Rightarrow> (case h ev of Some _ \<Rightarrow> False | None \<Rightarrow> True))"

section \<open>Properties\<close>

text \<open>the guard chain fails closed and names the denial. A call is allowed exactly when every check
  granted it (no check raised, answered False or denied). Otherwise the result is the decision of the
  first check that did not grant it, and its audit trail lists that check and the ones before it, in
  order and nothing after.\<close>

theorem guard_chain_verdict:
  "(gd_allowed (evaluate cs p) \<longleftrightarrow> (\<forall>c\<in>set cs. grants p c)) \<and>
   (\<forall>pre c post. cs = pre @ c # post \<longrightarrow> (\<forall>c\<in>set pre. grants p c) \<longrightarrow> \<not> grants p c \<longrightarrow>
      evaluate cs p = (run_check p (length pre) c)\<lparr>gd_checks :=
        map (\<lambda>(i, c). decision_payload (run_check p i c) None) (enumerate 0 (pre @ [c]))\<rparr>)"
proof -
  have "evaluate (pre @ c # post) p = (run_check p (length pre) c)\<lparr>gd_checks :=
      map (\<lambda>(i, c). decision_payload (run_check p i c) None) (enumerate 0 (pre @ [c]))\<rparr>"
    if "\<forall>c\<in>set pre. grants p c" "\<not> grants p c" for pre c post
    using evaluate_from_denied [of p c pre 0 "[]" default_allow post] that
    by (simp add: evaluate_def list_all_iff Let_def)
  then show ?thesis by (auto simp: evaluate_def evaluate_from_allowed list_all_iff)
qed

lemma guard_chain_verdict_witness:
  "\<not> gd_allowed (evaluate [(None, \<lambda>_. Inr RNone), (Some ''boom'', \<lambda>_. Inl (RuntimeError ''x'')), (None, \<lambda>_. Inr (RBool False))]
     \<lparr>pr_tool_name = ''shell'', pr_tool_args = [], pr_tool_call_id = None, pr_tool_trace_id = None, pr_context = []\<rparr>)"
  by (subst guard_chain_verdict [THEN conjunct1]) (simp add: grants_def)

text \<open>the turn's permission broker cannot be bypassed. In any guard chain that contains the broker check, a
  call is allowed only if no broker is bound or the broker answered the request of this very call with
  the exact permit value; a broker that raises or answers anything else blocks the call.\<close>

theorem broker_fails_closed:
  assumes "(n, \<lambda>p. Inr (RDecision (broker_permission_check current p))) \<in> set cs"
    and "gd_allowed (evaluate cs p)"
  shows "broker_grants current p"
  using assms by (rule broker_gate.chain_granted)

lemma broker_fails_closed_witness:
  "broker_grants (Some (\<lambda>_. Inr (Some Permit)))
     \<lparr>pr_tool_name = ''shell'', pr_tool_args = [], pr_tool_call_id = Some ''a'', pr_tool_trace_id = None, pr_context = []\<rparr>"
  by (rule broker_fails_closed [of None _ "[(None, \<lambda>p. Inr (RDecision (broker_permission_check (Some (\<lambda>_. Inr (Some Permit))) p)))]"])
    (simp_all add: evaluate_def Let_def run_check_def coerce_decision_def broker_permission_check_def
      allow_named_def allow_decision_def default_allow_def raises_strength_def)

end
