(* ===== verification/Result_Message.thy ===== *)
theory Result_Message
  imports Loop_Guard Result_Summary
begin

text \<open>
  The boundary where a tool result becomes a message (\<^verbatim>\<open>kernel/tool_executor.py\<close>, first half): the state of
  an executor, its log, the error payloads, the advisories, the captured metadata of a call and
  \<^verbatim>\<open>_build_result_message\<close>.
\<close>

section \<open>State and surroundings\<close>

datatype lifecycle = L_Started | L_Completed | L_Failed | L_Denied

text \<open>
  One executor: its loop guard, what it logged, the lifecycle facts its observer was told (trace id, tool,
  state), the errors collected for the caller, the metadata captured per call, the provider round of the
  last emitted molt reminder (\<open>None\<close> is the initial sentinel), the id of the provider response that is
  being executed, and the world.
\<close>

record 'w executor =
  ex_guard :: loop_guard
  ex_log :: "log_event list"
  ex_lifecycle :: "(string \<times> string \<times> lifecycle) list"
  ex_errors :: "string list"
  ex_pending :: "(string \<times> dict) list"
  ex_molt_round :: "py option"
  ex_api_call_id :: "string option"
  ex_world :: 'w

text \<open>A provider tool call as the executor reads it.\<close>

record call_request =
  cr_name :: string
  cr_args :: dict
  cr_id :: "string option"

text \<open>
  The arguments of the constructor and of \<^verbatim>\<open>execute\<close>. A handler answers a value or raises, takes some
  milliseconds and may change the argument dictionary it is handed. A hook may raise. A raising logger is
  outside the model. \<open>xe_make\<close> is \<^verbatim>\<open>make_tool_result_fn\<close>: it gives the result block and the content
  object as it leaves it. \<open>xe_molt\<close> is the descriptor of the reconstruction reminder, when building it
  does not raise.
\<close>

record 'w exec_env =
  xe_known :: "string list"
  xe_parallel_safe :: "string list"
  xe_checks :: "guard_check list"
  xe_dispatch :: "call_request \<Rightarrow> 'w \<Rightarrow> ((exc + py) \<times> int \<times> dict) \<times> 'w"
  xe_pre_hook :: "(string \<Rightarrow> dict \<Rightarrow> string option \<Rightarrow> 'w \<Rightarrow> exc option \<times> 'w) option"
  xe_result_hook :: "(string \<Rightarrow> dict \<Rightarrow> tool_result \<Rightarrow> string option \<Rightarrow> 'w \<Rightarrow> (exc + py) \<times> 'w) option"
  xe_cancelled :: "'w \<Rightarrow> bool"
  xe_meta :: "'w \<Rightarrow> dict \<times> 'w"
  xe_uuid :: "'w \<Rightarrow> string \<times> 'w"
  xe_now :: "'w \<Rightarrow> string"
  xe_traceback :: "exc \<Rightarrow> string"
  xe_make :: "string \<Rightarrow> py \<Rightarrow> string option \<Rightarrow> 'w \<Rightarrow> (tool_result \<times> py) \<times> 'w"
  xe_reconstruction :: "('w \<Rightarrow> (exc + dict option) \<times> 'w) option"
  xe_molt :: "dict \<Rightarrow> string \<Rightarrow> dict option"
  xe_spill :: "'w spill_env"
  xe_summary :: "'w summary_env"
  xe_max_result_chars :: int
  xe_working_dir :: "path option"
  xe_hint_threshold :: int
  xe_raw_log_path :: "string option"
  xe_raw_event_type :: "string option"

definition resolve_max_result_chars :: "py \<Rightarrow> int" where
  "resolve_max_result_chars v =
     (case v of PInt n \<Rightarrow> if 0 < n \<and> n \<le> PREVENTIVE_MAX_CHARS then n else PREVENTIVE_MAX_CHARS
      | _ \<Rightarrow> PREVENTIVE_MAX_CHARS)"

definition DEFAULT_SUMMARIZE_NOTIFICATION_THRESHOLD :: int where
  "DEFAULT_SUMMARIZE_NOTIFICATION_THRESHOLD = 3000"

definition resolve_hint_threshold :: "py \<Rightarrow> int" where
  "resolve_hint_threshold v =
     (case v of PInt n \<Rightarrow> if n \<le> 0 then 0 else n | _ \<Rightarrow> DEFAULT_SUMMARIZE_NOTIFICATION_THRESHOLD)"

abbreviation env_float :: "'w exec_env \<Rightarrow> rat \<Rightarrow> string" where
  "env_float env \<equiv> se_float (xe_spill env)"

section \<open>Log and lifecycle\<close>

definition log_ev :: "string \<Rightarrow> dict \<Rightarrow> 'w executor \<Rightarrow> 'w executor" where
  "log_ev event kvs st =
     st\<lparr>ex_log := ex_log st @
          [(event, kvs @ (case ex_api_call_id st of
                                Some i \<Rightarrow> if i \<noteq> [] \<and> \<not> dhas kvs ''api_call_id''
                                          then [(''api_call_id'', PStr i)] else []
                              | None \<Rightarrow> []))]\<rparr>"

definition log_lifecycle :: "string \<Rightarrow> string \<Rightarrow> string option \<Rightarrow> string \<Rightarrow> dict \<Rightarrow> 'w executor \<Rightarrow> 'w executor" where
  "log_lifecycle event tool_name cid trace extra =
     log_ev event ([(''tool_name'', PStr tool_name), (''tool_call_id'', opt_py cid),
                    (''tool_trace_id'', PStr trace)] @ extra)"

definition notify_lifecycle :: "string \<Rightarrow> string \<Rightarrow> lifecycle \<Rightarrow> 'w executor \<Rightarrow> 'w executor" where
  "notify_lifecycle tool_name trace ls st = st\<lparr>ex_lifecycle := ex_lifecycle st @ [(trace, tool_name, ls)]\<rparr>"

definition tool_trace_id :: "'w exec_env \<Rightarrow> call_request \<Rightarrow> 'w executor \<Rightarrow> string \<times> 'w executor" where
  "tool_trace_id env tc st =
     (case cr_id tc of
        Some i \<Rightarrow> if i \<noteq> [] then (i, st)
                  else let (u, w) = xe_uuid env (ex_world st) in (''tool-'' @ u, st\<lparr>ex_world := w\<rparr>)
      | None \<Rightarrow> let (u, w) = xe_uuid env (ex_world st) in (''tool-'' @ u, st\<lparr>ex_world := w\<rparr>))"

definition log_tool_result ::
  "string \<Rightarrow> string option \<Rightarrow> string \<Rightarrow> dict \<Rightarrow> py \<Rightarrow> int \<Rightarrow> py \<Rightarrow> dict \<Rightarrow> 'w executor \<Rightarrow> 'w executor" where
  "log_tool_result tool_name cid trace args status elapsed result extra st =
     log_lifecycle ''tool_result_durable_log_visible'' tool_name cid trace
       [(''status'', status), (''elapsed_ms'', PInt elapsed)]
       (log_lifecycle ''tool_result'' tool_name cid trace
          ([(''tool_args'', PDict args), (''status'', status), (''elapsed_ms'', PInt elapsed), (''result'', result)]
           @ extra) st)"

section \<open>Arguments\<close>

text \<open>
  \<^verbatim>\<open>_prepare_args\<close>: the keys the kernel keeps for itself are taken out, and a reasoning that says
  something is handed to the handler as \<^verbatim>\<open>_reasoning\<close>.
\<close>

definition normalized_args :: "dict \<Rightarrow> dict" where
  "normalized_args raw =
     (let a = dpop ''secondary'' (dpop ''_sync'' (dpop ''commentary'' (dpop ''reasoning'' raw)))
      in case dget raw ''reasoning'' of
           Some r \<Rightarrow> if truthy r then dput ''_reasoning'' r a else a
         | None \<Rightarrow> a)"

definition prepare_args :: "call_request \<Rightarrow> string \<Rightarrow> 'w executor \<Rightarrow> dict \<times> 'w executor" where
  "prepare_args tc trace st =
     (let raw = cr_args tc;
          lg = (\<lambda>event extra. log_lifecycle event (cr_name tc) (cr_id tc) trace extra);
          args = normalized_args raw;
          removed = filter (dhas raw) [''reasoning'', ''commentary'', ''_sync'', ''secondary''];
          st1 = lg ''tool_call_received'' [(''raw_arg_keys'', PList (map PStr (sort (map fst raw)))),
                  (''raw_arg_count'', PInt (int (length raw)))] st;
          st2 = (if dhas raw ''secondary'' then lg ''deprecated_secondary_ignored'' [] st1 else st1);
          st3 = (case dget raw ''reasoning'' of
                   Some r \<Rightarrow>
                     if truthy r then
                       log_ev ''tool_reasoning'' [(''tool'', PStr (cr_name tc)), (''reasoning'', r),
                         (''tool_call_id'', opt_py (cr_id tc)), (''tool_trace_id'', PStr trace)] st2
                     else st2
                 | None \<Rightarrow> st2)
      in (args, lg ''tool_call_normalized''
                  [(''tool_args'', PDict args), (''removed_args'', PList (map PStr removed)),
                   (''deprecated_secondary_ignored'',
                    PBool (case dget raw ''secondary'' of None \<Rightarrow> False | Some v \<Rightarrow> v \<noteq> PNone))] st3))"

section \<open>Error payloads\<close>

definition dsetdefault :: "string \<Rightarrow> py \<Rightarrow> dict \<Rightarrow> dict" where
  "dsetdefault k v d = (if dhas d k then d else dput k v d)"

definition or_text :: "(rat \<Rightarrow> string) \<Rightarrow> py \<Rightarrow> string \<Rightarrow> string" where
  "or_text fr v t = (if truthy v then py_str fr v else t)"

definition error_guidance :: "py \<Rightarrow> string list" where
  "error_guidance retryable =
     [''Do not blindly retry the same tool call unchanged.'']
     @ (case retryable of
          PBool True \<Rightarrow>
            [''This error is marked retryable, but retry only after addressing the likely cause or waiting for ''
             @ ''the transient condition to clear.'']
        | PBool False \<Rightarrow>
            [''This error is marked non-retryable; change the request or strategy before any retry.'']
        | _ \<Rightarrow> [])
     @ [''Use the error message, phase, and argument keys to correct parameters or switch strategy.'',
        ''If the failure depends on mutable external state, read the current state before retrying.'',
        ''If the cause cannot be corrected, report the failure and ask for direction instead of looping.'']"

definition tool_error_meta :: "(rat \<Rightarrow> string) \<Rightarrow> dict \<Rightarrow> dict" where
  "tool_error_meta fr result =
     (let get = (\<lambda>k. dgetd result k PNone);
          message = or_text fr (get ''message'') ''unknown error'';
          error_phase = or_text fr (get ''error_phase'') ''unknown'';
          error_type = or_text fr (get ''error_type'') ''ToolError'';
          tool_name = or_text fr (get ''tool_name'') ''unknown'';
          retryable = dgetd result ''retryable'' (PStr ''unknown'')
      in [(''version'', PInt 1), (''summary'', PStr message),
          (''reason'', PStr (tool_name @ '' failed during '' @ error_phase @ '': '' @ message)),
          (''error_type'', PStr error_type), (''error_phase'', PStr error_phase), (''retryable'', retryable),
          (''tool_name'', get ''tool_name''), (''tool_call_id'', get ''tool_call_id''),
          (''tool_trace_id'', get ''tool_trace_id''), (''arg_keys'', dgetd result ''arg_keys'' (PList [])),
          (''guidance'', PList (map PStr (error_guidance retryable)))])"

definition attach_tool_error_meta :: "(rat \<Rightarrow> string) \<Rightarrow> dict \<Rightarrow> dict" where
  "attach_tool_error_meta fr result = dsetdefault ''tool_error'' (PDict (tool_error_meta fr result)) result"

definition arg_keys :: "dict \<Rightarrow> py" where
  "arg_keys args = PList (map PStr (sort (map fst args)))"

definition error_payload ::
  "(rat \<Rightarrow> string) \<Rightarrow> string \<Rightarrow> string option \<Rightarrow> string \<Rightarrow> dict \<Rightarrow> string \<Rightarrow> string \<Rightarrow> string \<Rightarrow> int \<Rightarrow> string \<Rightarrow> dict \<Rightarrow> dict" where
  "error_payload fr tool_name cid trace args error_phase error_type message elapsed tb extra =
     (let payload =
        [(''status'', PStr ''error''), (''message'', PStr message), (''error_type'', PStr error_type),
         (''error_phase'', PStr error_phase), (''tool_name'', PStr tool_name), (''tool_call_id'', opt_py cid),
         (''tool_trace_id'', PStr trace), (''tool_args'', PDict args), (''arg_keys'', arg_keys args),
         (''elapsed_ms'', PInt elapsed), (''retryable'', PStr ''unknown''), (''_tool_error_payload_version'', PInt 1)]
        @ (if tb \<noteq> [] then [(''traceback_tail'', PStr tb)] else [])
      in attach_tool_error_meta fr (fold (\<lambda>(k, v). dput k v) extra payload))"

definition enrich_error_payload ::
  "(rat \<Rightarrow> string) \<Rightarrow> dict \<Rightarrow> string \<Rightarrow> string option \<Rightarrow> string \<Rightarrow> dict \<Rightarrow> string \<Rightarrow> string \<Rightarrow> int \<Rightarrow> dict" where
  "enrich_error_payload fr result tool_name cid trace args error_phase error_type elapsed =
     attach_tool_error_meta fr
       (fold (\<lambda>(k, v). dsetdefault k v)
         [(''error_type'', PStr error_type), (''error_phase'', PStr error_phase), (''tool_name'', PStr tool_name),
          (''tool_call_id'', opt_py cid), (''tool_trace_id'', PStr trace), (''tool_args'', PDict args),
          (''arg_keys'', arg_keys args), (''elapsed_ms'', PInt elapsed), (''retryable'', PStr ''unknown''),
          (''_tool_error_payload_version'', PInt 1)] result)"

definition traceback_tail :: "'w exec_env \<Rightarrow> exc \<Rightarrow> string" where
  "traceback_tail env e = last_n 4000 (xe_traceback env e)"

section \<open>Advisories\<close>

text \<open>
  \<^verbatim>\<open>_append_advisory\<close>. The handler may have put anything under \<^verbatim>\<open>_advisory\<close>; a container whose items are
  no list makes the append raise.
\<close>

definition append_advisory :: "dict \<Rightarrow> dict option \<Rightarrow> exc + dict" where
  "append_advisory result advisory =
     (case advisory of
        None \<Rightarrow> Inr result
      | Some a \<Rightarrow>
          if a = [] then Inr result
          else
            let existing = dgetd result ''_advisory'' PNone;
                several = PStr ''Multiple tool-call advisories are attached.'';
                wrapped = PDict [(''type'', PStr ''multiple_tool_advisories''), (''message'', several),
                                 (''items'', PList [existing, PDict a])]
            in if \<not> truthy existing then Inr (dput ''_advisory'' (PDict a) result)
               else (case existing of
                       PDict e \<Rightarrow>
                         if dget e ''type'' = Some (PStr ''multiple_tool_advisories'') then
                           (case dgetd e ''items'' (PList []) of
                              PList xs \<Rightarrow>
                                Inr (dput ''_advisory''
                                  (PDict (dput ''message'' several (dput ''items'' (PList (xs @ [PDict a])) e))) result)
                            | _ \<Rightarrow> Inl (AttributeError ''append''))
                         else Inr (dput ''_advisory'' wrapped result)
                     | _ \<Rightarrow> Inr (dput ''_advisory'' wrapped result)))"

definition attach_duplicate_advisory :: "dict \<Rightarrow> dup_verdict \<Rightarrow> exc + dict" where
  "attach_duplicate_advisory result verdict =
     (case dv_warning verdict of
        None \<Rightarrow> Inr result
      | Some t \<Rightarrow> if t = [] then Inr result else append_advisory result (advisory_metadata verdict))"

definition attach_guard_advisory :: "dict \<Rightarrow> proposal \<Rightarrow> guard_decision \<Rightarrow> exc + dict" where
  "attach_guard_advisory result p d = append_advisory result (guard_advisory d (Some p))"

section \<open>The metadata of a result\<close>

definition AUX_RESULT_KEYS :: "string list" where
  "AUX_RESULT_KEYS = [''_meta'', ''_advisory'', ''active_turn_tool_calls'', ''active_turn_tool_call_notice'']"

definition intrinsic_char_count :: "(rat \<Rightarrow> string) \<Rightarrow> dict \<Rightarrow> int" where
  "intrinsic_char_count fr d = int (length (json_text fr (PDict (filter (\<lambda>(k, _). k \<notin> set AUX_RESULT_KEYS) d))))"

definition overflow_comment_applies :: "'w exec_env \<Rightarrow> int \<Rightarrow> int option \<Rightarrow> bool" where
  "overflow_comment_applies env char_count spilled \<longleftrightarrow>
     spilled \<noteq> None \<or> xe_hint_threshold env > 0 \<and> char_count > xe_hint_threshold env"

definition overflow_comment :: "string option \<Rightarrow> dict" where
  "overflow_comment cid =
     (let call_id = nonempty_or cid ''<unknown>'' in
      [(''summary'', PStr (
          ''The model-visible context for this tool result is capped or large; ''
          @ ''what you see here may be a preview or compacted form, not the full payload.'')),
       (''full_original'', PStr (
          ''The full original is preserved in logs/events.jsonl under ''
          @ ''tool_call_id='' @ call_id @ ''.'')),
       (''how_to_retrieve'', PStr (
          ''Retrieve it from the durable log by tool_call_id: ''
          @ ''grep '' @ single_quoted call_id @ '' <workdir>/logs/events.jsonl, or use ''
          @ backquote @ ''lingtai-agent log query'' @ backquote @ '' (see the sqlite-log-query manual). For a ''
          @ ''broad extraction, delegate to a daemon/subagent with the ''
          @ ''tool_call_id and the exact question instead of pulling the whole ''
          @ ''original back into your own context.'')),
       (''after_consuming'', PStr (
          ''After you have consumed what you need, call ''
          @ ''system(action='' @ [dquote] @ ''summarize'' @ [dquote] @ '') for this tool_call_id to replace the ''
          @ ''visible payload with your own agent-authored summary.''))])"

definition stage_meta :: "'w exec_env \<Rightarrow> string option \<Rightarrow> int \<Rightarrow> string \<Rightarrow> 'w executor \<Rightarrow> 'w executor" where
  "stage_meta env cid elapsed trace st =
     (let (meta, w) = xe_meta env (ex_world st);
          st1 = st\<lparr>ex_world := w\<rparr>
      in if meta = [] then st1
         else st1\<lparr>ex_pending := dput (case cid of Some i \<Rightarrow> i | None \<Rightarrow> trace)
                                  (dput ''elapsed_ms'' (PInt elapsed) meta) (ex_pending st1)\<rparr>)"

text \<open>The keys of the pressure guidance that is promoted, when they say something.\<close>

definition promoted_context :: "dict \<Rightarrow> dict" where
  "promoted_context d =
     List.map_filter (\<lambda>k. case dget d k of Some v \<Rightarrow> if truthy v then Some (k, v) else None | None \<Rightarrow> None)
       [''rebuild'', ''molt'', ''cache_miss_budget'', ''cache_miss_tokens'', ''system_prompt'']"

definition emit_reminder_event :: "dict \<Rightarrow> 'w executor \<Rightarrow> 'w executor" where
  "emit_reminder_event descriptor st =
     (case (dget descriptor ''event_name'', dget descriptor ''payload'') of
        (Some (PStr event), Some (PDict payload)) \<Rightarrow> if event = [] then st else log_ev event payload st
      | _ \<Rightarrow> st)"

text \<open>At most one molt reminder per provider round.\<close>

definition maybe_emit_current_molt_event :: "dict \<Rightarrow> 'w executor \<Rightarrow> 'w executor" where
  "maybe_emit_current_molt_event descriptor st =
     (let round_id = (case dget descriptor ''payload'' of
                        Some (PDict payload) \<Rightarrow> dgetd payload ''last_round_id'' PNone | _ \<Rightarrow> PNone)
      in case ex_molt_round st of
           Some r \<Rightarrow> if py_eq round_id r then st
                     else emit_reminder_event descriptor (st\<lparr>ex_molt_round := Some round_id\<rparr>)
         | None \<Rightarrow> emit_reminder_event descriptor (st\<lparr>ex_molt_round := Some round_id\<rparr>))"

text \<open>\<^verbatim>\<open>d.get(k)\<close> when it is a dictionary, and the empty one otherwise.\<close>

definition sub_dict :: "dict \<Rightarrow> string \<Rightarrow> dict" where
  "sub_dict d k = (case dget d k of Some (PDict e) \<Rightarrow> e | _ \<Rightarrow> [])"

definition is_dict :: "py \<Rightarrow> bool" where
  "is_dict v \<longleftrightarrow> (case v of PDict _ \<Rightarrow> True | _ \<Rightarrow> False)"

text \<open>
  The one-shot reconstruction event, put under \<^verbatim>\<open>agent_state.events.reconstruction\<close> of the captured
  metadata (whose \<^verbatim>\<open>agent_state\<close> is a dictionary when present), and its reminder.
\<close>

definition attach_reconstruction :: "'w exec_env \<Rightarrow> dict \<Rightarrow> 'w executor \<Rightarrow> dict \<times> 'w executor" where
  "attach_reconstruction env pending st =
     (case xe_reconstruction env of
        None \<Rightarrow> (pending, st)
      | Some source \<Rightarrow>
          let (answer, w) = source (ex_world st);
              st1 = st\<lparr>ex_world := w\<rparr>
          in case answer of
               Inr (Some event) \<Rightarrow>
                 if event = [] then (pending, st1)
                 else
                   let state = sub_dict pending ''agent_state'';
                       events = dput ''reconstruction'' (PDict event) (sub_dict state ''events'');
                       pending' = dput ''agent_state'' (PDict (dput ''events'' (PDict events) state)) pending
                   in (pending',
                       case dget event ''molt'' of
                         Some (PStr t) \<Rightarrow>
                           if t = [] then st1
                           else (case xe_molt env event t of
                                   Some descriptor \<Rightarrow> emit_reminder_event descriptor st1 | None \<Rightarrow> st1)
                       | _ \<Rightarrow> st1)
             | _ \<Rightarrow> (pending, st1))"

text \<open>The state the remaining captured keys describe; \<open>None\<close> when there is nothing to carry.\<close>

definition agent_state_of :: "py option \<Rightarrow> py option \<Rightarrow> dict \<Rightarrow> dict \<Rightarrow> dict option" where
  "agent_state_of current_time token_usage context pending =
     (let put = (\<lambda>k v acc. Some (dput k v (case acc of Some d \<Rightarrow> d | None \<Rightarrow> [])));
          s1 = (case current_time of Some t \<Rightarrow> put ''current_time'' t None | None \<Rightarrow> None);
          s2 = (case token_usage of Some t \<Rightarrow> put ''token_usage'' t s1 | None \<Rightarrow> s1);
          s3 = (if context \<noteq> [] then put ''context'' (PDict context) s2 else s2)
      in fold (\<lambda>(k, v) acc.
           if k = ''current_time'' \<or> k = ''elapsed_ms'' then acc
           else if k = ''agent_state'' \<and> is_dict v then
             Some (fold (\<lambda>(j, u). dput j u) (case v of PDict e \<Rightarrow> e | _ \<Rightarrow> []) (case acc of Some d \<Rightarrow> d | None \<Rightarrow> []))
           else put k v acc) pending s3)"

definition attach_tool_block ::
  "'w exec_env \<Rightarrow> py \<Rightarrow> string option \<Rightarrow> string \<Rightarrow> int \<Rightarrow> int option \<Rightarrow> py \<Rightarrow> 'w executor \<Rightarrow>
   (dict \<times> dict option) \<times> 'w executor" where
  "attach_tool_block env result cid trace elapsed spilled status st =
     (let fr = env_float env;
          capture_id = (case cid of Some i \<Rightarrow> i | None \<Rightarrow> trace);
          pending0 = dgetd (ex_pending st) capture_id [];
          st1 = st\<lparr>ex_pending := dpop capture_id (ex_pending st)\<rparr>;
          current_time = (case dget pending0 ''current_time'' of
                            Some (PStr t) \<Rightarrow> if t \<noteq> [] then Some (PStr t) else None | _ \<Rightarrow> None);
          token_usage = (case dget pending0 ''_tool_meta_token_usage'' of Some (PDict d) \<Rightarrow> Some (PDict d) | _ \<Rightarrow> None);
          context = promoted_context (sub_dict pending0 ''_tool_meta_context'');
          molt_event = (case dget pending0 ''_tool_meta_context_event'' of Some (PDict d) \<Rightarrow> Some d | _ \<Rightarrow> None);
          pending = dpop ''_tool_meta_context_event'' (dpop ''_tool_meta_context''
                      (dpop ''_tool_meta_token_usage'' (dpop ''current_time'' pending0)));
          char_count = (case result of PDict d \<Rightarrow> intrinsic_char_count fr d | _ \<Rightarrow> int (length (py_str fr result)));
          block =
            [(''id'', PStr (nonempty_or cid ''<unknown>'')), (''timestamp'', PStr (xe_now env (ex_world st1))),
             (''char_count'', PInt char_count), (''elapsed_ms'', PInt elapsed)]
            @ (case spilled of Some n \<Rightarrow> [(''spilled_char_count'', PInt n)] | None \<Rightarrow> [])
            @ (if status = PStr ''error'' then [(''status'', PStr ''error'')] else [])
            @ (if overflow_comment_applies env char_count spilled
               then [(''comment'', PDict [(''overflow'', PDict (overflow_comment cid))])] else []);
          st2 = (case molt_event of
                   Some e \<Rightarrow> if context \<noteq> [] then maybe_emit_current_molt_event e st1 else st1 | None \<Rightarrow> st1);
          (pending', st3) = attach_reconstruction env pending st2
      in ((block, map_option (\<lambda>d. [(''agent_state'', PDict d)]) (agent_state_of current_time token_usage context pending')),
          st3))"

section \<open>The message\<close>

definition attach_progress :: "'w executor \<Rightarrow> py \<Rightarrow> py" where
  "attach_progress st v =
     (case v of
        PDict d \<Rightarrow>
          (case dget (progress_metadata (ex_guard st)) ''active_turn_tool_call_notice'' of
             Some n \<Rightarrow> if truthy n then PDict (dput ''active_turn_tool_call_notice'' n d) else v
           | None \<Rightarrow> v)
      | _ \<Rightarrow> v)"

definition copied :: "dict \<Rightarrow> (string \<times> string \<times> (py \<Rightarrow> bool)) list \<Rightarrow> dict" where
  "copied payload spec =
     List.map_filter (\<lambda>(from, to, ok). case dget payload from of Some v \<Rightarrow> if ok v then Some (to, v) else None | None \<Rightarrow> None) spec"

definition is_int :: "py \<Rightarrow> bool" where
  "is_int v \<longleftrightarrow> (case v of PInt _ \<Rightarrow> True | PBool _ \<Rightarrow> True | _ \<Rightarrow> False)"

definition is_bool :: "py \<Rightarrow> bool" where
  "is_bool v \<longleftrightarrow> (case v of PBool _ \<Rightarrow> True | _ \<Rightarrow> False)"

definition model_visible_descriptor :: "(rat \<Rightarrow> string) \<Rightarrow> py \<Rightarrow> bool \<Rightarrow> int option \<Rightarrow> dict" where
  "model_visible_descriptor fr payload was_spilled spilled =
     (let visible_chars = (case payload of PDict d \<Rightarrow> intrinsic_char_count fr d | _ \<Rightarrow> serialized_len fr payload);
          wrapper = (if is_dict payload then max (serialized_len fr payload - visible_chars) 0 else 0);
          size = [(''model_visible_char_count'', PInt visible_chars), (''wrapper_chars'', PInt wrapper)]
      in if was_spilled then
           [(''payload_kind'', PStr ''spill_manifest'')] @ size
           @ (case spilled of Some n \<Rightarrow> [(''raw_char_count'', PInt n)] | None \<Rightarrow> [])
         else (case payload of
                 PDict d \<Rightarrow>
                   if is_apriori_summary payload then
                     let kind = dgetd d ''summary_kind'' PNone in
                     [(''payload_kind'', PStr (if py_eq kind (PStr ''apriori_generated'') then ''apriori_summary''
                                               else or_text fr kind ''apriori_summary''))] @ size
                     @ (if kind \<noteq> PNone then [(''summary_kind'', kind)] else [])
                     @ copied d [(''original_visible_chars'', ''raw_char_count'', is_int),
                                 (''summary_chars'', ''generated_summary_chars'', is_int),
                                 (''summary_effect'', ''summary_effect'', is_dict),
                                 (''summary_input_truncated'', ''summary_input_truncated'', is_bool),
                                 (''raw_locator'', ''raw_locator'', is_dict)]
                     @ (case dget d ''summary_reason'' of
                          Some (PStr r) \<Rightarrow> [(''summary_reason_chars'', PInt (int (length r)))] | _ \<Rightarrow> [])
                   else [(''payload_kind'', PStr ''raw'')] @ size
               | _ \<Rightarrow> [(''payload_kind'', PStr ''raw'')] @ size))"

definition py_type_name :: "py \<Rightarrow> string" where
  "py_type_name v =
     (case v of PNone \<Rightarrow> ''NoneType'' | PBool _ \<Rightarrow> ''bool'' | PInt _ \<Rightarrow> ''int'' | PFloat _ \<Rightarrow> ''float''
      | PStr _ \<Rightarrow> ''str'' | PList _ \<Rightarrow> ''list'' | PDict _ \<Rightarrow> ''dict'')"

text \<open>
  \<^verbatim>\<open>_build_result_message\<close>: the progress notice, the spill, the metadata block and the canonical result
  block, in that order. The status is the value the caller passes.
\<close>

definition spill_call :: "'w exec_env \<Rightarrow> string \<Rightarrow> string option \<Rightarrow> spill_request" where
  "spill_call env tool_name cid =
     \<lparr>sr_max_chars = xe_max_result_chars env, sr_tool_name = Some tool_name, sr_tool_call_id = cid,
      sr_working_dir = xe_working_dir env, sr_source = ''preventive''\<rparr>"

definition build_result_message ::
  "'w exec_env \<Rightarrow> string \<Rightarrow> py \<Rightarrow> string option \<Rightarrow> string \<Rightarrow> py \<Rightarrow> int \<Rightarrow> 'w executor \<Rightarrow> tool_result \<times> 'w executor" where
  "build_result_message env tool_name result0 cid trace status elapsed st =
     (let result = attach_progress st result0;
          (outcome, w1) = spill_oversized_result (xe_spill env) (spill_call env tool_name cid) result (ex_world st);
          st1 = st\<lparr>ex_world := w1\<rparr>;
          capped = (case outcome of None \<Rightarrow> result | Some m \<Rightarrow> attach_progress st1 (PDict m));
          spilled = (case outcome of
                       None \<Rightarrow> None
                     | Some m \<Rightarrow> (case dget m ''original_char_count'' of Some (PInt n) \<Rightarrow> Some n | _ \<Rightarrow> None));
          st2 = (case outcome of
                   None \<Rightarrow> st1
                 | Some m \<Rightarrow>
                     st1\<lparr>ex_log := ex_log st1 @
                       [(''tool_result_spilled'',
                         [(''tool_name'', PStr tool_name), (''tool_call_id'', opt_py cid), (''tool_trace_id'', PStr trace),
                          (''original_char_count'', dgetd m ''original_char_count'' PNone),
                          (''spill_path'', dgetd m ''spill_path'' PNone)])]\<rparr>);
          ((tool_metadata, agent_pending), st3) = attach_tool_block env capped cid trace elapsed spilled status st2;
          ((msg, content), w4) = xe_make env tool_name capped cid (ex_world st3);
          st4 = st3\<lparr>ex_world := w4\<rparr>;
          final = msg\<lparr>tr_metadata := [(''tool_meta'', PDict tool_metadata)], tr_agent_pending := agent_pending\<rparr>
      in (final,
          log_lifecycle ''tool_result_model_visible'' tool_name cid trace
            ([(''status'', status), (''spilled'', PBool (outcome \<noteq> None)), (''result_type'', PStr (py_type_name content))]
             @ model_visible_descriptor (env_float env) content (outcome \<noteq> None) spilled) st4))"

section \<open>Denials\<close>

definition proposal_of :: "call_request \<Rightarrow> dict \<Rightarrow> string \<Rightarrow> proposal" where
  "proposal_of tc args trace =
     \<lparr>pr_tool_name = cr_name tc, pr_tool_args = args, pr_tool_call_id = cr_id tc, pr_tool_trace_id = Some trace,
      pr_context = []\<rparr>"

definition log_guard_approval :: "call_request \<Rightarrow> string \<Rightarrow> guard_decision \<Rightarrow> 'w executor \<Rightarrow> 'w executor" where
  "log_guard_approval tc trace d =
     log_lifecycle ''tool_call_approved'' (cr_name tc) (cr_id tc) trace
       ([(''approval_mode'', PStr (approval_mode d)), (''policy'', PStr (gd_check_name d))]
        @ (if is_structured d then [(''guard_decision'', PDict (decision_payload d None))] else []))"

definition guard_rejection_result ::
  "'w exec_env \<Rightarrow> call_request \<Rightarrow> dict \<Rightarrow> string \<Rightarrow> proposal \<Rightarrow> guard_decision \<Rightarrow> int \<Rightarrow> dict" where
  "guard_rejection_result env tc args trace p d elapsed =
     (let reason = (if gd_reason d \<noteq> [] then gd_reason d
                    else ''Tool call '' @ str_repr (cr_name tc) @ '' denied by '' @ gd_check_name d)
      in dput ''_advisory'' (case guard_advisory d (Some p) of Some a \<Rightarrow> PDict a | None \<Rightarrow> PNone)
           (error_payload (env_float env) (cr_name tc) (cr_id tc) trace args ''guard'' ''ToolCallGuardDenied'' reason
              elapsed []
              [(''guard_decision'', PDict (decision_payload d (Some p))), (''guard_check'', PStr (gd_check_name d)),
               (''guard_action'', PStr (gd_action d)), (''guard_severity'', PStr (gd_severity d))]))"

definition add_error :: "string \<Rightarrow> string \<Rightarrow> 'w executor \<Rightarrow> 'w executor" where
  "add_error tool_name message st = st\<lparr>ex_errors := ex_errors st @ [tool_name @ '': '' @ message]\<rparr>"

text \<open>\<^verbatim>\<open>_deny_tool_call\<close>: the handler is not reached; the model sees the refusal as an error result.\<close>

definition deny_tool_call ::
  "'w exec_env \<Rightarrow> call_request \<Rightarrow> dict \<Rightarrow> string \<Rightarrow> proposal \<Rightarrow> guard_decision \<Rightarrow> 'w executor \<Rightarrow> tool_result \<times> 'w executor" where
  "deny_tool_call env tc args trace p d st =
     (let result = guard_rejection_result env tc args trace p d 0;
          message = or_text (env_float env) (dgetd result ''message'' PNone) [];
          st1 = stage_meta env (cr_id tc) 0 trace st;
          st2 = log_lifecycle ''tool_call_denied'' (cr_name tc) (cr_id tc) trace
                  [(''guard_decision'', PDict (decision_payload d (Some p))), (''reason'', PStr message)] st1;
          st3 = notify_lifecycle (cr_name tc) trace L_Denied st2;
          st4 = log_tool_result (cr_name tc) (cr_id tc) trace args (PStr ''error'') 0 (PDict result)
                  [(''exception'', PStr ''ToolCallGuardDenied''), (''exception_message'', PStr message)] st3
      in build_result_message env (cr_name tc) (PDict result) (cr_id tc) trace (PStr ''error'') 0
           (add_error (cr_name tc) message st4))"

text \<open>A tool nobody registered: an error result as well, and a mark on the loop guard.\<close>

definition unknown_tool_result ::
  "'w exec_env \<Rightarrow> call_request \<Rightarrow> dict \<Rightarrow> string \<Rightarrow> dict" where
  "unknown_tool_result env tc args trace =
     error_payload (env_float env) (cr_name tc) (cr_id tc) trace args ''validation'' ''UnknownToolError''
       (''Unknown tool: '' @ cr_name tc) 0 []
       [(''validation_reason'', PStr ''unknown_tool''),
        (''available_tools'', PList (map PStr (sort (xe_known env))))]"

definition unknown_tool :: "'w exec_env \<Rightarrow> string \<Rightarrow> bool" where
  "unknown_tool env name \<longleftrightarrow> xe_known env \<noteq> [] \<and> name \<notin> set (xe_known env)"

end
