(* ===== verification/Tool_Executor.thy ===== *)
theory Tool_Executor
  imports Result_Message
begin

text \<open>
  The execution of a batch of tool calls (\<^verbatim>\<open>kernel/tool_executor.py\<close>, second half): one call from its
  arguments to its message, the sequential batch, and the parallel batch as a state machine whose moves
  are the workers' and the collecting thread's steps in any order.
\<close>

section \<open>One call\<close>

definition reject_unknown ::
  "'w exec_env \<Rightarrow> call_request \<Rightarrow> dict \<Rightarrow> string \<Rightarrow> ('w executor \<Rightarrow> 'w executor) \<Rightarrow> 'w executor \<Rightarrow> tool_result \<times> 'w executor"
where
  "reject_unknown env tc args trace failed st =
     (let st1 = st\<lparr>ex_guard := record_invalid_tool (ex_guard st) (cr_name tc)\<rparr>;
          st2 = failed (log_lifecycle ''tool_call_validation_failed'' (cr_name tc) (cr_id tc) trace
                  [(''reason'', PStr ''unknown_tool'')] st1);
          result = unknown_tool_result env tc args trace;
          message = ''Unknown tool: '' @ cr_name tc;
          st3 = stage_meta env (cr_id tc) 0 trace st2;
          st4 = log_tool_result (cr_name tc) (cr_id tc) trace args (PStr ''error'') 0 (PDict result)
                  [(''exception'', PStr ''UnknownToolError''), (''exception_message'', PStr message)] st3;
          (msg, st5) = build_result_message env (cr_name tc) (PDict result) (cr_id tc) trace (PStr ''error'') 0 st4
      in (msg, add_error (cr_name tc) message st5))"

definition run_pre_hook :: "'w exec_env \<Rightarrow> call_request \<Rightarrow> dict \<Rightarrow> 'w executor \<Rightarrow> 'w executor" where
  "run_pre_hook env tc args st =
     (case xe_pre_hook env of
        None \<Rightarrow> st
      | Some hook \<Rightarrow> st\<lparr>ex_world := snd (hook (cr_name tc) args (cr_id tc) (ex_world st))\<rparr>)"

text \<open>\<^verbatim>\<open>_invoke_result_hook\<close>: a raising hook answers nothing.\<close>

definition invoke_result_hook ::
  "'w exec_env \<Rightarrow> call_request \<Rightarrow> dict \<Rightarrow> tool_result \<Rightarrow> 'w executor \<Rightarrow> py \<times> 'w executor" where
  "invoke_result_hook env tc args msg st =
     (case xe_result_hook env of
        None \<Rightarrow> (PNone, st)
      | Some hook \<Rightarrow>
          let (answer, w) = hook (cr_name tc) args msg (cr_id tc) (ex_world st)
          in (case answer of Inl _ \<Rightarrow> PNone | Inr v \<Rightarrow> v, st\<lparr>ex_world := w\<rparr>))"

text \<open>The advisories of an executed call; a result that is no dictionary carries none.\<close>

definition attach_advisories :: "dup_verdict \<Rightarrow> proposal \<Rightarrow> guard_decision \<Rightarrow> py \<Rightarrow> exc + py" where
  "attach_advisories verdict p d v =
     (case v of
        PDict r \<Rightarrow>
          ebind (attach_duplicate_advisory r verdict) (\<lambda>r1.
          ebind (attach_guard_advisory r1 p d) (\<lambda>r2. Inr (PDict r2)))
      | _ \<Rightarrow> Inr v)"

definition result_status :: "py \<Rightarrow> py" where
  "result_status v = (case v of PDict d \<Rightarrow> dgetd d ''status'' (PStr ''success'') | _ \<Rightarrow> PStr ''success'')"

definition is_error_result :: "py \<Rightarrow> bool" where
  "is_error_result v \<longleftrightarrow> (case v of PDict d \<Rightarrow> dget d ''status'' = Some (PStr ''error'') | _ \<Rightarrow> False)"

definition intercepts :: "py \<Rightarrow> bool" where
  "intercepts v \<longleftrightarrow> (case v of PDict d \<Rightarrow> truthy (dgetd d ''intercept'' PNone) | _ \<Rightarrow> False)"

text \<open>A handler's own error result gets the context a model needs to repair the call.\<close>

definition enriched :: "'w exec_env \<Rightarrow> call_request \<Rightarrow> dict \<Rightarrow> string \<Rightarrow> int \<Rightarrow> py \<Rightarrow> py" where
  "enriched env tc args trace elapsed v =
     (case v of
        PDict d \<Rightarrow>
          if is_error_result v then
            PDict (enrich_error_payload (env_float env) d (cr_name tc) (cr_id tc) trace args ''tool_returned_error''
              (or_text (env_float env)
                 (if truthy (dgetd d ''error_type'' PNone) then dgetd d ''error_type'' PNone else dgetd d ''tool'' PNone)
                 ''ToolReturnedError'') elapsed)
          else v
      | _ \<Rightarrow> v)"

definition log_done :: "call_request \<Rightarrow> dict \<Rightarrow> string \<Rightarrow> int \<Rightarrow> py \<Rightarrow> ('w executor \<Rightarrow> 'w executor) \<Rightarrow> 'w executor \<Rightarrow> 'w executor" where
  "log_done tc args trace elapsed result notify st =
     log_tool_result (cr_name tc) (cr_id tc) trace args (result_status result) elapsed result []
       (notify (log_lifecycle ''tool_call_dispatch_done'' (cr_name tc) (cr_id tc) trace
          [(''status'', result_status result), (''elapsed_ms'', PInt elapsed)] st))"

text \<open>
  The error payload of a call whose handling raised, with its advisories: the fresh payload holds no
  advisory of its own, so attaching cannot raise.
\<close>

definition attach_total :: "dict \<Rightarrow> (dict \<Rightarrow> exc + dict) \<Rightarrow> dict" where
  "attach_total r f = (case f r of Inr r' \<Rightarrow> r' | Inl _ \<Rightarrow> r)"

definition failure_payload ::
  "'w exec_env \<Rightarrow> call_request \<Rightarrow> dict \<Rightarrow> string \<Rightarrow> dup_verdict \<Rightarrow> proposal \<Rightarrow> guard_decision \<Rightarrow>
   string \<Rightarrow> string \<Rightarrow> string \<Rightarrow> int \<Rightarrow> string \<Rightarrow> dict \<Rightarrow> dict" where
  "failure_payload env tc args trace verdict p d error_phase type_name message elapsed tb extra =
     attach_total
       (attach_total
          (error_payload (env_float env) (cr_name tc) (cr_id tc) trace args error_phase type_name message elapsed tb
             ([(''exception_type'', PStr type_name)] @ extra))
          (\<lambda>r. attach_duplicate_advisory r verdict))
       (\<lambda>r. attach_guard_advisory r p d)"

definition exception_payload ::
  "'w exec_env \<Rightarrow> call_request \<Rightarrow> dict \<Rightarrow> string \<Rightarrow> dup_verdict \<Rightarrow> proposal \<Rightarrow> guard_decision \<Rightarrow> string \<Rightarrow> exc \<Rightarrow> int \<Rightarrow> dict"
where
  "exception_payload env tc args trace verdict p d error_phase e elapsed =
     failure_payload env tc args trace verdict p d error_phase (exc_type e) (exc_text e) elapsed (traceback_tail env e) []"

definition log_dispatch_failed :: "call_request \<Rightarrow> string \<Rightarrow> string \<Rightarrow> string \<Rightarrow> int \<Rightarrow> 'w executor \<Rightarrow> 'w executor" where
  "log_dispatch_failed tc trace type_name message elapsed =
     log_lifecycle ''tool_call_dispatch_failed'' (cr_name tc) (cr_id tc) trace
       [(''elapsed_ms'', PInt elapsed), (''exception'', PStr type_name), (''exception_message'', PStr message)]"

definition exception_extra :: "string \<Rightarrow> string \<Rightarrow> dict" where
  "exception_extra type_name message = [(''exception'', PStr type_name), (''exception_message'', PStr message)]"

definition summarize_visible ::
  "'w exec_env \<Rightarrow> call_request \<Rightarrow> dict \<Rightarrow> py \<Rightarrow> 'w executor \<Rightarrow> py \<times> 'w executor" where
  "summarize_visible env tc args result st =
     (case maybe_summarize_result (xe_summary env)
             \<lparr>sc_tool_name = cr_name tc, sc_tool_call_id = cr_id tc, sc_raw_log_path = xe_raw_log_path env,
              sc_raw_event_type = xe_raw_event_type env\<rparr> args result (ex_world st) of
        (outcome, events, w) \<Rightarrow>
          (case outcome of Some m \<Rightarrow> PDict m | None \<Rightarrow> result,
           fold (\<lambda>(event, kvs). log_ev event kvs) events (st\<lparr>ex_world := w\<rparr>)))"

text \<open>What follows a handler that answered: the message, and whether the batch is intercepted.\<close>

definition returned_error :: "'w exec_env \<Rightarrow> call_request \<Rightarrow> py \<Rightarrow> 'w executor \<Rightarrow> 'w executor" where
  "returned_error env tc result st =
     (if is_error_result result
      then add_error (cr_name tc)
             (py_str (env_float env) (case result of PDict d \<Rightarrow> dgetd d ''message'' (PStr ''unknown error'') | _ \<Rightarrow> PNone)) st
      else st)"

definition present_result ::
  "'w exec_env \<Rightarrow> call_request \<Rightarrow> dict \<Rightarrow> string \<Rightarrow> int \<Rightarrow> py \<Rightarrow> 'w executor \<Rightarrow> (tool_result \<times> bool \<times> py) \<times> 'w executor" where
  "present_result env tc args trace elapsed result st =
     (if intercepts result then
        let (msg, st1) = build_result_message env (cr_name tc) result (cr_id tc) trace (result_status result) elapsed st;
            (_, st2) = invoke_result_hook env tc args msg st1
        in ((msg, True, case result of PDict d \<Rightarrow> dgetd d ''text'' (PStr []) | _ \<Rightarrow> PStr []), st2)
      else
        let (shown, st1) = summarize_visible env tc args result st;
            (msg, st2) = build_result_message env (cr_name tc) shown (cr_id tc) trace (result_status result) elapsed st1;
            st3 = returned_error env tc result st2;
            (intercept, st4) = invoke_result_hook env tc args msg st3
        in ((msg, intercept \<noteq> PNone, if intercept \<noteq> PNone then intercept else PStr []), st4))"

definition fail_dispatch ::
  "'w exec_env \<Rightarrow> call_request \<Rightarrow> dict \<Rightarrow> string \<Rightarrow> dup_verdict \<Rightarrow> proposal \<Rightarrow> guard_decision \<Rightarrow> int \<Rightarrow> exc \<Rightarrow>
   'w executor \<Rightarrow> (tool_result \<times> bool \<times> py) \<times> 'w executor" where
  "fail_dispatch env tc args trace verdict p d elapsed e st =
     (let st1 = notify_lifecycle (cr_name tc) trace L_Failed
                  (log_dispatch_failed tc trace (exc_type e) (exc_text e) elapsed st);
          err = exception_payload env tc args trace verdict p d ''dispatch'' e elapsed;
          st2 = stage_meta env (cr_id tc) elapsed trace st1;
          st3 = log_tool_result (cr_name tc) (cr_id tc) trace args (PStr ''error'') elapsed (PDict err)
                  (exception_extra (exc_type e) (exc_text e)) st2;
          (msg, st4) = build_result_message env (cr_name tc) (PDict err) (cr_id tc) trace (PStr ''error'') elapsed st3;
          st5 = add_error (cr_name tc) (exc_text e) st4;
          (_, st6) = invoke_result_hook env tc args msg st5
      in ((msg, False, PStr []), st6))"

definition log_start :: "call_request \<Rightarrow> dict \<Rightarrow> string \<Rightarrow> 'w executor \<Rightarrow> 'w executor" where
  "log_start tc args trace st =
     log_lifecycle ''tool_call_dispatch_start'' (cr_name tc) (cr_id tc) trace [(''tool_args'', PDict args)]
       (log_lifecycle ''tool_call'' (cr_name tc) (cr_id tc) trace [(''tool_args'', PDict args)] st)"

text \<open>\<^verbatim>\<open>_execute_single\<close>: the message, whether the batch stops here, and the intercept text.\<close>

definition execute_single ::
  "'w exec_env \<Rightarrow> call_request \<Rightarrow> 'w executor \<Rightarrow> (tool_result \<times> bool \<times> py) \<times> 'w executor" where
  "execute_single env tc st =
     (let (trace, st1) = tool_trace_id env tc st;
          (args, st2) = prepare_args tc trace st1;
          (guard, verdict) = record_tool_call (env_float env) (ex_guard st2) (cr_name tc) (Some args);
          st3 = st2\<lparr>ex_guard := guard\<rparr>
      in if unknown_tool env (cr_name tc) then
           let (msg, st4) = reject_unknown env tc args trace (notify_lifecycle (cr_name tc) trace L_Failed) st3
           in ((msg, False, PStr []), st4)
         else
           let p = proposal_of tc args trace; d = evaluate (xe_checks env) p in
           if \<not> gd_allowed d then
             let (msg, st4) = deny_tool_call env tc args trace p d st3 in ((msg, False, PStr []), st4)
           else
             let st4 = run_pre_hook env tc args
                         (notify_lifecycle (cr_name tc) trace L_Started
                            (log_start tc args trace (log_guard_approval tc trace d st3)));
                 ((answer, elapsed, args'), w) =
                   xe_dispatch env \<lparr>cr_name = cr_name tc, cr_args = args, cr_id = cr_id tc\<rparr> (ex_world st4);
                 st5 = st4\<lparr>ex_world := w\<rparr>
             in case answer of
                  Inl e \<Rightarrow> fail_dispatch env tc args' trace verdict p d elapsed e st5
                | Inr raw \<Rightarrow>
                    let st6 = stage_meta env (cr_id tc) elapsed trace st5 in
                    (case attach_advisories verdict p d raw of
                       Inl e \<Rightarrow> fail_dispatch env tc args' trace verdict p d elapsed e st6
                     | Inr advised \<Rightarrow>
                         let result = enriched env tc args' trace elapsed advised;
                             st7 = log_done tc args' trace elapsed result
                                     (notify_lifecycle (cr_name tc) trace
                                        (if result_status result = PStr ''error'' then L_Failed else L_Completed)) st6
                         in present_result env tc args' trace elapsed result st7))"

section \<open>The sequential batch\<close>

type_synonym batch_outcome = "tool_result list \<times> bool \<times> py"

fun execute_sequential ::
  "'w exec_env \<Rightarrow> tool_result list \<Rightarrow> call_request list \<Rightarrow> 'w executor \<Rightarrow> batch_outcome \<times> 'w executor" where
  "execute_sequential env results [] st = ((results, False, PStr []), st)"
| "execute_sequential env results (tc # tcs) st =
     (if xe_cancelled env (ex_world st) then (([], False, PStr []), st)
      else
        let ((msg, intercepted, text), st1) = execute_single env tc st;
            results' = results @ [msg]
        in if intercepted then ((results', True, text), st1)
           else execute_sequential env results' tcs st1)"

section \<open>The parallel batch\<close>

text \<open>
  A job is a call that passed the checks. Its argument dictionary is the one the handler is given, so it
  is replaced when the handler changes it.
\<close>

record job =
  jb_index :: nat
  jb_call :: call_request
  jb_args :: dict
  jb_trace :: string
  jb_verdict :: dup_verdict
  jb_decision :: guard_decision
  jb_proposal :: proposal

datatype phase = Collecting | Collected | Cancelled

text \<open>
  The state the threads share: the executor, the traces whose start and whose end were announced, the
  messages of the refused calls, the jobs, the ones a worker has begun, the finished futures (a value with
  its milliseconds, or an exception), and what the collecting thread has taken in.
\<close>

type_synonym future = "exc + py \<times> int"

record 'w batch =
  ba_exec :: "'w executor"
  ba_started :: "string list"
  ba_terminal :: "string list"
  ba_refused :: "(nat \<times> tool_result) list"
  ba_jobs :: "job list"
  ba_begun :: "nat list"
  ba_futures :: "(nat \<times> future) list"
  ba_results :: "(nat \<times> py \<times> int) list"
  ba_errors :: "(nat \<times> dict) list"
  ba_phase :: phase

text \<open>\<^verbatim>\<open>emit_lifecycle\<close>: one start and at most one end per call, and nothing after the end.\<close>

definition emit_lifecycle :: "string \<Rightarrow> string \<Rightarrow> lifecycle \<Rightarrow> 'w batch \<Rightarrow> 'w batch" where
  "emit_lifecycle tool_name trace ls b =
     (if trace \<in> set (ba_terminal b) then b
      else if ls = L_Started then
        if trace \<in> set (ba_started b) then b
        else b\<lparr>ba_started := trace # ba_started b, ba_exec := notify_lifecycle tool_name trace ls (ba_exec b)\<rparr>
      else b\<lparr>ba_terminal := trace # ba_terminal b, ba_exec := notify_lifecycle tool_name trace ls (ba_exec b)\<rparr>)"

definition init_batch :: "'w executor \<Rightarrow> 'w batch" where
  "init_batch st = \<lparr>ba_exec = st, ba_started = [], ba_terminal = [], ba_refused = [], ba_jobs = [], ba_begun = [],
     ba_futures = [], ba_results = [], ba_errors = [], ba_phase = Collecting\<rparr>"

definition on_exec :: "('w executor \<Rightarrow> 'w executor) \<Rightarrow> 'w batch \<Rightarrow> 'w batch" where
  "on_exec f b = b\<lparr>ba_exec := f (ba_exec b)\<rparr>"

definition refuse :: "nat \<Rightarrow> tool_result \<times> 'w executor \<Rightarrow> 'w batch \<Rightarrow> 'w batch" where
  "refuse i r b = b\<lparr>ba_refused := ba_refused b @ [(i, fst r)], ba_exec := snd r\<rparr>"

text \<open>
  Phase 1 for one call. The refusal of an unknown tool announces its end through \<open>emit_lifecycle\<close>, so that
  the trace is closed for the batch; a denial tells the observer directly.
\<close>

definition admit_call :: "'w exec_env \<Rightarrow> nat \<Rightarrow> call_request \<Rightarrow> 'w batch \<Rightarrow> 'w batch" where
  "admit_call env i tc b =
     (let (trace, st1) = tool_trace_id env tc (ba_exec b);
          (args, st2) = prepare_args tc trace st1;
          (guard, verdict) = record_tool_call (env_float env) (ex_guard st2) (cr_name tc) (Some args);
          st3 = st2\<lparr>ex_guard := guard\<rparr>
      in if unknown_tool env (cr_name tc) then
           let closed_before = trace \<in> set (ba_terminal b);
               b1 = (if closed_before then b else b\<lparr>ba_terminal := trace # ba_terminal b\<rparr>)
           in refuse i (reject_unknown env tc args trace
                (if closed_before then id else notify_lifecycle (cr_name tc) trace L_Failed) st3) b1
         else
           let p = proposal_of tc args trace; d = evaluate (xe_checks env) p in
           if \<not> gd_allowed d then refuse i (deny_tool_call env tc args trace p d st3) b
           else b\<lparr>ba_exec := log_guard_approval tc trace d st3,
                  ba_jobs := ba_jobs b @ [\<lparr>jb_index = i, jb_call = tc, jb_args = args, jb_trace = trace,
                                          jb_verdict = verdict, jb_decision = d, jb_proposal = p\<rparr>]\<rparr>)"

definition admit_calls :: "'w exec_env \<Rightarrow> call_request list \<Rightarrow> 'w executor \<Rightarrow> 'w batch" where
  "admit_calls env tcs st = fold (\<lambda>(i, tc). admit_call env i tc) (enumerate 0 tcs) (init_batch st)"

text \<open>The pre-dispatch hooks, one after the other before any worker starts.\<close>

definition run_pre_hooks :: "'w exec_env \<Rightarrow> 'w batch \<Rightarrow> 'w batch" where
  "run_pre_hooks env b = on_exec (fold (\<lambda>j. run_pre_hook env (jb_call j) (jb_args j)) (ba_jobs b)) b"

definition find_job :: "nat \<Rightarrow> 'w batch \<Rightarrow> job option" where
  "find_job i b = find (\<lambda>j. jb_index j = i) (ba_jobs b)"

text \<open>\<^verbatim>\<open>_run_one\<close>, up to the call of the handler, and from its answer to the future.\<close>

definition begin_job :: "job \<Rightarrow> 'w batch \<Rightarrow> 'w batch" where
  "begin_job j b =
     emit_lifecycle (cr_name (jb_call j)) (jb_trace j) L_Started
       (on_exec (log_start (jb_call j) (jb_args j) (jb_trace j)) (b\<lparr>ba_begun := jb_index j # ba_begun b\<rparr>))"

definition finish_job :: "'w exec_env \<Rightarrow> job \<Rightarrow> 'w batch \<Rightarrow> 'w batch" where
  "finish_job env j b =
     (let tc = jb_call j; trace = jb_trace j; st = ba_exec b;
          ((answer, elapsed, args), w) =
            xe_dispatch env \<lparr>cr_name = cr_name tc, cr_args = jb_args j, cr_id = cr_id tc\<rparr> (ex_world st);
          st1 = st\<lparr>ex_world := w\<rparr>;
          (future, st3) =
            (case answer of
               Inl e \<Rightarrow>
                 let st2 = log_dispatch_failed tc trace (exc_type e) (exc_text e) elapsed st1;
                     err = exception_payload env tc args trace (jb_verdict j) (jb_proposal j) (jb_decision j)
                             ''dispatch'' e elapsed
                 in (Inr (PDict err, elapsed),
                     log_tool_result (cr_name tc) (cr_id tc) trace args (PStr ''error'') elapsed (PDict err)
                       (exception_extra (exc_type e) (exc_text e)) (stage_meta env (cr_id tc) elapsed trace st2))
             | Inr raw \<Rightarrow>
                 let st2 = stage_meta env (cr_id tc) elapsed trace st1 in
                 (case attach_advisories (jb_verdict j) (jb_proposal j) (jb_decision j) raw of
                    Inl e \<Rightarrow> (Inl e, st2)
                  | Inr advised \<Rightarrow>
                      let result = enriched env tc args trace elapsed advised
                      in (Inr (result, elapsed), log_done tc args trace elapsed result id st2)))
      in b\<lparr>ba_exec := st3, ba_futures := (jb_index j, future) # ba_futures b,
           ba_jobs := map (\<lambda>k. if jb_index k = jb_index j then k\<lparr>jb_args := args\<rparr> else k) (ba_jobs b)\<rparr>)"

text \<open>The collecting thread takes a finished future in, or gives up the batch when it is cancelled.\<close>

definition fail_all :: "'w batch \<Rightarrow> 'w batch" where
  "fail_all b = fold (\<lambda>j. emit_lifecycle (cr_name (jb_call j)) (jb_trace j) L_Failed) (ba_jobs b) b"

definition collect_failure ::
  "'w exec_env \<Rightarrow> job \<Rightarrow> dict \<Rightarrow> string \<Rightarrow> string \<Rightarrow> dict \<Rightarrow> 'w batch \<Rightarrow> 'w batch" where
  "collect_failure env j err type_name message extra b =
     (let tc = jb_call j; trace = jb_trace j;
          b1 = on_exec (\<lambda>st. log_dispatch_failed tc trace type_name message 0 (stage_meta env (cr_id tc) 0 trace st))
                 (b\<lparr>ba_errors := (jb_index j, err) # ba_errors b\<rparr>);
          b2 = emit_lifecycle (cr_name tc) trace L_Failed b1
      in on_exec (log_tool_result (cr_name tc) (cr_id tc) trace (jb_args j) (PStr ''error'') 0 (PDict err) extra) b2)"

definition collect_job :: "'w exec_env \<Rightarrow> job \<Rightarrow> future \<Rightarrow> 'w batch \<Rightarrow> 'w batch" where
  "collect_job env j future b =
     (if xe_cancelled env (ex_world (ba_exec b)) then (fail_all b)\<lparr>ba_phase := Cancelled\<rparr>
      else
        case future of
          Inr (result, elapsed) \<Rightarrow>
            emit_lifecycle (cr_name (jb_call j)) (jb_trace j)
              (if result_status result = PStr ''error'' then L_Failed else L_Completed)
              (b\<lparr>ba_results := (jb_index j, result, elapsed) # ba_results b\<rparr>)
        | Inl e \<Rightarrow>
            collect_failure env j
              (exception_payload env (jb_call j) (jb_args j) (jb_trace j) (jb_verdict j) (jb_proposal j) (jb_decision j)
                 ''parallel_future'' e 0)
              (exc_type e) (exc_text e) (exception_extra (exc_type e) (exc_text e)) b)"

text \<open>The wait of the collecting thread runs out: every job that is still open becomes an error.\<close>

definition timeout_job :: "'w exec_env \<Rightarrow> job \<Rightarrow> 'w batch \<Rightarrow> 'w batch" where
  "timeout_job env j b =
     (if dhas (ba_results b) (jb_index j) \<or> dhas (ba_errors b) (jb_index j) then b
      else collect_failure env j
             (failure_payload env (jb_call j) (jb_args j) (jb_trace j) (jb_verdict j) (jb_proposal j) (jb_decision j)
                ''timeout'' ''TimeoutError'' ''Timed out'' 0 [] [(''retryable'', PBool True)])
             ''TimeoutError'' ''Timed out'' [] b)"

definition expire :: "'w exec_env \<Rightarrow> 'w batch \<Rightarrow> 'w batch" where
  "expire env b = (fold (timeout_job env) (ba_jobs b) b)\<lparr>ba_phase := Collected\<rparr>"

definition taken_in :: "'w batch \<Rightarrow> nat \<Rightarrow> bool" where
  "taken_in b i \<longleftrightarrow> dhas (ba_results b) i \<or> dhas (ba_errors b) i"

text \<open>
  The moves. Workers begin and finish in any order, also after the collecting thread has moved on; the
  collecting thread takes each finished future once, is done when it has them all, and may time out while
  one is missing.
\<close>

inductive batch_step :: "'w exec_env \<Rightarrow> 'w batch \<Rightarrow> 'w batch \<Rightarrow> bool" for env where
  begins: "j \<in> set (ba_jobs b) \<Longrightarrow> jb_index j \<notin> set (ba_begun b) \<Longrightarrow> batch_step env b (begin_job j b)"
| finishes: "j \<in> set (ba_jobs b) \<Longrightarrow> jb_index j \<in> set (ba_begun b) \<Longrightarrow> \<not> dhas (ba_futures b) (jb_index j) \<Longrightarrow>
    batch_step env b (finish_job env j b)"
| collects: "ba_phase b = Collecting \<Longrightarrow> j \<in> set (ba_jobs b) \<Longrightarrow> dget (ba_futures b) (jb_index j) = Some future \<Longrightarrow>
    \<not> taken_in b (jb_index j) \<Longrightarrow> batch_step env b (collect_job env j future b)"
| completes: "ba_phase b = Collecting \<Longrightarrow> \<forall>j\<in>set (ba_jobs b). taken_in b (jb_index j) \<Longrightarrow>
    batch_step env b (b\<lparr>ba_phase := Collected\<rparr>)"
| expires: "ba_phase b = Collecting \<Longrightarrow> \<exists>j\<in>set (ba_jobs b). \<not> taken_in b (jb_index j) \<Longrightarrow>
    batch_step env b (expire env b)"

text \<open>
  Phase 3: the messages in input order, stopping at the first intercept. A job whose result was
  collected is presented like a sequential call, except that its error is noted before the intercept.
\<close>

definition present_collected ::
  "'w exec_env \<Rightarrow> job \<Rightarrow> py \<Rightarrow> int \<Rightarrow> 'w executor \<Rightarrow> (tool_result \<times> bool \<times> py) \<times> 'w executor" where
  "present_collected env j result elapsed st =
     (let tc = jb_call j; args = jb_args j; trace = jb_trace j;
          (shown, st1) = (if intercepts result then (result, st) else summarize_visible env tc args result st);
          (msg, st2) = build_result_message env (cr_name tc) shown (cr_id tc) trace (result_status result) elapsed st1;
          st3 = returned_error env tc result st2;
          (intercept, st4) = invoke_result_hook env tc args msg st3
      in if intercepts result
         then ((msg, True, case result of PDict d \<Rightarrow> dgetd d ''text'' (PStr []) | _ \<Rightarrow> PStr []), st4)
         else ((msg, intercept \<noteq> PNone, if intercept \<noteq> PNone then intercept else PStr []), st4))"

definition present_failure :: "'w exec_env \<Rightarrow> job \<Rightarrow> dict \<Rightarrow> int \<Rightarrow> 'w executor \<Rightarrow> tool_result \<times> 'w executor" where
  "present_failure env j err elapsed st =
     (let tc = jb_call j;
          (msg, st1) = build_result_message env (cr_name tc) (PDict err) (cr_id tc) (jb_trace j) (PStr ''error'') elapsed st
      in (msg, add_error (cr_name tc) (py_str (env_float env) (dgetd err ''message'' (PStr ''unknown error''))) st1))"

fun present_jobs ::
  "'w exec_env \<Rightarrow> 'w batch \<Rightarrow> job list \<Rightarrow> (nat \<times> tool_result) list \<Rightarrow> 'w executor \<Rightarrow>
   ((nat \<times> tool_result) list \<times> bool \<times> py) \<times> 'w executor" where
  "present_jobs env b [] acc st = ((acc, False, PStr []), st)"
| "present_jobs env b (j # js) acc st =
     (case dget (ba_results b) (jb_index j) of
        Some (result, elapsed) \<Rightarrow>
          (case present_collected env j result elapsed st of
             ((msg, intercepted, text), st1) \<Rightarrow>
               let acc' = acc @ [(jb_index j, msg)] in
               if intercepted then ((acc', True, text), st1) else present_jobs env b js acc' st1)
      | None \<Rightarrow>
          (case dget (ba_errors b) (jb_index j) of
             Some err \<Rightarrow>
               (case present_failure env j err 0 st of
                  (msg, st1) \<Rightarrow> present_jobs env b js (acc @ [(jb_index j, msg)]) st1)
           | None \<Rightarrow> present_jobs env b js acc st))"

definition in_order :: "(nat \<times> tool_result) list \<Rightarrow> tool_result list" where
  "in_order rs = map snd (sort_key fst rs)"

definition conclude :: "'w exec_env \<Rightarrow> 'w batch \<Rightarrow> batch_outcome \<times> 'w executor" where
  "conclude env b =
     (if ba_phase b = Cancelled then (([], False, PStr []), ba_exec b)
      else case present_jobs env b (ba_jobs b) (ba_refused b) (ba_exec b) of
             ((rs, intercepted, text), st) \<Rightarrow> ((in_order rs, intercepted, text), st))"

text \<open>
  \<^verbatim>\<open>_execute_parallel\<close>: with nothing to execute the refusals are the answer; otherwise the outcome is the
  conclusion of any state the moves reach in which the collecting thread is done.
\<close>

inductive execute_parallel :: "'w exec_env \<Rightarrow> call_request list \<Rightarrow> 'w executor \<Rightarrow> batch_outcome \<times> 'w executor \<Rightarrow> bool"
  for env tcs st where
  nothing_to_run: "ba_jobs (admit_calls env tcs st) = [] \<Longrightarrow>
    execute_parallel env tcs st
      ((in_order (ba_refused (admit_calls env tcs st)), False, PStr []), ba_exec (admit_calls env tcs st))"
| ran: "ba_jobs (admit_calls env tcs st) \<noteq> [] \<Longrightarrow>
    reach (run_pre_hooks env (admit_calls env tcs st)) (batch_step env) b \<Longrightarrow> ba_phase b \<noteq> Collecting \<Longrightarrow>
    execute_parallel env tcs st (conclude env b)"

definition all_parallel_safe :: "'w exec_env \<Rightarrow> call_request list \<Rightarrow> bool" where
  "all_parallel_safe env tcs \<longleftrightarrow>
     length tcs > 1 \<and> xe_parallel_safe env \<noteq> [] \<and> list_all (\<lambda>tc. cr_name tc \<in> set (xe_parallel_safe env)) tcs"

text \<open>
  \<^verbatim>\<open>execute\<close>: the provider response's id is stamped on the log for the time of the batch, and the earlier
  one restored. Returning freed memory to the system afterwards has no effect here.
\<close>

inductive execute ::
  "'w exec_env \<Rightarrow> string option \<Rightarrow> call_request list \<Rightarrow> 'w executor \<Rightarrow> batch_outcome \<times> 'w executor \<Rightarrow> bool"
  for env api tcs st where
  sequential: "\<not> all_parallel_safe env tcs \<Longrightarrow>
    execute_sequential env [] tcs (st\<lparr>ex_api_call_id := api\<rparr>) = (out, st') \<Longrightarrow>
    execute env api tcs st (out, st'\<lparr>ex_api_call_id := ex_api_call_id st\<rparr>)"
| parallel: "all_parallel_safe env tcs \<Longrightarrow>
    execute_parallel env tcs (st\<lparr>ex_api_call_id := api\<rparr>) (out, st') \<Longrightarrow>
    execute env api tcs st (out, st'\<lparr>ex_api_call_id := ex_api_call_id st\<rparr>)"

end
