(* ===== verification/Tool_Executor_Laws.thy ===== *)
theory Tool_Executor_Laws
  imports Tool_Executor "HOL-Library.Multiset"
begin

text \<open>
  What a batch of tool calls guarantees: which message answers which call, what the observer is told, and
  that a refused call reaches no handler.
\<close>

section \<open>The message of a call\<close>

text \<open>A message that the result constructor made for the name and the id of a call.\<close>

definition answers_call :: "'w exec_env \<Rightarrow> call_request \<Rightarrow> tool_result \<Rightarrow> bool" where
  "answers_call env tc m \<longleftrightarrow>
     (\<exists>v w. let r = fst (fst (xe_make env (cr_name tc) v (cr_id tc) w))
            in tr_id m = tr_id r \<and> tr_name m = tr_name r \<and> tr_content m = tr_content r)"

lemma build_answers:
  "answers_call env tc (fst (build_result_message env (cr_name tc) v (cr_id tc) trace status elapsed st))"
  by (auto simp: answers_call_def build_result_message_def Let_def split_beta)

lemma reject_answers: "answers_call env tc (fst (reject_unknown env tc args trace f st))"
  by (simp add: reject_unknown_def Let_def split_beta build_answers)

lemma deny_answers: "answers_call env tc (fst (deny_tool_call env tc args trace p d st))"
  by (simp add: deny_tool_call_def Let_def build_answers)

lemma fail_answers: "answers_call env tc (fst (fst (fail_dispatch env tc args trace verdict p d elapsed e st)))"
  by (simp add: fail_dispatch_def Let_def split_beta build_answers)

lemma present_answers: "answers_call env tc (fst (fst (present_result env tc args trace elapsed result st)))"
  by (simp add: present_result_def Let_def split_beta build_answers)

lemma present_collected_answers: "answers_call env (jb_call j) (fst (fst (present_collected env j result elapsed st)))"
  by (simp add: present_collected_def Let_def split_beta build_answers)

lemma present_failure_answers: "answers_call env (jb_call j) (fst (present_failure env j err elapsed st))"
  by (simp add: present_failure_def Let_def split_beta build_answers)

lemma single_answers: "answers_call env tc (fst (fst (execute_single env tc st)))"
  by (simp add: execute_single_def Let_def split_beta reject_answers deny_answers fail_answers present_answers
      split: sum.split)

section \<open>The sequential batch\<close>

lemma sequential_answers:
  "execute_sequential env acc tcs st = ((rs, i, t), st') \<Longrightarrow>
   rs = [] \<and> \<not> i \<and> (\<exists>w. xe_cancelled env w) \<or>
   (\<exists>ms. rs = acc @ ms \<and> length ms \<le> length tcs \<and> list_all2 (answers_call env) (take (length ms) tcs) ms \<and>
      (\<not> i \<longrightarrow> length ms = length tcs))"
proof (induction tcs arbitrary: acc st)
  case (Cons tc tcs)
  show ?case
  proof (cases "xe_cancelled env (ex_world st)")
    case False
    obtain msg it body st1 where s: "execute_single env tc st = ((msg, it, body), st1)"
      by (cases "execute_single env tc st") (auto simp: prod_eq_iff)
    then have msg: "answers_call env tc msg" using single_answers [of env tc st] by simp
    show ?thesis
    proof (cases it)
      case True
      with Cons.prems \<open>\<not> xe_cancelled env (ex_world st)\<close> s msg show ?thesis by (auto intro!: exI [of _ "[msg]"])
    next
      case False
      with Cons.prems \<open>\<not> xe_cancelled env (ex_world st)\<close> s
      have "execute_sequential env (acc @ [msg]) tcs st1 = ((rs, i, t), st')" by simp
      from Cons.IH [OF this]
      consider "rs = [] \<and> \<not> i \<and> (\<exists>w. xe_cancelled env w)"
        | ms where "rs = (acc @ [msg]) @ ms" "length ms \<le> length tcs"
          "list_all2 (answers_call env) (take (length ms) tcs) ms" "\<not> i \<longrightarrow> length ms = length tcs"
        by auto
      then show ?thesis
      proof cases
        case 2
        with msg show ?thesis by (intro disjI2 exI [of _ "msg # ms"]) simp
      qed simp
    qed
  qed (use Cons.prems in auto)
qed auto

section \<open>The parallel batch\<close>

text \<open>What the admission of the first calls establishes.\<close>

definition admitted :: "'w exec_env \<Rightarrow> call_request list \<Rightarrow> nat \<Rightarrow> 'w batch \<Rightarrow> bool" where
  "admitted env tcs n b \<longleftrightarrow>
     distinct (map fst (ba_refused b) @ map jb_index (ba_jobs b)) \<and>
     set (map fst (ba_refused b)) \<union> set (map jb_index (ba_jobs b)) = {..<n} \<and>
     (\<forall>(i, m)\<in>set (ba_refused b). answers_call env (tcs ! i) m) \<and>
     (\<forall>j\<in>set (ba_jobs b). jb_call j = tcs ! jb_index j) \<and>
     ba_begun b = [] \<and> ba_futures b = [] \<and> ba_results b = [] \<and> ba_errors b = [] \<and> ba_phase b = Collecting"

lemma admitted_init: "admitted env tcs 0 (init_batch st)"
  by (simp add: admitted_def init_batch_def)

lemma admitted_refuse:
  assumes "admitted env tcs n b" "answers_call env (tcs ! n) (fst r)"
  shows "admitted env tcs (Suc n) (refuse n r b)"
  using assms by (auto simp: admitted_def refuse_def lessThan_Suc)

lemma admitted_terminal [simp]: "admitted env tcs n (b\<lparr>ba_terminal := x\<rparr>) = admitted env tcs n b"
  by (simp add: admitted_def)

lemma admitted_job:
  assumes "admitted env tcs n b" "jb_index j = n" "jb_call j = tcs ! n"
  shows "admitted env tcs (Suc n) (b\<lparr>ba_exec := st, ba_jobs := ba_jobs b @ [j]\<rparr>)"
  using assms by (auto simp: admitted_def lessThan_Suc)

lemma admitted_call:
  assumes "admitted env tcs n b" "tcs ! n = tc"
  shows "admitted env tcs (Suc n) (admit_call env n tc b)"
  using assms
  by (auto simp: admit_call_def Let_def split_beta reject_answers deny_answers
      intro!: admitted_refuse admitted_job)

lemma admitted_calls: "admitted env tcs (length tcs) (admit_calls env tcs st)"
proof -
  have "admitted env tcs (length pre) (fold (\<lambda>(i, tc). admit_call env i tc) (enumerate 0 pre) (init_batch st))"
    if "tcs = pre @ post" for pre post
    using that
  proof (induction pre arbitrary: post rule: rev_induct)
    case (snoc tc pre)
    then show ?case
      by (simp add: enumerate_append_eq admitted_call nth_append)
  qed (simp add: admitted_init)
  from this [of tcs "[]"] show ?thesis by (simp add: admit_calls_def)
qed

section \<open>The moves keep the plan of the batch\<close>

text \<open>Everything but the shared executor, the announcements and the changed arguments.\<close>

definition plan :: "'w batch \<Rightarrow> (nat \<times> tool_result) list \<times> (nat \<times> call_request \<times> string) list" where
  "plan b = (ba_refused b, map (\<lambda>j. (jb_index j, jb_call j, jb_trace j)) (ba_jobs b))"

lemma plan_simps [simp]:
  "plan (emit_lifecycle n t ls b) = plan b" "plan (on_exec f b) = plan b" "plan (b\<lparr>ba_phase := ph\<rparr>) = plan b"
  "plan (b\<lparr>ba_begun := x\<rparr>) = plan b" "plan (b\<lparr>ba_results := y\<rparr>) = plan b" "plan (b\<lparr>ba_errors := z\<rparr>) = plan b"
  "plan (begin_job j b) = plan b" "plan (run_pre_hooks env b) = plan b"
  by (simp_all add: plan_def emit_lifecycle_def on_exec_def begin_job_def run_pre_hooks_def)

lemma plan_finish [simp]: "plan (finish_job env j b) = plan b"
  by (simp add: finish_job_def plan_def Let_def split_beta comp_def if_distrib cong: if_cong)

lemma plan_fold: "(\<And>x b. plan (f x b) = plan b) \<Longrightarrow> plan (fold f xs b) = plan b"
  by (induction xs arbitrary: b) simp_all

lemma plan_more [simp]:
  "plan (fail_all b) = plan b" "plan (collect_failure env j err tn msg ex b) = plan b"
  "plan (timeout_job env j b) = plan b"
  by (simp_all add: fail_all_def plan_fold collect_failure_def Let_def timeout_job_def)

lemma plan_collect [simp]: "plan (collect_job env j fu b) = plan b" "plan (expire env b) = plan b"
  by (auto simp: collect_job_def expire_def plan_fold split: sum.splits)

text \<open>What has been taken in only grows.\<close>

lemma taken_simps [simp]:
  "taken_in (emit_lifecycle n t ls b) = taken_in b" "taken_in (on_exec f b) = taken_in b"
  "taken_in (b\<lparr>ba_phase := ph\<rparr>) = taken_in b" "taken_in (b\<lparr>ba_begun := x\<rparr>) = taken_in b"
  "taken_in (begin_job j b) = taken_in b"
  by (simp_all add: taken_in_def fun_eq_iff emit_lifecycle_def on_exec_def begin_job_def)

lemma taken_finish [simp]: "taken_in (finish_job env j b) = taken_in b"
  by (simp add: finish_job_def taken_in_def fun_eq_iff Let_def split_beta)

lemma taken_failure [simp]:
  "taken_in (collect_failure env j err tn msg ex b) i \<longleftrightarrow> i = jb_index j \<or> taken_in b i"
  by (simp add: collect_failure_def Let_def) (auto simp: taken_in_def dhas_iff)

lemma taken_timeout [simp]: "taken_in (timeout_job env j b) i \<longleftrightarrow> i = jb_index j \<or> taken_in b i"
  by (auto simp: timeout_job_def) (auto simp: taken_in_def)

lemma taken_fold: "taken_in (fold (timeout_job env) js b) i \<longleftrightarrow> i \<in> jb_index ` set js \<or> taken_in b i"
  by (induction js arbitrary: b) auto

lemma jobs_indexes: "jb_index ` set (ba_jobs b) = fst ` set (snd (plan b))"
  by (force simp: plan_def)

definition batch_ok :: "(nat \<times> tool_result) list \<times> (nat \<times> call_request \<times> string) list \<Rightarrow> 'w batch \<Rightarrow> bool" where
  "batch_ok pl b \<longleftrightarrow>
     plan b = pl \<and> (ba_phase b = Collected \<longrightarrow> (\<forall>i\<in>fst ` set (snd pl). taken_in b i))"

lemma phase_simps [simp]:
  "ba_phase (emit_lifecycle n t ls b) = ba_phase b" "ba_phase (on_exec f b) = ba_phase b"
  "ba_phase (begin_job j b) = ba_phase b" "ba_phase (finish_job env j b) = ba_phase b"
  "ba_phase (run_pre_hooks env b) = ba_phase b"
  "ba_phase (collect_failure env j err tn msg ex b) = ba_phase b"
  by (simp_all add: emit_lifecycle_def on_exec_def begin_job_def finish_job_def run_pre_hooks_def
      collect_failure_def Let_def split_beta)

lemma phase_collect: "ba_phase (collect_job env j fu b) \<in> {ba_phase b, Cancelled}"
  by (auto simp: collect_job_def split: sum.splits)

lemma batch_ok_step: "batch_ok pl b \<Longrightarrow> batch_step env b b' \<Longrightarrow> batch_ok pl b'"
proof (erule batch_step.cases)
  fix j c fu
  assume "batch_ok pl b" "b = c" "b' = collect_job env j fu c" "ba_phase c = Collecting"
  with phase_collect [of env j fu c] show ?thesis by (auto simp: batch_ok_def)
next
  fix c
  assume "batch_ok pl b" "b = c" "b' = c\<lparr>ba_phase := Collected\<rparr>"
    "\<forall>j\<in>set (ba_jobs c). taken_in c (jb_index j)"
  then show ?thesis by (auto simp: batch_ok_def plan_def)
next
  fix c
  assume "batch_ok pl b" "b = c" "b' = expire env c"
  then show ?thesis
    using jobs_indexes [of c] by (auto simp: batch_ok_def expire_def taken_fold plan_fold)
qed (auto simp: batch_ok_def)

interpretation batch_plan:
  step_invariant b0 "batch_step env" "\<lambda>b. ba_phase b0 = Collecting \<longrightarrow> batch_ok (plan b0) b" for b0 env
  by unfold_locales (auto simp: batch_ok_def [of _ b0] dest: batch_ok_step)

lemma batch_ok_reach: "reach b (batch_step env) b' \<Longrightarrow> ba_phase b = Collecting \<Longrightarrow> batch_ok (plan b) b'"
  using batch_plan.reach_inv [of b env b'] by simp

lemma batch_ok_taken:
  assumes "batch_ok pl b" "ba_phase b = Collected" "j \<in> set (ba_jobs b)"
  shows "taken_in b (jb_index j)"
proof -
  from assms(3) have "jb_index j \<in> fst ` set (snd (plan b))" using jobs_indexes [of b] by blast
  with assms(1,2) show ?thesis by (auto simp: batch_ok_def)
qed

lemma step_cancelled:
  "batch_step env b b' \<Longrightarrow> ba_phase b' = Cancelled \<Longrightarrow> ba_phase b = Cancelled \<or> (\<exists>w. xe_cancelled env w)"
  by (erule batch_step.cases) (auto simp: collect_job_def expire_def split: if_splits sum.splits)

lemma reach_cancelled:
  "reach b (batch_step env) b' \<Longrightarrow> ba_phase b = Collecting \<Longrightarrow> ba_phase b' = Cancelled \<Longrightarrow> \<exists>w. xe_cancelled env w"
  by (induction rule: reach.induct) (auto dest: step_cancelled)

section \<open>The messages of phase 3\<close>

lemma present_jobs_answers:
  assumes "present_jobs env b js acc st = ((rs, i, t), st')" "\<not> i" "\<forall>j\<in>set js. taken_in b (jb_index j)"
  shows "\<exists>ms. rs = acc @ zip (map jb_index js) ms \<and> list_all2 (\<lambda>j. answers_call env (jb_call j)) js ms"
  using assms
proof (induction js arbitrary: acc st)
  case (Cons j js)
  show ?case
  proof (cases "dget (ba_results b) (jb_index j)")
    case None
    with Cons.prems(3) obtain err where err: "dget (ba_errors b) (jb_index j) = Some err"
      by (auto simp: taken_in_def dhas_iff)
    let ?m = "present_failure env j err 0 st"
    have "present_jobs env b js (acc @ [(jb_index j, fst ?m)]) (snd ?m) = ((rs, i, t), st')"
      using Cons.prems(1) None err by (simp add: split_beta)
    with Cons.IH Cons.prems obtain ms where "rs = (acc @ [(jb_index j, fst ?m)]) @ zip (map jb_index js) ms"
      "list_all2 (\<lambda>j. answers_call env (jb_call j)) js ms" by fastforce
    then show ?thesis by (intro exI [of _ "fst ?m # ms"]) (simp add: present_failure_answers)
  next
    case (Some r)
    let ?m = "present_collected env j (fst r) (snd r) st"
    have "\<not> fst (snd (fst ?m))"
      using Cons.prems(1,2) Some by (auto simp: split_beta split: if_splits)
    then have "present_jobs env b js (acc @ [(jb_index j, fst (fst ?m))]) (snd ?m) = ((rs, i, t), st')"
      using Cons.prems(1) Some by (simp add: split_beta)
    with Cons.IH Cons.prems obtain ms where "rs = (acc @ [(jb_index j, fst (fst ?m))]) @ zip (map jb_index js) ms"
      "list_all2 (\<lambda>j. answers_call env (jb_call j)) js ms" by fastforce
    then show ?thesis by (intro exI [of _ "fst (fst ?m) # ms"]) (simp add: present_collected_answers)
  qed
qed simp

lemma in_order_nth:
  assumes "mset (map fst rs) = mset [0..<n]" "\<forall>(i, m)\<in>set rs. P i m"
  shows "length (in_order rs) = n" "k < n \<Longrightarrow> P k (in_order rs ! k)"
proof -
  have fst: "map fst (sort_key fst rs) = [0..<n]"
  proof -
    have "map fst (sort_key fst rs) = sort (map fst rs)"
      by (rule properties_for_sort [symmetric]) simp_all
    also have "\<dots> = [0..<n]" using assms(1) by (intro properties_for_sort) auto
    finally show ?thesis .
  qed
  then show len: "length (in_order rs) = n" by (metis in_order_def length_map length_upt minus_nat.diff_0)
  assume k: "k < n"
  have "length (sort_key fst rs) = n" using len by (simp add: in_order_def)
  with k have "sort_key fst rs ! k \<in> set (sort_key fst rs)" by (metis nth_mem)
  moreover have "fst (sort_key fst rs ! k) = k"
    using fst k \<open>length (sort_key fst rs) = n\<close> by (metis add_0 nth_map nth_upt)
  ultimately have "(k, snd (sort_key fst rs ! k)) \<in> set rs"
    by (metis prod.collapse set_sort)
  with assms(2) have "P k (snd (sort_key fst rs ! k))" by blast
  with k \<open>length (sort_key fst rs) = n\<close> show "P k (in_order rs ! k)" by (simp add: in_order_def)
qed

section \<open>Every call is answered\<close>

lemma mset_upt: "distinct xs \<Longrightarrow> set xs = set [0..<n] \<Longrightarrow> mset xs = mset [0..<n]"
  by (rule set_eq_iff_mset_eq_distinct [THEN iffD1]) simp_all

lemma refused_only:
  assumes "admitted env tcs (length tcs) b" "ba_jobs b = []"
  shows "list_all2 (answers_call env) tcs (in_order (ba_refused b))"
proof -
  from assms have "distinct (map fst (ba_refused b))" "set (map fst (ba_refused b)) = set [0..<length tcs]"
    by (auto simp: admitted_def)
  then have mset: "mset (map fst (ba_refused b)) = mset [0..<length tcs]" by (rule mset_upt)
  have "\<forall>(i, m)\<in>set (ba_refused b). answers_call env (tcs ! i) m"
    using assms(1) by (simp add: admitted_def)
  from in_order_nth [OF mset this] show ?thesis by (simp add: list_all2_conv_all_nth)
qed

lemma concluded_answers:
  assumes adm: "admitted env tcs (length tcs) b0" and reach: "reach (run_pre_hooks env b0) (batch_step env) b"
    and "ba_phase b = Collected" and out: "conclude env b = ((rs, i, t), st')" and "\<not> i"
  shows "list_all2 (answers_call env) tcs rs"
proof -
  have ok: "batch_ok (plan b0) b"
    using batch_ok_reach [OF reach] adm by (simp add: admitted_def)
  then have plan: "ba_refused b = ba_refused b0"
    "map (\<lambda>j. (jb_index j, jb_call j, jb_trace j)) (ba_jobs b) = map (\<lambda>j. (jb_index j, jb_call j, jb_trace j)) (ba_jobs b0)"
    by (auto simp: batch_ok_def plan_def)
  have taken: "\<forall>j\<in>set (ba_jobs b). taken_in b (jb_index j)"
    using batch_ok_taken [OF ok assms(3)] by blast
  obtain rs' st where p: "present_jobs env b (ba_jobs b) (ba_refused b) (ba_exec b) = ((rs', i, t), st)"
    and rs: "rs = in_order rs'"
    using out assms(3) by (auto simp: conclude_def split: prod.splits)
  from present_jobs_answers [OF p assms(5) taken] obtain ms where
    rs': "rs' = ba_refused b @ zip (map jb_index (ba_jobs b)) ms"
    and ms: "list_all2 (\<lambda>j. answers_call env (jb_call j)) (ba_jobs b) ms" by blast
  have idx: "map jb_index (ba_jobs b) = map jb_index (ba_jobs b0)"
    using plan(2) by (metis (no_types, lifting) comp_def fst_conv list.map_comp map_eq_conv)
  have jobs: "jb_call j = tcs ! jb_index j" if "j \<in> set (ba_jobs b)" for j
  proof -
    from that plan(2) have "(jb_index j, jb_call j, jb_trace j) \<in> set (map (\<lambda>j. (jb_index j, jb_call j, jb_trace j)) (ba_jobs b0))"
      by (metis (no_types, lifting) image_eqI list.set_map)
    with adm show ?thesis by (auto simp: admitted_def)
  qed
  have "length (map jb_index (ba_jobs b)) = length ms" using list_all2_lengthD [OF ms] by simp
  then have "map fst rs' = map fst (ba_refused b0) @ map jb_index (ba_jobs b0)"
    unfolding rs' plan(1) idx by simp
  with adm have "distinct (map fst rs')" "set (map fst rs') = set [0..<length tcs]"
    by (auto simp: admitted_def)
  then have mset: "mset (map fst rs') = mset [0..<length tcs]" by (rule mset_upt)
  have each: "answers_call env (tcs ! k) m" if "(k, m) \<in> set rs'" for k m
  proof -
    from that rs' consider "(k, m) \<in> set (ba_refused b0)" | "(k, m) \<in> set (zip (map jb_index (ba_jobs b)) ms)"
      by (auto simp: plan(1))
    then show ?thesis
    proof cases
      case 1
      with adm show ?thesis by (auto simp: admitted_def)
    next
      case 2
      then obtain n where "n < length ms" "n < length (ba_jobs b)" "k = jb_index (ba_jobs b ! n)" "m = ms ! n"
        by (auto simp: in_set_zip)
      with ms jobs show ?thesis by (metis list_all2_nthD nth_mem)
    qed
  qed
  have "\<forall>(k, m)\<in>set rs'. answers_call env (tcs ! k) m" using each by blast
  from in_order_nth [OF mset this] show ?thesis by (simp add: rs list_all2_conv_all_nth)
qed

inductive_cases executeE: "execute env api tcs st (out, st')"
inductive_cases execute_parallelE: "execute_parallel env tcs st r"

lemma execute_answers:
  assumes "execute env api tcs st ((rs, intercepted, t), st')" and "\<not> intercepted"
  shows "list_all2 (answers_call env) tcs rs \<or> rs = [] \<and> (\<exists>w. xe_cancelled env w)"
proof (rule executeE [OF assms(1)])
  fix st1
  assume "execute_sequential env [] tcs (st\<lparr>ex_api_call_id := api\<rparr>) = ((rs, intercepted, t), st1)"
  from sequential_answers [OF this] assms(2) show ?thesis by fastforce
next
  fix st1
  let ?b = "admit_calls env tcs (st\<lparr>ex_api_call_id := api\<rparr>)"
  assume p: "execute_parallel env tcs (st\<lparr>ex_api_call_id := api\<rparr>) ((rs, intercepted, t), st1)"
  show ?thesis
  proof (rule execute_parallelE [OF p])
    assume "((rs, intercepted, t), st1) = ((in_order (ba_refused ?b), False, PStr []), ba_exec ?b)" "ba_jobs ?b = []"
    with refused_only [OF admitted_calls this(2)] show ?thesis by simp
  next
    fix b
    assume out: "((rs, intercepted, t), st1) = conclude env b" and ph: "ba_phase b \<noteq> Collecting"
      and r: "reach (run_pre_hooks env ?b) (batch_step env) b"
    show ?thesis
    proof (cases "ba_phase b")
      case Collected
      from concluded_answers [OF admitted_calls r this out [symmetric] assms(2)] show ?thesis ..
    next
      case Cancelled
      have "ba_phase (run_pre_hooks env ?b) = Collecting"
        using admitted_calls [of env tcs "st\<lparr>ex_api_call_id := api\<rparr>"] by (simp add: admitted_def)
      with reach_cancelled [OF r _ Cancelled] Cancelled out show ?thesis by (simp add: conclude_def)
    qed (use ph in simp)
  qed
qed

text \<open>C5: no tool call is left unanswered and none is answered twice. Whether the batch runs sequentially
  or in parallel, and whatever the handlers do (return, raise, return an error, take too long) and in
  whatever order the workers finish, a batch that was not intercepted yields exactly one message per call,
  in the order of the calls, each made for that call's name and id; only a batch that saw its cancellation
  yields none instead.\<close>

theorem batch_answers_every_call:
  assumes "execute env api tcs st ((rs, intercepted, t), st')" and "\<not> intercepted"
  shows "list_all2 (answers_call env) tcs rs \<or> rs = [] \<and> (\<exists>w. xe_cancelled env w)"
  using execute_answers [OF assms] .

end
