(* ===== verification/Tool_Lifecycle.thy ===== *)
theory Tool_Lifecycle
  imports Tool_Executor_Laws
begin

text \<open>
  What the observer of a turn is told about a batch: the well-formedness of the lifecycle facts of a
  parallel batch in every interleaving, and that a refused call reaches no handler.
\<close>

section \<open>Operations that announce nothing\<close>

named_theorems quiet \<open>operations that leave the lifecycle facts alone\<close>

lemma quiet_log [simp, quiet]:
  "ex_lifecycle (log_ev e kvs st) = ex_lifecycle st"
  "ex_lifecycle (log_lifecycle e n c t kvs st) = ex_lifecycle st"
  "ex_lifecycle (log_tool_result n c t a s el r x st) = ex_lifecycle st"
  "ex_lifecycle (log_guard_approval tc t d st) = ex_lifecycle st"
  "ex_lifecycle (log_dispatch_failed tc t tn m el st) = ex_lifecycle st"
  "ex_lifecycle (log_start tc a t st) = ex_lifecycle st"
  "ex_lifecycle (add_error n m st) = ex_lifecycle st"
  by (simp_all add: log_ev_def log_lifecycle_def log_tool_result_def log_guard_approval_def
      log_dispatch_failed_def log_start_def add_error_def)

lemma quiet_meta [simp, quiet]:
  "ex_lifecycle (stage_meta env c el t st) = ex_lifecycle st"
  "ex_lifecycle (snd (tool_trace_id env tc st)) = ex_lifecycle st"
  "ex_lifecycle (run_pre_hook env tc a st) = ex_lifecycle st"
  "ex_lifecycle (emit_reminder_event d st) = ex_lifecycle st"
  by (simp_all add: stage_meta_def tool_trace_id_def run_pre_hook_def emit_reminder_event_def Let_def split_beta
      split: option.split py.split)

lemma quiet_prepare [simp, quiet]: "ex_lifecycle (snd (prepare_args tc t st)) = ex_lifecycle st"
  by (simp add: prepare_args_def Let_def split: option.split)

lemma quiet_molt [simp, quiet]:
  "ex_lifecycle (maybe_emit_current_molt_event d st) = ex_lifecycle st"
  by (simp add: maybe_emit_current_molt_event_def Let_def split: option.split)

lemma quiet_reconstruction [simp, quiet]:
  "ex_lifecycle (snd (attach_reconstruction env p st)) = ex_lifecycle st"
  by (simp add: attach_reconstruction_def Let_def split_beta split: option.split sum.split py.split)

lemma quiet_block [simp, quiet]:
  "ex_lifecycle (snd (attach_tool_block env r c t el sp s st)) = ex_lifecycle st"
  by (simp add: attach_tool_block_def Let_def split_beta split: option.split)

lemma quiet_build [simp, quiet]:
  "ex_lifecycle (snd (build_result_message env n v c t s el st)) = ex_lifecycle st"
  by (simp add: build_result_message_def Let_def split_beta split: option.split)

lemma notify_lifecycle_simps [simp]:
  "ex_lifecycle (notify_lifecycle n t ls st) = ex_lifecycle st @ [(t, n, ls)]"
  by (simp add: notify_lifecycle_def)

lemma reject_lifecycle:
  assumes "\<And>s. ex_lifecycle (f s) = ex_lifecycle s @ xs"
  shows "ex_lifecycle (snd (reject_unknown env tc a t f st)) = ex_lifecycle st @ xs"
  by (simp add: reject_unknown_def Let_def split_beta assms)

lemma deny_lifecycle:
  "ex_lifecycle (snd (deny_tool_call env tc a t p d st)) = ex_lifecycle st @ [(t, cr_name tc, L_Denied)]"
  by (simp add: deny_tool_call_def Let_def)

lemma quiet_done: "ex_lifecycle (log_done tc a t el r id st) = ex_lifecycle st"
  by (simp add: log_done_def)

lemma quiet_finish [simp]: "ex_lifecycle (ba_exec (finish_job env j b)) = ex_lifecycle (ba_exec b)"
  by (simp add: finish_job_def Let_def split_beta quiet_done split: sum.split)

lemma quiet_fold_hooks: "ex_lifecycle (fold (\<lambda>j. run_pre_hook env (f j) (g j)) js st) = ex_lifecycle st"
  by (induction js arbitrary: st) simp_all

section \<open>The facts of one trace\<close>

definition life :: "'w batch \<Rightarrow> string \<Rightarrow> lifecycle list" where
  "life b t = map (\<lambda>(_, _, ls). ls) (filter (\<lambda>(u, _, _). u = t) (ex_lifecycle (ba_exec b)))"

definition start_then_end :: "bool \<Rightarrow> bool \<Rightarrow> lifecycle \<Rightarrow> lifecycle list" where
  "start_then_end s e x = (if s then [L_Started] else []) @ (if e then [x] else [])"

text \<open>Of one trace: denied, started, ended, and what the observer was told.\<close>

definition trace_ok :: "bool \<Rightarrow> bool \<Rightarrow> bool \<Rightarrow> lifecycle list \<Rightarrow> bool" where
  "trace_ok d s e l \<longleftrightarrow>
     (if d then l = [L_Denied] \<and> \<not> s \<and> \<not> e
      else \<exists>x. (x = L_Failed \<or> x = L_Completed \<and> s) \<and> l = start_then_end s e x)"

definition life_ok :: "string set \<Rightarrow> 'w batch \<Rightarrow> bool" where
  "life_ok D b \<longleftrightarrow> (\<forall>t. trace_ok (t \<in> D) (t \<in> set (ba_started b)) (t \<in> set (ba_terminal b)) (life b t))"

lemma trace_ok_open: "trace_ok False s False l \<longleftrightarrow> l = (if s then [L_Started] else [])"
  by (auto simp: trace_ok_def start_then_end_def)

lemma life_emit:
  "life (emit_lifecycle n t ls b) u =
     life b u @ (if u = t \<and> t \<notin> set (ba_terminal b) \<and> (ls = L_Started \<longrightarrow> t \<notin> set (ba_started b)) then [ls] else [])"
  by (simp add: life_def emit_lifecycle_def)

lemma emit_sets:
  "set (ba_started (emit_lifecycle n t ls b)) =
     set (ba_started b) \<union> (if ls = L_Started \<and> t \<notin> set (ba_terminal b) then {t} else {})"
  "set (ba_terminal (emit_lifecycle n t ls b)) = set (ba_terminal b) \<union> (if ls \<noteq> L_Started then {t} else {})"
  by (auto simp: emit_lifecycle_def)

lemma life_ok_emit:
  assumes ok: "life_ok D b" and "t \<notin> D" "ls \<noteq> L_Denied"
    "ls = L_Completed \<Longrightarrow> t \<in> set (ba_started b) \<union> set (ba_terminal b)"
  shows "life_ok D (emit_lifecycle n t ls b)"
proof (cases "t \<in> set (ba_terminal b)")
  case True
  with ok show ?thesis by (simp add: emit_lifecycle_def)
next
  case False
  show ?thesis
    unfolding life_ok_def
  proof
    fix u
    from ok have u: "trace_ok (u \<in> D) (u \<in> set (ba_started b)) (u \<in> set (ba_terminal b)) (life b u)"
      by (simp add: life_ok_def)
    show "trace_ok (u \<in> D) (u \<in> set (ba_started (emit_lifecycle n t ls b)))
        (u \<in> set (ba_terminal (emit_lifecycle n t ls b))) (life (emit_lifecycle n t ls b) u)"
    proof (cases "u = t")
      case True
      with u False assms(2) have "life b t = (if t \<in> set (ba_started b) then [L_Started] else [])"
        by (simp add: trace_ok_open)
      with True False assms(2-4) show ?thesis
        by (cases ls) (auto simp: life_emit emit_sets trace_ok_def start_then_end_def)
    qed (use u in \<open>simp add: life_emit emit_sets\<close>)
  qed
qed

lemma life_ok_failed: "life_ok D b \<Longrightarrow> t \<notin> D \<Longrightarrow> life_ok D (emit_lifecycle n t L_Failed b)"
  by (rule life_ok_emit) simp_all

text \<open>Operations that announce nothing keep it.\<close>

lemma life_ok_same:
  assumes "life_ok D b" "ex_lifecycle (ba_exec b') = ex_lifecycle (ba_exec b)"
    "ba_started b' = ba_started b" "ba_terminal b' = ba_terminal b"
  shows "life_ok D b'"
  using assms by (simp add: life_ok_def life_def)

lemma life_ok_updates [simp]:
  "life_ok D (b\<lparr>ba_begun := x\<rparr>) = life_ok D b" "life_ok D (b\<lparr>ba_results := y\<rparr>) = life_ok D b"
  "life_ok D (b\<lparr>ba_errors := z\<rparr>) = life_ok D b" "life_ok D (b\<lparr>ba_phase := ph\<rparr>) = life_ok D b"
  by (simp_all add: life_ok_def life_def)

lemma life_ok_on_exec: "(\<And>st. ex_lifecycle (f st) = ex_lifecycle st) \<Longrightarrow> life_ok D (on_exec f b) = life_ok D b"
  by (simp add: life_ok_def life_def on_exec_def)

lemma life_ok_finish [simp]: "life_ok D (finish_job env j b) = life_ok D b"
  by (simp add: life_ok_def life_def) (simp add: finish_job_def Let_def split_beta)

lemma on_exec_sets [simp]:
  "ba_started (on_exec f b) = ba_started b" "ba_terminal (on_exec f b) = ba_terminal b"
  "ba_begun (on_exec f b) = ba_begun b" "ba_futures (on_exec f b) = ba_futures b" "ba_jobs (on_exec f b) = ba_jobs b"
  by (simp_all add: on_exec_def)

lemma emit_frame [simp]:
  "ba_begun (emit_lifecycle n t ls b) = ba_begun b" "ba_futures (emit_lifecycle n t ls b) = ba_futures b"
  "ba_jobs (emit_lifecycle n t ls b) = ba_jobs b"
  by (simp_all add: emit_lifecycle_def)

lemma collect_failure_life:
  assumes "life_ok D b" "jb_trace j \<notin> D"
  shows "life_ok D (collect_failure env j err tn msg ex b)"
proof -
  have "life_ok D (on_exec (\<lambda>st. log_dispatch_failed (jb_call j) (jb_trace j) tn msg 0
      (stage_meta env (cr_id (jb_call j)) 0 (jb_trace j) st)) (b\<lparr>ba_errors := (jb_index j, err) # ba_errors b\<rparr>))"
    using assms(1) by (subst life_ok_on_exec) simp_all
  from life_ok_failed [OF this assms(2)] show ?thesis
    unfolding collect_failure_def Let_def by (subst life_ok_on_exec) simp_all
qed

lemma collect_failure_frame [simp]:
  "set (ba_started (collect_failure env j err tn msg ex b)) = set (ba_started b)"
  "set (ba_terminal (collect_failure env j err tn msg ex b)) = insert (jb_trace j) (set (ba_terminal b))"
  "ba_begun (collect_failure env j err tn msg ex b) = ba_begun b"
  "ba_futures (collect_failure env j err tn msg ex b) = ba_futures b"
  "ba_jobs (collect_failure env j err tn msg ex b) = ba_jobs b"
  by (simp_all add: collect_failure_def Let_def emit_sets)

text \<open>
  What holds of the announcements while a batch runs: every trace is well formed, no job's trace is a
  denied one, a begun job is announced, a finished one was begun, a collected one has ended, and a
  cancelled batch has ended them all.
\<close>

definition announced :: "string set \<Rightarrow> 'w batch \<Rightarrow> bool" where
  "announced D b \<longleftrightarrow>
     life_ok D b \<and> distinct (map jb_index (ba_jobs b)) \<and>
     (\<forall>j\<in>set (ba_jobs b). jb_trace j \<notin> D \<and>
        (jb_index j \<in> set (ba_begun b) \<longrightarrow> jb_trace j \<in> set (ba_started b) \<union> set (ba_terminal b)) \<and>
        (taken_in b (jb_index j) \<or> ba_phase b = Cancelled \<longrightarrow> jb_trace j \<in> set (ba_terminal b))) \<and>
     (\<forall>i. dhas (ba_futures b) i \<longrightarrow> i \<in> set (ba_begun b))"

lemma announced_life: "announced D b \<Longrightarrow> life_ok D b"
  by (simp add: announced_def)

lemma same_index: "announced D b \<Longrightarrow> j \<in> set (ba_jobs b) \<Longrightarrow> k \<in> set (ba_jobs b) \<Longrightarrow> jb_index k = jb_index j \<Longrightarrow> k = j"
  by (auto simp: announced_def distinct_map dest: inj_onD)

lemma announced_begin:
  assumes "announced D b" "j \<in> set (ba_jobs b)"
  shows "announced D (begin_job j b)"
proof -
  have "life_ok D (begin_job j b)"
    using assms unfolding begin_job_def announced_def by (auto intro!: life_ok_emit simp: life_ok_on_exec)
  moreover have "ba_jobs (begin_job j b) = ba_jobs b" "ba_futures (begin_job j b) = ba_futures b"
    "ba_begun (begin_job j b) = jb_index j # ba_begun b" "ba_terminal (begin_job j b) = ba_terminal b"
    "set (ba_started b) \<subseteq> set (ba_started (begin_job j b))"
    "jb_trace j \<in> set (ba_started (begin_job j b)) \<union> set (ba_terminal b)"
    by (auto simp: begin_job_def emit_lifecycle_def)
  ultimately show ?thesis
    using assms same_index [OF assms] unfolding announced_def by (auto; metis)
qed

lemma announced_finish:
  assumes "announced D b" "jb_index j \<in> set (ba_begun b)"
  shows "announced D (finish_job env j b)"
proof -
  have "\<exists>args. ba_jobs (finish_job env j b) =
      map (\<lambda>k. if jb_index k = jb_index j then k\<lparr>jb_args := args\<rparr> else k) (ba_jobs b)"
    by (simp add: finish_job_def Let_def split_beta del: map_eq_conv) blast
  then obtain args where j: "ba_jobs (finish_job env j b) =
      map (\<lambda>k. if jb_index k = jb_index j then k\<lparr>jb_args := args\<rparr> else k) (ba_jobs b)" by blast
  have "ba_begun (finish_job env j b) = ba_begun b" "ba_started (finish_job env j b) = ba_started b"
    "ba_terminal (finish_job env j b) = ba_terminal b"
    "dhas (ba_futures (finish_job env j b)) i \<longleftrightarrow> i = jb_index j \<or> dhas (ba_futures b) i" for i
    by (auto simp: finish_job_def Let_def split_beta dhas_iff)
  moreover have "map jb_index (ba_jobs (finish_job env j b)) = map jb_index (ba_jobs b)"
    by (simp add: j)
  then have "distinct (map jb_index (ba_jobs (finish_job env j b)))"
    using assms(1) unfolding announced_def by metis
  ultimately show ?thesis
    using assms unfolding announced_def by (auto simp: j)
qed

lemma announced_collect:
  assumes ok: "announced D b" and j: "j \<in> set (ba_jobs b)" and f: "dget (ba_futures b) (jb_index j) = Some fu"
  shows "announced D (collect_job env j fu b)"
proof (cases "xe_cancelled env (ex_world (ba_exec b))")
  case True
  have *: "life_ok D (fold (\<lambda>j. emit_lifecycle (cr_name (jb_call j)) (jb_trace j) L_Failed) js c) \<and>
      set (ba_terminal (fold (\<lambda>j. emit_lifecycle (cr_name (jb_call j)) (jb_trace j) L_Failed) js c)) =
        jb_trace ` set js \<union> set (ba_terminal c) \<and>
      set (ba_started (fold (\<lambda>j. emit_lifecycle (cr_name (jb_call j)) (jb_trace j) L_Failed) js c)) = set (ba_started c) \<and>
      ba_jobs (fold (\<lambda>j. emit_lifecycle (cr_name (jb_call j)) (jb_trace j) L_Failed) js c) = ba_jobs c \<and>
      ba_begun (fold (\<lambda>j. emit_lifecycle (cr_name (jb_call j)) (jb_trace j) L_Failed) js c) = ba_begun c \<and>
      ba_futures (fold (\<lambda>j. emit_lifecycle (cr_name (jb_call j)) (jb_trace j) L_Failed) js c) = ba_futures c"
    if "life_ok D c" "\<forall>j\<in>set js. jb_trace j \<notin> D" for js c
    using that by (induction js arbitrary: c) (auto simp: life_ok_failed emit_sets)
  from ok have "life_ok D b" "\<forall>j\<in>set (ba_jobs b). jb_trace j \<notin> D" by (auto simp: announced_def)
  from * [OF this] True ok show ?thesis
    by (auto simp: announced_def collect_job_def fail_all_def)
next
  case False
  have begun: "jb_trace j \<in> set (ba_started b) \<union> set (ba_terminal b)" "jb_trace j \<notin> D"
    using ok j f by (auto simp: announced_def dhas_iff)
  show ?thesis
  proof (cases fu)
    case (Inl e)
    then show ?thesis
      using False ok j same_index [OF ok j]
      by (auto simp: collect_job_def announced_def collect_failure_life)
  next
    case (Inr r)
    define ls where "ls = (if result_status (fst r) = PStr ''error'' then L_Failed else L_Completed)"
    define c where "c = b\<lparr>ba_results := (jb_index j, fst r, snd r) # ba_results b\<rparr>"
    have eq: "collect_job env j fu b = emit_lifecycle (cr_name (jb_call j)) (jb_trace j) ls c"
      using False Inr by (simp add: collect_job_def ls_def c_def split_beta)
    have "life_ok D (emit_lifecycle (cr_name (jb_call j)) (jb_trace j) ls c)"
      using ok begun by (intro life_ok_emit) (auto simp: announced_def c_def ls_def)
    moreover have "taken_in c i \<longleftrightarrow> i = jb_index j \<or> taken_in b i" for i
      by (auto simp: taken_in_def c_def dhas_iff)
    moreover have "ls \<noteq> L_Started" by (simp add: ls_def)
    ultimately show ?thesis
      using ok same_index [OF ok j] unfolding eq announced_def
      by (auto simp: emit_sets c_def)
  qed
qed

lemma announced_timeout:
  "announced D b \<Longrightarrow> j \<in> set (ba_jobs b) \<Longrightarrow> announced D (timeout_job env j b) \<and> ba_jobs (timeout_job env j b) = ba_jobs b"
  using same_index [of D b j] by (auto simp: timeout_job_def announced_def collect_failure_life)

lemma announced_expire:
  assumes "announced D b"
  shows "announced D (expire env b)"
proof -
  have "announced D (fold (timeout_job env) js b)" if "set js \<subseteq> set (ba_jobs b)" for js
    using that assms by (induction js arbitrary: b) (auto simp: announced_timeout)
  from this [of "ba_jobs b"] show ?thesis by (simp add: expire_def announced_def)
qed

lemma announced_step: "batch_step env b b' \<Longrightarrow> announced D b \<Longrightarrow> announced D b'"
  by (erule batch_step.cases)
    (simp_all add: announced_begin announced_finish announced_collect announced_expire, simp add: announced_def)

section \<open>The facts after the admission\<close>

text \<open>The traces of the first calls: their ids, which are given and distinct.\<close>

definition ids_given :: "call_request list \<Rightarrow> bool" where
  "ids_given tcs \<longleftrightarrow> distinct (map cr_id tcs) \<and> (\<forall>tc\<in>set tcs. \<exists>i. cr_id tc = Some i \<and> i \<noteq> [])"

definition traces :: "call_request list \<Rightarrow> string set" where
  "traces tcs = {i. Some i \<in> cr_id ` set tcs}"

definition admission_life :: "call_request list \<Rightarrow> string set \<Rightarrow> 'w batch \<Rightarrow> bool" where
  "admission_life tcs D b \<longleftrightarrow>
     life_ok D b \<and> D \<subseteq> traces tcs \<and> set (ba_started b) \<union> set (ba_terminal b) \<subseteq> traces tcs \<and>
     jb_trace ` set (ba_jobs b) \<subseteq> traces tcs - D \<and> (\<forall>t. t \<notin> traces tcs \<longrightarrow> life b t = [])"

lemma traces_snoc: "cr_id tc = Some i \<Longrightarrow> traces (tcs @ [tc]) = insert i (traces tcs)"
  by (auto simp: traces_def)

lemma life_exec: "ba_exec c = ba_exec b \<Longrightarrow> life c t = life b t"
  by (simp add: life_def)

lemma life_append:
  "ex_lifecycle (ba_exec c) = ex_lifecycle (ba_exec b) @ [(t, n, ls)] \<Longrightarrow>
   life c u = life b u @ (if u = t then [ls] else [])"
  by (simp add: life_def)

lemma admission_refuse:
  assumes ok: "admission_life tcs D b" and i: "cr_id tc = Some i" "i \<notin> traces tcs"
    and c: "ex_lifecycle (ba_exec c) = ex_lifecycle (ba_exec b) @ [(i, n, ls)]" "ba_jobs c = ba_jobs b"
      "ba_started c = ba_started b"
    and ls: "ls = L_Denied \<and> D' = insert i D \<and> ba_terminal c = ba_terminal b \<or>
             ls = L_Failed \<and> D' = D \<and> ba_terminal c = i # ba_terminal b"
  shows "admission_life (tcs @ [tc]) D' c"
proof -
  have life: "life c u = life b u @ (if u = i then [ls] else [])" for u by (rule life_append) (rule c(1))
  have fresh: "i \<notin> D" "i \<notin> set (ba_started b)" "i \<notin> set (ba_terminal b)" "life b i = []"
    using ok i(2) by (auto simp: admission_life_def)
  have "life_ok D' c"
    unfolding life_ok_def
  proof
    fix t
    from ok have "trace_ok (t \<in> D) (t \<in> set (ba_started b)) (t \<in> set (ba_terminal b)) (life b t)"
      by (simp add: admission_life_def life_ok_def)
    then show "trace_ok (t \<in> D') (t \<in> set (ba_started c)) (t \<in> set (ba_terminal c)) (life c t)"
      using fresh ls by (cases "t = i") (auto simp: life c(3) trace_ok_def start_then_end_def)
  qed
  with ok ls i show ?thesis by (auto simp: admission_life_def traces_snoc c life)
qed

lemma admission_call:
  assumes ok: "admission_life tcs D b" and i: "cr_id tc = Some i" "i \<noteq> []" "i \<notin> traces tcs"
  shows "\<exists>D'. admission_life (tcs @ [tc]) D' (admit_call env n tc b)"
proof -
  have tr: "tool_trace_id env tc (ba_exec b) = (i, ba_exec b)" using i by (simp add: tool_trace_id_def)
  let ?args = "fst (prepare_args tc i (ba_exec b))"
  let ?p = "proposal_of tc ?args i"
  have fresh: "i \<notin> set (ba_terminal b)" using ok i(3) by (auto simp: admission_life_def)
  consider (unknown) "unknown_tool env (cr_name tc)"
    | (denied) "\<not> unknown_tool env (cr_name tc)" "\<not> gd_allowed (evaluate (xe_checks env) ?p)"
    | (allowed) "\<not> unknown_tool env (cr_name tc)" "gd_allowed (evaluate (xe_checks env) ?p)"
    by blast
  then show ?thesis
  proof cases
    case unknown
    then have "admission_life (tcs @ [tc]) D (admit_call env n tc b)"
      by (intro admission_refuse [OF ok i(1,3)])
        (auto simp: admit_call_def Let_def split_beta tr fresh refuse_def reject_lifecycle [where xs = "[(i, cr_name tc, L_Failed)]"])
    then show ?thesis ..
  next
    case denied
    then have "admission_life (tcs @ [tc]) (insert i D) (admit_call env n tc b)"
      by (intro admission_refuse [OF ok i(1,3)])
        (auto simp: admit_call_def Let_def split_beta tr refuse_def deny_lifecycle)
    then show ?thesis ..
  next
    case allowed
    let ?c = "admit_call env n tc b"
    have "ex_lifecycle (ba_exec ?c) = ex_lifecycle (ba_exec b)" "ba_started ?c = ba_started b"
      "ba_terminal ?c = ba_terminal b" "jb_trace ` set (ba_jobs ?c) = insert i (jb_trace ` set (ba_jobs b))"
      using allowed by (auto simp: admit_call_def Let_def split_beta tr)
    moreover from this have "life ?c t = life b t" for t by (simp add: life_def)
    ultimately have "admission_life (tcs @ [tc]) D ?c"
      using ok i by (auto simp: admission_life_def life_ok_def traces_snoc)
    then show ?thesis ..
  qed
qed

lemma admission_calls:
  assumes "ids_given tcs" "ex_lifecycle st = []"
  shows "\<exists>D. admission_life tcs D (admit_calls env tcs st)"
proof -
  have "\<exists>D. admission_life pre D (fold (\<lambda>(i, tc). admit_call env i tc) (enumerate 0 pre) (init_batch st))"
    if "tcs = pre @ post" for pre post
    using that
  proof (induction pre arbitrary: post rule: rev_induct)
    case Nil
    from assms(2) have "admission_life [] {} (init_batch st)"
      by (simp add: admission_life_def life_ok_def life_def init_batch_def trace_ok_open traces_def)
    then show ?case by auto
  next
    case (snoc tc pre)
    then obtain D where "admission_life pre D (fold (\<lambda>(i, tc). admit_call env i tc) (enumerate 0 pre) (init_batch st))"
      by auto
    moreover obtain i where "cr_id tc = Some i" "i \<noteq> []" "i \<notin> traces pre"
      using assms(1) snoc.prems by (force simp: ids_given_def traces_def)
    ultimately show ?case by (simp add: enumerate_append_eq admission_call)
  qed
  from this [of tcs "[]"] show ?thesis by (simp add: admit_calls_def)
qed

lemma announced_admitted:
  assumes "admission_life tcs D b" "admitted env tcs n b"
  shows "announced D (run_pre_hooks env b)"
proof -
  have "life_ok D (run_pre_hooks env b) = life_ok D b"
    unfolding run_pre_hooks_def by (rule life_ok_on_exec) (rule quiet_fold_hooks)
  moreover have "ba_jobs (run_pre_hooks env b) = ba_jobs b" "ba_begun (run_pre_hooks env b) = ba_begun b"
    "ba_futures (run_pre_hooks env b) = ba_futures b" "ba_phase (run_pre_hooks env b) = ba_phase b"
    "taken_in (run_pre_hooks env b) = taken_in b"
    by (simp_all add: run_pre_hooks_def)
  ultimately show ?thesis
    using assms by (auto simp: announced_def admission_life_def admitted_def taken_in_def dhas_def)
qed

section \<open>Properties\<close>

text \<open>A batch to observe: a fresh observer, call ids given and distinct.\<close>

text \<open>C11: what the observer of a turn is told about a parallel batch is well formed in every interleaving of
  the workers with the collecting thread, its cancellation and its timeout, at every moment. For each call
  the facts are one of: nothing yet, started, denied, failed, started then completed, started then failed;
  never two ends, never a start after an end, never a completion without a start. Once the collecting thread
  is done, every call that was to run has been reported ended.\<close>

theorem parallel_lifecycle_well_formed:
  assumes "ids_given tcs" "ex_lifecycle st = []"
    and "reach (run_pre_hooks env (admit_calls env tcs st)) (batch_step env) b"
  shows "life b t \<in> {[], [L_Started], [L_Denied], [L_Failed], [L_Started, L_Completed], [L_Started, L_Failed]} \<and>
    (ba_phase b \<noteq> Collecting \<longrightarrow> (\<forall>j\<in>set (ba_jobs b). last (life b (jb_trace j)) \<in> {L_Completed, L_Failed}))"
proof -
  from admission_calls [OF assms(1,2), of env] obtain D where
    "admission_life tcs D (admit_calls env tcs st)" ..
  from announced_admitted [OF this admitted_calls] assms(3) have ann: "announced D b"
    by (induction rule: reach.induct [OF assms(3)]) (auto intro: announced_step)
  have ok: "trace_ok (u \<in> D) (u \<in> set (ba_started b)) (u \<in> set (ba_terminal b)) (life b u)" for u
    using announced_life [OF ann] by (simp add: life_ok_def)
  have plan: "batch_ok (plan (admit_calls env tcs st)) b"
    using batch_ok_reach [OF assms(3)] admitted_calls [of env tcs st] by (simp add: admitted_def)
  have "last (life b (jb_trace j)) \<in> {L_Completed, L_Failed}"
    if "ba_phase b \<noteq> Collecting" "j \<in> set (ba_jobs b)" for j
  proof -
    have "ba_phase b = Collected \<Longrightarrow> taken_in b (jb_index j)"
      by (rule batch_ok_taken [OF plan _ that(2)])
    with that ann have "jb_trace j \<in> set (ba_terminal b)" "jb_trace j \<notin> D"
      by (cases "ba_phase b"; auto simp: announced_def)+
    with ok [of "jb_trace j"] show ?thesis by (auto simp: trace_ok_def start_then_end_def)
  qed
  with ok [of t] show ?thesis
    by (auto simp: trace_ok_def start_then_end_def split: if_splits)
qed

definition sample_exec_env :: "nat exec_env" where
  "sample_exec_env = \<lparr>xe_known = [''read''], xe_parallel_safe = [''read''],
     xe_checks = [(None, \<lambda>p. Inr (RBool (pr_tool_call_id p \<noteq> Some ''t2'')))],
     xe_dispatch = (\<lambda>tc w. ((Inl (RuntimeError ''disk''), 3, cr_args tc), w + 1)), xe_pre_hook = None,
     xe_result_hook = None, xe_cancelled = (\<lambda>_. False), xe_meta = (\<lambda>w. ([], w)), xe_uuid = (\<lambda>w. (''u'', w + 1)),
     xe_now = (\<lambda>_. ''now''), xe_traceback = (\<lambda>_. ''tb''),
     xe_make = (\<lambda>n v c w. ((\<lparr>tr_id = nonempty_or c '''', tr_name = n, tr_content = v, tr_metadata = [],
       tr_synthesized = False, tr_agent_pending = None\<rparr>, v), w)),
     xe_reconstruction = None, xe_molt = (\<lambda>_ _. None), xe_spill = sample_env,
     xe_summary = \<lparr>su_float = (\<lambda>_. ''0.0''), su_now = (\<lambda>_. ''now''), su_summarizer = None\<rparr>,
     xe_max_result_chars = 200000, xe_working_dir = Some [''w''], xe_hint_threshold = 3000,
     xe_raw_log_path = None, xe_raw_event_type = None\<rparr>"

definition sample_executor :: "nat executor" where
  "sample_executor = \<lparr>ex_guard = default_guard, ex_log = [], ex_lifecycle = [], ex_errors = [], ex_pending = [],
     ex_molt_round = None, ex_api_call_id = None, ex_world = 0\<rparr>"

definition sample_calls :: "call_request list" where
  "sample_calls = [\<lparr>cr_name = ''read'', cr_args = [], cr_id = Some ''t1''\<rparr>, \<lparr>cr_name = ''read'', cr_args = [], cr_id = Some ''t2''\<rparr>]"

lemma parallel_lifecycle_well_formed_witness:
  "life (run_pre_hooks sample_exec_env (admit_calls sample_exec_env sample_calls sample_executor)) ''t2''
     \<in> {[], [L_Started], [L_Denied], [L_Failed], [L_Started, L_Completed], [L_Started, L_Failed]}"
  by (rule parallel_lifecycle_well_formed [THEN conjunct1, OF _ _ reach_init])
    (simp_all add: ids_given_def sample_calls_def sample_executor_def)

text \<open>Whether a call is refused is decided before its handler could be reached.\<close>

definition call_refused :: "'w exec_env \<Rightarrow> call_request \<Rightarrow> string \<Rightarrow> bool" where
  "call_refused env tc trace \<longleftrightarrow>
     unknown_tool env (cr_name tc) \<or>
     \<not> gd_allowed (evaluate (xe_checks env) (proposal_of tc (normalized_args (cr_args tc)) trace))"

lemma prepared_args [simp]: "fst (prepare_args tc trace st) = normalized_args (cr_args tc)"
  by (simp add: prepare_args_def Let_def)

lemma same_surroundings:
  "xe_uuid (env\<lparr>xe_dispatch := f\<rparr>) = xe_uuid env" "xe_molt (env\<lparr>xe_dispatch := f\<rparr>) = xe_molt env"
  "xe_reconstruction (env\<lparr>xe_dispatch := f\<rparr>) = xe_reconstruction env"
  by simp_all

lemma trace_without_dispatch [simp]:
  "tool_trace_id (env\<lparr>xe_dispatch := f\<rparr>) = tool_trace_id env"
  "attach_reconstruction (env\<lparr>xe_dispatch := f\<rparr>) = attach_reconstruction env"
  unfolding fun_eq_iff tool_trace_id_def attach_reconstruction_def same_surroundings by simp_all

lemma without_dispatch [simp]:
  "stage_meta (env\<lparr>xe_dispatch := f\<rparr>) = stage_meta env"
  "overflow_comment_applies (env\<lparr>xe_dispatch := f\<rparr>) = overflow_comment_applies env"
  "spill_call (env\<lparr>xe_dispatch := f\<rparr>) = spill_call env"
  "unknown_tool (env\<lparr>xe_dispatch := f\<rparr>) = unknown_tool env"
  "unknown_tool_result (env\<lparr>xe_dispatch := f\<rparr>) = unknown_tool_result env"
  "guard_rejection_result (env\<lparr>xe_dispatch := f\<rparr>) = guard_rejection_result env"
  by (simp_all add: fun_eq_iff stage_meta_def
      overflow_comment_applies_def spill_call_def unknown_tool_def unknown_tool_result_def guard_rejection_result_def)

lemma block_without_dispatch [simp]: "attach_tool_block (env\<lparr>xe_dispatch := f\<rparr>) = attach_tool_block env"
  by (simp add: fun_eq_iff attach_tool_block_def)

lemma build_without_dispatch [simp]: "build_result_message (env\<lparr>xe_dispatch := f\<rparr>) = build_result_message env"
  by (simp add: fun_eq_iff build_result_message_def)

lemma refusal_without_dispatch [simp]:
  "reject_unknown (env\<lparr>xe_dispatch := f\<rparr>) = reject_unknown env"
  "deny_tool_call (env\<lparr>xe_dispatch := f\<rparr>) = deny_tool_call env"
  by (simp_all add: fun_eq_iff reject_unknown_def deny_tool_call_def)

lemma refused_single:
  assumes "call_refused env tc (fst (tool_trace_id env tc st))"
  shows "execute_single (env\<lparr>xe_dispatch := f\<rparr>) tc st = execute_single env tc st"
    "\<not> fst (snd (fst (execute_single env tc st)))"
    "\<exists>ls. ls \<in> {L_Failed, L_Denied} \<and> ex_lifecycle (snd (execute_single env tc st)) =
       ex_lifecycle st @ [(fst (tool_trace_id env tc st), cr_name tc, ls)]"
proof -
  let ?t = "fst (tool_trace_id env tc st)"
  consider "unknown_tool env (cr_name tc)"
    | "\<not> unknown_tool env (cr_name tc)"
      "\<not> gd_allowed (evaluate (xe_checks env) (proposal_of tc (normalized_args (cr_args tc)) ?t))"
    using assms by (auto simp: call_refused_def)
  note cases = this
  show "execute_single (env\<lparr>xe_dispatch := f\<rparr>) tc st = execute_single env tc st"
    by (cases rule: cases) (simp_all add: execute_single_def Let_def split_beta)
  show "\<not> fst (snd (fst (execute_single env tc st)))"
    by (cases rule: cases) (simp_all add: execute_single_def Let_def split_beta)
  show "\<exists>ls. ls \<in> {L_Failed, L_Denied} \<and> ex_lifecycle (snd (execute_single env tc st)) =
      ex_lifecycle st @ [(?t, cr_name tc, ls)]"
    by (cases rule: cases)
      (auto simp: execute_single_def Let_def split_beta deny_lifecycle
        reject_lifecycle [where xs = "[(?t, cr_name tc, L_Failed)]"])
qed

lemma admitted_jobs_allowed:
  "\<forall>j\<in>set (ba_jobs (admit_calls env tcs st)). \<not> call_refused env (jb_call j) (jb_trace j)"
proof -
  have "\<forall>j\<in>set (ba_jobs (fold (\<lambda>(i, tc). admit_call env i tc) xs b)). \<not> call_refused env (jb_call j) (jb_trace j)"
    if "\<forall>j\<in>set (ba_jobs b). \<not> call_refused env (jb_call j) (jb_trace j)" for xs b
    using that
  proof (induction xs arbitrary: b)
    case (Cons x xs)
    have "\<forall>j\<in>set (ba_jobs (admit_call env (fst x) (snd x) b)). \<not> call_refused env (jb_call j) (jb_trace j)"
      using Cons.prems by (auto simp: admit_call_def Let_def split_beta refuse_def call_refused_def)
    from Cons.IH [OF this] show ?case by (simp add: split_beta)
  qed simp
  from this [of "init_batch st"] show ?thesis by (simp add: admit_calls_def init_batch_def)
qed

text \<open>C39: a refused call reaches no handler. A call to a tool that is not registered, or one the guard chain
  does not allow, is executed the same whatever the handlers are: they are not called, the batch goes on, and
  the observer is told one fact, that the call failed or was denied. In a parallel batch the workers only
  ever get calls that are not refused, at whatever moment they run.\<close>

theorem refused_call_reaches_no_handler:
  assumes "call_refused env tc (fst (tool_trace_id env tc st))"
    and "reach (run_pre_hooks env (admit_calls env tcs st0)) (batch_step env) b" and "j \<in> set (ba_jobs b)"
  shows "execute_single (env\<lparr>xe_dispatch := any_handler\<rparr>) tc st = execute_single env tc st \<and>
    \<not> fst (snd (fst (execute_single env tc st))) \<and>
    (\<exists>ls\<in>{L_Failed, L_Denied}. ex_lifecycle (snd (execute_single env tc st)) =
       ex_lifecycle st @ [(fst (tool_trace_id env tc st), cr_name tc, ls)]) \<and>
    \<not> call_refused env (jb_call j) (jb_trace j)"
proof -
  have "plan b = plan (admit_calls env tcs st0)"
    using batch_ok_reach [OF assms(2)] admitted_calls [of env tcs st0] by (simp add: admitted_def batch_ok_def)
  moreover have "(jb_index j, jb_call j, jb_trace j) \<in> set (snd (plan b))"
    using assms(3) by (auto simp: plan_def)
  ultimately have "\<not> call_refused env (jb_call j) (jb_trace j)"
    using admitted_jobs_allowed [of env tcs st0] by (auto simp: plan_def)
  with refused_single [OF assms(1)] show ?thesis by blast
qed

lemma refused_call_reaches_no_handler_witness:
  "execute_single (sample_exec_env\<lparr>xe_dispatch := (\<lambda>_ w. ((Inr (PStr ''ran''), 0, []), w))\<rparr>)
     \<lparr>cr_name = ''rm'', cr_args = [], cr_id = Some ''t9''\<rparr> sample_executor =
   execute_single sample_exec_env \<lparr>cr_name = ''rm'', cr_args = [], cr_id = Some ''t9''\<rparr> sample_executor"
proof -
  let ?b = "run_pre_hooks sample_exec_env (admit_calls sample_exec_env [hd sample_calls] sample_executor)"
  have jobs: "ba_jobs ?b \<noteq> []"
    by (simp add: admit_calls_def admit_call_def sample_calls_def Let_def split_beta run_pre_hooks_def unknown_tool_def
        sample_exec_env_def tool_trace_id_def evaluate_def run_check_def coerce_decision_def allow_named_def
        allow_decision_def raises_strength_def proposal_of_def default_allow_def)
  have refused: "call_refused sample_exec_env \<lparr>cr_name = ''rm'', cr_args = [], cr_id = Some ''t9''\<rparr> t" for t
    by (simp add: call_refused_def unknown_tool_def sample_exec_env_def)
  show ?thesis
    by (rule refused_call_reaches_no_handler [THEN conjunct1, OF refused reach_init hd_in_set [OF jobs]])
qed

lemma sample_sequential:
  "\<exists>rs st'. execute sample_exec_env None [\<lparr>cr_name = ''rm'', cr_args = [], cr_id = Some ''t9''\<rparr>] sample_executor
     ((rs, False, PStr []), st')"
proof -
  let ?tc = "\<lparr>cr_name = ''rm'', cr_args = [], cr_id = Some ''t9''\<rparr>"
  let ?r = "execute_single sample_exec_env ?tc sample_executor"
  have "call_refused sample_exec_env ?tc t" for t
    by (simp add: call_refused_def unknown_tool_def sample_exec_env_def)
  then have "\<not> fst (snd (fst ?r))" by (rule refused_single(2))
  moreover have "sample_executor\<lparr>ex_api_call_id := None\<rparr> = sample_executor" by (simp add: sample_executor_def)
  ultimately have "execute_sequential sample_exec_env [] [?tc] (sample_executor\<lparr>ex_api_call_id := None\<rparr>) =
      (([fst (fst ?r)], False, PStr []), snd ?r)"
    by (simp add: split_beta Let_def) (simp add: sample_exec_env_def)
  from execute.sequential [OF _ this] show ?thesis by (auto simp: all_parallel_safe_def)
qed

lemma batch_answers_every_call_witness:
  "\<exists>rs st'. execute sample_exec_env None [\<lparr>cr_name = ''rm'', cr_args = [], cr_id = Some ''t9''\<rparr>] sample_executor
     ((rs, False, PStr []), st') \<and> length rs = 1"
proof -
  obtain rs st' where e: "execute sample_exec_env None [\<lparr>cr_name = ''rm'', cr_args = [], cr_id = Some ''t9''\<rparr>]
      sample_executor ((rs, False, PStr []), st')"
    using sample_sequential by blast
  from batch_answers_every_call [OF e] have "length rs = 1"
    by (auto simp: sample_exec_env_def dest: list_all2_lengthD)
  with e show ?thesis by blast
qed

end
