(* ===== verification/Chat_Properties.thy ===== *)
theory Chat_Properties
  imports Chat_Laws
begin

text \<open>
  What the conversation log promises its callers, proved from the laws of \<^verbatim>\<open>Chat_Laws\<close>. A sample
  conversation, built with the operations themselves, serves the concrete instances.
\<close>

section \<open>A sample conversation\<close>

definition sample_call :: "string \<Rightarrow> tool_call" where
  "sample_call i = \<lparr>tc_id = i, tc_name = ''shell'', tc_args = [(''action'', PStr ''run'')]\<rparr>"

definition sample_result :: "string \<Rightarrow> string \<Rightarrow> bool \<Rightarrow> tool_result" where
  "sample_result i s synth = \<lparr>tr_id = i, tr_name = ''shell'', tr_content = PStr s, tr_metadata = [],
     tr_synthesized = synth, tr_agent_pending = None\<rparr>"

definition sample_asked :: chat where
  "sample_asked =
     add_assistant_message 2 [TextBlock ''ok'', ToolCallBlock (sample_call ''a'')] [] None None []
       (append_entry 1 User [TextBlock ''hi''] [] id init_chat)"

definition sample_answered :: chat where
  "sample_answered = snd (add_tool_results 3 [sample_result ''a'' ''done'' False] sample_asked)"

lemmas sample_defs = sample_call_def sample_result_def sample_asked_def sample_answered_def init_chat_def

lemmas chat_eval = sample_defs append_entry_def new_entry_def add_assistant_message_def add_tool_results_def
  place_result_def holds_placeholder_def has_pending_tool_calls_def tail_pending_def has_calls_def

lemma sample_asked_entries: "entries sample_asked =
  [new_entry 0 User [TextBlock ''hi''] 1 [], new_entry 1 Assistant [TextBlock ''ok'', ToolCallBlock (sample_call ''a'')] 2 []]"
  by (simp add: chat_eval)

lemma sample_asked_pending: "has_pending_tool_calls sample_asked"
  by (simp add: chat_eval)

lemma sample_asked_reach: "reach init_chat (chat_step fr) sample_asked"
proof -
  have "reach init_chat (chat_step fr) (append_entry 1 User [TextBlock ''hi''] [] id init_chat)"
    by (rule reach_step [OF reach_init], rule step_user [of 1 "''hi''"])
      (simp add: add_user_message_def has_pending_tool_calls_def init_chat_def)
  then show ?thesis unfolding sample_asked_def
    by (rule reach_step, intro step_assistant)
      (simp_all add: has_pending_tool_calls_def has_calls_def init_chat_def)
qed

lemma sample_answered_entries: "entries sample_answered = entries sample_asked @
  [new_entry 2 User [ToolResultBlock (sample_result ''a'' ''done'' False)] 3 []]"
  by (simp add: chat_eval)

lemma sample_answered_reach: "reach init_chat (chat_step fr) sample_answered"
proof -
  have pl: "place_results [sample_result ''a'' ''done'' False] (entries sample_asked) None =
      (entries sample_asked, [sample_result ''a'' ''done'' False], None)"
    unfolding sample_asked_entries by (simp add: chat_eval)
  have "answers_ids (last (entries sample_asked)) (set (map tr_id [sample_result ''a'' ''done'' False]))"
    by (simp add: sample_asked_entries answers_ids_def sample_call_def sample_result_def)
  with sample_asked_pending have "chat_step fr sample_asked sample_answered"
    unfolding sample_answered_def by (intro step_results [OF pl] conjI)
  with sample_asked_reach show ?thesis by (rule reach_step)
qed

section \<open>Reachable conversations\<close>

text \<open>C3: in every conversation a disciplined caller can build, an assistant entry with tool calls
  is either the last entry or directly followed by a user entry that consists of tool results only
  and answers exactly those calls. So no system entry, no user text and no other turn ever splits a
  call from its results, whatever healing, repair, truncation or deferred system update ran.\<close>

theorem call_answered_next:
  assumes "reach init_chat (chat_step fr) c" "i < length (entries c)" "has_calls (entries c ! i)"
  shows "Suc i = length (entries c) \<or>
    (Suc i < length (entries c) \<and> is_result_entry (entries c ! Suc i) \<and>
     set (map tr_id (results_of (e_content (entries c ! Suc i)))) =
     set (map tc_id (calls_of (e_content (entries c ! i)))))"
  using well_paired_nth [of "entries c" i] chat_wire.reach_inv [OF assms(1)] assms(2,3)
  by (auto simp: wire_ok_def answers_def answers_ids_def)

lemma call_answered_next_witness:
  "is_result_entry (entries sample_answered ! 2)"
proof -
  have "1 < length (entries sample_answered)" "has_calls (entries sample_answered ! 1)"
    by (simp_all add: sample_answered_entries sample_asked_entries has_calls_def)
  from call_answered_next [OF sample_answered_reach [of "\<lambda>_. []"] this]
  show ?thesis by (simp add: sample_answered_entries sample_asked_entries numeral_2_eq_2)
qed

text \<open>along every run the ids of the entries increase strictly and stay below the next id, so an id
  names one entry and \<^verbatim>\<open>truncate_to\<close> and the compaction boundary cannot confuse two of them.\<close>

theorem entry_ids_increase:
  assumes "reach init_chat (chat_step fr) c" "i < j" "j < length (entries c)"
  shows "e_id (entries c ! i) < e_id (entries c ! j) \<and> e_id (entries c ! j) < next_id c"
proof -
  have "ids_ok c" by (rule chat_ids.reach_inv [OF assms(1)])
  then show ?thesis using assms(2,3) by (auto simp: ids_ok_def sorted_wrt_iff_nth_less)
qed

lemma entry_ids_increase_witness: "e_id (entries sample_asked ! 0) < e_id (entries sample_asked ! 1)"
  using entry_ids_increase [OF sample_asked_reach [of "\<lambda>_. []"], of 0 1] by (simp add: sample_asked_entries)

text \<open>the repair that runs before every send never destroys history in a conversation a disciplined
  caller built: apart from a deferred system entry it appends, it leaves the entries as they are, and
  when no call is pending every call id has a result and every result a call.\<close>

theorem enforce_strips_nothing:
  assumes "reach init_chat (chat_step fr) c"
  shows "entries (snd (enforce_tool_pairing now c)) = entries (snd (flush_pending_system now c)) \<and>
    (\<not> has_pending_tool_calls c \<longrightarrow> set (call_ids (entries c)) = set (answered_ids (entries c)))"
proof -
  have ok: "wire_ok c" by (rule chat_wire.reach_inv [OF assms])
  have "well_paired (entries (snd (flush_pending_system now c)))"
    using wire_flush [OF ok] by (simp add: wire_ok_def)
  then have "entries (snd (enforce_tool_pairing now c)) = entries (snd (flush_pending_system now c))"
    by (auto simp: enforce_tool_pairing_def pair_entries_well_paired split: prod.splits sum.splits)
  with ok show ?thesis by (simp add: wire_ok_def has_pending_tool_calls_def well_paired_balanced)
qed

lemma enforce_strips_nothing_witness:
  "entries (snd (enforce_tool_pairing 9 sample_answered)) = entries sample_answered"
  using enforce_strips_nothing [OF sample_answered_reach [of "\<lambda>_. []"], of 9]
  by (simp add: flush_pending_system_def sample_answered_def add_tool_results_def sample_asked_def
      add_assistant_message_def init_chat_def split: prod.splits)

section \<open>Healing and repair\<close>

lemma has_pending_append_user [simp]: "\<not> has_pending_tool_calls (append_entry now User bs pd id c)"
  by (simp add: has_pending_tool_calls_def has_calls_def)

lemma close_one_total:
  assumes "\<not> (tcd \<and> tnd)"
  shows "\<exists>r. close_one fr lk reason tcd tnd t = Inr r \<and> tr_id r = tc_id t \<and> tr_name r = tc_name t \<and>
    (tr_synthesized r \<or> (\<exists>f. lk = Some f \<and> f t = Inr (Some r)))"
proof -
  from synthesized_abort_message_total [OF assms] obtain s where
    s: "synthesized_abort_message fr (tc_name t) reason tcd tnd (Some t) = Inr s" by blast
  show ?thesis
  proof (cases "\<exists>f r. lk = Some f \<and> f t = Inr (Some r) \<and> tr_id r = tc_id t \<and> tr_name r = tc_name t")
    case True
    then show ?thesis by (auto simp: close_one_def Let_def)
  next
    case False
    then have "close_one fr lk reason tcd tnd t = Inr \<lparr>tr_id = tc_id t, tr_name = tc_name t,
      tr_content = PStr s, tr_metadata = [], tr_synthesized = True, tr_agent_pending = None\<rparr>"
      by (auto simp: close_one_def Let_def s split: option.splits sum.splits)
    then show ?thesis by simp
  qed
qed

text \<open>C30: healing a conversation whose last turn has unanswered calls always succeeds (unless the
  caller claims at once that the tool completed and that it was never dispatched), appends one user
  entry with exactly one result per pending call, in order and under the same id and name, and each
  result is the one the recovery lookup found or a placeholder marked synthesized, even when the
  lookup raises; afterwards nothing is pending and a second call changes nothing.\<close>

theorem close_pending_heals:
  assumes "has_pending_tool_calls c" "\<not> (tcd \<and> tnd)"
  shows "\<exists>rs. let c' = append_entry now User (map ToolResultBlock rs) [] id c;
                  pending = calls_of (e_content (last (entries c)));
                  lookup = (case lk of Some f \<Rightarrow> Some f | None \<Rightarrow> recovery_lookup c)
    in close_pending_tool_calls fr now reason tcd tnd lk c = (Inr (), c') \<and>
       list_all2 (\<lambda>t r. tr_id r = tc_id t \<and> tr_name r = tc_name t \<and>
         (tr_synthesized r \<or> (\<exists>f. lookup = Some f \<and> f t = Inr (Some r)))) pending rs \<and>
       \<not> has_pending_tool_calls c' \<and>
       close_pending_tool_calls fr now2 reason2 tcd2 tnd2 lk2 c' = (Inr (), c')"
proof -
  let ?lk = "case lk of Some f \<Rightarrow> Some f | None \<Rightarrow> recovery_lookup c"
  let ?ts = "calls_of (e_content (last (entries c)))"
  obtain rs where rs: "emap (close_one fr ?lk reason tcd tnd) ?ts = Inr rs"
    using emap_total [of ?ts "close_one fr ?lk reason tcd tnd"] close_one_total [OF assms(2)] by blast
  have "close_pending_tool_calls fr now reason tcd tnd lk c =
      (Inr (), append_entry now User (map ToolResultBlock rs) [] id c)"
    using assms(1) rs by (simp add: close_pending_tool_calls_def)
  moreover have "list_all2 (\<lambda>t r. tr_id r = tc_id t \<and> tr_name r = tc_name t \<and>
         (tr_synthesized r \<or> (\<exists>f. ?lk = Some f \<and> f t = Inr (Some r)))) ?ts rs"
    using emap_list_all2 [OF rs] by (rule list_all2_mono) (metis close_one_total [OF assms(2)] sum.inject(2))
  ultimately show ?thesis by (auto simp: Let_def close_pending_tool_calls_def)
qed

lemma close_pending_heals_witness:
  "\<exists>c'. close_pending_tool_calls (\<lambda>_. ''0.0'') 5 ''crash'' False False
     (Some (\<lambda>_. Inl (OSError ''read''))) sample_asked = (Inr (), c') \<and> \<not> has_pending_tool_calls c'"
proof -
  obtain rs where "close_pending_tool_calls (\<lambda>_. ''0.0'') 5 ''crash'' False False
      (Some (\<lambda>_. Inl (OSError ''read''))) sample_asked
      = (Inr (), append_entry 5 User (map ToolResultBlock rs) [] id sample_asked)"
    using close_pending_heals [OF sample_asked_pending, of False False 5 "Some (\<lambda>_. Inl (OSError ''read''))"
      "\<lambda>_. ''0.0''" "''crash''"] unfolding Let_def by blast
  then show ?thesis using has_pending_append_user by blast
qed



section \<open>Results that arrive late\<close>

definition log_results :: "chat_entry list \<Rightarrow> tool_result list" where
  "log_results es = concat (map (\<lambda>e. results_of (e_content e)) es)"

lemma log_results_simps [simp]:
  "log_results [] = []"
  "log_results (e # es) = results_of (e_content e) @ log_results es"
  "log_results (es @ fs) = log_results es @ log_results fs"
  by (simp_all add: log_results_def)

lemma find_index_split:
  "find_index p xs = Some i \<Longrightarrow> \<exists>as x bs. xs = as @ x # bs \<and> length as = i \<and> p x \<and> (\<forall>y\<in>set as. \<not> p y)"
  by (drule find_index_SomeD)
    (metis id_take_nth_drop in_set_conv_nth length_take min.absorb2 nth_take order_less_imp_le)

lemma find_index_exists: "x \<in> set xs \<Longrightarrow> p x \<Longrightarrow> \<exists>i. find_index p xs = Some i"
  using find_index_None_iff [of p xs] by (cases "find_index p xs") auto

lemma is_placeholder_iff: "is_placeholder i b \<longleftrightarrow> (\<exists>r. b = ToolResultBlock r \<and> tr_id r = i \<and> tr_synthesized r)"
  by (cases b) auto

lemma replace_block_split:
  assumes "holds_placeholder (tr_id r) e"
  shows "\<exists>as p bs. e_content e = as @ ToolResultBlock p # bs \<and> tr_id p = tr_id r \<and>
    replace_block r e = e\<lparr>e_content := as @ ToolResultBlock r # bs\<rparr>"
proof -
  obtain k where k: "find_index (is_placeholder (tr_id r)) (e_content e) = Some k"
    using assms find_index_exists [of _ "e_content e" "is_placeholder (tr_id r)"]
    by (auto simp: holds_placeholder_def list_ex_iff)
  from find_index_split [OF k] obtain as p bs where
    e: "e_content e = as @ ToolResultBlock p # bs" "length as = k" "tr_id p = tr_id r"
    by (auto simp: is_placeholder_iff)
  then have "replace_block r e = e\<lparr>e_content := as @ ToolResultBlock r # bs\<rparr>"
    using k e(2) [symmetric] by (simp add: replace_block_def)
  with e show ?thesis by blast
qed

lemma place_result_split:
  assumes "e \<in> set es" "holds_placeholder (tr_id r) e"
  shows "\<exists>xs f ys. es = xs @ f # ys \<and> holds_placeholder (tr_id r) f \<and>
    place_result r es = Some (length xs, xs @ replace_block r f # ys)"
proof -
  obtain i where i: "find_index (holds_placeholder (tr_id r)) es = Some i"
    using find_index_exists [of e es "holds_placeholder (tr_id r)"] assms by blast
  from find_index_split [OF i] obtain xs f ys where
    es: "es = xs @ f # ys" "length xs = i" "holds_placeholder (tr_id r) f" by blast
  then have "place_result r es = Some (length xs, xs @ replace_block r f # ys)"
    using i by (auto simp: place_result_def)
  with es show ?thesis by blast
qed

text \<open>when the real result of a healed call arrives late, it takes the place of the placeholder: if the
  log holds one result under its id and that one is synthesized, afterwards it holds exactly the real one,
  no entry was added, the other results are the same in the same order, and the calls are untouched. So no
  provider ever sees two results under one id.\<close>

theorem late_result_replaces:
  assumes "e \<in> set (entries c)" "holds_placeholder (tr_id r) e"
    and "length (filter (\<lambda>q. tr_id q = tr_id r) (log_results (entries c))) = 1"
  shows "let c' = snd (add_tool_results now [r] c) in
    filter (\<lambda>q. tr_id q = tr_id r) (log_results (entries c')) = [r] \<and>
    filter (\<lambda>q. tr_id q \<noteq> tr_id r) (log_results (entries c'))
      = filter (\<lambda>q. tr_id q \<noteq> tr_id r) (log_results (entries c)) \<and>
    map shape (entries c') = map shape (entries c) \<and> next_id c' = next_id c"
proof -
  from place_result_split [OF assms(1,2)] obtain xs f ys where
    es: "entries c = xs @ f # ys" "holds_placeholder (tr_id r) f" and
    pl: "place_result r (entries c) = Some (length xs, xs @ replace_block r f # ys)" by blast
  from replace_block_split [OF es(2)] obtain as p bs where
    f: "e_content f = as @ ToolResultBlock p # bs" "tr_id p = tr_id r" and
    rb: "replace_block r f = f\<lparr>e_content := as @ ToolResultBlock r # bs\<rparr>" by blast
  have run: "snd (add_tool_results now [r] c) = c\<lparr>entries := xs @ replace_block r f # ys\<rparr>"
    by (simp add: add_tool_results_def pl)
  have one: "filter (\<lambda>q. tr_id q = tr_id r) (log_results xs @ results_of as) = []"
    "filter (\<lambda>q. tr_id q = tr_id r) (results_of bs @ log_results ys) = []"
    using assms(3) f(2) unfolding es(1) by (auto simp: f)
  have "map shape (xs @ replace_block r f # ys) = map shape (entries c)"
    by (simp only: es(1) map_append list.map shape_replace_block)
  with one f(2) show ?thesis unfolding run by (simp add: Let_def es(1) f rb)
qed

lemma late_result_replaces_witness:
  "log_results (entries (snd (add_tool_results 7 [sample_result ''a'' ''real'' False]
     (init_chat\<lparr>entries := [new_entry 0 User [ToolResultBlock (sample_result ''a'' ''heal'' True)] 1 []]\<rparr>))))
   = [sample_result ''a'' ''real'' False]"
proof -
  let ?e = "new_entry 0 User [ToolResultBlock (sample_result ''a'' ''heal'' True)] 1 []"
  let ?r = "sample_result ''a'' ''real'' False"
  let ?c = "init_chat\<lparr>entries := [?e]\<rparr>"
  have h: "?e \<in> set (entries ?c)" "holds_placeholder (tr_id ?r) ?e"
    "length (filter (\<lambda>q. tr_id q = tr_id ?r) (log_results (entries ?c))) = 1"
    by (simp_all add: holds_placeholder_def sample_result_def)
  note late_result_replaces [OF h, of 7]
  then have a: "filter (\<lambda>q. tr_id q = tr_id ?r) (log_results (entries (snd (add_tool_results 7 [?r] ?c)))) = [?r]"
    "filter (\<lambda>q. tr_id q \<noteq> tr_id ?r) (log_results (entries (snd (add_tool_results 7 [?r] ?c)))) = []"
    by (simp_all add: Let_def sample_result_def)
  from a(2) have "filter (\<lambda>q. tr_id q = tr_id ?r) (log_results (entries (snd (add_tool_results 7 [?r] ?c))))
      = log_results (entries (snd (add_tool_results 7 [?r] ?c)))"
    by (simp add: filter_empty_conv filter_id_conv)
  with a(1) show ?thesis by metis
qed

section \<open>Removing a pair\<close>

lemma remove_first_pair_Some:
  "remove_first_pair p es = Some es' \<Longrightarrow> \<exists>xs a u ys. es = xs @ a # u # ys \<and> es' = xs @ ys \<and> p a u"
proof (induction p es arbitrary: es' rule: remove_first_pair.induct)
  case (1 p a u es)
  show ?case
  proof (cases "p a u")
    case True
    with "1.prems" show ?thesis by (intro exI [of _ "[]"] exI [of _ a] exI [of _ u] exI [of _ es]) simp
  next
    case False
    with "1.prems" obtain es1 where "remove_first_pair p (u # es) = Some es1" "es' = a # es1" by auto
    with "1.IH" [OF False] show ?thesis by (metis append_Cons)
  qed
qed simp_all

lemma remove_first_pair_None: "remove_first_pair p (xs @ a # u # ys) = None \<Longrightarrow> \<not> p a u"
proof (induction xs)
  case (Cons x xs)
  then show ?case by (cases xs) (auto split: if_splits)
qed (auto split: if_splits)

lemma removable_pairD:
  assumes "removable_pair p a u"
  shows "\<exists>t r. calls_of (e_content a) = [t] \<and> e_content u = [ToolResultBlock r] \<and> p t r \<and>
     e_role a = Assistant \<and> e_role u = User"
proof -
  obtain t where t: "sole_call_from None (e_content a) = Some t"
    using assms by (auto simp: removable_pair_def split: option.splits)
  with assms obtain r where "e_content u = [ToolResultBlock r]" "p t r" "e_role a = Assistant" "e_role u = User"
    by (cases "e_content u"; cases "tl (e_content u)"; cases "hd (e_content u)") (auto simp: removable_pair_def)
  with sole_call_calls [OF t] show ?thesis by auto
qed

text \<open>dismissing a notification pair removes exactly two adjacent entries, an assistant entry whose only
  call is the notification call with that \<^verbatim>\<open>notif_id\<close> and the user entry that is its single result, and
  touches nothing else; when it answers False the log is unchanged and holds no such pair.\<close>

theorem remove_notif_removes_pair:
  shows "case remove_pair_by_notif_id n c of
     (True, c') \<Rightarrow> (\<exists>xs a u ys t r. entries c = xs @ a # u # ys \<and> c' = c\<lparr>entries := xs @ ys\<rparr> \<and>
        calls_of (e_content a) = [t] \<and> e_content u = [ToolResultBlock r] \<and> tr_id r = tc_id t \<and>
        dget (tc_args t) ''action'' = Some (PStr ''notification'') \<and>
        dget (tc_args t) ''notif_id'' = Some (PStr n))
   | (False, c') \<Rightarrow> c' = c \<and> (\<nexists>xs i j t r ys now now2 pd pd2. entries c = xs @ new_entry i Assistant [ToolCallBlock t] now pd
        # new_entry j User [ToolResultBlock r] now2 pd2 # ys \<and> tr_id r = tc_id t \<and>
        dget (tc_args t) ''action'' = Some (PStr ''notification'') \<and>
        dget (tc_args t) ''notif_id'' = Some (PStr n))"
proof -
  let ?p = "\<lambda>t r. dget (tc_args t) ''action'' = Some (PStr ''notification'') \<and>
                 dget (tc_args t) ''notif_id'' = Some (PStr n) \<and> tc_id t = tr_id r"
  show ?thesis
  proof (cases "remove_first_pair (removable_pair ?p) (entries c)")
    case None
    have no: "\<not> ?p t r" if "entries c = xs @ new_entry i Assistant [ToolCallBlock t] now pd
        # new_entry j User [ToolResultBlock r] now2 pd2 # ys" for xs i j t r ys now now2 pd pd2
      using remove_first_pair_None [OF None [unfolded that]] by (simp add: removable_pair_def)
    have "remove_pair_by_notif_id n c = (False, c)"
      using None by (simp add: remove_pair_by_notif_id_def remove_pair_def)
    then show ?thesis using no by (auto simp: eq_commute [of "tr_id _"])
  next
    case (Some es')
    from remove_first_pair_Some [OF this] obtain xs a u ys where
      x: "entries c = xs @ a # u # ys" "es' = xs @ ys" "removable_pair ?p a u" by blast
    from removable_pairD [OF x(3)] obtain t r where
      t: "calls_of (e_content a) = [t]" "e_content u = [ToolResultBlock r]" "?p t r" by blast
    have run: "remove_pair_by_notif_id n c = (True, c\<lparr>entries := xs @ ys\<rparr>)"
      using Some x(2) by (simp add: remove_pair_by_notif_id_def remove_pair_def)
    have "\<exists>xs' a u ys' t r. entries c = xs' @ a # u # ys' \<and> c\<lparr>entries := xs @ ys\<rparr> = c\<lparr>entries := xs' @ ys'\<rparr> \<and>
        calls_of (e_content a) = [t] \<and> e_content u = [ToolResultBlock r] \<and> tr_id r = tc_id t \<and>
        dget (tc_args t) ''action'' = Some (PStr ''notification'') \<and>
        dget (tc_args t) ''notif_id'' = Some (PStr n)"
      using x(1) t by metis
    then show ?thesis by (simp add: run)
  qed
qed

section \<open>Saving and restoring\<close>

lemma note_system_frame [simp]:
  "entries (note_system e c) = entries c" "next_id (note_system e c) = next_id c"
  "pending_system (note_system e c) = pending_system c"
  by (simp_all add: note_system_def split: list.splits block.splits)

lemma fold_note_system_frame [simp]:
  "entries (fold note_system es c) = entries c" "next_id (fold note_system es c) = next_id c"
  "pending_system (fold note_system es c) = pending_system c"
  by (induction es arbitrary: c) simp_all

lemma fold_note_system_text:
  assumes "\<forall>e\<in>set es. durable_entry e"
  shows "current_system_text (fold note_system es c) =
    (case last_with (\<lambda>e. e_role e = System) es of
       None \<Rightarrow> current_system_text c
     | Some s \<Rightarrow> (case hd (e_content s) of TextBlock t \<Rightarrow> Some t | _ \<Rightarrow> None))
    \<and> current_tools (fold note_system es c) =
    (case last_with (\<lambda>e. e_role e = System) es of None \<Rightarrow> current_tools c | Some s \<Rightarrow> e_tools s)"
  using assms
proof (induction es rule: rev_induct)
  case (snoc e es)
  then show ?case
    by (cases "e_role e = System") (auto simp: last_with_def note_system_def durable_entry_def)
qed (simp add: last_with_def)

lemma restore_entries_frame [simp]: "entries (restore_entries es) = es" "pending_system (restore_entries es) = None"
  by (simp_all add: restore_entries_def init_chat_def Let_def)

lemma restore_next_id: "ids_ok c \<Longrightarrow> entries c = es @ [e] \<Longrightarrow> next_id (restore_entries (es @ [e])) = e_id e + 1"
proof -
  assume ok: "ids_ok c" "entries c = es @ [e]"
  then have "\<forall>f\<in>set es. e_id f < e_id e"
    by (auto simp: ids_ok_def sorted_wrt_append)
  then have "Max (insert (e_id e) (e_id ` set es)) = e_id e"
    by (intro Max_eqI) (auto simp: less_imp_le)
  then show ?thesis by (simp add: restore_entries_def Let_def)
qed

lemma emap_inverse:
  "\<forall>x\<in>set xs. \<exists>y. f x = Inr y \<and> g y = Inr x \<Longrightarrow> \<exists>ys. emap f xs = Inr ys \<and> emap g ys = Inr xs"
proof (induction xs)
  case (Cons x xs)
  then obtain y ys where "f x = Inr y" "g y = Inr x" "emap f xs = Inr ys" "emap g ys = Inr xs" by auto
  then show ?case by (intro exI [of _ "y # ys"]) simp
qed simp

text \<open>C34: saving a conversation and restoring it gives back every entry, block by block; the restored log
  takes up numbering after its last entry, so new ids stay fresh and increasing, and its current prompt and
  tools are those of the last system entry. Entries the file form does not keep whole (a system entry that is
  not one text, a runtime capture on a result) are excluded by \<open>durable_entry\<close>.\<close>

theorem chat_roundtrip:
  assumes "reach init_chat (chat_step fr) c" "\<forall>e\<in>set (entries c). durable_entry e" "entries c = es @ [e]"
  shows "\<exists>ds c'. chat_to_dict c = Inr ds \<and> chat_from_dict ds = Inr c' \<and> entries c' = entries c \<and>
    next_id c' = e_id e + 1 \<and> next_id c' \<le> next_id c \<and> ids_ok c' \<and>
    current_system_text c' = (case last_with (\<lambda>e. e_role e = System) (entries c) of
       None \<Rightarrow> None | Some s \<Rightarrow> (case hd (e_content s) of TextBlock t \<Rightarrow> Some t | _ \<Rightarrow> None))"
proof -
  have ok: "ids_ok c" by (rule chat_ids.reach_inv [OF assms(1)])
  from assms(2) have "\<forall>e\<in>set (entries c). \<exists>d. entry_to_dict e = Inr d \<and> entry_from_dict d = Inr e"
    by (simp add: entry_roundtrip)
  from emap_inverse [OF this] obtain ds where
    ds: "chat_to_dict c = Inr ds" "chat_from_dict ds = Inr (restore_entries (entries c))"
    by (auto simp: chat_to_dict_def chat_from_dict_def)
  have nxt: "next_id (restore_entries (entries c)) = e_id e + 1"
    using restore_next_id [OF ok assms(3)] assms(3) by simp
  moreover have "e_id e + 1 \<le> next_id c" using ok assms(3) by (simp add: ids_ok_def)
  moreover have "ids_ok (restore_entries (entries c))"
    using ok assms(3) nxt by (auto simp: ids_ok_def sorted_wrt_append intro: less_imp_le less_trans)
  moreover have "current_system_text (restore_entries (entries c)) = (case last_with (\<lambda>e. e_role e = System) (entries c) of
       None \<Rightarrow> None | Some s \<Rightarrow> (case hd (e_content s) of TextBlock t \<Rightarrow> Some t | _ \<Rightarrow> None))"
  proof -
    have "entries c \<noteq> []" "current_system_text (init_chat\<lparr>entries := entries c\<rparr>) = None"
      using assms(3) by (simp_all add: init_chat_def)
    then show ?thesis
      using fold_note_system_text [OF assms(2), of "init_chat\<lparr>entries := entries c\<rparr>"]
      by (simp add: restore_entries_def Let_def cong: option.case_cong)
  qed
  ultimately show ?thesis using ds by (intro exI [of _ ds] exI [of _ "restore_entries (entries c)"]) simp
qed

lemma chat_roundtrip_witness:
  "\<exists>ds c'. chat_to_dict sample_answered = Inr ds \<and> chat_from_dict ds = Inr c' \<and>
     entries c' = entries sample_answered \<and> next_id c' = 3"
proof -
  have "\<forall>e\<in>set (entries sample_answered). durable_entry e"
    by (simp add: sample_answered_entries sample_asked_entries durable_entry_def new_entry_def sample_result_def)
  from chat_roundtrip [OF sample_answered_reach [of "\<lambda>_. []"] this sample_answered_entries]
  obtain ds c' where "chat_to_dict sample_answered = Inr ds" "chat_from_dict ds = Inr c'"
    "entries c' = entries sample_answered" "next_id c' = 3" by auto
  then show ?thesis by blast
qed

section \<open>Where compaction splits\<close>

lemma walk_turns_Some:
  "walk_turns keep f es = Some k \<Longrightarrow>
   k < length es \<and> starts_turn (es ! k) \<and> int (length (filter starts_turn (take (Suc k) es))) = max 1 (keep - f)"
proof (induction keep f es arbitrary: k rule: walk_turns.induct)
  case (2 keep f e es)
  show ?case
  proof (cases "starts_turn e \<and> f + 1 \<ge> keep")
    case True
    with "2.prems" show ?thesis by auto
  next
    case False
    define f' where "f' = (if starts_turn e then f + 1 else f)"
    from False "2.prems" obtain j where j: "walk_turns keep f' es = Some j" "k = Suc j"
      by (auto simp: f'_def split: if_splits)
    then have "j < length es \<and> starts_turn (es ! j) \<and>
      int (length (filter starts_turn (take (Suc j) es))) = max 1 (keep - f')"
      using "2.IH" False by (auto simp: f'_def split: if_splits)
    with j False show ?thesis by (auto simp: f'_def split: if_splits)
  qed
qed simp

lemma walk_turns_None:
  "walk_turns keep f es = None \<Longrightarrow> int (length (filter starts_turn es)) < max 1 (keep - f)"
proof (induction keep f es rule: walk_turns.induct)
  case (2 keep f e es)
  then show ?case by (auto split: if_splits)
qed simp

text \<open>the compaction boundary, when there is one, is the id of an entry that opens a user turn (it holds
  user text and is not made of tool results), so no exchange of calls and results is split by it; something
  lies before it, and the entries from it on hold exactly the requested number of user turns, at least one.\<close>

theorem compaction_keeps_turns:
  assumes "find_compaction_boundary keep c = Some b"
  shows "\<exists>i. let conv = conversation_entries c in
     0 < i \<and> i < length conv \<and> 6 \<le> length conv \<and> e_id (conv ! i) = b \<and> starts_turn (conv ! i) \<and>
     \<not> is_result_entry (conv ! i) \<and> int (length (filter starts_turn (drop i conv))) = max 1 keep"
proof -
  define conv where "conv = conversation_entries c"
  have "\<exists>k. walk_turns keep 0 (rev conv) = Some k \<and> 6 \<le> length conv \<and>
      0 < length conv - 1 - k \<and> b = e_id (conv ! (length conv - 1 - k))"
    using assms by (auto simp: find_compaction_boundary_def conv_def conversation_entries_def Let_def
        split: if_splits option.splits)
  then obtain k where k: "walk_turns keep 0 (rev conv) = Some k" "6 \<le> length conv"
    "0 < length conv - 1 - k" "b = e_id (conv ! (length conv - 1 - k))" by blast
  let ?i = "length conv - 1 - k"
  from walk_turns_Some [OF k(1)] have w: "k < length conv" "starts_turn (rev conv ! k)"
    "int (length (filter starts_turn (take (Suc k) (rev conv)))) = max 1 keep" by auto
  have "take (Suc k) (rev conv) = rev (drop ?i conv)" using w(1) by (simp add: take_rev)
  with w(3) have "int (length (filter starts_turn (drop ?i conv))) = max 1 keep"
    by (simp flip: rev_filter)
  moreover have st: "starts_turn (conv ! ?i)" using w(1,2) by (simp add: rev_nth)
  moreover have "\<not> is_result_entry (conv ! ?i)"
    using st by (auto simp: starts_turn_def is_result_entry_def results_only_def)
  ultimately show ?thesis using k w(1) unfolding conv_def [symmetric] Let_def
    by (intro exI [of _ ?i]) auto
qed

definition sample_long :: chat where
  "sample_long = init_chat\<lparr>entries := map (\<lambda>i. new_entry i (if even i then User else Assistant) [TextBlock ''x''] 0 [])
     [0, 1, 2, 3, 4, 5], next_id := 6\<rparr>"

lemma compaction_keeps_turns_witness:
  "find_compaction_boundary 2 sample_long = Some 2 \<and> (\<exists>i>0. e_id (conversation_entries sample_long ! i) = 2)"
proof -
  have b: "find_compaction_boundary 2 sample_long = Some 2"
    by (simp add: find_compaction_boundary_def sample_long_def starts_turn_def init_chat_def new_entry_def
        numeral_eq_Suc)
  from compaction_keeps_turns [OF this] b show ?thesis by (auto simp: Let_def)
qed

section \<open>Usage\<close>

definition usage_vec :: "usage_totals \<Rightarrow> int list" where
  "usage_vec t = [input_tokens t, output_tokens t, thinking_tokens t, calls t]"

lemma sum_dput:
  fixes f :: "'v \<Rightarrow> int"
  shows "sum_list (map (f \<circ> snd) (dput k v d)) =
    sum_list (map (f \<circ> snd) d) + f v - (case dget d k of None \<Rightarrow> 0 | Some w \<Rightarrow> f w)"
  by (induction d) (auto split: option.splits)

text \<open>A component of the totals that starts at 0 and grows by a function of the entry's usage.\<close>

lemma usage_component:
  fixes f :: "usage_totals \<Rightarrow> int"
  assumes zero: "f zero_usage = 0" and add: "\<And>u t. f (add_usage u t) = f t + g u"
    and named: "\<forall>e\<in>set es. e_role e = Assistant \<and> e_usage e \<noteq> [] \<longrightarrow> (\<exists>m. e_model e = Some m \<and> m \<noteq> [])"
  shows "sum_list (map (f \<circ> snd)
      (fold (\<lambda>e d. case e_model e of
                   Some m \<Rightarrow>
                     if e_role e = Assistant \<and> m \<noteq> [] \<and> e_usage e \<noteq> []
                     then dput m (add_usage (e_usage e) (dgetd d m zero_usage)) d else d
                 | None \<Rightarrow> d) es d)) - sum_list (map (f \<circ> snd) d)
    = f (fold (\<lambda>e t. if e_role e = Assistant \<and> e_usage e \<noteq> [] then add_usage (e_usage e) t else t) es t) - f t"
  using named
proof (induction es arbitrary: d t)
  case (Cons e es)
  show ?case
  proof (cases "e_role e = Assistant \<and> e_usage e \<noteq> []")
    case True
    with Cons.prems obtain m where m: "e_model e = Some m" "m \<noteq> []" by auto
    let ?d = "dput m (add_usage (e_usage e) (dgetd d m zero_usage)) d"
    have "sum_list (map (f \<circ> snd) ?d) = sum_list (map (f \<circ> snd) d) + g (e_usage e)"
      by (simp only: sum_dput add) (simp add: dgetd_def zero split: option.splits)
    with Cons.IH [of ?d "add_usage (e_usage e) t"] Cons.prems m True add show ?thesis by (simp add: o_def)
  next
    case False
    then show ?thesis using Cons.IH [of d t] Cons.prems by (auto split: option.splits)
  qed
qed simp

text \<open>the usage broken down by model adds up to the total usage, in each of the four counters, when every
  assistant entry with usage names its model.\<close>

theorem usage_breakdown_total:
  assumes "\<forall>e\<in>set (entries c). e_role e = Assistant \<and> e_usage e \<noteq> [] \<longrightarrow> (\<exists>m. e_model e = Some m \<and> m \<noteq> [])"
  shows "map (\<lambda>f. sum_list (map (f \<circ> snd) (usage_by_model c))) [input_tokens, output_tokens, thinking_tokens, calls]
    = usage_vec (total_usage c)"
proof -
  note uc = usage_component [OF _ _ assms, where d = "[]" and t = zero_usage, folded usage_by_model_def total_usage_def]
  have "sum_list (map (input_tokens \<circ> snd) (usage_by_model c)) = input_tokens (total_usage c)"
    using uc [of input_tokens "\<lambda>u. dgetd u ''input_tokens'' 0"] by (simp add: zero_usage_def add_usage_def)
  moreover have "sum_list (map (output_tokens \<circ> snd) (usage_by_model c)) = output_tokens (total_usage c)"
    using uc [of output_tokens "\<lambda>u. dgetd u ''output_tokens'' 0"] by (simp add: zero_usage_def add_usage_def)
  moreover have "sum_list (map (thinking_tokens \<circ> snd) (usage_by_model c)) = thinking_tokens (total_usage c)"
    using uc [of thinking_tokens "\<lambda>u. dgetd u ''thinking_tokens'' 0"] by (simp add: zero_usage_def add_usage_def)
  moreover have "sum_list (map (calls \<circ> snd) (usage_by_model c)) = calls (total_usage c)"
    using uc [of calls "\<lambda>_. 1"] by (simp add: zero_usage_def add_usage_def)
  ultimately show ?thesis by (simp add: usage_vec_def)
qed

lemma usage_breakdown_total_witness:
  "usage_vec (total_usage (add_assistant_message 1 [TextBlock ''x''] [] (Some ''m'') None [(''input_tokens'', 7)] init_chat))
     = [7, 0, 0, 1]"
proof -
  let ?c = "add_assistant_message 1 [TextBlock ''x''] [] (Some ''m'') None [(''input_tokens'', 7)] init_chat"
  have "\<forall>e\<in>set (entries ?c). e_role e = Assistant \<and> e_usage e \<noteq> [] \<longrightarrow> (\<exists>m. e_model e = Some m \<and> m \<noteq> [])"
    by (simp add: add_assistant_message_def init_chat_def)
  from usage_breakdown_total [OF this, symmetric] show ?thesis
    by (simp add: usage_by_model_def add_assistant_message_def init_chat_def add_usage_def zero_usage_def
        dgetd_def)
qed

end
