(* ===== verification/TC_Inbox.thy ===== *)
theory TC_Inbox
  imports Chat_Properties
begin

text \<open>
  The inbox of involuntary tool calls (\<^verbatim>\<open>kernel/tc_inbox.py\<close>): the queue with its coalescing, and the
  drain that splices the queued pairs into the conversation at a safe boundary. The drain sees the
  conversation through four operations; the locale \<open>wire_chat\<close> states what it relies on, and its
  interpretation shows that the canonical log provides it.
\<close>

section \<open>Items and queue\<close>

record tc_item =
  it_call :: tool_call
  it_result :: tool_result
  it_source :: string
  it_enqueued_at :: rat
  it_coalesce :: bool
  it_replace :: bool

record drain_result =
  dr_drained :: bool
  dr_count :: nat
  dr_sources :: "string list"

definition tc_enqueue :: "tc_item \<Rightarrow> tc_item list \<Rightarrow> tc_item list" where
  "tc_enqueue x q =
     (if it_coalesce x then
        (case find_index (\<lambda>y. it_source y = it_source x) q of
           Some i \<Rightarrow> q[i := x]
         | None \<Rightarrow> q @ [x])
      else q @ [x])"

definition tc_drain :: "tc_item list \<Rightarrow> tc_item list \<times> tc_item list" where
  "tc_drain q = (q, [])"

definition is_notif_item :: "string \<Rightarrow> tc_item \<Rightarrow> bool" where
  "is_notif_item n x \<longleftrightarrow>
     dget (tc_args (it_call x)) ''action'' = Some (PStr ''notification'') \<and>
     dget (tc_args (it_call x)) ''notif_id'' = Some (PStr n)"

definition tc_remove_by_notif_id :: "string \<Rightarrow> tc_item list \<Rightarrow> bool \<times> tc_item list" where
  "tc_remove_by_notif_id n q =
     (case find_index (is_notif_item n) q of
        Some i \<Rightarrow> (True, remove_nth i q)
      | None \<Rightarrow> (False, q))"

section \<open>Draining into a conversation\<close>

text \<open>One item: drop the earlier pair of its source when the item asks for a single slot, append the
  call and its result, and remember the new pair.\<close>

definition splice_item ::
  "(string \<Rightarrow> 's \<Rightarrow> 's) \<Rightarrow> (tool_call \<Rightarrow> 's \<Rightarrow> 's) \<Rightarrow> (tool_result \<Rightarrow> 's \<Rightarrow> 's) \<Rightarrow>
   tc_item \<Rightarrow> 's \<times> (string \<times> string) list \<Rightarrow> 's \<times> (string \<times> string) list"
where
  "splice_item remove add_call add_result x st =
     (case st of (s, tracker) \<Rightarrow>
        let s1 = (if it_replace x then
                    (case dget tracker (it_source x) of Some i \<Rightarrow> remove i s | None \<Rightarrow> s)
                  else s);
            tracker1 = (if it_replace x then dpop (it_source x) tracker else tracker);
            s2 = add_result (it_result x) (add_call (it_call x) s1)
        in (s2, if it_replace x then dput (it_source x) (tc_id (it_call x)) tracker1 else tracker1))"

definition drain_into ::
  "('s \<Rightarrow> bool) \<Rightarrow> (string \<Rightarrow> 's \<Rightarrow> 's) \<Rightarrow> (tool_call \<Rightarrow> 's \<Rightarrow> 's) \<Rightarrow> (tool_result \<Rightarrow> 's \<Rightarrow> 's) \<Rightarrow>
   tc_item list \<Rightarrow> 's \<Rightarrow> (string \<times> string) list \<Rightarrow>
   drain_result \<times> tc_item list \<times> 's \<times> (string \<times> string) list"
where
  "drain_into pending remove add_call add_result q s tracker =
     (if pending s then (\<lparr>dr_drained = False, dr_count = 0, dr_sources = []\<rparr>, q, s, tracker)
      else
        (case tc_drain q of (items, q') \<Rightarrow>
           if items = [] then (\<lparr>dr_drained = True, dr_count = 0, dr_sources = []\<rparr>, q', s, tracker)
           else
             let st = fold (splice_item remove add_call add_result) items (s, tracker)
             in (\<lparr>dr_drained = True, dr_count = length items, dr_sources = map it_source items\<rparr>,
                 q', fst st, snd st)))"

text \<open>The last item of a source that asks for a single slot.\<close>

definition last_slot :: "tc_item list \<Rightarrow> string \<Rightarrow> string option" where
  "last_slot xs src = map_option (\<lambda>x. tc_id (it_call x)) (find (\<lambda>x. it_replace x \<and> it_source x = src) (rev xs))"

section \<open>What the drain relies on\<close>

text \<open>
  \<open>ids\<close> are the ids of the calls in the conversation and \<open>slot i\<close> says that the pair of call \<open>i\<close> is
  there in the removable form.
\<close>

locale wire_chat =
  fixes pending :: "'s \<Rightarrow> bool"
    and remove :: "string \<Rightarrow> 's \<Rightarrow> 's"
    and add_call :: "tool_call \<Rightarrow> 's \<Rightarrow> 's"
    and add_result :: "tool_result \<Rightarrow> 's \<Rightarrow> 's"
    and inv :: "'s \<Rightarrow> bool"
    and ids :: "'s \<Rightarrow> string set"
    and slot :: "string \<Rightarrow> 's \<Rightarrow> bool"
  assumes pair_law:
    "\<lbrakk>inv s; \<not> pending s; tc_id t \<notin> ids s; tr_id r = tc_id t\<rbrakk> \<Longrightarrow>
     inv (add_result r (add_call t s)) \<and> \<not> pending (add_result r (add_call t s)) \<and>
     ids (add_result r (add_call t s)) = insert (tc_id t) (ids s) \<and>
     slot (tc_id t) (add_result r (add_call t s)) \<and>
     (\<forall>j. slot j s \<longrightarrow> slot j (add_result r (add_call t s)))"
    and remove_law:
    "\<lbrakk>inv s; \<not> pending s; slot i s\<rbrakk> \<Longrightarrow>
     inv (remove i s) \<and> \<not> pending (remove i s) \<and> ids (remove i s) = ids s - {i} \<and>
     (\<forall>j. j \<noteq> i \<longrightarrow> slot j s \<longrightarrow> slot j (remove i s))"
begin

text \<open>
  The state the drain keeps: no call pending, and the tracker names, per source, a removable pair
  of its own.
\<close>

definition tracked :: "'s \<times> (string \<times> string) list \<Rightarrow> bool" where
  "tracked st \<longleftrightarrow> inv (fst st) \<and> \<not> pending (fst st) \<and>
     (\<forall>src i. dget (snd st) src = Some i \<longrightarrow> slot i (fst st) \<and> i \<in> ids (fst st)) \<and>
     (\<forall>src src' i. dget (snd st) src = Some i \<longrightarrow> dget (snd st) src' = Some i \<longrightarrow> src = src')"

definition replaced :: "tc_item \<Rightarrow> 's \<times> (string \<times> string) list \<Rightarrow> string set" where
  "replaced x st = (if it_replace x then set_option (dget (snd st) (it_source x)) else {})"

lemma splice_append:
  assumes "tracked (s, tracker)" "tc_id (it_call x) \<notin> ids s" "tr_id (it_result x) = tc_id (it_call x)"
  defines "s' \<equiv> add_result (it_result x) (add_call (it_call x) s)"
  shows "tracked (s', if b then dput src (tc_id (it_call x)) tracker else tracker) \<and>
    ids s' = insert (tc_id (it_call x)) (ids s)"
proof -
  from assms(1) have s: "inv s" "\<not> pending s" by (simp_all add: tracked_def)
  note p = pair_law [OF s assms(2,3), folded s'_def]
  have old: "slot i s'" "i \<in> ids s" "i \<noteq> tc_id (it_call x)" if "dget tracker src = Some i" for src i
    using that assms(1,2) p by (auto simp: tracked_def)
  have uniq: "src = src'" if "dget tracker src = Some i" "dget tracker src' = Some i" for src src' i
    using that assms(1) by (auto simp: tracked_def)
  have "tracked (s', tracker)"
    using p by (auto simp: tracked_def old dest: uniq)
  moreover have "tracked (s', dput src (tc_id (it_call x)) tracker)"
    using p by (auto simp: tracked_def old dest: uniq old(3) split: if_splits)
  ultimately show ?thesis using p by simp
qed

lemma splice_tracked:
  assumes "tracked st" "tc_id (it_call x) \<notin> ids (fst st)" "tr_id (it_result x) = tc_id (it_call x)"
  shows "tracked (splice_item remove add_call add_result x st) \<and>
    ids (fst (splice_item remove add_call add_result x st))
      = insert (tc_id (it_call x)) (ids (fst st) - replaced x st)"
proof -
  obtain s tracker where st: "st = (s, tracker)" by (cases st)
  define s1 where "s1 = (if it_replace x then
      (case dget tracker (it_source x) of Some i \<Rightarrow> remove i s | None \<Rightarrow> s) else s)"
  define tracker1 where "tracker1 = (if it_replace x then dpop (it_source x) tracker else tracker)"
  have s1: "tracked (s1, tracker1) \<and> ids s1 = ids s - replaced x st"
  proof (cases "it_replace x \<and> (\<exists>i. dget tracker (it_source x) = Some i)")
    case True
    then obtain i where i: "it_replace x" "dget tracker (it_source x) = Some i" by blast
    with assms(1) have "inv s" "\<not> pending s" "slot i s" by (auto simp: tracked_def st)
    note rl = remove_law [OF this]
    have ne: "j \<noteq> i" if "src \<noteq> it_source x" "dget tracker src = Some j" for src j
      using that assms(1) i by (auto simp: tracked_def st)
    have other: "slot j (remove i s)" "j \<noteq> i" "j \<in> ids s"
      if "src \<noteq> it_source x" "dget tracker src = Some j" for src j
    proof -
      show "j \<noteq> i" by (rule ne [OF that])
      moreover show "j \<in> ids s" using assms(1) that by (auto simp: tracked_def st)
      moreover have "slot j s" using assms(1) that by (auto simp: tracked_def st)
      ultimately show "slot j (remove i s)" using rl by blast
    qed
    have uniq: "src = src'" if "dget tracker src = Some j" "dget tracker src' = Some j" for src src' j
      using that assms(1) by (auto simp: tracked_def st)
    from rl i show ?thesis
      by (auto simp: tracked_def st s1_def tracker1_def replaced_def other dest: uniq split: if_splits)
  next
    case False
    with assms(1) show ?thesis
      by (cases "dget tracker (it_source x)")
        (auto simp: tracked_def st s1_def tracker1_def replaced_def split: if_splits)
  qed
  have run: "splice_item remove add_call add_result x st = (add_result (it_result x) (add_call (it_call x) s1),
      if it_replace x then dput (it_source x) (tc_id (it_call x)) tracker1 else tracker1)"
    by (simp add: splice_item_def st s1_def tracker1_def Let_def)
  show ?thesis using splice_append [of s1 tracker1 x] s1 assms(2,3) unfolding run by (simp add: st)
qed

lemma splice_tracker:
  "dget (snd (splice_item remove add_call add_result x st)) src =
     (if it_replace x \<and> src = it_source x then Some (tc_id (it_call x)) else dget (snd st) src)"
  by (cases st) (simp add: splice_item_def Let_def)

lemma last_slot_snoc: "last_slot (xs @ [x]) src =
    (if it_replace x \<and> it_source x = src then Some (tc_id (it_call x)) else last_slot xs src)"
  by (simp add: last_slot_def)

lemma last_slot_item:
  "last_slot xs src = Some i \<Longrightarrow> \<exists>x\<in>set xs. tc_id (it_call x) = i \<and> it_replace x \<and> it_source x = src"
  by (induction xs rule: rev_induct) (auto simp: last_slot_snoc last_slot_def split: if_splits)

lemma drain_fold:
  assumes "tracked st" "distinct (map (\<lambda>x. tc_id (it_call x)) xs)"
    and "\<forall>x\<in>set xs. tc_id (it_call x) \<notin> ids (fst st) \<and> tr_id (it_result x) = tc_id (it_call x)"
  shows "let st' = fold (splice_item remove add_call add_result) xs st in
    tracked st' \<and>
    (\<forall>src. dget (snd st') src = (case last_slot xs src of Some i \<Rightarrow> Some i | None \<Rightarrow> dget (snd st) src)) \<and>
    ids (fst st') \<subseteq> ids (fst st) \<union> (\<lambda>x. tc_id (it_call x)) ` set xs \<and>
    (\<forall>x\<in>set xs. tc_id (it_call x) \<in> ids (fst st') \<longleftrightarrow>
       (it_replace x \<longrightarrow> last_slot xs (it_source x) = Some (tc_id (it_call x)))) \<and>
    (\<forall>i\<in>ids (fst st). i \<in> ids (fst st') \<longleftrightarrow>
       (\<forall>src. dget (snd st) src = Some i \<longrightarrow> last_slot xs src = None))"
  using assms(2,3)
proof (induction xs rule: rev_induct)
  case Nil
  then show ?case using assms(1) by (simp add: last_slot_def)
next
  case (snoc x xs)
  define st' where "st' = fold (splice_item remove add_call add_result) xs st"
  let ?id = "\<lambda>x. tc_id (it_call x)"
  from snoc have IH: "tracked st'"
    "\<And>src. dget (snd st') src = (case last_slot xs src of Some i \<Rightarrow> Some i | None \<Rightarrow> dget (snd st) src)"
    "ids (fst st') \<subseteq> ids (fst st) \<union> ?id ` set xs"
    "\<And>y. y \<in> set xs \<Longrightarrow> ?id y \<in> ids (fst st') \<longleftrightarrow> (it_replace y \<longrightarrow> last_slot xs (it_source y) = Some (?id y))"
    "\<And>i. i \<in> ids (fst st) \<Longrightarrow> i \<in> ids (fst st') \<longleftrightarrow> (\<forall>src. dget (snd st) src = Some i \<longrightarrow> last_slot xs src = None)"
    by (simp_all add: Let_def st'_def)
  have x: "?id x \<notin> ?id ` set xs" "?id x \<notin> ids (fst st)" "tr_id (it_result x) = ?id x"
    using snoc.prems by auto
  then have fresh: "?id x \<notin> ids (fst st')" using IH(3) by auto
  from splice_tracked [OF IH(1) fresh x(3)]
  have sp: "tracked (splice_item remove add_call add_result x st')"
    "ids (fst (splice_item remove add_call add_result x st')) = insert (?id x) (ids (fst st') - replaced x st')"
    by auto
  have rep: "i \<in> replaced x st' \<longleftrightarrow> it_replace x \<and> dget (snd st') (it_source x) = Some i" for i
    by (simp add: replaced_def elem_set)
  have old: "last_slot xs src = Some (?id y) \<Longrightarrow> it_replace y \<and> it_source y = src" if "y \<in> set xs" for y src
    using last_slot_item [of xs src "?id y"] that snoc.prems(1) by (auto simp: distinct_map inj_on_def)
  have init: "i \<in> ids (fst st)" if "dget (snd st) src = Some i" for src i
    using assms(1) that by (auto simp: tracked_def)
  have init_uniq: "src = src'" if "dget (snd st) src = Some i" "dget (snd st) src' = Some i" for src src' i
    using assms(1) that by (auto simp: tracked_def)
  have new: "?id y \<notin> ids (fst st)" if "y \<in> set xs" for y
    using snoc.prems(2) that by simp
  let ?st = "splice_item remove add_call add_result x st'"
  have a: "dget (snd ?st) src = (case last_slot (xs @ [x]) src of Some i \<Rightarrow> Some i | None \<Rightarrow> dget (snd st) src)" for src
    by (auto simp: splice_tracker last_slot_snoc IH(2))
  have b: "ids (fst ?st) \<subseteq> ids (fst st) \<union> ?id ` set (xs @ [x])"
    using IH(3) by (auto simp: sp(2))
  have c: "?id y \<in> ids (fst ?st) \<longleftrightarrow> (it_replace y \<longrightarrow> last_slot (xs @ [x]) (it_source y) = Some (?id y))"
    if "y \<in> set (xs @ [x])" for y
  proof (cases "y = x")
    case False
    with that have "y \<in> set xs" by simp
    moreover from this have "?id y \<in> ?id ` set xs" by (rule imageI)
    with x(1) have "?id y \<noteq> ?id x" by metis
    ultimately have y: "y \<in> set xs" "?id y \<noteq> ?id x" .
    have "?id y \<in> replaced x st' \<longleftrightarrow> it_replace x \<and> last_slot xs (it_source x) = Some (?id y)"
      unfolding rep IH(2) using init new [OF y(1)] by (auto split: option.splits)
    with y(2) have m: "?id y \<in> ids (fst ?st) \<longleftrightarrow>
        ?id y \<in> ids (fst st') \<and> \<not> (it_replace x \<and> last_slot xs (it_source x) = Some (?id y))"
      by (simp add: sp(2))
    have o: "last_slot xs (it_source x) = Some (?id y) \<Longrightarrow> it_replace y \<and> it_source y = it_source x"
      by (rule old [OF y(1)])
    show ?thesis unfolding m IH(4) [OF y(1)] last_slot_snoc
      using y(2) o by (metis option.inject)
  qed (simp add: sp(2) last_slot_snoc)
  have d: "i \<in> ids (fst ?st) \<longleftrightarrow> (\<forall>src. dget (snd st) src = Some i \<longrightarrow> last_slot (xs @ [x]) src = None)"
    if i: "i \<in> ids (fst st)" for i
  proof -
    have ne: "i \<noteq> ?id x" using i x(2) by auto
    have "last_slot xs src \<noteq> Some i" for src
      using last_slot_item [of xs src i] new i by blast
    then have "i \<in> replaced x st' \<longleftrightarrow>
        it_replace x \<and> last_slot xs (it_source x) = None \<and> dget (snd st) (it_source x) = Some i"
      unfolding rep IH(2) by (auto split: option.splits)
    then show ?thesis
      using IH(5) [OF i] ne init_uniq [of _ i] by (auto simp: sp(2) last_slot_snoc)
  qed
  show ?case using sp(1) a b c d by (simp add: Let_def st'_def)
qed

end

section \<open>The canonical log provides it\<close>

definition chat_inv :: "chat \<Rightarrow> bool" where
  "chat_inv c \<longleftrightarrow> wire_ok c \<and> distinct (call_ids (entries c))"

definition chat_ids_set :: "chat \<Rightarrow> string set" where
  "chat_ids_set c = set (call_ids (entries c))"

abbreviation id_pair :: "string \<Rightarrow> chat_entry \<Rightarrow> chat_entry \<Rightarrow> bool" where
  "id_pair i \<equiv> removable_pair (\<lambda>t r. tc_id t = i \<and> tr_id r = i)"

definition chat_slot :: "string \<Rightarrow> chat \<Rightarrow> bool" where
  "chat_slot i c \<longleftrightarrow> (\<exists>xs a u ys. entries c = xs @ a # u # ys \<and> id_pair i a u)"

definition chat_add_call :: "rat \<Rightarrow> tool_call \<Rightarrow> chat \<Rightarrow> chat" where
  "chat_add_call now t c = add_assistant_message now [ToolCallBlock t] [] None None [] c"

definition chat_add_result :: "rat \<Rightarrow> tool_result \<Rightarrow> chat \<Rightarrow> chat" where
  "chat_add_result now r c = snd (add_tool_results now [r] c)"

definition chat_remove :: "string \<Rightarrow> chat \<Rightarrow> chat" where
  "chat_remove i c = snd (remove_pair_by_call_id i c)"

lemma no_placeholder: "i \<notin> set (answered_ids es) \<Longrightarrow> find_index (holds_placeholder i) es = None"
  by (auto simp: find_index_None_iff holds_placeholder_def list_ex_iff is_placeholder_iff set_ids set_results_of
      image_iff)

lemma chat_pair_entries:
  assumes "chat_inv c" "\<not> has_pending_tool_calls c" "tc_id t \<notin> chat_ids_set c" "tr_id r = tc_id t"
  shows "\<exists>a u. entries (chat_add_result now r (chat_add_call now t c)) = entries c @ [a, u] \<and>
     e_role a = Assistant \<and> e_content a = [ToolCallBlock t] \<and> e_role u = User \<and> e_content u = [ToolResultBlock r]"
proof -
  have "set (answered_ids (entries c)) = chat_ids_set c"
    using assms(1,2) well_paired_balanced [of "entries c"]
    by (simp add: chat_inv_def wire_ok_def has_pending_tool_calls_def chat_ids_set_def)
  with assms(3,4) have "tr_id r \<notin> set (answered_ids (entries (chat_add_call now t c)))"
    by (simp add: chat_add_call_def add_assistant_message_def)
  from no_placeholder [OF this] show ?thesis
    by (simp add: chat_add_result_def add_tool_results_def place_result_def chat_add_call_def add_assistant_message_def)
qed

lemma chat_pair_law:
  fixes now :: rat
  assumes "chat_inv c" "\<not> has_pending_tool_calls c" "tc_id t \<notin> chat_ids_set c" "tr_id r = tc_id t"
  defines "c' \<equiv> chat_add_result now r (chat_add_call now t c)"
  shows "chat_inv c' \<and> \<not> has_pending_tool_calls c' \<and> chat_ids_set c' = insert (tc_id t) (chat_ids_set c) \<and>
    chat_slot (tc_id t) c' \<and> (\<forall>j. chat_slot j c \<longrightarrow> chat_slot j c')"
proof -
  from chat_pair_entries [OF assms(1-4), of now] obtain a u where
    e: "entries c' = entries c @ [a, u]" "e_role a = Assistant" "e_content a = [ToolCallBlock t]"
      "e_role u = User" "e_content u = [ToolResultBlock r]"
    unfolding c'_def by blast
  have wp: "well_paired [a, u]"
    using e assms(4) by (simp add: opens_def has_calls_iff answers_def is_result_entry_def results_only_def answers_ids_def)
  have "chat_inv c'"
    using assms(1-3) wp e
    by (auto simp: chat_inv_def wire_ok_def has_pending_tool_calls_def well_paired_append chat_ids_set_def)
  moreover have "\<not> has_pending_tool_calls c'"
    using e by (simp add: has_pending_tool_calls_def tail_pending_def has_calls_def)
  moreover have "chat_slot (tc_id t) c'"
    using e assms(4) unfolding chat_slot_def
    by (intro exI [of _ "entries c"] exI [of _ a] exI [of _ u] exI [of _ "[]"]) (simp add: removable_pair_def)
  moreover have "chat_slot j c'" if "chat_slot j c" for j
  proof -
    from that obtain xs a' u' ys where "entries c = xs @ a' # u' # ys" "id_pair j a' u'"
      unfolding chat_slot_def by blast
    then have "entries c' = xs @ a' # u' # (ys @ [a, u])" using e(1) by simp
    with \<open>id_pair j a' u'\<close> show ?thesis unfolding chat_slot_def by blast
  qed
  ultimately show ?thesis using e by (auto simp: chat_ids_set_def)
qed

lemma id_pair_facts:
  "id_pair i a u \<Longrightarrow> map tc_id (calls_of (e_content a)) = [i] \<and> calls_of (e_content u) = [] \<and>
     e_role a = Assistant \<and> e_role u = User"
  by (auto dest!: removable_pairD)

text \<open>Two adjacent pairs with different ids do not overlap.\<close>

lemma pair_elsewhere:
  assumes "xs @ a # u # ys = xs' @ a' # u' # ys'" "e_role a = Assistant" "e_role u = User"
    "e_role a' = Assistant" "e_role u' = User" "a \<noteq> a'"
  shows "\<exists>vs ws. xs @ ys = vs @ a' # u' # ws"
proof -
  from assms(1) consider (left) zs where "xs = xs' @ zs" "zs @ a # u # ys = a' # u' # ys'"
    | (right) zs where "xs' = xs @ zs" "a # u # ys = zs @ a' # u' # ys'"
    by (auto simp: append_eq_append_conv2)
  then show ?thesis
  proof cases
    case left
    with assms obtain zs' where "zs = a' # u' # zs'"
      by (cases zs; cases "tl zs") auto
    with left show ?thesis by (intro exI [of _ xs'] exI [of _ "zs' @ ys"]) simp
  next
    case right
    with assms obtain zs' where "zs = a # u # zs'"
      by (cases zs; cases "tl zs") auto
    with right show ?thesis by (intro exI [of _ "xs @ zs'"] exI [of _ ys']) simp
  qed
qed

lemma chat_remove_law:
  assumes "chat_inv c" "\<not> has_pending_tool_calls c" "chat_slot i c"
  shows "chat_inv (chat_remove i c) \<and> \<not> has_pending_tool_calls (chat_remove i c) \<and>
    chat_ids_set (chat_remove i c) = chat_ids_set c - {i} \<and>
    (\<forall>j. j \<noteq> i \<longrightarrow> chat_slot j c \<longrightarrow> chat_slot j (chat_remove i c))"
proof -
  have "remove_first_pair (id_pair i) (entries c) \<noteq> None"
    using assms(3) remove_first_pair_None [of "id_pair i"] unfolding chat_slot_def by metis
  then obtain es where es: "remove_first_pair (id_pair i) (entries c) = Some es" by blast
  then have run: "entries (chat_remove i c) = es"
    by (simp add: chat_remove_def remove_pair_by_call_id_def remove_pair_def)
  from remove_first_pair_Some [OF es] obtain xs a u ys where
    x: "entries c = xs @ a # u # ys" "es = xs @ ys" "id_pair i a u" by blast
  note f = id_pair_facts [OF x(3)]
  have wp: "well_paired (entries c)" using assms(1) by (simp add: chat_inv_def wire_ok_def)
  have "well_paired es" by (rule well_paired_remove [OF wp es])
  moreover have "distinct (call_ids es)" and ids: "set (call_ids es) = set (call_ids (entries c)) - {i}"
    using assms(1) f by (auto simp: chat_inv_def x)
  ultimately have "chat_inv (chat_remove i c)" by (simp add: chat_inv_def wire_ok_def run)
  moreover have "\<not> has_pending_tool_calls (chat_remove i c)"
  proof (cases "ys = []")
    case True
    have "well_paired (xs @ [a])" using wp well_paired_prefix_append [of "xs @ [a]" "u # ys"] by (simp add: x)
    moreover have "has_calls a" using f by (auto simp: has_calls_iff)
    ultimately have "\<not> tail_pending xs" by (rule answer_not_pending)
    with True show ?thesis by (simp add: has_pending_tool_calls_def run x)
  next
    case False
    with assms(2) show ?thesis by (simp add: has_pending_tool_calls_def tail_pending_def run x)
  qed
  moreover have "chat_slot j (chat_remove i c)" if j: "j \<noteq> i" "chat_slot j c" for j
  proof -
    from j(2) obtain xs' a' u' ys' where y: "entries c = xs' @ a' # u' # ys'" "id_pair j a' u'"
      unfolding chat_slot_def by blast
    note g = id_pair_facts [OF y(2)]
    have "a \<noteq> a'" using f g j(1) by auto
    with pair_elsewhere [of xs a u ys xs' a' u' ys'] x y f g
    obtain vs ws where "es = vs @ a' # u' # ws" by auto
    with y(2) run show ?thesis unfolding chat_slot_def by blast
  qed
  ultimately show ?thesis using ids run by (simp add: chat_ids_set_def)
qed

interpretation chat_wire_ops: wire_chat has_pending_tool_calls chat_remove "chat_add_call now" "chat_add_result now"
  chat_inv chat_ids_set chat_slot for now
  by unfold_locales (rule chat_pair_law chat_remove_law; assumption)+

definition drain_into_chat ::
  "rat \<Rightarrow> tc_item list \<Rightarrow> chat \<Rightarrow> (string \<times> string) list \<Rightarrow>
   drain_result \<times> tc_item list \<times> chat \<times> (string \<times> string) list"
where
  "drain_into_chat now = drain_into has_pending_tool_calls chat_remove (chat_add_call now) (chat_add_result now)"

section \<open>Properties\<close>

lemma fold_splice_tracked:
  assumes "chat_inv c" "\<not> has_pending_tool_calls c"
    and tr: "\<And>src i. dget tracker src = Some i \<Longrightarrow> chat_slot i c"
    and uniq: "\<And>src src' i. dget tracker src = Some i \<Longrightarrow> dget tracker src' = Some i \<Longrightarrow> src = src'"
  shows "chat_wire_ops.tracked (c, tracker)"
proof -
  have "i \<in> chat_ids_set c" if "chat_slot i c" for i
    using that by (auto simp: chat_slot_def chat_ids_set_def dest!: id_pair_facts)
  then show ?thesis using assms by (auto simp: chat_wire_ops.tracked_def)
qed

text \<open>draining the inbox. While a call is pending the drain refuses and changes nothing. Otherwise it
  empties the queue and leaves a well-paired conversation with nothing pending, in which every queued pair
  is present, except that of each source asking for a single slot only its last pair is; the pair the
  tracker named for such a source is gone and no other earlier call was lost. Call ids must be fresh and
  distinct, and each result must carry its call's id.\<close>

theorem drain_single_slot:
  assumes "chat_inv c"
    and "\<forall>src i. dget tracker src = Some i \<longrightarrow> chat_slot i c"
    and "\<forall>src src' i. dget tracker src = Some i \<longrightarrow> dget tracker src' = Some i \<longrightarrow> src = src'"
    and "distinct (map (\<lambda>x. tc_id (it_call x)) q)"
    and "\<forall>x\<in>set q. tc_id (it_call x) \<notin> chat_ids_set c \<and> tr_id (it_result x) = tc_id (it_call x)"
  shows "case drain_into_chat now q c tracker of (res, q', c', tracker') \<Rightarrow>
    if has_pending_tool_calls c then \<not> dr_drained res \<and> q' = q \<and> c' = c \<and> tracker' = tracker
    else dr_drained res \<and> dr_count res = length q \<and> q' = [] \<and> \<not> has_pending_tool_calls c' \<and> chat_inv c' \<and>
      (\<forall>x\<in>set q. tc_id (it_call x) \<in> chat_ids_set c' \<longleftrightarrow>
         (it_replace x \<longrightarrow> last_slot q (it_source x) = Some (tc_id (it_call x)))) \<and>
      (\<forall>i\<in>chat_ids_set c. i \<in> chat_ids_set c' \<longleftrightarrow>
         (\<forall>src. dget tracker src = Some i \<longrightarrow> last_slot q src = None)) \<and>
      (\<forall>src i. last_slot q src = Some i \<longrightarrow> dget tracker' src = Some i)"
proof (cases "has_pending_tool_calls c")
  case False
  have "chat_wire_ops.tracked (c, tracker)"
    using fold_splice_tracked [OF assms(1) False] assms(2,3) by blast
  note df = chat_wire_ops.drain_fold [OF this assms(4), of now, simplified fst_conv snd_conv, OF assms(5)]
  define st where "st = fold (splice_item chat_remove (chat_add_call now) (chat_add_result now)) q (c, tracker)"
  have run: "drain_into_chat now q c tracker =
      (\<lparr>dr_drained = True, dr_count = length q, dr_sources = map it_source q\<rparr>, [], fst st, snd st)"
    using False by (simp add: drain_into_chat_def drain_into_def tc_drain_def st_def Let_def)
  from df have st: "chat_wire_ops.tracked st" and
    "\<forall>src. dget (snd st) src = (case last_slot q src of Some i \<Rightarrow> Some i | None \<Rightarrow> dget tracker src)" and
    "\<forall>x\<in>set q. tc_id (it_call x) \<in> chat_ids_set (fst st) \<longleftrightarrow>
       (it_replace x \<longrightarrow> last_slot q (it_source x) = Some (tc_id (it_call x)))" and
    "\<forall>i\<in>chat_ids_set c. i \<in> chat_ids_set (fst st) \<longleftrightarrow>
       (\<forall>src. dget tracker src = Some i \<longrightarrow> last_slot q src = None)"
    by (simp_all add: Let_def st_def)
  moreover from st have "chat_inv (fst st)" "\<not> has_pending_tool_calls (fst st)"
    by (simp_all add: chat_wire_ops.tracked_def)
  ultimately show ?thesis using False by (simp add: run split_beta)
qed (simp add: drain_into_chat_def drain_into_def)

definition sample_item :: "string \<Rightarrow> bool \<Rightarrow> tc_item" where
  "sample_item i coalesce = \<lparr>it_call = sample_call i, it_result = sample_result i ''x'' True,
     it_source = ''soul.flow'', it_enqueued_at = 0, it_coalesce = coalesce, it_replace = True\<rparr>"

lemma drain_single_slot_witness:
  "case drain_into_chat 7 [sample_item ''p'' False, sample_item ''q'' False] init_chat [] of (res, q', c', tracker') \<Rightarrow>
     dr_drained res \<and> \<not> has_pending_tool_calls c' \<and> ''p'' \<notin> chat_ids_set c' \<and> ''q'' \<in> chat_ids_set c'"
proof -
  have "chat_inv init_chat" "chat_ids_set init_chat = {}" "\<not> has_pending_tool_calls init_chat"
    by (simp_all add: chat_inv_def wire_ok_def init_chat_def chat_ids_set_def has_pending_tool_calls_def)
  with drain_single_slot [of init_chat "[]" "[sample_item ''p'' False, sample_item ''q'' False]" 7] show ?thesis
    by (auto simp: sample_item_def sample_call_def sample_result_def last_slot_def split: prod.splits)
qed

lemma enqueue_filter_other:
  "it_source x \<noteq> src \<Longrightarrow> filter (\<lambda>y. it_source y = src) (tc_enqueue x q) = filter (\<lambda>y. it_source y = src) q"
proof (cases "find_index (\<lambda>y. it_source y = it_source x) q")
  case (Some i)
  assume ne: "it_source x \<noteq> src"
  from find_index_split [OF Some] obtain as y bs where q: "q = as @ y # bs" "length as = i" "it_source y = it_source x"
    by blast
  then have "q[i := x] = as @ x # bs" by auto
  with ne q Some show ?thesis by (simp add: tc_enqueue_def)
qed (simp add: tc_enqueue_def)

lemma enqueue_filter_same:
  assumes "it_coalesce x" "length (filter (\<lambda>y. it_source y = it_source x) q) \<le> 1"
  shows "filter (\<lambda>y. it_source y = it_source x) (tc_enqueue x q) = [x]"
proof (cases "find_index (\<lambda>y. it_source y = it_source x) q")
  case (Some i)
  from find_index_split [OF Some] obtain as y bs where q: "q = as @ y # bs" "length as = i" "it_source y = it_source x"
    by blast
  then have "q[i := x] = as @ x # bs" by auto
  with assms q Some show ?thesis by (auto simp: tc_enqueue_def)
next
  case None
  moreover from None have "filter (\<lambda>y. it_source y = it_source x) q = []"
    by (simp add: find_index_None_iff filter_empty_conv)
  ultimately show ?thesis using assms(1) by (simp add: tc_enqueue_def)
qed

text \<open>coalescing keeps the latest. After any sequence of enqueues in which every item of a source asks to
  be coalesced, the queue holds exactly one item of that source, the last one enqueued (none if there was
  none), whatever the other sources did in between.\<close>

theorem coalesce_latest_wins:
  assumes "\<forall>x\<in>set xs. it_source x = src \<longrightarrow> it_coalesce x"
  shows "filter (\<lambda>x. it_source x = src) (fold tc_enqueue xs []) =
    (case find (\<lambda>x. it_source x = src) (rev xs) of None \<Rightarrow> [] | Some x \<Rightarrow> [x])"
  using assms
proof (induction xs rule: rev_induct)
  case (snoc x xs)
  let ?q = "fold tc_enqueue xs []"
  from snoc have IH: "filter (\<lambda>x. it_source x = src) ?q =
    (case find (\<lambda>x. it_source x = src) (rev xs) of None \<Rightarrow> [] | Some x \<Rightarrow> [x])" by simp
  show ?case
  proof (cases "it_source x = src")
    case True
    with snoc.prems have "it_coalesce x" by simp
    moreover have "length (filter (\<lambda>y. it_source y = it_source x) ?q) \<le> 1"
      using IH True by (simp split: option.splits)
    ultimately show ?thesis using enqueue_filter_same [of x ?q] True by simp
  next
    case False
    with IH enqueue_filter_other [OF False] show ?thesis by simp
  qed
qed simp

lemma coalesce_latest_wins_witness:
  "filter (\<lambda>x. it_source x = ''soul.flow'')
     (fold tc_enqueue [sample_item ''p'' True, (sample_item ''r'' False)\<lparr>it_source := ''b''\<rparr>, sample_item ''q'' True] [])
   = [sample_item ''q'' True]"
  using coalesce_latest_wins [of "[sample_item ''p'' True, (sample_item ''r'' False)\<lparr>it_source := ''b''\<rparr>, sample_item ''q'' True]"
      "''soul.flow''"] by (simp add: sample_item_def)

end
