(* ===== verification/Sent_Tracker.thy ===== *)
theory Sent_Tracker
  imports Prelude
begin

text \<open>
  Duplicate sends and poll backoff on external channels (\<^verbatim>\<open>kernel/sent_message_tracker.py\<close>). Times
  are readings of a monotonic clock; \<open>sha\<close> is the hexadecimal SHA-256 of the text's UTF-8 form, a
  function of the standard library.
\<close>

section \<open>State and operations\<close>

record sent_entry =
  se_hash :: string
  se_recipient :: string
  se_channel :: string
  se_timestamp :: rat

record sent_tracker =
  st_entries :: "sent_entry list"
  st_max_entries :: int
  st_dedup_window :: rat
  st_ttl :: rat
  st_poll_counts :: "(string \<times> int) list"
  st_max_poll_retries :: int

definition SEND_TOOLS :: "string list" where
  "SEND_TOOLS = [''telegram'', ''imap'', ''wechat'', ''feishu'', ''whatsapp'']"

definition SEND_ACTIONS :: "string list" where
  "SEND_ACTIONS = [''send'', ''reply'', ''reply_all'']"

definition CHECK_ACTIONS :: "string list" where
  "CHECK_ACTIONS = [''check'', ''read'']"

definition init_tracker :: "int \<Rightarrow> rat \<Rightarrow> rat \<Rightarrow> sent_tracker" where
  "init_tracker max_entries window ttl =
     \<lparr>st_entries = [], st_max_entries = max_entries, st_dedup_window = window, st_ttl = ttl,
      st_poll_counts = [], st_max_poll_retries = 3\<rparr>"

definition default_tracker :: sent_tracker where
  "default_tracker = init_tracker 10 30 300"

definition content_hash :: "(string \<Rightarrow> string) \<Rightarrow> string \<Rightarrow> string \<Rightarrow> string" where
  "content_hash sha content recipient = take 16 (sha (recipient @ '':'' @ content))"

definition cleanup :: "rat \<Rightarrow> sent_tracker \<Rightarrow> sent_tracker" where
  "cleanup now t = t\<lparr>st_entries := filter (\<lambda>e. se_timestamp e > now - st_ttl t) (st_entries t)\<rparr>"

text \<open>The clock is read twice: by the cleanup and for the window.\<close>

definition was_recently_sent ::
  "(string \<Rightarrow> string) \<Rightarrow> rat \<Rightarrow> rat \<Rightarrow> string \<Rightarrow> string \<Rightarrow> rat option \<Rightarrow> sent_tracker \<Rightarrow> bool \<times> sent_tracker" where
  "was_recently_sent sha now1 now2 content recipient window t =
     (let t1 = cleanup now1 t;
          h = content_hash sha content recipient;
          w = (case window of Some x \<Rightarrow> if x \<noteq> 0 then x else st_dedup_window t1 | None \<Rightarrow> st_dedup_window t1);
          cutoff = now2 - w
      in (list_ex (\<lambda>e. se_hash e = h \<and> se_recipient e = recipient \<and> se_timestamp e > cutoff) (st_entries t1), t1))"

text \<open>\<^verbatim>\<open>xs[-n:]\<close> as Python reads it, also for a count that is not positive.\<close>

definition py_last :: "int \<Rightarrow> 'a list \<Rightarrow> 'a list" where
  "py_last n xs = (if 0 < n then last_n (nat n) xs else drop (nat (- n)) xs)"

definition record_sent ::
  "(string \<Rightarrow> string) \<Rightarrow> rat \<Rightarrow> rat \<Rightarrow> string \<Rightarrow> string \<Rightarrow> string \<Rightarrow> sent_tracker \<Rightarrow> sent_tracker" where
  "record_sent sha now1 now2 content recipient channel t =
     (let t1 = cleanup now1 t;
          e = \<lparr>se_hash = content_hash sha content recipient, se_recipient = recipient, se_channel = channel,
               se_timestamp = now2\<rparr>;
          es = st_entries t1 @ [e];
          es' = (if int (length es) > st_max_entries t1 then py_last (st_max_entries t1) es else es)
      in t1\<lparr>st_entries := es', st_poll_counts := dpop channel (st_poll_counts t1)\<rparr>)"

definition record_poll :: "string \<Rightarrow> bool \<Rightarrow> sent_tracker \<Rightarrow> sent_tracker" where
  "record_poll channel found_new t =
     (if found_new then t\<lparr>st_poll_counts := dpop channel (st_poll_counts t)\<rparr>
      else t\<lparr>st_poll_counts := dincr channel (st_poll_counts t)\<rparr>)"

definition should_stop_polling :: "string \<Rightarrow> sent_tracker \<Rightarrow> bool" where
  "should_stop_polling channel t \<longleftrightarrow> dgetd (st_poll_counts t) channel 0 \<ge> st_max_poll_retries t"

text \<open>A power of two beyond the double range raises \<^verbatim>\<open>OverflowError\<close> before the minimum is taken.\<close>

definition poll_backoff_seconds :: "string \<Rightarrow> sent_tracker \<Rightarrow> exc + rat" where
  "poll_backoff_seconds channel t =
     (let count = dgetd (st_poll_counts t) channel 0 in
      if count \<le> 0 then Inr 0
      else if count \<ge> 1024 then Inl (OtherException ''OverflowError'' ''Numerical result out of range'')
      else Inr (min (2 ^ nat count) 8))"

definition reset_poll :: "string \<Rightarrow> sent_tracker \<Rightarrow> sent_tracker" where
  "reset_poll channel t = t\<lparr>st_poll_counts := dpop channel (st_poll_counts t)\<rparr>"

section \<open>A run of the tracker\<close>

datatype tracker_event =
    Sent string string string rat rat
  | Asked string string rat rat
  | Polled string bool
  | Reset string

fun tracker_step :: "(string \<Rightarrow> string) \<Rightarrow> tracker_event \<Rightarrow> sent_tracker \<Rightarrow> sent_tracker" where
  "tracker_step sha (Sent content recipient channel now1 now2) t = record_sent sha now1 now2 content recipient channel t"
| "tracker_step sha (Asked content recipient now1 now2) t = snd (was_recently_sent sha now1 now2 content recipient None t)"
| "tracker_step sha (Polled channel found) t = record_poll channel found t"
| "tracker_step sha (Reset channel) t = reset_poll channel t"

text \<open>The history a run leaves: what was sent, and how many polls of a channel in a row found nothing.\<close>

fun sent_log :: "(string \<Rightarrow> string) \<Rightarrow> tracker_event list \<Rightarrow> sent_entry list" where
  "sent_log sha [] = []"
| "sent_log sha (Sent content recipient channel now1 now2 # es) =
     \<lparr>se_hash = content_hash sha content recipient, se_recipient = recipient, se_channel = channel,
      se_timestamp = now2\<rparr> # sent_log sha es"
| "sent_log sha (_ # es) = sent_log sha es"

fun event_times :: "tracker_event \<Rightarrow> rat list" where
  "event_times (Sent _ _ _ a b) = [a, b]"
| "event_times (Asked _ _ a b) = [a, b]"
| "event_times _ = []"

fun empty_polls :: "string \<Rightarrow> int \<Rightarrow> tracker_event list \<Rightarrow> int" where
  "empty_polls ch n [] = n"
| "empty_polls ch n (Sent _ _ c _ _ # es) = empty_polls ch (if c = ch then 0 else n) es"
| "empty_polls ch n (Reset c # es) = empty_polls ch (if c = ch then 0 else n) es"
| "empty_polls ch n (Polled c found # es) =
     empty_polls ch (if c = ch then (if found then 0 else n + 1) else n) es"
| "empty_polls ch n (_ # es) = empty_polls ch n es"

definition run_tracker :: "(string \<Rightarrow> string) \<Rightarrow> tracker_event list \<Rightarrow> sent_tracker \<Rightarrow> sent_tracker" where
  "run_tracker sha es t = fold (tracker_step sha) es t"

section \<open>What the tracker remembers\<close>

lemma sent_log_append: "sent_log sha (xs @ ys) = sent_log sha xs @ sent_log sha ys"
  by (induction sha xs rule: sent_log.induct) auto

lemma tracker_frame [simp]:
  "st_max_entries (tracker_step sha e t) = st_max_entries t"
  "st_ttl (tracker_step sha e t) = st_ttl t"
  "st_dedup_window (tracker_step sha e t) = st_dedup_window t"
  "st_max_poll_retries (tracker_step sha e t) = st_max_poll_retries t"
  by (cases e; simp add: record_sent_def was_recently_sent_def record_poll_def reset_poll_def cleanup_def Let_def)+

lemma run_frame [simp]:
  "st_max_entries (run_tracker sha es t) = st_max_entries t"
  "st_ttl (run_tracker sha es t) = st_ttl t"
  "st_dedup_window (run_tracker sha es t) = st_dedup_window t"
  "st_max_poll_retries (run_tracker sha es t) = st_max_poll_retries t"
  unfolding run_tracker_def by (induction es arbitrary: t) simp_all

lemma last_n_snoc: "0 < n \<Longrightarrow> last_n n (xs @ [x]) = (if length xs < n then last_n n xs else tl (last_n n xs)) @ [x]"
  by (auto simp: last_n_def Suc_diff_le not_less tl_drop drop_Suc)

lemma filter_fresh_tl:
  assumes "sorted (map f xs)" "filter (\<lambda>x. f x > c) xs \<noteq> xs"
  shows "filter (\<lambda>x. f x > c) (tl xs) = filter (\<lambda>x. f x > (c::rat)) xs"
proof (cases xs)
  case (Cons a ys)
  have "\<not> f a > c"
  proof
    assume "f a > c"
    then have "\<forall>y\<in>set xs. f y > c" using assms(1) Cons by (auto intro: less_le_trans)
    with assms(2) show False by (simp add: filter_id_conv)
  qed
  with Cons show ?thesis by simp
qed simp

text \<open>Appending under the cap commutes with forgetting what has expired.\<close>

lemma cap_filter:
  fixes c :: rat
  assumes "sorted (map f xs)" "f x > c" "0 < n"
  defines "ys \<equiv> filter (\<lambda>x. f x > c) (last_n n xs) @ [x]"
  shows "(if length ys > n then last_n n ys else ys) = filter (\<lambda>x. f x > c) (last_n n (xs @ [x]))"
proof -
  let ?L = "last_n n xs"
  have sorted: "sorted (map f ?L)" using assms(1) by (simp add: last_n_def sorted_wrt_drop flip: drop_map)
  show ?thesis
  proof (cases "filter (\<lambda>x. f x > c) ?L = ?L")
    case True
    then have ys: "ys = ?L @ [x]" by (simp add: ys_def)
    have all: "\<forall>y\<in>set ?L. f y > c" using True by (simp add: filter_id_conv)
    then have tl: "filter (\<lambda>x. f x > c) (tl ?L) = tl ?L"
      by (cases ?L) (simp_all add: filter_id_conv)
    show ?thesis
    proof (cases "length xs < n")
      case True
      then show ?thesis using True all assms(2,3) by (simp add: ys last_n_snoc filter_id_conv)
    next
      case False
      then have "last_n n (?L @ [x]) = tl ?L @ [x]"
        using last_n_snoc [OF assms(3), of ?L x] by (simp add: last_n_def [of n ?L])
      with False tl assms(2,3) show ?thesis by (simp add: ys last_n_snoc)
    qed
  next
    case False
    then have "length (filter (\<lambda>x. f x > c) ?L) < length ?L"
      by (metis filter_id_conv length_filter_less)
    then have "length ys \<le> n" by (simp add: ys_def)
    then show ?thesis
      using filter_fresh_tl [OF sorted False] assms(2,3) by (simp add: ys_def last_n_snoc)
  qed
qed


text \<open>The entries after a run: the last sends under the cap, without those that had expired by some
  reading of the clock not later than \<open>now\<close>.\<close>

definition remembers :: "(string \<Rightarrow> string) \<Rightarrow> sent_tracker \<Rightarrow> tracker_event list \<Rightarrow> rat \<Rightarrow> bool" where
  "remembers sha t es now \<longleftrightarrow>
     (\<exists>c \<le> now - st_ttl t. st_entries t =
        filter (\<lambda>e. se_timestamp e > c) (last_n (nat (st_max_entries t)) (sent_log sha es)))"

lemma remembers_mono: "remembers sha t es a \<Longrightarrow> a \<le> b \<Longrightarrow> remembers sha t es b"
proof -
  assume "remembers sha t es a" "a \<le> b"
  then obtain c where c: "c \<le> a - st_ttl t" "st_entries t =
      filter (\<lambda>e. se_timestamp e > c) (last_n (nat (st_max_entries t)) (sent_log sha es))"
    by (auto simp: remembers_def)
  have "c \<le> b - st_ttl t" using c(1) \<open>a \<le> b\<close> by linarith
  with c(2) show ?thesis unfolding remembers_def by blast
qed

lemma remembers_cleanup:
  assumes "remembers sha t es now" "now \<le> now'"
  shows "st_entries (cleanup now' t) =
    filter (\<lambda>e. se_timestamp e > now' - st_ttl t) (last_n (nat (st_max_entries t)) (sent_log sha es))"
proof -
  obtain c where "c \<le> now - st_ttl t" "st_entries t =
      filter (\<lambda>e. se_timestamp e > c) (last_n (nat (st_max_entries t)) (sent_log sha es))"
    using assms(1) by (auto simp: remembers_def)
  with assms(2) show ?thesis by (auto simp: cleanup_def intro!: filter_cong)
qed

lemma cleanup_frame [simp]:
  "st_max_entries (cleanup now t) = st_max_entries t" "st_ttl (cleanup now t) = st_ttl t"
  "st_dedup_window (cleanup now t) = st_dedup_window t" "st_poll_counts (cleanup now t) = st_poll_counts t"
  by (simp_all add: cleanup_def)

lemma remembers_sent:
  assumes "remembers sha t es now" "now \<le> now1" "now1 \<le> now2" "0 < st_max_entries t" "0 < st_ttl t"
    and "sorted (map se_timestamp (sent_log sha es))"
  shows "remembers sha (record_sent sha now1 now2 content recipient channel t)
    (es @ [Sent content recipient channel now1 now2]) now2"
proof -
  let ?n = "nat (st_max_entries t)" and ?log = "sent_log sha es" and ?c = "now1 - st_ttl t"
  let ?e = "\<lparr>se_hash = content_hash sha content recipient, se_recipient = recipient, se_channel = channel,
     se_timestamp = now2\<rparr>"
  let ?ys = "filter (\<lambda>e. se_timestamp e > ?c) (last_n ?n ?log) @ [?e]"
  have pos: "0 < ?n" "se_timestamp ?e > ?c" using assms(3-5) by auto
  note cf = cap_filter [OF assms(6) pos(2,1)]
  have "st_entries (record_sent sha now1 now2 content recipient channel t) = (if length ?ys > ?n then last_n ?n ?ys else ?ys)"
    using remembers_cleanup [OF assms(1,2)] assms(4)
    by (auto simp: record_sent_def Let_def py_last_def nat_less_iff)
  also have "\<dots> = filter (\<lambda>e. se_timestamp e > ?c) (last_n ?n (sent_log sha (es @ [Sent content recipient channel now1 now2])))"
    unfolding cf by (simp add: sent_log_append)
  finally show ?thesis using assms(3) unfolding remembers_def
    by (intro exI [of _ ?c]) (simp add: record_sent_def Let_def)
qed

definition clock_ok :: "tracker_event list \<Rightarrow> bool" where
  "clock_ok es \<longleftrightarrow> sorted (concat (map event_times es))"

lemma sent_log_times: "set (map se_timestamp (sent_log sha es)) \<subseteq> set (concat (map event_times es))"
  by (induction sha es rule: sent_log.induct) auto

lemma sent_log_sorted: "clock_ok es \<Longrightarrow> sorted (map se_timestamp (sent_log sha es))"
proof (induction sha es rule: sent_log.induct)
  case (2 sha content recipient channel now1 now2 es)
  then show ?case using sent_log_times [of sha es] by (fastforce simp: clock_ok_def sorted_append)
qed (auto simp: clock_ok_def sorted_append)

lemma run_remembers:
  assumes "clock_ok es" "0 < m" "0 < ttl" "\<forall>x\<in>set (concat (map event_times es)). x \<le> now"
  shows "remembers sha (run_tracker sha es (init_tracker m w ttl)) es now"
  using assms
proof (induction es arbitrary: now rule: rev_induct)
  case Nil
  then show ?case by (auto simp: remembers_def run_tracker_def init_tracker_def last_n_def intro: exI [of _ "now - ttl"])
next
  case (snoc e es)
  let ?t = "run_tracker sha es (init_tracker m w ttl)"
  have ok: "clock_ok es" using snoc.prems(1) by (simp add: clock_ok_def sorted_append)
  have fr: "st_max_entries ?t = m" "st_ttl ?t = ttl" by (simp_all add: init_tracker_def)
  have run: "run_tracker sha (es @ [e]) (init_tracker m w ttl) = tracker_step sha e ?t"
    by (simp add: run_tracker_def)
  show ?case
  proof (cases e)
    case (Sent content recipient channel a b)
    with snoc.prems(1) have ab: "\<forall>x\<in>set (concat (map event_times es)). x \<le> a" "a \<le> b"
      by (auto simp: clock_ok_def sorted_append)
    have "b \<le> now" using snoc.prems(4) Sent by simp
    moreover have "remembers sha (record_sent sha a b content recipient channel ?t) (es @ [e]) b"
      unfolding Sent
      by (rule remembers_sent [OF snoc.IH [OF ok snoc.prems(2,3) ab(1)] order_refl ab(2)])
        (simp_all only: fr snoc.prems sent_log_sorted [OF ok])
    ultimately show ?thesis unfolding run unfolding Sent by (auto intro: remembers_mono)
  next
    case (Asked content recipient a b)
    with snoc.prems(1) have ab: "\<forall>x\<in>set (concat (map event_times es)). x \<le> a" "a \<le> b"
      by (auto simp: clock_ok_def sorted_append)
    have "b \<le> now" using snoc.prems(4) Asked by simp
    with ab remembers_cleanup [OF snoc.IH [OF ok snoc.prems(2,3) ab(1)] order_refl]
    show ?thesis unfolding run unfolding Asked remembers_def
      by (auto simp: was_recently_sent_def Let_def sent_log_append init_tracker_def intro!: exI [of _ "a - ttl"])
  next
    case (Polled channel found)
    with snoc.IH [OF ok snoc.prems(2,3)] snoc.prems(4) show ?thesis
      unfolding run by (auto simp: remembers_def record_poll_def sent_log_append)
  next
    case (Reset channel)
    with snoc.IH [OF ok snoc.prems(2,3)] snoc.prems(4) show ?thesis
      unfolding run by (auto simp: remembers_def reset_poll_def sent_log_append)
  qed
qed

section \<open>Properties\<close>

text \<open>duplicate sends. After any run whose clock never goes back, with a window no longer than the
  retention time, the tracker reports a message as recently sent exactly when one of the last
  \<open>max_entries\<close> sends had the same content hash and recipient and happened inside the window: neither
  the cleanups nor the cap lose such a send or invent one.\<close>

theorem recently_sent_exact:
  assumes "clock_ok es" "0 < m" "0 < w" "w \<le> ttl"
    and "\<forall>x\<in>set (concat (map event_times es)). x \<le> now1" "now1 \<le> now2"
  shows "fst (was_recently_sent sha now1 now2 content recipient None (run_tracker sha es (init_tracker m w ttl))) \<longleftrightarrow>
    (\<exists>e\<in>set (last_n (nat m) (sent_log sha es)). se_hash e = content_hash sha content recipient \<and>
       se_recipient e = recipient \<and> se_timestamp e > now2 - w)"
proof -
  let ?t = "run_tracker sha es (init_tracker m w ttl)"
  have fr: "st_max_entries ?t = m" "st_ttl ?t = ttl" "st_dedup_window ?t = w" by (simp_all add: init_tracker_def)
  have "0 < ttl" using assms(3,4) by simp
  from remembers_cleanup [OF run_remembers [OF assms(1,2) this assms(5), where w = w and sha = sha] order_refl]
  have "st_entries (cleanup now1 ?t) = filter (\<lambda>e. se_timestamp e > now1 - ttl) (last_n (nat m) (sent_log sha es))"
    by (simp only: fr)
  moreover have "now1 - ttl \<le> now2 - w" using assms(4,6) by simp
  ultimately show ?thesis
    by (auto simp: was_recently_sent_def Let_def list_ex_iff init_tracker_def)
qed

lemma recently_sent_exact_witness:
  "fst (was_recently_sent (\<lambda>s. s) 20 20 ''hi'' ''bob'' None
     (run_tracker (\<lambda>s. s) [Sent ''hi'' ''bob'' ''imap'' 1 1] (init_tracker 10 30 300)))"
  by (subst recently_sent_exact) (simp_all add: clock_ok_def last_n_def)

lemma poll_count_step:
  "dgetd (st_poll_counts (tracker_step sha e t)) ch 0 = empty_polls ch (dgetd (st_poll_counts t) ch 0) [e]"
  by (cases e) (auto simp: record_sent_def was_recently_sent_def record_poll_def reset_poll_def Let_def
      dincr_def dgetd_def)

lemma empty_polls_snoc: "empty_polls ch n (es @ [e]) = empty_polls ch (empty_polls ch n es) [e]"
  by (induction ch n es rule: empty_polls.induct) auto

lemma run_poll_count:
  "dgetd (st_poll_counts (run_tracker sha es t)) ch 0 = empty_polls ch (dgetd (st_poll_counts t) ch 0) es"
proof (induction es rule: rev_induct)
  case (snoc e es)
  then show ?case using poll_count_step [of sha e "run_tracker sha es t" ch]
    by (simp add: run_tracker_def empty_polls_snoc [of ch _ es e] del: empty_polls.simps)
qed (simp add: run_tracker_def)

text \<open>poll backoff. After any run the tracker asks to stop polling a channel exactly when at least three
  polls in a row found nothing since the last send, reset or successful poll there, whatever happened on
  other channels; the delay is then 0, 2, 4 or 8 seconds. From 1024 such polls on, computing the delay raises.\<close>

theorem poll_backoff_counts:
  assumes "n = empty_polls ch 0 es"
  shows "let t = run_tracker sha es (init_tracker m w ttl) in
    (should_stop_polling ch t \<longleftrightarrow> 3 \<le> n) \<and>
    (n < 1024 \<longrightarrow> poll_backoff_seconds ch t = Inr (if n \<le> 0 then 0 else if n = 1 then 2 else if n = 2 then 4 else 8)) \<and>
    (1024 \<le> n \<longrightarrow> (\<exists>x. poll_backoff_seconds ch t = Inl x))"
proof -
  let ?t = "run_tracker sha es (init_tracker m w ttl)"
  have n: "dgetd (st_poll_counts ?t) ch 0 = n"
    using run_poll_count [of sha es "init_tracker m w ttl" ch] assms by (simp add: init_tracker_def)
  have "st_max_poll_retries ?t = 3" by (simp add: init_tracker_def)
  moreover have "min (2 ^ nat n) 8 = (8::rat)" if "3 \<le> n"
  proof -
    have "(2::rat) ^ 3 \<le> 2 ^ nat n" using that by (intro power_increasing) auto
    then show ?thesis by simp
  qed
  moreover have "min (2 ^ nat n) 8 = (if n = 1 then 2 else 4 :: rat)" if "n = 1 \<or> n = 2"
    using that by auto
  ultimately show ?thesis
    by (cases "n \<le> 0"; cases "n = 1"; cases "n = 2"; cases "3 \<le> n")
      (auto simp: should_stop_polling_def poll_backoff_seconds_def n Let_def)
qed

lemma poll_backoff_counts_witness:
  "should_stop_polling ''imap'' (run_tracker (\<lambda>s. s)
     [Polled ''imap'' True, Polled ''imap'' False, Polled ''wechat'' True, Polled ''imap'' False, Polled ''imap'' False]
     (init_tracker 10 30 300))"
  using poll_backoff_counts [of 3 "''imap''"
      "[Polled ''imap'' True, Polled ''imap'' False, Polled ''wechat'' True, Polled ''imap'' False, Polled ''imap'' False]"]
  by (simp add: Let_def)

end
