(* ===== verification/Turns.thy ===== *)
theory Turns
  imports Prelude
begin

text \<open>
  Correlated inbound turns (\<^verbatim>\<open>kernel/turns.py\<close>, messages from \<^verbatim>\<open>kernel/message.py\<close>): typed origin
  admission, submission, cancellation, binding of a dequeued turn, and the settlement that gives every
  accepted turn exactly one terminal receipt.

  A control block is an object the adapter, the turn loop and the stopping thread share, so it lives in
  a store and is named by its index; the live table maps correlation ids to indices. A section the code
  runs under the turn lock is one function here, and what it does after releasing the lock is another,
  so the step relation interleaves them freely.
\<close>

section \<open>Messages\<close>

datatype msg_content = Text_Content string | Envelope nat | Payload py

record message =
  m_id :: string
  m_type :: string
  m_sender :: string
  m_content :: msg_content
  m_reply_to :: "string option"
  m_timestamp :: rat

definition MSG_REQUEST :: string where "MSG_REQUEST = ''request''"
definition MSG_USER_INPUT :: string where "MSG_USER_INPUT = ''user_input''"
definition MSG_CORRELATED_TURN :: string where "MSG_CORRELATED_TURN = ''correlated_turn''"
definition MSG_TC_WAKE :: string where "MSG_TC_WAKE = ''tc_wake''"

definition MESSAGE_TYPES :: "string list" where
  "MESSAGE_TYPES = [MSG_REQUEST, MSG_USER_INPUT, MSG_CORRELATED_TURN, MSG_TC_WAKE]"

text \<open>\<open>hex\<close> is the fresh \<^verbatim>\<open>uuid4().hex\<close> and \<open>now\<close> the monotonic clock.\<close>

definition make_message :: "string \<Rightarrow> rat \<Rightarrow> string \<Rightarrow> string \<Rightarrow> msg_content \<Rightarrow> string option \<Rightarrow> message" where
  "make_message hex now ty sender content reply_to =
     \<lparr>m_id = ''msg_'' @ take 12 hex, m_type = ty, m_sender = sender, m_content = content,
      m_reply_to = reply_to, m_timestamp = now\<rparr>"

section \<open>Values\<close>

datatype turn_outcome = Normal | Cancelled | Failed

datatype turn_origin = Legacy | Internal_Event | Authenticated_Adapter

record admission =
  ad_allowed :: bool
  ad_origin :: turn_origin
  ad_policy_version :: string
  ad_reason_code :: string

text \<open>What a policy may hand back: something that is not a decision, or a decision whose text fields
  need not be texts.\<close>

datatype raw_decision = Malformed | Raw_Decision bool turn_origin py py

type_synonym origin_policy = "turn_origin \<Rightarrow> exc + raw_decision"

record turn_result =
  tu_correlation_id :: string
  tu_outcome :: turn_outcome
  tu_text :: string
  tu_error :: "string option"
  tu_errors :: "string list"

text \<open>An observer or broker a caller passes: its name and whether it defines the required method.\<close>

datatype port = Port (port_name: string) (port_callable: bool)

record control =
  ct_correlation_id :: string
  ct_content :: string
  ct_sender :: string
  ct_origin :: turn_origin
  ct_workspace :: "string option"
  ct_observer :: "port option"
  ct_broker :: "port option"
  ct_cancel_requested :: bool
  ct_future :: "turn_result option"
  ct_cancellable :: bool
  ct_claimed :: bool

record agent =
  ag_store :: "control list"
  ag_controls :: "(string \<times> nat) list"
  ag_current :: "nat option"
  ag_shutdown :: bool
  ag_inbox :: "message list"
  ag_latch :: bool
  ag_policy :: "origin_policy option"
  ag_requires_policy :: bool
  ag_log :: "admission list"

definition init_agent :: "origin_policy option \<Rightarrow> bool \<Rightarrow> agent" where
  "init_agent policy requires =
     \<lparr>ag_store = [], ag_controls = [], ag_current = None, ag_shutdown = False, ag_inbox = [], ag_latch = False,
      ag_policy = policy, ag_requires_policy = requires, ag_log = []\<rparr>"

section \<open>Admission\<close>

definition reject :: "admission \<Rightarrow> agent \<Rightarrow> (exc + admission) \<times> agent" where
  "reject d ag = (Inl (PermissionError (''turn origin rejected: '' @ ad_reason_code d)),
                  ag\<lparr>ag_log := ag_log ag @ [d]\<rparr>)"

definition denial :: "turn_origin \<Rightarrow> string \<Rightarrow> string \<Rightarrow> admission" where
  "denial origin version reason =
     \<lparr>ad_allowed = False, ad_origin = origin, ad_policy_version = version, ad_reason_code = reason\<rparr>"

text \<open>A raw answer that is not a complete decision for this very origin becomes a denial.\<close>

definition check_decision :: "turn_origin \<Rightarrow> raw_decision \<Rightarrow> admission" where
  "check_decision origin raw =
     (case raw of
        Raw_Decision allowed o' (PStr version) (PStr reason) \<Rightarrow>
          if o' = origin \<and> version \<noteq> [] \<and> reason \<noteq> []
          then \<lparr>ad_allowed = allowed, ad_origin = o', ad_policy_version = version, ad_reason_code = reason\<rparr>
          else denial origin ''policy-error'' ''invalid_policy_decision''
      | _ \<Rightarrow> denial origin ''policy-error'' ''invalid_policy_decision'')"

definition admit_turn_origin :: "turn_origin \<Rightarrow> agent \<Rightarrow> (exc + admission) \<times> agent" where
  "admit_turn_origin origin ag =
     (case ag_policy ag of
        None \<Rightarrow>
          if ag_requires_policy ag then
            reject (denial origin ''required-policy-missing'' ''required_policy_missing'') ag
          else (Inr \<lparr>ad_allowed = True, ad_origin = origin, ad_policy_version = ''legacy-default'',
                     ad_reason_code = ''allowed''\<rparr>, ag)
      | Some policy \<Rightarrow>
          let d = (case policy origin of
                     Inl _ \<Rightarrow> denial origin ''policy-error'' ''policy_error''
                   | Inr raw \<Rightarrow> check_decision origin raw)
          in if ad_allowed d then (Inr d, ag) else reject d ag)"

section \<open>Submission\<close>

text \<open>The arguments as the caller passes them, before any check.\<close>

record submission =
  su_content :: py
  su_sender :: py
  su_correlation_id :: "py option"
  su_origin :: "turn_origin option"
  su_workspace :: "string option"
  su_observer :: "port option"
  su_broker :: "port option"

definition nonempty_str :: "py \<Rightarrow> string option" where
  "nonempty_str v = (case v of PStr s \<Rightarrow> if s \<noteq> [] then Some s else None | _ \<Rightarrow> None)"

definition port_ok :: "port option \<Rightarrow> bool" where
  "port_ok p \<longleftrightarrow> (case p of None \<Rightarrow> True | Some q \<Rightarrow> port_callable q)"

text \<open>\<open>make_ws\<close> builds the execution workspace of a path; the control is built before the lock is taken.\<close>

definition submit_validate ::
  "(string \<Rightarrow> exc + string) \<Rightarrow> string \<Rightarrow> submission \<Rightarrow> agent \<Rightarrow> (exc + control) \<times> agent" where
  "submit_validate make_ws hex su ag =
     (case su_content su of
        PStr content \<Rightarrow>
          (case nonempty_str (su_sender su) of
             None \<Rightarrow> (Inl (ValueError ''turn sender must be a non-empty string''), ag)
           | Some sender \<Rightarrow>
          (case su_origin su of
             None \<Rightarrow> (Inl (TypeError ''origin must be a TurnOrigin''), ag)
           | Some origin \<Rightarrow>
          (case nonempty_str (case su_correlation_id su of None \<Rightarrow> PStr (''turn_'' @ hex) | Some v \<Rightarrow> v) of
             None \<Rightarrow> (Inl (ValueError ''correlation_id must be a non-empty string''), ag)
           | Some cid \<Rightarrow>
          if \<not> port_ok (su_observer su) then
            (Inl (TypeError ''tool_observer must define on_tool_lifecycle(event)''), ag)
          else if \<not> port_ok (su_broker su) then
            (Inl (TypeError ''permission_broker must define request_permission(request)''), ag)
          else if ag_shutdown ag then (Inl (RuntimeError ''agent is stopping''), ag)
          else
            (case admit_turn_origin origin ag of
               (Inl e, ag1) \<Rightarrow> (Inl e, ag1)
             | (Inr _, ag1) \<Rightarrow>
                 (case (case su_workspace su of None \<Rightarrow> Inr None | Some p \<Rightarrow> ebind (make_ws p) (\<lambda>w. Inr (Some w))) of
                    Inl e \<Rightarrow> (Inl e, ag1)
                  | Inr ws \<Rightarrow>
                      (Inr \<lparr>ct_correlation_id = cid, ct_content = content, ct_sender = sender,
                            ct_origin = origin, ct_workspace = ws, ct_observer = su_observer su,
                            ct_broker = su_broker su, ct_cancel_requested = False, ct_future = None,
                            ct_cancellable = True, ct_claimed = False\<rparr>, ag1))))))
      | _ \<Rightarrow> (Inl (TypeError ''turn content must be a string''), ag))"

text \<open>The registration, under the lock: a stop that got there first wins, and a live id is not reused.\<close>

definition submit_register :: "control \<Rightarrow> agent \<Rightarrow> (exc + nat) \<times> agent" where
  "submit_register ct ag =
     (if ag_shutdown ag then (Inl (RuntimeError ''agent is stopping''), ag)
      else if dhas (ag_controls ag) (ct_correlation_id ct) then
        (Inl (ValueError (''duplicate live correlation_id: '' @ ct_correlation_id ct)), ag)
      else (Inr (length (ag_store ag)),
            ag\<lparr>ag_store := ag_store ag @ [ct],
               ag_controls := ag_controls ag @ [(ct_correlation_id ct, length (ag_store ag))]\<rparr>))"

definition upd_control :: "nat \<Rightarrow> (control \<Rightarrow> control) \<Rightarrow> agent \<Rightarrow> agent" where
  "upd_control i f ag = ag\<lparr>ag_store := (ag_store ag)[i := f (ag_store ag ! i)]\<rparr>"

text \<open>\<^verbatim>\<open>controls.get(id) is control\<close> and the removal it guards.\<close>

definition pop_control :: "nat \<Rightarrow> agent \<Rightarrow> agent" where
  "pop_control i ag =
     (let cid = ct_correlation_id (ag_store ag ! i) in
      if dget (ag_controls ag) cid = Some i then ag\<lparr>ag_controls := dpop cid (ag_controls ag)\<rparr> else ag)"

definition submit_enqueue :: "string \<Rightarrow> rat \<Rightarrow> nat \<Rightarrow> agent \<Rightarrow> agent" where
  "submit_enqueue hex now i ag =
     ag\<lparr>ag_inbox := ag_inbox ag @
          [make_message hex now MSG_CORRELATED_TURN (ct_sender (ag_store ag ! i)) (Envelope i) None]\<rparr>"

definition submit_rollback :: "nat \<Rightarrow> agent \<Rightarrow> agent" where
  "submit_rollback i ag = upd_control i (\<lambda>c. c\<lparr>ct_cancellable := False\<rparr>) (pop_control i ag)"

text \<open>The whole call; \<open>put\<close> says whether the inbox accepts the message.\<close>

definition submit_turn ::
  "(string \<Rightarrow> exc + string) \<Rightarrow> string \<Rightarrow> rat \<Rightarrow> exc option \<Rightarrow> submission \<Rightarrow> agent \<Rightarrow> (exc + nat) \<times> agent" where
  "submit_turn make_ws hex now put su ag =
     (case submit_validate make_ws hex su ag of
        (Inl e, ag1) \<Rightarrow> (Inl e, ag1)
      | (Inr ct, ag1) \<Rightarrow>
          (case submit_register ct ag1 of
             (Inl e, ag2) \<Rightarrow> (Inl e, ag2)
           | (Inr i, ag2) \<Rightarrow>
               (case put of
                  Some e \<Rightarrow> (Inl e, submit_rollback i ag2)
                | None \<Rightarrow> (Inr i, submit_enqueue hex now i ag2))))"

section \<open>Cancellation and binding\<close>

definition cancel_turn :: "string \<Rightarrow> agent \<Rightarrow> bool \<times> agent" where
  "cancel_turn cid ag =
     (case dget (ag_controls ag) cid of
        None \<Rightarrow> (False, ag)
      | Some i \<Rightarrow>
          if ct_claimed (ag_store ag ! i) then (False, ag)
          else
            let ag1 = upd_control i (\<lambda>c. c\<lparr>ct_cancel_requested := True\<rparr>) ag
            in (True, if ag_current ag1 = Some i then ag1\<lparr>ag_latch := True\<rparr> else ag1))"

definition handle_cancel :: "nat \<Rightarrow> agent \<Rightarrow> bool \<times> agent" where
  "handle_cancel i ag =
     (if ct_cancellable (ag_store ag ! i) then cancel_turn (ct_correlation_id (ag_store ag ! i)) ag
      else (False, ag))"

definition control_from_message :: "message \<Rightarrow> nat option" where
  "control_from_message m =
     (case m_content m of
        Envelope i \<Rightarrow> if m_type m = MSG_CORRELATED_TURN then Some i else None
      | _ \<Rightarrow> None)"

definition begin_turn :: "message \<Rightarrow> agent \<Rightarrow> nat option \<times> agent" where
  "begin_turn m ag =
     (case control_from_message m of
        None \<Rightarrow> (None, ag)
      | Some i \<Rightarrow>
          let c = ag_store ag ! i in
          if dget (ag_controls ag) (ct_correlation_id c) \<noteq> Some i \<or> ct_claimed c then (None, ag)
          else
            let ag1 = ag\<lparr>ag_current := Some i\<rparr>
            in (Some i, if ct_cancel_requested c then ag1\<lparr>ag_latch := True\<rparr> else ag1))"

definition correlated_message_text :: "string \<Rightarrow> rat \<Rightarrow> agent \<Rightarrow> message \<Rightarrow> message" where
  "correlated_message_text hex now ag m =
     (case control_from_message m of
        None \<Rightarrow> m
      | Some i \<Rightarrow> make_message hex now MSG_CORRELATED_TURN (ct_sender (ag_store ag ! i))
                    (Text_Content (ct_content (ag_store ag ! i))) None)"

section \<open>Settlement\<close>

text \<open>The receipt a claim makes: cancellation wins over whatever outcome the turn loop reports.\<close>

definition receipt :: "control \<Rightarrow> bool \<Rightarrow> turn_outcome \<Rightarrow> string \<Rightarrow> string option \<Rightarrow> string list \<Rightarrow> turn_result" where
  "receipt c cooperative outcome text error errors =
     (if ct_cancel_requested c \<or> cooperative then
        \<lparr>tu_correlation_id = ct_correlation_id c, tu_outcome = Cancelled, tu_text = '''', tu_error = None,
         tu_errors = []\<rparr>
      else
        \<lparr>tu_correlation_id = ct_correlation_id c, tu_outcome = outcome, tu_text = text, tu_error = error,
         tu_errors = errors\<rparr>)"

definition settle_claim ::
  "nat \<Rightarrow> turn_outcome \<Rightarrow> string \<Rightarrow> string option \<Rightarrow> string list \<Rightarrow> bool \<Rightarrow> agent \<Rightarrow> turn_result option \<times> agent" where
  "settle_claim i outcome text error errors cooperative ag =
     (let c = ag_store ag ! i in
      if ct_claimed c then (None, ag)
      else
        let ag1 = upd_control i (\<lambda>c. c\<lparr>ct_claimed := True, ct_cancellable := False\<rparr>) ag;
            ag2 = pop_control i ag1
        in (Some (receipt c cooperative outcome text error errors),
            if ag_current ag2 = Some i then ag2\<lparr>ag_current := None\<rparr> else ag2))"

text \<open>\<^verbatim>\<open>future.set_result\<close>, which raises when the future is already set.\<close>

definition publish :: "nat \<Rightarrow> turn_result \<Rightarrow> agent \<Rightarrow> exc + agent" where
  "publish i r ag =
     (case ct_future (ag_store ag ! i) of
        Some _ \<Rightarrow> Inl (OtherException ''InvalidStateError'' '''')
      | None \<Rightarrow> Inr (upd_control i (\<lambda>c. c\<lparr>ct_future := Some r\<rparr>) ag))"

definition settle_turn ::
  "nat \<Rightarrow> turn_outcome \<Rightarrow> string \<Rightarrow> string option \<Rightarrow> string list \<Rightarrow> bool \<Rightarrow> agent \<Rightarrow> (exc + bool) \<times> agent" where
  "settle_turn i outcome text error errors cooperative ag =
     (case settle_claim i outcome text error errors cooperative ag of
        (None, ag1) \<Rightarrow> (Inr False, ag1)
      | (Some r, ag1) \<Rightarrow>
          (case publish i r ag1 of Inl e \<Rightarrow> (Inl e, ag1) | Inr ag2 \<Rightarrow> (Inr True, ag2)))"

text \<open>The loop of \<^verbatim>\<open>cancel_all_turns\<close> over the live controls, and the calls it claims.\<close>

fun claim_all :: "string \<Rightarrow> nat list \<Rightarrow> agent \<Rightarrow> (nat \<times> turn_result) list \<times> agent" where
  "claim_all reason [] ag = ([], ag)"
| "claim_all reason (i # is) ag =
     (if ct_claimed (ag_store ag ! i) then claim_all reason is ag
      else
        let c = ag_store ag ! i;
            r = \<lparr>tu_correlation_id = ct_correlation_id c, tu_outcome = Cancelled, tu_text = '''',
                 tu_error = Some reason, tu_errors = []\<rparr>;
            ag1 = upd_control i (\<lambda>c. c\<lparr>ct_cancel_requested := True, ct_claimed := True, ct_cancellable := False\<rparr>) ag
        in (case claim_all reason is ag1 of (rs, ag2) \<Rightarrow> ((i, r) # rs, ag2)))"

definition cancel_all_claim :: "string \<Rightarrow> agent \<Rightarrow> (nat \<times> turn_result) list \<times> bool \<times> agent" where
  "cancel_all_claim reason ag =
     (case claim_all reason (map snd (ag_controls ag)) ag of
        (rs, ag1) \<Rightarrow>
          (rs, (case ag_current ag of None \<Rightarrow> False | Some i \<Rightarrow> i \<in> set (map fst rs)),
           ag1\<lparr>ag_controls := [], ag_current := None\<rparr>))"

fun publish_all :: "(nat \<times> turn_result) list \<Rightarrow> agent \<Rightarrow> exc + agent" where
  "publish_all [] ag = Inr ag"
| "publish_all ((i, r) # rs) ag = ebind (publish i r ag) (publish_all rs)"

definition cancel_all_turns :: "string \<Rightarrow> agent \<Rightarrow> (exc + nat) \<times> agent" where
  "cancel_all_turns reason ag =
     (case cancel_all_claim reason ag of
        (rs, had_current, ag1) \<Rightarrow>
          let ag2 = (if had_current then ag1\<lparr>ag_latch := True\<rparr> else ag1)
          in (case publish_all rs ag2 of Inl e \<Rightarrow> (Inl e, ag2) | Inr ag3 \<Rightarrow> (Inr (length rs), ag3)))"

end
