(* ===== verification/Turns_Laws.thy ===== *)
theory Turns_Laws
  imports Turns
begin

text \<open>
  The concurrent protocol of correlated turns: the sections that run under the turn lock and the
  publications that follow them, interleaved in any order by the submitters, the turn loop, the
  cancelling clients and the stopping thread. One invariant carries the exactly-once receipt, the
  precedence of cancellation and the settlement of every accepted turn at shutdown.
\<close>

section \<open>The interleaved system\<close>

text \<open>
  \<open>publishing\<close> holds the receipts claimed but not yet set on their futures, \<open>submitting\<close> the
  controls registered whose message is not yet in the inbox, \<open>accepted\<close> those whose handle the caller got.
\<close>

record turn_sys =
  agent :: agent
  publishing :: "(nat \<times> turn_result) list"
  submitting :: "nat list"
  accepted :: "nat list"

definition init_sys :: "origin_policy option \<Rightarrow> bool \<Rightarrow> turn_sys" where
  "init_sys policy requires =
     \<lparr>agent = init_agent policy requires, publishing = [], submitting = [], accepted = []\<rparr>"

inductive turn_step :: "turn_sys \<Rightarrow> turn_sys \<Rightarrow> bool" where
  t_validate: "turn_step s (s\<lparr>agent := snd (submit_validate mk hex su (agent s))\<rparr>)"
| t_register:
    "\<lbrakk>submit_validate mk hex su ag0 = (Inr ct, ag0'); submit_register ct (agent s) = (Inr i, ag)\<rbrakk>
     \<Longrightarrow> turn_step s (s\<lparr>agent := ag, submitting := i # submitting s\<rparr>)"
| t_enqueue:
    "i \<in> set (submitting s) \<Longrightarrow>
     turn_step s (s\<lparr>agent := submit_enqueue hex now i (agent s), submitting := removeAll i (submitting s),
                    accepted := i # accepted s\<rparr>)"
| t_rollback:
    "i \<in> set (submitting s) \<Longrightarrow>
     turn_step s (s\<lparr>agent := submit_rollback i (agent s), submitting := removeAll i (submitting s)\<rparr>)"
| t_cancel: "turn_step s (s\<lparr>agent := snd (cancel_turn cid (agent s))\<rparr>)"
| t_begin:
    "m \<in> set (ag_inbox (agent s)) \<Longrightarrow>
     turn_step s (s\<lparr>agent := (snd (begin_turn m (agent s)))\<lparr>ag_inbox := remove1 m (ag_inbox (agent s))\<rparr>\<rparr>)"
| t_claim:
    "\<lbrakk>i < length (ag_store (agent s)); settle_claim i out t err errs coop (agent s) = (Some r, ag)\<rbrakk>
     \<Longrightarrow> turn_step s (s\<lparr>agent := ag, publishing := (i, r) # publishing s\<rparr>)"
| t_publish:
    "\<lbrakk>(i, r) \<in> set (publishing s); publish i r (agent s) = Inr ag\<rbrakk>
     \<Longrightarrow> turn_step s (s\<lparr>agent := ag, publishing := removeAll (i, r) (publishing s)\<rparr>)"
| t_cancel_all:
    "cancel_all_claim reason (agent s) = (rs, had, ag)
     \<Longrightarrow> turn_step s (s\<lparr>agent := (if had then ag\<lparr>ag_latch := True\<rparr> else ag), publishing := rs @ publishing s\<rparr>)"
| t_shutdown: "turn_step s (s\<lparr>agent := (agent s)\<lparr>ag_shutdown := True\<rparr>\<rparr>)"
| t_clear_latch: "turn_step s (s\<lparr>agent := (agent s)\<lparr>ag_latch := False\<rparr>\<rparr>)"

section \<open>The invariant\<close>

definition fits :: "control \<Rightarrow> turn_result \<Rightarrow> bool" where
  "fits c r \<longleftrightarrow> tu_correlation_id r = ct_correlation_id c \<and>
     (ct_cancel_requested c \<longrightarrow> tu_outcome r = Cancelled)"

definition control_ok :: "nat set \<Rightarrow> (string \<times> nat) list \<Rightarrow> nat \<Rightarrow> control \<Rightarrow> bool" where
  "control_ok ps live i c \<longleftrightarrow>
     (ct_claimed c \<longleftrightarrow> ct_future c \<noteq> None \<or> i \<in> ps) \<and>
     (\<forall>r. ct_future c = Some r \<longrightarrow> fits c r \<and> i \<notin> ps) \<and>
     (ct_cancellable c \<longleftrightarrow> (ct_correlation_id c, i) \<in> set live) \<and>
     (ct_cancellable c \<longrightarrow> \<not> ct_claimed c)"

definition agent_ok :: "(nat \<times> turn_result) list \<Rightarrow> agent \<Rightarrow> bool" where
  "agent_ok p ag \<longleftrightarrow>
     (\<forall>i<length (ag_store ag). control_ok (fst ` set p) (ag_controls ag) i (ag_store ag ! i)) \<and>
     distinct (map fst p) \<and> (\<forall>(i, r)\<in>set p. i < length (ag_store ag) \<and> fits (ag_store ag ! i) r) \<and>
     distinct (map fst (ag_controls ag)) \<and>
     (\<forall>(k, i)\<in>set (ag_controls ag). i < length (ag_store ag) \<and> ct_correlation_id (ag_store ag ! i) = k) \<and>
     (\<forall>m\<in>set (ag_inbox ag). \<forall>i. m_content m = Envelope i \<longrightarrow> i < length (ag_store ag))"

definition sys_ok :: "turn_sys \<Rightarrow> bool" where
  "sys_ok s \<longleftrightarrow> agent_ok (publishing s) (agent s) \<and>
     (\<forall>i\<in>set (submitting s) \<union> set (accepted s). i < length (ag_store (agent s))) \<and>
     set (submitting s) \<inter> set (accepted s) = {} \<and>
     (\<forall>i\<in>set (accepted s) \<union> set (submitting s). ct_claimed (ag_store (agent s) ! i) \<or> ct_cancellable (ag_store (agent s) ! i))"

lemma agent_okD:
  assumes "agent_ok p ag"
  shows "i < length (ag_store ag) \<Longrightarrow> control_ok (fst ` set p) (ag_controls ag) i (ag_store ag ! i)"
    and "distinct (map fst p)"
    and "(i, r) \<in> set p \<Longrightarrow> i < length (ag_store ag) \<and> fits (ag_store ag ! i) r"
    and "distinct (map fst (ag_controls ag))"
    and "(k, i) \<in> set (ag_controls ag) \<Longrightarrow> i < length (ag_store ag) \<and> ct_correlation_id (ag_store ag ! i) = k"
    and "m \<in> set (ag_inbox ag) \<Longrightarrow> m_content m = Envelope i \<Longrightarrow> i < length (ag_store ag)"
  using assms by (auto simp: agent_ok_def)

lemma live_iff:
  assumes "agent_ok p ag" "i < length (ag_store ag)"
  shows "dget (ag_controls ag) (ct_correlation_id (ag_store ag ! i)) = Some i \<longleftrightarrow> ct_cancellable (ag_store ag ! i)"
  using agent_okD(1) [OF assms] agent_okD(4) [OF assms(1)]
  by (auto simp: control_ok_def dest: map_of_SomeD map_of_is_SomeI)

lemma dget_live: "agent_ok p ag \<Longrightarrow> dget (ag_controls ag) k = Some i \<Longrightarrow>
    i < length (ag_store ag) \<and> ct_correlation_id (ag_store ag ! i) = k \<and> ct_cancellable (ag_store ag ! i) \<and>
    \<not> ct_claimed (ag_store ag ! i)"
proof -
  assume a: "agent_ok p ag" "dget (ag_controls ag) k = Some i"
  from agent_okD(5) [OF a(1) map_of_SomeD [OF a(2)]] have i: "i < length (ag_store ag)"
    "ct_correlation_id (ag_store ag ! i) = k" by auto
  with live_iff [OF a(1) i(1)] a(2) agent_okD(1) [OF a(1) i(1)] show ?thesis
    by (auto simp: control_ok_def)
qed

lemma set_dpop: "set (dpop k d) = {(j, v) \<in> set d. j \<noteq> k}"
  by (auto simp: dpop_def)

text \<open>Removing a live control: the table loses exactly its entry.\<close>

lemma pop_live:
  assumes "agent_ok p ag" "i < length (ag_store ag)"
  shows "set (ag_controls (pop_control i ag)) = {(k, j) \<in> set (ag_controls ag). j \<noteq> i}"
    and "distinct (map fst (ag_controls (pop_control i ag)))"
proof -
  have only: "k = ct_correlation_id (ag_store ag ! i)" if "(k, i) \<in> set (ag_controls ag)" for k
    using agent_okD(5) [OF assms(1) that] by simp
  have dis: "distinct (map fst (ag_controls ag))" by (rule agent_okD(4) [OF assms(1)])
  show "set (ag_controls (pop_control i ag)) = {(k, j) \<in> set (ag_controls ag). j \<noteq> i}"
  proof (cases "dget (ag_controls ag) (ct_correlation_id (ag_store ag ! i)) = Some i")
    case True
    with dis have "(ct_correlation_id (ag_store ag ! i), j) \<in> set (ag_controls ag) \<Longrightarrow> j = i" for j
      by (metis eq_key_imp_eq_value map_of_SomeD)
    with True only show ?thesis by (auto simp: pop_control_def Let_def set_dpop)
  next
    case False
    with only dis have "(k, i) \<notin> set (ag_controls ag)" for k
      by (metis map_of_is_SomeI)
    with False show ?thesis by (auto simp: pop_control_def Let_def)
  qed
  show "distinct (map fst (ag_controls (pop_control i ag)))"
    using dis by (simp add: pop_control_def Let_def distinct_keys_dpop)
qed

lemma pop_frame_agent [simp]:
  "ag_store (pop_control i ag) = ag_store ag" "ag_inbox (pop_control i ag) = ag_inbox ag"
  "ag_current (pop_control i ag) = ag_current ag" "ag_shutdown (pop_control i ag) = ag_shutdown ag"
  by (simp_all add: pop_control_def Let_def)

lemma upd_frame [simp]:
  "ag_controls (upd_control i f ag) = ag_controls ag" "ag_inbox (upd_control i f ag) = ag_inbox ag"
  "length (ag_store (upd_control i f ag)) = length (ag_store ag)" "ag_current (upd_control i f ag) = ag_current ag"
  "ag_shutdown (upd_control i f ag) = ag_shutdown ag"
  by (simp_all add: upd_control_def)

lemma upd_nth: "i < length (ag_store ag) \<Longrightarrow>
    ag_store (upd_control i f ag) ! j = (if j = i then f (ag_store ag ! i) else ag_store ag ! j)"
  by (simp add: upd_control_def nth_list_update)

text \<open>A step that changes one control, and the tables only where they name it.\<close>

lemma agent_ok_change:
  assumes ok: "agent_ok p ag" and i: "i < length (ag_store ag)"
    and store: "ag_store ag' = (ag_store ag)[i := c']" "ct_correlation_id c' = ct_correlation_id (ag_store ag ! i)"
    and live: "\<And>k j. j \<noteq> i \<Longrightarrow> (k, j) \<in> set (ag_controls ag') \<longleftrightarrow> (k, j) \<in> set (ag_controls ag)"
      "\<And>k. (k, i) \<in> set (ag_controls ag') \<Longrightarrow> (k, i) \<in> set (ag_controls ag)"
      "distinct (map fst (ag_controls ag'))"
    and pub: "\<And>j r. j \<noteq> i \<Longrightarrow> (j, r) \<in> set p' \<longleftrightarrow> (j, r) \<in> set p" "distinct (map fst p')"
      "\<And>r. (i, r) \<in> set p' \<Longrightarrow> fits c' r"
    and ctl: "control_ok (fst ` set p') (ag_controls ag') i c'"
    and inbox: "set (ag_inbox ag') \<subseteq> set (ag_inbox ag)"
  shows "agent_ok p' ag'"
proof -
  have ps: "j \<in> fst ` set p' \<longleftrightarrow> j \<in> fst ` set p" if "j \<noteq> i" for j
    using pub(1) [OF that] by (force simp: image_iff)
  have "control_ok (fst ` set p') (ag_controls ag') j (ag_store ag' ! j)" if "j < length (ag_store ag')" for j
  proof (cases "j = i")
    case False
    with that agent_okD(1) [OF ok, of j] show ?thesis
      by (auto simp: store(1) control_ok_def ps live(1))
  qed (use ctl i store in simp)
  moreover have "j < length (ag_store ag') \<and> fits (ag_store ag' ! j) r" if "(j, r) \<in> set p'" for j r
    using that pub(1,3) agent_okD(3) [OF ok, of j r] i by (cases "j = i") (auto simp: store(1))
  moreover have "j < length (ag_store ag') \<and> ct_correlation_id (ag_store ag' ! j) = k"
    if "(k, j) \<in> set (ag_controls ag')" for k j
    using that live(1,2) agent_okD(5) [OF ok, of k j] i by (cases "j = i") (auto simp: store)
  moreover have "j < length (ag_store ag')" if "m \<in> set (ag_inbox ag')" "m_content m = Envelope j" for m j
    using that inbox agent_okD(6) [OF ok, of m j] by (auto simp: store)
  ultimately show ?thesis using pub(2) live(3) unfolding agent_ok_def by blast
qed

section \<open>Every step keeps the invariant\<close>

lemma reject_frame:
  "snd (admit_turn_origin o' ag) = ag\<lparr>ag_log := ag_log (snd (admit_turn_origin o' ag))\<rparr>"
  by (simp add: admit_turn_origin_def reject_def Let_def split: option.splits)

lemma admit_frame [simp]:
  "admit_turn_origin o' ag = (r, ag') \<Longrightarrow>
   ag_store ag' = ag_store ag \<and> ag_controls ag' = ag_controls ag \<and> ag_inbox ag' = ag_inbox ag \<and>
   ag_current ag' = ag_current ag \<and> ag_shutdown ag' = ag_shutdown ag"
  by (auto simp: admit_turn_origin_def reject_def Let_def split: option.splits if_splits)

lemma validate_frame:
  "submit_validate mk hex su ag = (r, ag') \<Longrightarrow>
   ag_store ag' = ag_store ag \<and> ag_controls ag' = ag_controls ag \<and> ag_inbox ag' = ag_inbox ag \<and>
   ag_current ag' = ag_current ag \<and> ag_shutdown ag' = ag_shutdown ag"
  by (auto simp: submit_validate_def split: py.splits option.splits if_splits prod.splits sum.splits
      dest!: admit_frame)

lemma validate_fresh:
  "submit_validate mk hex su ag = (Inr ct, ag') \<Longrightarrow>
   \<not> ct_claimed ct \<and> ct_cancellable ct \<and> ct_future ct = None \<and> \<not> ct_cancel_requested ct"
  by (auto simp: submit_validate_def split: py.splits option.splits if_splits prod.splits sum.splits)

lemma agent_ok_frame:
  "agent_ok p ag \<Longrightarrow> ag_store ag' = ag_store ag \<Longrightarrow> ag_controls ag' = ag_controls ag \<Longrightarrow>
   set (ag_inbox ag') \<subseteq> set (ag_inbox ag) \<Longrightarrow> agent_ok p ag'"
  by (auto simp: agent_ok_def)

lemma agent_ok_register:
  assumes ok: "agent_ok p ag"
    and ct: "\<not> ct_claimed ct \<and> ct_cancellable ct \<and> ct_future ct = None \<and> \<not> ct_cancel_requested ct"
    and reg: "submit_register ct ag = (Inr i, ag')"
  shows "agent_ok p ag' \<and> i = length (ag_store ag) \<and> ag_store ag' = ag_store ag @ [ct]"
proof -
  let ?n = "length (ag_store ag)"
  from reg have i: "i = ?n" and new: "\<not> dhas (ag_controls ag) (ct_correlation_id ct)"
    and ag': "ag' = ag\<lparr>ag_store := ag_store ag @ [ct], ag_controls := ag_controls ag @ [(ct_correlation_id ct, ?n)]\<rparr>"
    by (auto simp: submit_register_def split: if_splits)
  have notin: "?n \<notin> fst ` set p" using agent_okD(3) [OF ok] by force
  have "control_ok (fst ` set p) (ag_controls ag') j (ag_store ag' ! j)" if j: "j < length (ag_store ag')" for j
  proof (cases "j = ?n")
    case True
    with ct notin show ?thesis by (simp add: ag' control_ok_def)
  next
    case False
    with j have "j < ?n" by (simp add: ag')
    with agent_okD(1) [OF ok this] show ?thesis by (auto simp: ag' nth_append control_ok_def)
  qed
  then show ?thesis using ok new i unfolding agent_ok_def
    by (auto simp: ag' nth_append dhas_def dest: less_imp_le split: if_splits)
qed

lemma agent_ok_cancel:
  assumes ok: "agent_ok p ag"
  shows "agent_ok p (snd (cancel_turn cid ag))"
proof (cases "dget (ag_controls ag) cid")
  case (Some i)
  from dget_live [OF ok Some] have l: "i < length (ag_store ag)" "\<not> ct_claimed (ag_store ag ! i)" by auto
  let ?c = "(ag_store ag ! i)\<lparr>ct_cancel_requested := True\<rparr>"
  have "agent_ok p (upd_control i (\<lambda>c. c\<lparr>ct_cancel_requested := True\<rparr>) ag)"
  proof (rule agent_ok_change [OF ok l(1), where c' = ?c])
    show "control_ok (fst ` set p) (ag_controls (upd_control i (\<lambda>c. c\<lparr>ct_cancel_requested := True\<rparr>) ag)) i ?c"
      using agent_okD(1) [OF ok l(1)] l(2) by (auto simp: control_ok_def)
    show "fits ?c r" if "(i, r) \<in> set p" for r
      using agent_okD(1) [OF ok l(1)] l(2) that by (force simp: control_ok_def)
  qed (use agent_okD(2,4) [OF ok] in \<open>simp_all add: upd_control_def\<close>)
  then show ?thesis using Some l(2)
    by (auto simp: cancel_turn_def Let_def elim!: agent_ok_frame)
qed (simp add: cancel_turn_def ok)

lemma agent_ok_claim:
  assumes ok: "agent_ok p ag" and i: "i < length (ag_store ag)"
    and claim: "settle_claim i out t err errs coop ag = (Some r, ag')"
  shows "agent_ok ((i, r) # p) ag'"
proof -
  let ?f = "\<lambda>c. c\<lparr>ct_claimed := True, ct_cancellable := False\<rparr>"
  let ?ag = "pop_control i (upd_control i ?f ag)"
  let ?c = "ag_store ag ! i"
  from claim have nc: "\<not> ct_claimed ?c" and r: "r = receipt ?c coop out t err errs"
    and ag': "ag' = (if ag_current ?ag = Some i then ?ag\<lparr>ag_current := None\<rparr> else ?ag)"
    by (auto simp: settle_claim_def Let_def split: if_splits)
  from agent_okD(1) [OF ok i] nc have fresh: "i \<notin> fst ` set p" "ct_future ?c = None"
    by (auto simp: control_ok_def)
  have pop: "ag_controls ?ag = ag_controls (pop_control i ag)"
    by (simp add: pop_control_def Let_def upd_nth [OF i])
  have gone: "(k, i) \<notin> set (ag_controls (pop_control i ag))" for k by (simp add: pop_live(1) [OF ok i])
  have "agent_ok ((i, r) # p) ?ag"
  proof (rule agent_ok_change [OF ok i, where c' = "?f ?c"])
    show "control_ok (fst ` set ((i, r) # p)) (ag_controls ?ag) i (?f ?c)"
      using fresh gone unfolding pop by (simp add: control_ok_def)
    show "fits (?f ?c) q" if "(i, q) \<in> set ((i, r) # p)" for q
      using that fresh by (force simp: r fits_def receipt_def)
    show "distinct (map fst ((i, r) # p))" using fresh agent_okD(2) [OF ok] by simp
    show "ag_store ?ag = (ag_store ag)[i := ?f ?c]" by (simp add: upd_control_def)
  qed (use pop_live [OF ok i] in \<open>simp_all add: pop\<close>)
  then show ?thesis unfolding ag' by (auto elim!: agent_ok_frame)
qed

lemma agent_ok_publish:
  assumes ok: "agent_ok p ag" and ir: "(i, r) \<in> set p" and pub: "publish i r ag = Inr ag'"
  shows "agent_ok (removeAll (i, r) p) ag'"
proof -
  let ?c = "(ag_store ag ! i)\<lparr>ct_future := Some r\<rparr>"
  from agent_okD(3) [OF ok ir] have i: "i < length (ag_store ag)" and fit: "fits (ag_store ag ! i) r" by auto
  from pub have ag': "ag' = upd_control i (\<lambda>c. c\<lparr>ct_future := Some r\<rparr>) ag"
    by (auto simp: publish_def split: option.splits)
  have only: "q = r" if "(i, q) \<in> set p" for q
    using that ir agent_okD(2) [OF ok] by (metis eq_key_imp_eq_value)
  have ctl: "control_ok (fst ` set p) (ag_controls ag) i (ag_store ag ! i)" by (rule agent_okD(1) [OF ok i])
  have claimed: "ct_claimed (ag_store ag ! i)" using ctl ir by (force simp: control_ok_def)
  have gone: "i \<notin> fst ` set (removeAll (i, r) p)" using only by auto
  show ?thesis unfolding ag'
  proof (rule agent_ok_change [OF ok i, where c' = ?c])
    show "control_ok (fst ` set (removeAll (i, r) p)) (ag_controls (upd_control i (\<lambda>c. c\<lparr>ct_future := Some r\<rparr>) ag)) i ?c"
      using ctl claimed gone fit by (auto simp: control_ok_def fits_def)
    show "fits ?c q" if "(i, q) \<in> set (removeAll (i, r) p)" for q
      using only that by auto
    show "distinct (map fst (removeAll (i, r) p))"
      using agent_okD(2) [OF ok] by (simp add: removeAll_filter_not_eq distinct_map_filter)
  qed (use agent_okD(4) [OF ok] in \<open>auto simp: upd_control_def\<close>)
qed

lemma agent_ok_rollback:
  assumes ok: "agent_ok p ag" and i: "i < length (ag_store ag)"
  shows "agent_ok p (submit_rollback i ag)"
proof -
  let ?c = "(ag_store ag ! i)\<lparr>ct_cancellable := False\<rparr>"
  have pop: "ag_controls (submit_rollback i ag) = ag_controls (pop_control i ag)"
    by (simp add: submit_rollback_def)
  show ?thesis
  proof (rule agent_ok_change [OF ok i, where c' = ?c])
    show "control_ok (fst ` set p) (ag_controls (submit_rollback i ag)) i ?c"
      using agent_okD(1) [OF ok i] unfolding pop by (auto simp: control_ok_def fits_def pop_live(1) [OF ok i])
    show "fits ?c r" if "(i, r) \<in> set p" for r
      using agent_okD(3) [OF ok that] by (simp add: fits_def)
  qed (use agent_okD(2) [OF ok] pop_live [OF ok i] in \<open>simp_all add: pop, simp_all add: submit_rollback_def upd_control_def\<close>)
qed

definition stop_receipt :: "string \<Rightarrow> control \<Rightarrow> turn_result" where
  "stop_receipt reason c =
     \<lparr>tu_correlation_id = ct_correlation_id c, tu_outcome = Cancelled, tu_text = '''',
      tu_error = Some reason, tu_errors = []\<rparr>"

definition stopped :: "control \<Rightarrow> control" where
  "stopped c = c\<lparr>ct_cancel_requested := True, ct_claimed := True, ct_cancellable := False\<rparr>"

lemma claim_all_result:
  assumes "distinct is" "\<forall>i\<in>set is. i < length (ag_store ag) \<and> \<not> ct_claimed (ag_store ag ! i)"
  shows "claim_all reason is ag = (rs, ag') \<Longrightarrow>
    rs = map (\<lambda>i. (i, stop_receipt reason (ag_store ag ! i))) is \<and>
    length (ag_store ag') = length (ag_store ag) \<and> ag_controls ag' = ag_controls ag \<and>
    ag_inbox ag' = ag_inbox ag \<and> ag_current ag' = ag_current ag \<and> ag_shutdown ag' = ag_shutdown ag \<and>
    (\<forall>j<length (ag_store ag). ag_store ag' ! j = (if j \<in> set is then stopped (ag_store ag ! j) else ag_store ag ! j))"
  using assms
proof (induction "is" arbitrary: ag rs ag')
  case (Cons i "is")
  let ?ag1 = "upd_control i stopped ag"
  have i: "i < length (ag_store ag)" "\<not> ct_claimed (ag_store ag ! i)" "i \<notin> set is" using Cons.prems by auto
  obtain rs1 where rs1: "claim_all reason is ?ag1 = (rs1, ag')"
    "rs = (i, stop_receipt reason (ag_store ag ! i)) # rs1"
    using Cons.prems(1) i(2)
    by (auto simp: Let_def stop_receipt_def stopped_def [abs_def] split: prod.splits)
  have "\<forall>j\<in>set is. j < length (ag_store ?ag1) \<and> \<not> ct_claimed (ag_store ?ag1 ! j)"
    using Cons.prems(3) i by (auto simp: upd_nth)
  from Cons.IH [OF rs1(1) _ this] Cons.prems(2) i rs1(2) show ?case
    by (auto simp: upd_nth)
qed simp

lemma live_distinct:
  assumes "agent_ok p ag"
  shows "distinct (map snd (ag_controls ag))"
proof -
  have "inj_on snd (set (ag_controls ag))"
  proof (rule inj_onI)
    fix x y assume xy: "x \<in> set (ag_controls ag)" "y \<in> set (ag_controls ag)" "snd x = snd y"
    have k: "ct_correlation_id (ag_store ag ! snd z) = fst z" if "z \<in> set (ag_controls ag)" for z
      using agent_okD(5) [OF assms, of "fst z" "snd z"] that by simp
    have "fst x = fst y" using k [OF xy(1)] k [OF xy(2)] unfolding xy(3) by (rule trans [OF sym])
    then show "x = y" using xy(3) by (rule prod_eqI)
  qed
  moreover have "distinct (ag_controls ag)"
    using agent_okD(4) [OF assms] by (simp add: distinct_map)
  ultimately show ?thesis by (simp add: distinct_map)
qed

lemma cancel_all_facts:
  assumes ok: "agent_ok p ag" and run: "cancel_all_claim reason ag = (rs, had, ag')"
  defines "live \<equiv> set (map snd (ag_controls ag))"
  shows "rs = map (\<lambda>i. (i, stop_receipt reason (ag_store ag ! i))) (map snd (ag_controls ag))"
    and "ag_controls ag' = []" "ag_current ag' = None" "ag_inbox ag' = ag_inbox ag" "ag_shutdown ag' = ag_shutdown ag"
    and "length (ag_store ag') = length (ag_store ag)"
    and "j < length (ag_store ag) \<Longrightarrow> ag_store ag' ! j = (if j \<in> live then stopped (ag_store ag ! j) else ag_store ag ! j)"
    and "j < length (ag_store ag) \<Longrightarrow> j \<in> live \<longleftrightarrow> ct_cancellable (ag_store ag ! j)"
    and "j \<in> live \<Longrightarrow> j < length (ag_store ag)"
proof -
  have each: "i < length (ag_store ag) \<and> \<not> ct_claimed (ag_store ag ! i)" if "i \<in> live" for i
  proof -
    from that obtain k where k: "(k, i) \<in> set (ag_controls ag)" by (auto simp: live_def)
    from agent_okD(5) [OF ok k] have l: "i < length (ag_store ag)" "ct_correlation_id (ag_store ag ! i) = k" by auto
    with k agent_okD(1) [OF ok l(1)] show ?thesis by (auto simp: control_ok_def)
  qed
  obtain rs1 ag1 where c: "claim_all reason (map snd (ag_controls ag)) ag = (rs1, ag1)"
    "rs = rs1" "ag' = ag1\<lparr>ag_controls := [], ag_current := None\<rparr>"
    using run by (auto simp: cancel_all_claim_def split: prod.splits)
  note f = claim_all_result [OF live_distinct [OF ok] _ c(1)]
  have "\<forall>i\<in>set (map snd (ag_controls ag)). i < length (ag_store ag) \<and> \<not> ct_claimed (ag_store ag ! i)"
    using each unfolding live_def by blast
  note f = f [OF this]
  show "rs = map (\<lambda>i. (i, stop_receipt reason (ag_store ag ! i))) (map snd (ag_controls ag))"
    "ag_controls ag' = []" "ag_current ag' = None" "ag_inbox ag' = ag_inbox ag" "ag_shutdown ag' = ag_shutdown ag"
    "length (ag_store ag') = length (ag_store ag)"
    "j < length (ag_store ag) \<Longrightarrow> ag_store ag' ! j = (if j \<in> live then stopped (ag_store ag ! j) else ag_store ag ! j)"
    unfolding c(2,3) live_def using f by simp_all
  show "j < length (ag_store ag)" if "j \<in> live" using each that by blast
  show "j \<in> live \<longleftrightarrow> ct_cancellable (ag_store ag ! j)" if "j < length (ag_store ag)"
  proof -
    have "ct_cancellable (ag_store ag ! j) \<longleftrightarrow> (ct_correlation_id (ag_store ag ! j), j) \<in> set (ag_controls ag)"
      using agent_okD(1) [OF ok that] unfolding control_ok_def by blast
    moreover have "k = ct_correlation_id (ag_store ag ! j)" if "(k, j) \<in> set (ag_controls ag)" for k
      using agent_okD(5) [OF ok that] by simp
    moreover have "j \<in> live \<longleftrightarrow> (\<exists>k. (k, j) \<in> set (ag_controls ag))"
      unfolding live_def by force
    ultimately show ?thesis by blast
  qed
qed

lemma agent_ok_cancel_all:
  assumes ok: "agent_ok p ag" and run: "cancel_all_claim reason ag = (rs, had, ag')"
  shows "agent_ok (rs @ p) ag'"
proof -
  let ?live = "set (map snd (ag_controls ag))"
  note f = cancel_all_facts [OF ok run]
  have fst_rs: "map fst rs = map snd (ag_controls ag)" by (simp add: f(1) o_def)
  then have fsts: "fst ` set rs = ?live" by (metis set_map)
  have fresh: "i \<notin> fst ` set p \<and> ct_future (ag_store ag ! i) = None" if "i \<in> ?live" for i
    using agent_okD(1) [OF ok f(9) [OF that]] f(8) [OF f(9) [OF that]] that by (auto simp: control_ok_def)
  have "control_ok (fst ` set (rs @ p)) (ag_controls ag') j (ag_store ag' ! j)" if j: "j < length (ag_store ag')" for j
  proof (cases "j \<in> ?live")
    case True
    with j fresh [OF True] show ?thesis
      by (simp add: f(2,6,7) control_ok_def stopped_def fsts image_Un)
  next
    case False
    have "j < length (ag_store ag)" using j by (simp add: f(6))
    with False f(7,8) [OF this] have "ag_store ag' ! j = ag_store ag ! j" "\<not> ct_cancellable (ag_store ag ! j)"
      by simp_all
    moreover have "j \<in> fst ` set (rs @ p) \<longleftrightarrow> j \<in> fst ` set p"
      using False by (simp add: image_Un fsts)
    ultimately show ?thesis
      using agent_okD(1) [OF ok \<open>j < length (ag_store ag)\<close>] by (simp add: f(2) control_ok_def)
  qed
  moreover have "distinct (map fst (rs @ p))"
    using live_distinct [OF ok] agent_okD(2) [OF ok] fresh by (auto simp: fst_rs fsts)
  moreover have "i < length (ag_store ag') \<and> fits (ag_store ag' ! i) r" if "(i, r) \<in> set (rs @ p)" for i r
  proof (cases "i \<in> ?live")
    case True
    with fresh [OF True] that have "(i, r) \<in> set rs" by force
    with True f(9) [OF True] show ?thesis
      by (auto simp: f(6,7) f(1) fits_def stopped_def stop_receipt_def)
  next
    case False
    with that fsts have "(i, r) \<in> set p" by force
    with agent_okD(3) [OF ok this] False show ?thesis by (simp add: f(6,7))
  qed
  moreover have "i < length (ag_store ag')" if "m \<in> set (ag_inbox ag')" "m_content m = Envelope i" for m i
    using that agent_okD(6) [OF ok, of m i] by (simp add: f(4,6))
  ultimately show ?thesis unfolding agent_ok_def by (simp add: f(2)) blast
qed

lemma begin_frame:
  "ag_store (snd (begin_turn m ag)) = ag_store ag" "ag_controls (snd (begin_turn m ag)) = ag_controls ag"
  "ag_shutdown (snd (begin_turn m ag)) = ag_shutdown ag"
  by (simp_all add: begin_turn_def Let_def split: option.splits)

text \<open>How the control of a turn changes along a step: what is claimed stays claimed, a set future and an
  accepted cancellation are never undone, and only a rollback or a claim ends a live control.\<close>

definition keeps :: "agent \<Rightarrow> agent \<Rightarrow> nat set \<Rightarrow> bool" where
  "keeps ag ag' dead \<longleftrightarrow> length (ag_store ag) \<le> length (ag_store ag') \<and>
     (\<forall>i<length (ag_store ag).
        (ct_claimed (ag_store ag ! i) \<longrightarrow> ct_claimed (ag_store ag' ! i)) \<and>
        (ct_cancel_requested (ag_store ag ! i) \<longrightarrow> ct_cancel_requested (ag_store ag' ! i)) \<and>
        (\<forall>r. ct_future (ag_store ag ! i) = Some r \<longrightarrow> ct_future (ag_store ag' ! i) = Some r) \<and>
        (i \<notin> dead \<longrightarrow> ct_cancellable (ag_store ag ! i) \<longrightarrow> ct_cancellable (ag_store ag' ! i) \<or> ct_claimed (ag_store ag' ! i)))"

lemma keeps_refl: "ag_store ag' = ag_store ag \<Longrightarrow> keeps ag ag' {}"
  by (simp add: keeps_def)

lemma keeps_upd:
  assumes "i < length (ag_store ag)" "ag_store ag' = (ag_store ag)[i := c']"
    and "ct_claimed (ag_store ag ! i) \<longrightarrow> ct_claimed c'" "ct_cancel_requested (ag_store ag ! i) \<longrightarrow> ct_cancel_requested c'"
    and "\<forall>r. ct_future (ag_store ag ! i) = Some r \<longrightarrow> ct_future c' = Some r"
    and "i \<notin> dead \<longrightarrow> ct_cancellable (ag_store ag ! i) \<longrightarrow> ct_cancellable c' \<or> ct_claimed c'"
  shows "keeps ag ag' dead"
  using assms by (simp add: keeps_def nth_list_update)

lemma keeps_step:
  assumes "sys_ok s" "turn_step s s'"
  shows "keeps (agent s) (agent s') (set (submitting s) - set (submitting s') - set (accepted s'))"
  using assms(2)
proof cases
  case (t_validate mk hex su)
  have "ag_store (snd (submit_validate mk hex su (agent s))) = ag_store (agent s)"
    using validate_frame [of mk hex su "agent s"] by (cases "submit_validate mk hex su (agent s)") auto
  then show ?thesis using t_validate by (simp add: keeps_def)
next
  case (t_register mk hex su ag0 ct ag0' i ag)
  then show ?thesis by (auto simp: keeps_def submit_register_def nth_append split: if_splits)
next
  case (t_enqueue i hex now)
  then show ?thesis by (simp add: keeps_def submit_enqueue_def)
next
  case (t_rollback i)
  with assms(1) have i: "i < length (ag_store (agent s))" by (simp add: sys_ok_def)
  have "i \<notin> set (accepted s)" using t_rollback assms(1) by (auto simp: sys_ok_def)
  with t_rollback i show ?thesis
    by (intro keeps_upd [OF i, where c' = "(ag_store (agent s) ! i)\<lparr>ct_cancellable := False\<rparr>"])
      (auto simp: submit_rollback_def upd_control_def)
next
  case (t_cancel cid)
  show ?thesis
  proof (cases "dget (ag_controls (agent s)) cid")
    case (Some i)
    with assms(1) have i: "i < length (ag_store (agent s))" by (auto simp: sys_ok_def dest: dget_live)
    with t_cancel Some show ?thesis
      by (cases "ct_claimed (ag_store (agent s) ! i)")
        (auto simp: cancel_turn_def Let_def keeps_def upd_nth)
  qed (use t_cancel in \<open>simp add: cancel_turn_def keeps_def\<close>)
next
  case (t_begin m)
  then show ?thesis by (simp add: keeps_def begin_frame)
next
  case (t_claim i out t err errs coop r ag)
  then have "ag_store ag = (ag_store (agent s))[i := (ag_store (agent s) ! i)\<lparr>ct_claimed := True, ct_cancellable := False\<rparr>]"
    by (auto simp: settle_claim_def Let_def upd_control_def split: if_splits)
  with t_claim show ?thesis by (intro keeps_upd [OF t_claim(2)]) auto
next
  case (t_publish i r ag)
  from assms(1) have i: "i < length (ag_store (agent s))"
    using agent_okD(3) [of "publishing s" "agent s" i r] t_publish by (simp add: sys_ok_def)
  from t_publish(3) have "ct_future (ag_store (agent s) ! i) = None"
    "ag_store ag = (ag_store (agent s))[i := (ag_store (agent s) ! i)\<lparr>ct_future := Some r\<rparr>]"
    by (auto simp: publish_def upd_control_def split: option.splits)
  with t_publish show ?thesis by (intro keeps_upd [OF i]) auto
next
  case (t_cancel_all reason rs had ag)
  from assms(1) have ok: "agent_ok (publishing s) (agent s)" by (simp add: sys_ok_def)
  note f = cancel_all_facts [OF ok t_cancel_all(2)]
  show ?thesis using t_cancel_all(1) f(6-8) by (auto simp: keeps_def stopped_def)
qed (simp_all add: keeps_def)

lemma agent_ok_step:
  assumes "sys_ok s" "turn_step s s'"
  shows "agent_ok (publishing s') (agent s')"
proof -
  have ok: "agent_ok (publishing s) (agent s)" using assms(1) by (simp add: sys_ok_def)
  from assms(2) show ?thesis
  proof cases
    case (t_validate mk hex su)
    obtain r ag where v: "submit_validate mk hex su (agent s) = (r, ag)" by fastforce
    have "agent_ok (publishing s) ag"
      by (rule agent_ok_frame [OF ok]) (simp_all add: validate_frame [OF v])
    with t_validate v show ?thesis by simp
  next
    case (t_register mk hex su ag0 ct ag0' i ag)
    with agent_ok_register [OF ok validate_fresh [OF t_register(2)] t_register(3)] show ?thesis by simp
  next
    case (t_enqueue i hex now)
    with assms(1) have "i < length (ag_store (agent s))" by (simp add: sys_ok_def)
    with t_enqueue ok show ?thesis
      by (auto simp: agent_ok_def submit_enqueue_def make_message_def)
  next
    case (t_rollback i)
    with assms(1) have "i < length (ag_store (agent s))" by (simp add: sys_ok_def)
    with t_rollback agent_ok_rollback [OF ok] show ?thesis by simp
  next
    case (t_cancel cid)
    with agent_ok_cancel [OF ok] show ?thesis by simp
  next
    case (t_begin m)
    have "agent_ok (publishing s) ((snd (begin_turn m (agent s)))\<lparr>ag_inbox := remove1 m (ag_inbox (agent s))\<rparr>)"
      by (rule agent_ok_frame [OF ok]) (simp_all add: begin_frame set_remove1_subset)
    with t_begin show ?thesis by simp
  next
    case (t_claim i out t err errs coop r ag)
    with agent_ok_claim [OF ok t_claim(2,3)] show ?thesis by simp
  next
    case (t_publish i r ag)
    with agent_ok_publish [OF ok t_publish(2,3)] show ?thesis by simp
  next
    case (t_cancel_all reason rs had ag)
    have "agent_ok (rs @ publishing s) (if had then ag\<lparr>ag_latch := True\<rparr> else ag)"
      by (rule agent_ok_frame [OF agent_ok_cancel_all [OF ok t_cancel_all(2)]]) simp_all
    with t_cancel_all(1) show ?thesis by simp
  next
    case t_shutdown
    with agent_ok_frame [OF ok, of "(agent s)\<lparr>ag_shutdown := True\<rparr>"] show ?thesis by simp
  next
    case t_clear_latch
    with agent_ok_frame [OF ok, of "(agent s)\<lparr>ag_latch := False\<rparr>"] show ?thesis by simp
  qed
qed

lemma sys_ok_step:
  assumes ok: "sys_ok s" and step: "turn_step s s'"
  shows "sys_ok s'"
proof -
  note k = keeps_step [OF ok step]
  have old: "i < length (ag_store (agent s')) \<and> (ct_claimed (ag_store (agent s') ! i) \<or> ct_cancellable (ag_store (agent s') ! i))"
    if "i \<in> set (submitting s) \<union> set (accepted s)" "i \<in> set (submitting s') \<union> set (accepted s')" for i
  proof -
    have i: "i < length (ag_store (agent s))" "ct_claimed (ag_store (agent s) ! i) \<or> ct_cancellable (ag_store (agent s) ! i)"
      using ok that(1) by (simp_all add: sys_ok_def disj_commute)
    have "i \<notin> set (submitting s) - set (submitting s') - set (accepted s')" using that(2) by blast
    with k i(1) have "ct_claimed (ag_store (agent s) ! i) \<longrightarrow> ct_claimed (ag_store (agent s') ! i)"
      "ct_cancellable (ag_store (agent s) ! i) \<longrightarrow> ct_cancellable (ag_store (agent s') ! i) \<or> ct_claimed (ag_store (agent s') ! i)"
      "length (ag_store (agent s)) \<le> length (ag_store (agent s'))"
      by (simp_all add: keeps_def)
    with i show ?thesis by linarith
  qed
  have sub: "set (submitting s') \<union> set (accepted s') \<subseteq> set (submitting s) \<union> set (accepted s) \<and>
      set (submitting s') \<inter> set (accepted s') = {}
    \<or> (\<exists>i. submitting s' = i # submitting s \<and> accepted s' = accepted s \<and> i = length (ag_store (agent s)) \<and>
         i < length (ag_store (agent s')) \<and> ct_cancellable (ag_store (agent s') ! i))"
    using step
  proof cases
    case (t_register mk hex su ag0 ct ag0' i ag)
    with agent_ok_register [OF _ validate_fresh [OF t_register(2)] t_register(3)] ok
    show ?thesis using validate_fresh [OF t_register(2)] by (auto simp: sys_ok_def)
  next
    case (t_enqueue i hex now)
    then show ?thesis using ok by (auto simp: sys_ok_def)
  qed (use ok in \<open>auto simp: sys_ok_def\<close>)
  then show ?thesis
  proof (elim disjE exE conjE)
    assume "set (submitting s') \<union> set (accepted s') \<subseteq> set (submitting s) \<union> set (accepted s)"
      "set (submitting s') \<inter> set (accepted s') = {}"
    then show ?thesis using agent_ok_step [OF ok step] old unfolding sys_ok_def by blast
  next
    fix i assume i: "submitting s' = i # submitting s" "accepted s' = accepted s" "i = length (ag_store (agent s))"
      "i < length (ag_store (agent s'))" "ct_cancellable (ag_store (agent s') ! i)"
    have "i \<notin> set (accepted s)" using ok i(3) by (auto simp: sys_ok_def)
    with i old agent_ok_step [OF ok step] ok show ?thesis unfolding sys_ok_def by auto
  qed
qed

interpretation turn_system: step_invariant "init_sys policy requires" turn_step sys_ok for policy requires
  by unfold_locales (simp add: sys_ok_def agent_ok_def init_sys_def init_agent_def, rule sys_ok_step)

section \<open>Properties\<close>

lemma reach_sys_ok: "reach s turn_step s' \<Longrightarrow> sys_ok s \<Longrightarrow> sys_ok s'"
  by (induction rule: reach.induct) (auto intro: sys_ok_step)

lemma reach_keeps:
  assumes "reach s turn_step s'" "sys_ok s" "i < length (ag_store (agent s))"
  shows "i < length (ag_store (agent s')) \<and>
    (ct_claimed (ag_store (agent s) ! i) \<longrightarrow> ct_claimed (ag_store (agent s') ! i)) \<and>
    (ct_cancel_requested (ag_store (agent s) ! i) \<longrightarrow> ct_cancel_requested (ag_store (agent s') ! i)) \<and>
    (\<forall>r. ct_future (ag_store (agent s) ! i) = Some r \<longrightarrow> ct_future (ag_store (agent s') ! i) = Some r)"
  using assms
proof (induction rule: reach.induct)
  case (reach_step t t')
  have "keeps (agent t) (agent t') (set (submitting t) - set (submitting t') - set (accepted t'))"
    using keeps_step [OF reach_sys_ok [OF reach_step.hyps(1) reach_step.prems(1)] reach_step.hyps(2)] .
  with reach_step.IH reach_step.prems show ?case unfolding keeps_def by auto
qed simp

text \<open>C4: exactly one receipt. However submissions, cancellations, claims, publications and shutdown are
  interleaved, setting a claimed receipt on its future never fails, the receipt carries the turn's own
  correlation id, and once a turn has a receipt no later step changes it.\<close>

theorem receipt_exactly_once:
  assumes "reach (init_sys policy requires) turn_step s" "reach s turn_step s'"
  shows "(\<forall>(i, r)\<in>set (publishing s). \<exists>ag. publish i r (agent s) = Inr ag) \<and>
    (\<forall>i r. i < length (ag_store (agent s)) \<longrightarrow> ct_future (ag_store (agent s) ! i) = Some r \<longrightarrow>
       ct_future (ag_store (agent s') ! i) = Some r \<and> tu_correlation_id r = ct_correlation_id (ag_store (agent s) ! i))"
proof -
  have sys: "sys_ok s" by (rule turn_system.reach_inv [OF assms(1)])
  then have ok: "agent_ok (publishing s) (agent s)" by (simp add: sys_ok_def)
  have "\<exists>ag. publish i r (agent s) = Inr ag" if "(i, r) \<in> set (publishing s)" for i r
  proof -
    have "i < length (ag_store (agent s))" "i \<in> fst ` set (publishing s)"
      using agent_okD(3) [OF ok that] that by (auto simp: rev_image_eqI)
    with agent_okD(1) [OF ok] have "ct_future (ag_store (agent s) ! i) = None"
      by (cases "ct_future (ag_store (agent s) ! i)") (auto simp: control_ok_def)
    then show ?thesis by (simp add: publish_def)
  qed
  moreover have "ct_future (ag_store (agent s') ! i) = Some r \<and> tu_correlation_id r = ct_correlation_id (ag_store (agent s) ! i)"
    if "i < length (ag_store (agent s))" "ct_future (ag_store (agent s) ! i) = Some r" for i r
    using reach_keeps [OF assms(2) sys that(1)] agent_okD(1) [OF ok that(1)] that(2)
    by (simp add: control_ok_def fits_def)
  ultimately show ?thesis by blast
qed

definition sample_submission :: submission where
  "sample_submission = \<lparr>su_content = PStr ''hello'', su_sender = PStr ''acp'', su_correlation_id = Some (PStr ''t1''),
     su_origin = Some Legacy, su_workspace = None, su_observer = None, su_broker = None\<rparr>"

definition sample_control :: control where
  "sample_control = \<lparr>ct_correlation_id = ''t1'', ct_content = ''hello'', ct_sender = ''acp'', ct_origin = Legacy,
     ct_workspace = None, ct_observer = None, ct_broker = None, ct_cancel_requested = False, ct_future = None,
     ct_cancellable = True, ct_claimed = False\<rparr>"

definition sample_sys :: turn_sys where
  "sample_sys = \<lparr>agent = (init_agent None False)\<lparr>ag_store := [sample_control], ag_controls := [(''t1'', 0)]\<rparr>,
     publishing = [], submitting = [0], accepted = []\<rparr>"

lemma sample_validate: "submit_validate Inr ''00'' sample_submission (init_agent None False)
    = (Inr sample_control, init_agent None False)"
  by (simp add: submit_validate_def sample_submission_def sample_control_def nonempty_str_def port_ok_def
      admit_turn_origin_def init_agent_def)

lemma sample_reach: "reach (init_sys None False) turn_step sample_sys"
proof -
  have "submit_register sample_control (agent (init_sys None False)) = (Inr 0, agent sample_sys)"
    by (simp add: submit_register_def init_sys_def init_agent_def sample_sys_def sample_control_def dhas_def)
  from t_register [OF sample_validate this]
  have "turn_step (init_sys None False) sample_sys"
    by (simp add: init_sys_def sample_sys_def)
  then show ?thesis by (rule reach_step [OF reach_init])
qed

definition sample_claimed :: turn_sys where
  "sample_claimed = sample_sys\<lparr>agent := snd (settle_claim 0 Normal ''bye'' None [] False (agent sample_sys)),
     publishing := [(0, receipt sample_control False Normal ''bye'' None [])]\<rparr>"

lemma sample_claimed_reach: "reach (init_sys None False) turn_step sample_claimed"
proof -
  have "settle_claim 0 Normal ''bye'' None [] False (agent sample_sys) =
      (Some (receipt sample_control False Normal ''bye'' None []), snd (settle_claim 0 Normal ''bye'' None [] False (agent sample_sys)))"
    by (simp add: settle_claim_def sample_sys_def Let_def sample_control_def)
  from t_claim [OF _ this] have "turn_step sample_sys sample_claimed"
    by (simp add: sample_claimed_def sample_sys_def)
  then show ?thesis by (rule reach_step [OF sample_reach])
qed

lemma receipt_exactly_once_witness:
  "\<exists>ag. publish 0 (receipt sample_control False Normal ''bye'' None []) (agent sample_claimed) = Inr ag"
  using receipt_exactly_once [OF sample_claimed_reach reach_init] by (simp add: sample_claimed_def)

text \<open>an accepted cancellation wins. Once a client's cancel was answered with True, whatever the turn
  loop reports later and however the threads interleave, a receipt of that turn says cancelled.\<close>

theorem cancellation_wins:
  assumes "reach (init_sys policy requires) turn_step s" "dget (ag_controls (agent s)) cid = Some i"
    and "cancel_turn cid (agent s) = (True, ag)" "reach (s\<lparr>agent := ag\<rparr>) turn_step s'"
    and "ct_future (ag_store (agent s') ! i) = Some r"
  shows "tu_outcome r = Cancelled"
proof -
  have sys: "sys_ok s" by (rule turn_system.reach_inv [OF assms(1)])
  then have i: "i < length (ag_store (agent s))" using dget_live [OF _ assms(2)] by (auto simp: sys_ok_def)
  have "turn_step s (s\<lparr>agent := ag\<rparr>)" using t_cancel [of s cid] assms(3) by simp
  with sys have ok1: "sys_ok (s\<lparr>agent := ag\<rparr>)" by (rule sys_ok_step)
  have req: "i < length (ag_store ag) \<and> ct_cancel_requested (ag_store ag ! i)"
    using assms(2,3) i by (auto simp: cancel_turn_def Let_def upd_nth split: if_splits)
  then have "i < length (ag_store (agent s'))" "ct_cancel_requested (ag_store (agent s') ! i)"
    using reach_keeps [OF assms(4) ok1, of i] by simp_all
  moreover have "agent_ok (publishing s') (agent s')"
    using reach_sys_ok [OF assms(4) ok1] by (simp add: sys_ok_def)
  ultimately show ?thesis using agent_okD(1) [of "publishing s'" "agent s'" i] assms(5)
    by (simp add: control_ok_def fits_def)
qed

definition sample_cancelled :: turn_sys where
  "sample_cancelled = sample_sys\<lparr>agent := snd (cancel_turn ''t1'' (agent sample_sys))\<rparr>"

definition cancelled_receipt :: turn_result where
  "cancelled_receipt = receipt (ag_store (agent sample_cancelled) ! 0) False Normal ''bye'' None []"

definition sample_published :: turn_sys where
  "sample_published = sample_cancelled\<lparr>
     agent := upd_control 0 (\<lambda>c. c\<lparr>ct_future := Some cancelled_receipt\<rparr>)
       (snd (settle_claim 0 Normal ''bye'' None [] False (agent sample_cancelled))),
     publishing := []\<rparr>"

lemma cancellation_wins_witness: "tu_outcome cancelled_receipt = Cancelled"
proof -
  have c: "dget (ag_controls (agent sample_sys)) ''t1'' = Some 0"
    "cancel_turn ''t1'' (agent sample_sys) = (True, agent sample_cancelled)"
    by (simp_all add: sample_sys_def cancel_turn_def sample_control_def Let_def sample_cancelled_def init_agent_def)
  have cl: "settle_claim 0 Normal ''bye'' None [] False (agent sample_cancelled) =
      (Some cancelled_receipt, snd (settle_claim 0 Normal ''bye'' None [] False (agent sample_cancelled)))"
    by (simp add: settle_claim_def Let_def sample_cancelled_def sample_sys_def cancel_turn_def sample_control_def
        upd_control_def init_agent_def cancelled_receipt_def)
  let ?s = "sample_cancelled\<lparr>agent := snd (settle_claim 0 Normal ''bye'' None [] False (agent sample_cancelled)),
     publishing := [(0, cancelled_receipt)]\<rparr>"
  have st: "length (ag_store (agent sample_cancelled)) = 1" "publishing sample_cancelled = []"
    by (simp_all add: sample_cancelled_def sample_sys_def cancel_turn_def sample_control_def Let_def upd_control_def init_agent_def)
  from t_claim [OF _ cl] st have "turn_step sample_cancelled ?s" by simp
  moreover have "publish 0 cancelled_receipt (agent ?s) = Inr (agent sample_published)"
    by (simp add: publish_def sample_published_def settle_claim_def Let_def sample_cancelled_def sample_sys_def
        cancel_turn_def sample_control_def upd_control_def init_agent_def pop_control_def)
  from t_publish [OF _ this] have "turn_step ?s sample_published"
    by (simp add: sample_published_def)
  ultimately have "reach sample_cancelled turn_step sample_published"
    by (blast intro: reach.intros)
  moreover have "sample_sys\<lparr>agent := agent sample_cancelled\<rparr> = sample_cancelled"
    by (simp add: sample_cancelled_def)
  moreover have "ct_future (ag_store (agent sample_published) ! 0) = Some cancelled_receipt"
    using st by (simp add: sample_published_def upd_control_def settle_claim_def Let_def pop_control_def)
  ultimately show ?thesis using cancellation_wins [OF sample_reach c(1,2)] by simp
qed

lemma submit_register_fails: "ag_shutdown ag \<Longrightarrow> submit_register ct ag \<noteq> (Inr i, ag')"
  by (simp add: submit_register_def)

lemma pop_Nil: "ag_controls ag = [] \<Longrightarrow> ag_controls (pop_control i ag) = []"
  by (simp add: pop_control_def Let_def dpop_def)

lemma drained_step:
  assumes "sys_ok s" "turn_step s s'" "ag_shutdown (agent s)" "ag_controls (agent s) = []"
  shows "ag_shutdown (agent s') \<and> ag_controls (agent s') = []"
  using assms(2)
proof cases
  case (t_validate mk hex su)
  obtain r ag where v: "submit_validate mk hex su (agent s) = (r, ag)" by fastforce
  with t_validate assms(3,4) validate_frame [OF v] show ?thesis by simp
next
  case (t_register mk hex su ag0 ct ag0' i ag)
  with submit_register_fails [OF assms(3)] show ?thesis by metis
next
  case (t_enqueue i hex now)
  with assms show ?thesis by (simp add: submit_enqueue_def)
next
  case (t_rollback i)
  with assms show ?thesis by (simp add: submit_rollback_def pop_Nil)
next
  case (t_cancel cid)
  with assms show ?thesis by (simp add: cancel_turn_def)
next
  case (t_begin m)
  with assms show ?thesis by (simp add: begin_frame)
next
  case (t_claim i out t err errs coop r ag)
  then have "ag_controls ag = []" "ag_shutdown ag = ag_shutdown (agent s)"
    using assms(4) by (auto simp: settle_claim_def Let_def pop_Nil split: if_splits)
  with t_claim assms(3) show ?thesis by simp
next
  case (t_publish i r ag)
  with assms show ?thesis by (auto simp: publish_def split: option.splits)
next
  case (t_cancel_all reason rs had ag)
  from assms(1) have ok: "agent_ok (publishing s) (agent s)" by (simp add: sys_ok_def)
  from cancel_all_facts(2,5) [OF ok t_cancel_all(2)] t_cancel_all(1) assms(3) show ?thesis by simp
qed (use assms in simp_all)

text \<open>C31: no accepted turn is lost at shutdown. Once stop has set the shutdown flag and settled the live turns,
  no new turn can ever be registered, and in every later state each turn whose handle a caller holds, or
  that was registered and not yet published to the inbox, has its terminal receipt claimed.\<close>

theorem stop_settles_all:
  assumes "reach (init_sys policy requires) turn_step s" "ag_shutdown (agent s)"
    and "cancel_all_claim reason (agent s) = (rs, had, ag)"
    and "reach (s\<lparr>agent := (if had then ag\<lparr>ag_latch := True\<rparr> else ag), publishing := rs @ publishing s\<rparr>) turn_step s'"
  shows "ag_controls (agent s') = [] \<and>
    (\<forall>i\<in>set (accepted s') \<union> set (submitting s'). ct_claimed (ag_store (agent s') ! i))"
proof -
  let ?s1 = "s\<lparr>agent := (if had then ag\<lparr>ag_latch := True\<rparr> else ag), publishing := rs @ publishing s\<rparr>"
  have sys: "sys_ok s" by (rule turn_system.reach_inv [OF assms(1)])
  then have ok: "agent_ok (publishing s) (agent s)" by (simp add: sys_ok_def)
  have ok1: "sys_ok ?s1" by (rule sys_ok_step [OF sys t_cancel_all [OF assms(3)]])
  have "ag_shutdown (agent ?s1)" "ag_controls (agent ?s1) = []"
    using cancel_all_facts(2,5) [OF ok assms(3)] assms(2) by simp_all
  with assms(4) have "ag_shutdown (agent s') \<and> ag_controls (agent s') = []"
    by (induction rule: reach.induct) (use ok1 reach_sys_ok drained_step in blast)+
  moreover have ok': "sys_ok s'" by (rule reach_sys_ok [OF assms(4) ok1])
  moreover have "\<not> ct_cancellable (ag_store (agent s') ! i)" if "i \<in> set (accepted s') \<union> set (submitting s')" for i
    using calculation that agent_okD(1) [of "publishing s'" "agent s'" i]
    by (auto simp: sys_ok_def control_ok_def)
  ultimately show ?thesis unfolding sys_ok_def by blast
qed

lemma stop_settles_all_witness:
  "ct_claimed (ag_store (snd (snd (cancel_all_claim ''stop'' ((agent sample_sys)\<lparr>ag_shutdown := True\<rparr>)))) ! 0)"
proof -
  let ?s = "sample_sys\<lparr>agent := (agent sample_sys)\<lparr>ag_shutdown := True\<rparr>\<rparr>"
  have r: "reach (init_sys None False) turn_step ?s"
    by (rule reach_step [OF sample_reach t_shutdown])
  obtain rs had ag where c: "cancel_all_claim ''stop'' (agent ?s) = (rs, had, ag)" by (metis prod_cases3)
  have "0 \<in> set (submitting ?s)" by (simp add: sample_sys_def)
  with stop_settles_all [OF r _ c reach_init] c show ?thesis by (auto split: if_splits)
qed

lemma check_decision_origin: "ad_origin (check_decision origin raw) = origin"
  by (auto simp: check_decision_def denial_def split: raw_decision.splits py.splits)

lemma check_decision_allowed:
  "ad_allowed (check_decision origin raw) \<Longrightarrow>
   \<exists>v r. raw = Raw_Decision True origin (PStr v) (PStr r) \<and> v \<noteq> [] \<and> r \<noteq> []"
  by (auto simp: check_decision_def denial_def split: raw_decision.splits py.splits if_splits)

text \<open>origin admission fails closed. A turn is admitted only when no policy is set and none is required, or
  the installed policy answered with a well-formed decision for that very origin that allows it; a missing
  required policy, a raising policy and a malformed or mismatched answer all end in a permission error that
  is logged.\<close>

theorem admission_fails_closed:
  shows "case admit_turn_origin origin ag of
     (Inr d, ag') \<Rightarrow> ag' = ag \<and> ad_allowed d \<and> ad_origin d = origin \<and>
       ((ag_policy ag = None \<and> \<not> ag_requires_policy ag) \<or>
        (\<exists>policy v r. ag_policy ag = Some policy \<and> policy origin = Inr (Raw_Decision True origin (PStr v) (PStr r)) \<and>
           v \<noteq> [] \<and> r \<noteq> []))
   | (Inl e, ag') \<Rightarrow> (\<exists>d. ag' = ag\<lparr>ag_log := ag_log ag @ [d]\<rparr> \<and> \<not> ad_allowed d \<and> ad_origin d = origin \<and>
       e = PermissionError (''turn origin rejected: '' @ ad_reason_code d))"
proof (cases "ag_policy ag")
  case None
  then show ?thesis by (auto simp: admit_turn_origin_def reject_def denial_def)
next
  case (Some policy)
  define d where "d = (case policy origin of Inl _ \<Rightarrow> denial origin ''policy-error'' ''policy_error''
                      | Inr raw \<Rightarrow> check_decision origin raw)"
  have o: "ad_origin d = origin"
    by (simp add: d_def denial_def check_decision_origin split: sum.splits)
  have run: "admit_turn_origin origin ag = (if ad_allowed d then (Inr d, ag) else reject d ag)"
    by (simp add: admit_turn_origin_def Some d_def Let_def)
  show ?thesis
  proof (cases "ad_allowed d")
    case True
    then obtain raw where "policy origin = Inr raw" "ad_allowed (check_decision origin raw)"
      by (auto simp: d_def denial_def split: sum.splits)
    with check_decision_allowed [of origin raw] True o Some show ?thesis by (auto simp: run)
  next
    case False
    with o show ?thesis by (auto simp: run reject_def)
  qed
qed

end
