(* ===== verification/Risk_Classifier.thy ===== *)
theory Risk_Classifier
  imports Prelude
begin

text \<open>
  The read-only classifier of shell commands in \<^verbatim>\<open>kernel/risky_action_gate.py\<close>: its tables, the
  splitting of a command into segments (with the standard library's \<^verbatim>\<open>shlex.split\<close> in POSIX mode), and
  the per-verb and git checks. A result of \<^verbatim>\<open>None\<close> means the command was classified read-only, \<^verbatim>\<open>Some\<close>
  carries the reason it was not.
\<close>

section \<open>Tables\<close>

definition DESTRUCTIVE_VERBS :: "string list" where
  "DESTRUCTIVE_VERBS = [
     ''rm'', ''rmdir'', ''unlink'', ''shred'', ''truncate'']"

definition DESTINATION_VERBS :: "string list" where
  "DESTINATION_VERBS = [
     ''mv'', ''cp'', ''install'', ''rsync'']"

definition READ_ONLY_VERBS :: "string list" where
  "READ_ONLY_VERBS = [
     ''cat'', ''cut'', ''echo'', ''env'', ''head'', ''jq'', ''ls'', ''pwd'', ''printf'', ''rg'',
     ''sort'', ''tail'', ''true'', ''type'', ''uname'', ''wc'', ''which'']"

definition READ_ONLY_WRITE_FLAGS :: "string list" where
  "READ_ONLY_WRITE_FLAGS = [
     ''-o'', ''--output'', ''-O'', ''--outfile'', ''-i'', ''--in-place'']"

definition READ_ONLY_VERB_LONG_OPTIONS :: "(string \<times> string list) list" where
  "READ_ONLY_VERB_LONG_OPTIONS =
     [
      (''cat'', [
        ''--number'', ''--number-nonblank'', ''--show-all'', ''--show-ends'', ''--show-tabs'',
        ''--show-nonprinting'', ''--squeeze-blank'']),
      (''cut'', [
        ''--bytes'', ''--characters'', ''--delimiter'', ''--fields'', ''--only-delimited'',
        ''--zero-terminated'']),
      (''echo'', []),
      (''env'', [''--chdir'', ''--unset'', ''--null'', ''--ignore-signal'']),
      (''head'', [''--bytes'', ''--lines'', ''--quiet'', ''--verbose'', ''--zero-terminated'']),
      (''jq'', [
        ''--compact-output'', ''--raw-output'', ''--null-input'', ''--exit-status'', ''--slurp'',
        ''--raw-input'', ''--sort-keys'', ''--color-output'', ''--monochrome-output'',
        ''--join-output'', ''--ascii-output'', ''--from-file'', ''--arg'', ''--argjson'',
        ''--slurpfile'', ''--rawfile'', ''--args'', ''--jsonargs'', ''--seq'', ''--stream'',
        ''--indent'', ''--tab'', ''--unbuffered'']),
      (''ls'', [
        ''--all'', ''--almost-all'', ''--author'', ''--block-size'', ''--classify'', ''--color'',
        ''--directory'', ''--dereference-command-line'', ''--file-type'', ''--format'',
        ''--full-time'', ''--group-directories-first'', ''--hide'', ''--human-readable'',
        ''--ignore'', ''--inode'', ''--literal'', ''--no-group'', ''--no-owner'',
        ''--numeric-uid-gid'', ''--quote-name'', ''--recursive'', ''--reverse'', ''--size'',
        ''--sort'', ''--time'', ''--time-style'', ''--zero'']),
      (''pwd'', [''--logical'', ''--physical'']),
      (''printf'', []),
      (''rg'', [
        ''--text'', ''--ignore-case'', ''--line-number'', ''--files-with-matches'', ''--count'',
        ''--invert-match'', ''--word-regexp'', ''--line-regexp'', ''--regexp'', ''--file'',
        ''--glob'', ''--iglob'', ''--type'', ''--type-not'', ''--max-count'', ''--context'',
        ''--after-context'', ''--before-context'', ''--multiline'', ''--pcre2'', ''--smart-case'',
        ''--no-config'', ''--no-ignore'', ''--hidden'', ''--no-messages'', ''--column'',
        ''--heading'', ''--follow'', ''--no-line-number'', ''--only-matching'',
        ''--case-sensitive'', ''--files'', ''--no-filename'', ''--with-filename'', ''--json'',
        ''--null'', ''--max-columns'', ''--max-columns-preview'', ''--colors'', ''--color'',
        ''--encoding'', ''--path-separator'', ''--sort'', ''--type-add'', ''--type-clear'']),
      (''sort'', [
        ''--check'', ''--dictionary-order'', ''--field-separator'', ''--ignore-case'', ''--key'',
        ''--numeric-sort'', ''--reverse'', ''--stable'', ''--unique'', ''--version-sort'',
        ''--human-numeric-sort'', ''--general-numeric-sort'', ''--month-sort'', ''--random-sort'',
        ''--zero-terminated'', ''--ignore-leading-blanks'', ''--ignore-nonprinting'',
        ''--random-source'', ''--parallel'', ''--batch-size'']),
      (''tail'', [
        ''--bytes'', ''--follow'', ''--lines'', ''--quiet'', ''--retry'', ''--sleep-interval'',
        ''--verbose'']),
      (''true'', []),
      (''type'', []),
      (''uname'', [
        ''--all'', ''--kernel-name'', ''--nodename'', ''--kernel-release'', ''--kernel-version'',
        ''--machine'', ''--processor'', ''--hardware-platform'', ''--operating-system'']),
      (''wc'', [''--bytes'', ''--chars'', ''--lines'', ''--max-line-length'', ''--words'']),
      (''which'', [''--all'', ''--read-alias'', ''--skip-alias'', ''--skip-dot'', ''--skip-tilde''])]"

definition READ_ONLY_VERB_SHORT_OPTIONS :: "(string \<times> char list) list" where
  "READ_ONLY_VERB_SHORT_OPTIONS =
     [
      (''cat'', ''AbeEnstTuv''),
      (''cut'', ''bcdfszn''),
      (''echo'', ''neE''),
      (''env'', ''i0C''),
      (''head'', ''ncqvz''),
      (''jq'', ''crnesRSCMjaou''),
      (''ls'', ''aAbcCdfFgGhHiklLmnNpqQrRsStTuUvwxXZ1''),
      (''pwd'', ''LP''),
      (''printf'', []),
      (''rg'', ''ainlcvwxUPSHoNLMIsj0''),
      (''sort'', ''bcdfghimMnrRsuVzC''),
      (''tail'', ''ncfFqsvrz''),
      (''true'', []),
      (''type'', ''apPt''),
      (''uname'', ''asnrvmpio''),
      (''wc'', ''clmwL''),
      (''which'', ''asp'')]"

definition READ_ONLY_VERB_VALUE_SHORTS :: "(string \<times> char list) list" where
  "READ_ONLY_VERB_VALUE_SHORTS =
     [
      (''cat'', []),
      (''cut'', ''bcdf''),
      (''echo'', []),
      (''env'', ''uC''),
      (''head'', ''nc''),
      (''jq'', ''fL''),
      (''ls'', ''ITw''),
      (''pwd'', []),
      (''printf'', []),
      (''rg'', ''efgtTmABC''),
      (''sort'', ''kt''),
      (''tail'', ''ncs''),
      (''true'', []),
      (''type'', []),
      (''uname'', []),
      (''wc'', []),
      (''which'', [])]"

definition GIT_EXTERNAL_EXEC_OPTIONS :: "string list" where
  "GIT_EXTERNAL_EXEC_OPTIONS = [
     ''--ext-diff'', ''--textconv'', ''--show-signature'']"

definition GIT_TEXT_CONV_SUBCOMMANDS :: "string list" where
  "GIT_TEXT_CONV_SUBCOMMANDS = [
     ''diff'', ''log'', ''show'']"

definition GIT_QUERY_LONG_OPTIONS :: "string list" where
  "GIT_QUERY_LONG_OPTIONS = [
     ''--no-textconv'', ''--no-ext-diff'', ''--name-only'', ''--name-status'', ''--stat'',
     ''--numstat'', ''--shortstat'', ''--dirstat'', ''--dirstat-by-file'', ''--summary'',
     ''--patch'', ''--raw'', ''--patch-with-stat'', ''--patch-with-raw'', ''--no-color'',
     ''--color'', ''--color-moved'', ''--color-moved-ws'', ''--no-color-moved'', ''--exit-code'',
     ''--quiet'', ''--no-prefix'', ''--src-prefix'', ''--dst-prefix'', ''--line-prefix'',
     ''--relative'', ''--unified'', ''--inter-hunk-context'', ''--function-context'',
     ''--minimal'', ''--patience'', ''--histogram'', ''--anchored'', ''--indent-heuristic'',
     ''--no-indent-heuristic'', ''--ignore-space-at-eol'', ''--ignore-space-change'',
     ''--ignore-all-space'', ''--ignore-blank-lines'', ''--ignore-cr-at-eol'',
     ''--ignore-matching-lines'', ''--break-rewrites'', ''--irreversible-delete'',
     ''--find-renames'', ''--no-renames'', ''--find-copies'', ''--find-copies-harder'',
     ''--rename-empty'', ''--no-rename-empty'', ''--find-object'', ''--diff-filter'',
     ''--diff-algorithm'', ''--word-diff'', ''--word-diff-regex'', ''--color-words'',
     ''--ws-error-highlight'', ''--no-expand-tabs'', ''--expand-tabs'', ''--submodule'',
     ''--full-index'', ''--binary'', ''--abbrev-commit'', ''--no-abbrev-commit'',
     ''--output-indicator-new'', ''--output-indicator-old'', ''--output-indicator-context'',
     ''--format'', ''--pretty'', ''--oneline'', ''--graph'', ''--decorate'', ''--no-decorate'',
     ''--abbrev'', ''--no-abbrev'', ''--date'', ''--all'', ''--branches'', ''--tags'',
     ''--remotes'', ''--glob'', ''--exclude'', ''--reflog'', ''--not'', ''--first-parent'',
     ''--merges'', ''--no-merges'', ''--min-parents'', ''--max-parents'', ''--reverse'',
     ''--topo-order'', ''--date-order'', ''--author-date-order'', ''--since'', ''--until'',
     ''--after'', ''--before'', ''--author'', ''--committer'', ''--grep'', ''--all-match'',
     ''--invert-grep'', ''--regexp-ignore-case'', ''--extended-regexp'', ''--fixed-strings'',
     ''--pickaxe-all'', ''--pickaxe-regex'', ''--max-count'', ''--skip'', ''--count'',
     ''--follow'', ''--full-history'', ''--simplify-merges'', ''--simplify-by-decoration'',
     ''--dense'', ''--sparse'', ''--ancestry-path'', ''--left-right'', ''--left-only'',
     ''--right-only'', ''--cherry-pick'', ''--cherry'', ''--boundary'', ''--use-mailmap'',
     ''--no-mailmap'']"

definition GIT_QUERY_SHORT_OPTIONS :: "char list" where
  "GIT_QUERY_SHORT_OPTIONS = ''pqbwiEFMCB0123456789''"

definition GIT_QUERY_VALUE_SHORTS :: "char list" where
  "GIT_QUERY_VALUE_SHORTS = ''nUGSL''"

definition READ_ONLY_GIT_SUBCOMMANDS :: "string list" where
  "READ_ONLY_GIT_SUBCOMMANDS = [
     ''branch'', ''diff'', ''log'', ''ls-files'', ''remote'', ''show'', ''status'', ''tag'']"

definition GIT_LIST_ONLY_SUBCOMMANDS :: "string list" where
  "GIT_LIST_ONLY_SUBCOMMANDS = [
     ''branch'', ''remote'', ''tag'']"

definition WRAPPERS :: "string list" where
  "WRAPPERS = [
     ''command'', ''env'', ''exec'', ''nohup'', ''sudo'', ''time'', ''doas'']"

definition ENV_EXECUTION_REDIRECT_KEYS :: "string list" where
  "ENV_EXECUTION_REDIRECT_KEYS = [
     ''PATH'', ''ENV'', ''BASH_ENV'', ''LD_PRELOAD'', ''LD_LIBRARY_PATH'',
     ''DYLD_INSERT_LIBRARIES'', ''PYTHONPATH'', ''PYTHONSTARTUP'', ''PERL5LIB'', ''RUBYLIB'',
     ''NODE_PATH'', ''GEM_HOME'', ''GEM_PATH'', ''GIT_EXTERNAL_DIFF'', ''GIT_PAGER'',
     ''GIT_EDITOR'', ''GIT_SEQUENCE_EDITOR'', ''GIT_SSH_COMMAND'', ''GIT_SSH'', ''GIT_TRACE'',
     ''GIT_TRACE2'', ''GIT_CONFIG'', ''GIT_CONFIG_COUNT'', ''GIT_CONFIG_GLOBAL'',
     ''GIT_CONFIG_SYSTEM'', ''GIT_CONFIG_NOSYSTEM'']"

definition ENV_EXECUTION_REDIRECT_KEY_PREFIXES :: "string list" where
  "ENV_EXECUTION_REDIRECT_KEY_PREFIXES = [
     ''GIT_CONFIG_KEY_'', ''GIT_CONFIG_VALUE_'', ''GIT_TRACE_'', ''GIT_TRACE2_'']"

definition INTERPRETERS :: "string list" where
  "INTERPRETERS = [
     ''bash'', ''fish'', ''node'', ''perl'', ''python'', ''python2'', ''python3'', ''ruby'',
     ''sh'', ''zsh'']"

definition CHAIN_SEPARATORS :: "string list" where
  "CHAIN_SEPARATORS = [
     ''&&'', ''||'', '';'', ''|'', nl, ''>>'', ''>'', ''<<'', ''<'', ''|&'']"

definition GIT_LIST_ONLY_READ_ONLY_OPTIONS :: "(string \<times> string list) list" where
  "GIT_LIST_ONLY_READ_ONLY_OPTIONS =
     [
      (''branch'', [
        ''--list'', ''-l'', ''--all'', ''-a'', ''--remotes'', ''-r'', ''--verbose'', ''-v'',
        ''--no-color'', ''--color'', ''--format'', ''--contains'', ''--merged'', ''--no-merged'',
        ''--points-at'', ''--show-current'', ''--quiet'', ''-q'', ''--column'', ''--no-column'',
        ''--abbrev'', ''--no-abbrev'']),
      (''tag'', [
        ''--list'', ''-l'', ''--sort'', ''--format'', ''--color'', ''--no-color'', ''--contains'',
        ''--merged'', ''--no-merged'', ''--points-at'', ''--column'', ''--no-column'',
        ''--verify'', ''-v'']),
      (''remote'', [''--verbose'', ''-v'', ''-n''])]"

definition GIT_REMOTE_READ_ONLY_SUBCOMMANDS :: "string list" where
  "GIT_REMOTE_READ_ONLY_SUBCOMMANDS = [
     ''get-url'', ''show'']"

definition GIT_SAFE_GLOBAL_OPTIONS :: "string list" where
  "GIT_SAFE_GLOBAL_OPTIONS = [
     ''--no-pager'', ''-P'', ''--paginate'', ''-p'', ''--no-optional-locks'',
     ''--literal-pathspecs'', ''--glob-pathspecs'', ''--noglob-pathspecs'', ''--icase-pathspecs'',
     ''--no-replace-objects'']"

definition GIT_FSMONITOR_DISABLE :: string where
  "GIT_FSMONITOR_DISABLE = ''core.fsmonitor=false''"

section \<open>Splitting a command\<close>

text \<open>
  \<^verbatim>\<open>shlex.split(s, posix=True)\<close>: between words, inside a word, inside quotes, or after a backslash (in a
  word, or inside double quotes). The flag says that the word so far had a quoted part.
\<close>

datatype lex_state = Gap | Word | Quoted char | Escaped "char option"

definition is_lex_space :: "char \<Rightarrow> bool" where
  "is_lex_space c \<longleftrightarrow> c \<in> set [CHR '' '', CHR 0x09, CHR 0x0D, CHR 0x0A]"

definition is_quote :: "char \<Rightarrow> bool" where
  "is_quote c \<longleftrightarrow> c = squote \<or> c = dquote"

fun lex :: "lex_state \<Rightarrow> string \<Rightarrow> bool \<Rightarrow> string \<Rightarrow> exc + string list" where
  "lex Gap tok q [] = Inr []"
| "lex Gap tok q (c # cs) =
     (if is_lex_space c then lex Gap [] False cs
      else if c = backslash then lex (Escaped None) [] False cs
      else if is_quote c then lex (Quoted c) [] False cs
      else lex Word [c] False cs)"
| "lex (Quoted k) tok q [] = Inl (ValueError ''No closing quotation'')"
| "lex (Quoted k) tok q (c # cs) =
     (if c = k then lex Word tok True cs
      else if c = backslash \<and> k = dquote then lex (Escaped (Some k)) tok True cs
      else lex (Quoted k) (tok @ [c]) True cs)"
| "lex (Escaped e) tok q [] = Inl (ValueError ''No escaped character'')"
| "lex (Escaped e) tok q (c # cs) =
     (case e of
        None \<Rightarrow> lex Word (tok @ [c]) q cs
      | Some k \<Rightarrow> lex (Quoted k) (tok @ (if c \<noteq> backslash \<and> c \<noteq> k then [backslash] else []) @ [c]) q cs)"
| "lex Word tok q [] = Inr (if tok \<noteq> [] \<or> q then [tok] else [])"
| "lex Word tok q (c # cs) =
     (if is_lex_space c then
        (if tok \<noteq> [] \<or> q then ebind (lex Gap [] False cs) (\<lambda>ts. Inr (tok # ts)) else lex Gap [] q cs)
      else if is_quote c then lex (Quoted c) tok q cs
      else if c = backslash then lex (Escaped None) tok q cs
      else lex Word (tok @ [c]) q cs)"

definition shlex_split :: "string \<Rightarrow> exc + string list" where
  "shlex_split s = lex Gap [] False s"

definition token_is_ambiguous :: "string \<Rightarrow> bool" where
  "token_is_ambiguous t \<longleftrightarrow>
     list_ex (\<lambda>c. c \<in> set t) [CHR ''*'', CHR ''?'', CHR ''$'', CHR 0x60] \<or>
     (CHR ''['' \<in> set t \<and> CHR '']'' \<in> set t)"

definition raw_segments :: "string \<Rightarrow> string list" where
  "raw_segments command = fold (\<lambda>sep segs. concat (map (split_on sep) segs)) CHAIN_SEPARATORS [command]"

definition command_segments :: "string \<Rightarrow> string list list" where
  "command_segments command =
     (case emap shlex_split (raw_segments command) of
        Inl _ \<Rightarrow> []
      | Inr ts \<Rightarrow> filter (\<lambda>t. t \<noteq> []) ts)"

text \<open>\<^verbatim>\<open>_unwrap\<close>: \<^verbatim>\<open>None\<close> when an \<^verbatim>\<open>env\<close> assignment redirects execution.\<close>

definition redirects_execution :: "string \<Rightarrow> bool" where
  "redirects_execution key \<longleftrightarrow>
     key \<in> set ENV_EXECUTION_REDIRECT_KEYS \<or> list_ex (startswith key) ENV_EXECUTION_REDIRECT_KEY_PREFIXES"

fun skip_assignments :: "string list \<Rightarrow> string list option" where
  "skip_assignments [] = Some []"
| "skip_assignments (t # ts) =
     (if CHR ''='' \<in> set t \<and> \<not> startswith t ''='' then
        (if redirects_execution (before_char (CHR ''='') t) then None else skip_assignments ts)
      else Some (t # ts))"

lemma skip_assignments_length: "skip_assignments ts = Some us \<Longrightarrow> length us \<le> length ts"
  by (induction ts) (auto split: if_splits)

function unwrap :: "string list \<Rightarrow> string list option" where
  "unwrap [] = Some []"
| "unwrap (t # ts) =
     (if t \<in> set WRAPPERS then
        (if t = ''env'' then (case skip_assignments ts of None \<Rightarrow> None | Some us \<Rightarrow> unwrap us)
         else unwrap ts)
      else Some (t # ts))"
  by pat_completeness auto
termination
  by (relation "measure length") (auto dest: skip_assignments_length simp: less_Suc_eq_le)

section \<open>Option checks\<close>

definition is_write_destination_flag :: "string \<Rightarrow> bool" where
  "is_write_destination_flag t \<longleftrightarrow>
     t \<in> set READ_ONLY_WRITE_FLAGS \<or>
     list_ex (startswith t) [''--output='', ''--outfile='', ''--in-place=''] \<or>
     (length t > 2 \<and> list_ex (startswith t) [''-o'', ''-O'', ''-i''])"

definition option_name :: "string \<Rightarrow> string" where
  "option_name t = before_char (CHR ''='') t"

fun read_only_options :: "string \<Rightarrow> bool \<Rightarrow> string list \<Rightarrow> string option" where
  "read_only_options verb after [] = None"
| "read_only_options verb after (t # ts) =
     (let longs = dgetd READ_ONLY_VERB_LONG_OPTIONS verb [];
          shorts = dgetd READ_ONLY_VERB_SHORT_OPTIONS verb [];
          value_shorts = dgetd READ_ONLY_VERB_VALUE_SHORTS verb [];
          bad = Some (''read-only verb '' @ verb @ '' carries an unknown option: '' @ t)
      in if t = ''--'' then read_only_options verb True ts
         else if after \<or> t = ''-'' \<or> \<not> startswith t ''-'' then read_only_options verb after ts
         else if startswith t ''--'' then
           (if option_name t \<in> set longs then read_only_options verb after ts else bad)
         else if length t = 2 \<and> t ! 1 \<in> set shorts then read_only_options verb after ts
         else if t ! 1 \<in> set value_shorts then read_only_options verb after ts
         else if list_all (\<lambda>c. c \<in> set shorts) (tl t) then read_only_options verb after ts
         else bad)"

definition read_only_option_reason :: "string \<Rightarrow> string list \<Rightarrow> string option" where
  "read_only_option_reason verb tokens = read_only_options verb False (tl tokens)"

definition git_list_only_risk :: "string \<Rightarrow> string list \<Rightarrow> string option" where
  "git_list_only_risk subcommand rest =
     (let positionals = filter (\<lambda>t. \<not> startswith t ''-'') rest;
          options = filter (\<lambda>t. startswith t ''-'') rest;
          allowed = dgetd GIT_LIST_ONLY_READ_ONLY_OPTIONS subcommand []
      in case find (\<lambda>t. option_name t \<notin> set allowed) options of
           Some t \<Rightarrow> Some (''git '' @ subcommand @ '' option '' @ t @ '' is not a read-only form'')
         | None \<Rightarrow>
             if subcommand = ''remote'' then
               (case positionals of
                  [] \<Rightarrow> None
                | p # _ \<Rightarrow>
                    if p \<notin> set GIT_REMOTE_READ_ONLY_SUBCOMMANDS then
                      Some (''git remote subcommand '' @ p @ '' is not read-only'')
                    else if p = ''show'' \<and> ''-n'' \<notin> set options then
                      Some ''git remote show may query a remote transport/helper; require -n''
                    else None)
             else if length positionals > 1 then
               Some (''git '' @ subcommand @ '' with multiple positional arguments is not read-only'')
             else if positionals \<noteq> [] \<and> ''--list'' \<notin> set options then
               Some (''git '' @ subcommand @ '' with a positional argument is not read-only'')
             else None)"

section \<open>Git\<close>

text \<open>One config override at the head of the arguments: the verdict and what follows it.\<close>

definition consume_config_override :: "string \<Rightarrow> string list \<Rightarrow> string option \<times> string list" where
  "consume_config_override t rest =
     (if t = ''--config'' \<or> startswith t ''--config='' \<or> t = ''--config-env'' \<or> startswith t ''--config-env='' then
        (Some ''git --config/--config-env override can execute an external helper'', rest)
      else if t = ''-c'' then
        (case rest of
           [] \<Rightarrow> (Some ''git -c requires a value'', [])
         | v # rest' \<Rightarrow>
             (Some (if v \<noteq> GIT_FSMONITOR_DISABLE
                    then ''git -c config override '' @ str_repr v @ '' can execute an external helper''
                    else GIT_FSMONITOR_DISABLE), rest'))
      else if startswith t ''-c'' \<and> \<not> startswith t ''-C'' \<and> \<not> startswith t ''--'' then
        (let v = drop 2 t
         in (Some (if v \<noteq> GIT_FSMONITOR_DISABLE
                   then ''git -c config override '' @ str_repr v @ '' can execute an external helper''
                   else GIT_FSMONITOR_DISABLE), rest))
      else (None, rest))"

lemma consume_length: "length (snd (consume_config_override t rest)) \<le> length rest"
  by (auto simp: consume_config_override_def Let_def split: list.splits)

fun format_has_gpg_atom :: "string \<Rightarrow> bool" where
  "format_has_gpg_atom [] = False"
| "format_has_gpg_atom [c] = False"
| "format_has_gpg_atom (c # d # cs) =
     (if c \<noteq> CHR ''%'' then format_has_gpg_atom (d # cs)
      else if d = CHR ''G'' \<or> d = CHR ''g'' then True
      else format_has_gpg_atom cs)"

text \<open>The global options: a reason, or the two flags and the arguments from the subcommand on.\<close>

function git_globals :: "bool \<Rightarrow> bool \<Rightarrow> string list \<Rightarrow> string + (bool \<times> bool \<times> string list)" where
  "git_globals fsm nol [] = Inr (fsm, nol, [])"
| "git_globals fsm nol (t # ts) =
     (if \<not> startswith t ''-'' then Inr (fsm, nol, t # ts)
      else if startswith t ''-c'' \<or> startswith t ''--config'' then
        (case consume_config_override t ts of
           (None, _) \<Rightarrow> Inl (''git option '' @ t @ '' is not a read-only form'')
         | (Some v, ts') \<Rightarrow> if v \<noteq> GIT_FSMONITOR_DISABLE then Inl v else git_globals True nol ts')
      else if t = ''-C'' then
        (case ts of [] \<Rightarrow> Inl ''git -C requires a directory'' | _ # ts' \<Rightarrow> git_globals fsm nol ts')
      else if startswith t ''-C'' \<and> length t > 2 then git_globals fsm nol ts
      else if startswith t ''--exec-path'' then Inl ''git --exec-path can execute external core programs''
      else if list_ex (\<lambda>x. t = x \<or> startswith t (x @ ''='')) [''--git-dir'', ''--work-tree'', ''--namespace''] then
        Inl (''git global option '' @ option_name t @ '' is not a read-only form'')
      else if t = ''--no-optional-locks'' then git_globals fsm True ts
      else if t \<in> set GIT_SAFE_GLOBAL_OPTIONS then git_globals fsm nol ts
      else if t = ''--'' then Inr (fsm, nol, ts)
      else Inl (''git global option '' @ t @ '' is not a read-only form''))"
  by pat_completeness auto
termination
  by (relation "measure (\<lambda>(_, _, ts). length ts)")
    (auto simp: less_Suc_eq_le dest!: arg_cong [where f = snd] intro: order_trans [OF _ consume_length])

text \<open>The options after the subcommand: a reason, or the flag that fsmonitor was disabled.\<close>

definition query_option_ok :: "string \<Rightarrow> bool" where
  "query_option_ok t \<longleftrightarrow>
     (length t = 2 \<and> t ! 1 \<in> set GIT_QUERY_SHORT_OPTIONS) \<or> t ! 1 \<in> set GIT_QUERY_VALUE_SHORTS \<or>
     list_all (\<lambda>c. c \<in> set GIT_QUERY_SHORT_OPTIONS) (tl t)"

function git_rest :: "string \<Rightarrow> bool \<Rightarrow> bool \<Rightarrow> string list \<Rightarrow> string + bool" where
  "git_rest sub after fsm [] = Inr fsm"
| "git_rest sub after fsm (t # ts) =
     (if t = ''--'' then git_rest sub True fsm ts
      else if t \<in> set GIT_EXTERNAL_EXEC_OPTIONS then
        Inl (''git option '' @ t @ '' can execute an external helper'')
      else if t = ''--format'' \<or> t = ''--pretty'' then
        (case ts of
           [] \<Rightarrow> Inl (''git option '' @ t @ '' requires a value'')
         | v # ts' \<Rightarrow>
             if format_has_gpg_atom v then
               Inl ''git pretty format may invoke gpg.program via signature atoms; not read-only''
             else git_rest sub after fsm ts')
      else if startswith t ''--format='' \<or> startswith t ''--pretty='' then
        (if format_has_gpg_atom (after_char (CHR ''='') t) then
           Inl ''git pretty format may invoke gpg.program via signature atoms; not read-only''
         else git_rest sub after fsm ts)
      else if startswith t ''-c'' \<or> startswith t ''--config'' then
        (case consume_config_override t ts of
           (None, _) \<Rightarrow> Inl (''git option '' @ t @ '' is not a read-only form'')
         | (Some v, ts') \<Rightarrow> if v \<noteq> GIT_FSMONITOR_DISABLE then Inl v else git_rest sub after True ts')
      else if sub \<in> set GIT_TEXT_CONV_SUBCOMMANDS \<and> \<not> after \<and> startswith t ''--''
              \<and> option_name t \<notin> set GIT_QUERY_LONG_OPTIONS then
        Inl (''git '' @ sub @ '' option '' @ option_name t @ '' is not an allowlisted read-only query option'')
      else if sub \<in> set GIT_TEXT_CONV_SUBCOMMANDS \<and> \<not> after \<and> \<not> startswith t ''--'' \<and> startswith t ''-''
              \<and> t \<noteq> ''-'' \<and> \<not> query_option_ok t then
        Inl (''git '' @ sub @ '' option '' @ t @ '' is not an allowlisted read-only query option'')
      else git_rest sub after fsm ts)"
  by pat_completeness auto
termination
  by (relation "measure (\<lambda>(_, _, _, ts). length ts)")
    (auto simp: less_Suc_eq_le dest!: arg_cong [where f = snd] intro: order_trans [OF _ consume_length])

definition git_risk_reason :: "string list \<Rightarrow> string option" where
  "git_risk_reason tokens =
     (case git_globals False False (tl tokens) of
        Inl r \<Rightarrow> Some r
      | Inr (fsm, nol, []) \<Rightarrow> Some ''git subcommand is missing''
      | Inr (fsm, nol, sub # rest) \<Rightarrow>
          if sub \<notin> set READ_ONLY_GIT_SUBCOMMANDS then
            Some (''git subcommand is not classified read-only: '' @ sub)
          else if list_ex is_write_destination_flag rest then
            Some (''git '' @ sub @ '' carries a write-destination flag'')
          else
            (case git_rest sub False fsm rest of
               Inl r \<Rightarrow> Some r
             | Inr fsm' \<Rightarrow>
                 if sub \<in> set GIT_TEXT_CONV_SUBCOMMANDS \<and>
                    (''--no-textconv'' \<notin> set rest \<or> ''--no-ext-diff'' \<notin> set rest) then
                   Some (''git '' @ sub
                     @ '' may run external textconv/diff helpers; require --no-textconv --no-ext-diff'')
                 else if sub = ''status'' \<and> \<not> (fsm' \<and> nol) then
                   Some (''git status may run a core.fsmonitor hook or write .git/index; ''
                     @ ''require -c core.fsmonitor=false and --no-optional-locks'')
                 else if sub \<in> set GIT_LIST_ONLY_SUBCOMMANDS then git_list_only_risk sub rest
                 else None))"

section \<open>Paths\<close>

text \<open>
  What the gate asks of the file system through \<^verbatim>\<open>pathlib\<close>: expansion of a leading tilde and resolution of
  links, both of which may raise, and whether an expanded path is absolute.
\<close>

record fs =
  fs_expand :: "string \<Rightarrow> exc + string"
  fs_absolute :: "string \<Rightarrow> bool"
  fs_resolve :: "string \<Rightarrow> exc + string"

definition resolve_path :: "fs \<Rightarrow> string \<Rightarrow> exc + string" where
  "resolve_path fs p = ebind (fs_expand fs p) (fs_resolve fs)"

definition canonical_target :: "fs \<Rightarrow> string \<Rightarrow> string \<Rightarrow> exc + string" where
  "canonical_target fs target base_cwd =
     (if base_cwd = [] then resolve_path fs target
      else
        ebind (fs_expand fs target) (\<lambda>p.
          if fs_absolute fs p then fs_resolve fs p else fs_resolve fs (base_cwd @ ''/'' @ p)))"

text \<open>\<^verbatim>\<open>root.rstrip(os.sep)\<close>, and containment of a resolved path in a resolved root.\<close>

definition rstrip_sep :: "string \<Rightarrow> string" where
  "rstrip_sep s = rev (dropWhile (\<lambda>c. c = CHR ''/'') (rev s))"

definition under_root :: "string \<Rightarrow> string \<Rightarrow> bool" where
  "under_root p base \<longleftrightarrow> p = base \<or> startswith p (rstrip_sep base @ ''/'')"

fun is_within_roots :: "fs \<Rightarrow> string \<Rightarrow> string list \<Rightarrow> exc + bool" where
  "is_within_roots fs resolved [] = Inr False"
| "is_within_roots fs resolved (r # rs) =
     ebind (resolve_path fs r) (\<lambda>base. if under_root resolved base then Inr True else is_within_roots fs resolved rs)"

section \<open>The shell classifier\<close>

definition list_value :: "dict \<Rightarrow> string \<Rightarrow> string list" where
  "list_value config key =
     (case dget config key of
        Some (PList xs) \<Rightarrow> List.map_filter (\<lambda>v. case v of PStr s \<Rightarrow> if s \<noteq> [] then Some s else None | _ \<Rightarrow> None) xs
      | _ \<Rightarrow> [])"

definition first_positional :: "string list \<Rightarrow> string option" where
  "first_positional tokens = find (\<lambda>t. \<not> startswith t ''-'') (tl tokens)"

text \<open>One segment, already unwrapped. \<^verbatim>\<open>Path(t).name\<close> of a token without a slash is the token, except \<^verbatim>\<open>.\<close>.\<close>

definition segment_risk ::
  "fs \<Rightarrow> string list \<Rightarrow> string list \<Rightarrow> string \<Rightarrow> string list \<Rightarrow> exc + string option" where
  "segment_risk fs trusted ssh_hosts cwd tokens =
     (case tokens of
        [] \<Rightarrow> Inr (Some ''shell command has no resolvable executable'')
      | exe # args \<Rightarrow>
          let verb = (if exe = ''.'' then '''' else exe) in
          if CHR ''/'' \<in> set exe then Inr (Some ''shell command uses a path-form executable'')
          else if list_ex token_is_ambiguous tokens then Inr (Some ''shell command contains an ambiguous token'')
          else if verb \<in> set DESTRUCTIVE_VERBS then Inr (Some (''destructive shell command: '' @ verb))
          else if verb \<in> set DESTINATION_VERBS then Inr (Some (''destination-writing shell command: '' @ verb))
          else if verb = ''git'' then Inr (git_risk_reason tokens)
          else if verb = ''ssh'' then
            (case first_positional tokens of
               Some h \<Rightarrow> Inr (Some (if h \<notin> set ssh_hosts then ''ssh target is not in ssh_hosts''
                                    else ''remote shell execution is risky''))
             | None \<Rightarrow> Inr (Some ''ssh target is not in ssh_hosts''))
          else if verb \<in> set INTERPRETERS then
            (if ''-c'' \<in> set tokens \<or> ''-e'' \<in> set tokens then Inr (Some ''inline interpreter code is risky'')
             else
               (case first_positional tokens of
                  None \<Rightarrow> Inr (Some ''interpreter script is not in trusted_scripts'')
                | Some script \<Rightarrow>
                    if script = [] then Inr (Some ''interpreter script is not in trusted_scripts'')
                    else
                      ebind (canonical_target fs script cwd) (\<lambda>p.
                        Inr (if p \<notin> set trusted then Some ''interpreter script is not in trusted_scripts'' else None))))
          else if list_ex (\<lambda>t. t \<in> set [''|'', ''>'', ''>>'', ''<'', ''<<'', ''|&''] \<or> startswith t ''>'' \<or> startswith t ''<'') tokens
            then Inr (Some ''shell pipeline or redirection is risky'')
          else if verb = ''curl'' \<and> list_ex (\<lambda>t. sublist ''bash'' t \<or> t = ''sh'') tokens then
            Inr (Some ''piped installer execution is risky'')
          else if verb \<notin> set READ_ONLY_VERBS then Inr (Some (''shell command is not classified read-only: '' @ verb))
          else if list_ex is_write_destination_flag args then
            Inr (Some (''read-only verb '' @ verb @ '' carries a write-destination flag''))
          else Inr (read_only_option_reason verb tokens))"

fun segments_risk ::
  "fs \<Rightarrow> string list \<Rightarrow> string list \<Rightarrow> string \<Rightarrow> string list list \<Rightarrow> exc + string option" where
  "segments_risk fs trusted ssh_hosts cwd [] = Inr None"
| "segments_risk fs trusted ssh_hosts cwd (ts # segs) =
     (case unwrap ts of
        None \<Rightarrow> Inr (Some ''env assignment redirects execution (PATH/LD_*/PYTHONPATH/...)'')
      | Some us \<Rightarrow>
          ebind (segment_risk fs trusted ssh_hosts cwd us) (\<lambda>r.
            case r of Some s \<Rightarrow> Inr (Some s) | None \<Rightarrow> segments_risk fs trusted ssh_hosts cwd segs))"

definition shell_risk_reason :: "fs \<Rightarrow> string \<Rightarrow> dict \<Rightarrow> string \<Rightarrow> exc + string option" where
  "shell_risk_reason fs command config cwd =
     (let segs = command_segments command in
      if segs = [] then Inr (Some ''shell command cannot be parsed safely'')
      else
        ebind (emap (resolve_path fs) (list_value config ''trusted_scripts'')) (\<lambda>trusted.
          segments_risk fs trusted (list_value config ''ssh_hosts'') cwd segs))"

definition file_risk_reason :: "fs \<Rightarrow> dict \<Rightarrow> dict \<Rightarrow> string \<Rightarrow> exc + string option" where
  "file_risk_reason fs args config base_cwd =
     (case dget args ''action'' of
        Some (PStr action) \<Rightarrow>
          if action \<noteq> ''write'' \<and> action \<noteq> ''edit'' then Inr None
          else
            (case dget args ''input'' of
               Some (PDict input) \<Rightarrow>
                 (case dget input ''file_path'' of
                    Some (PStr target) \<Rightarrow>
                      if target = [] then Inr (Some ''file target is missing'')
                      else
                        ebind (canonical_target fs target base_cwd) (\<lambda>canonical.
                        ebind (resolve_path fs canonical) (\<lambda>resolved.
                        ebind (is_within_roots fs resolved (list_value config ''local_write_roots'')) (\<lambda>inside.
                          Inr (if inside then None
                               else Some (''file.'' @ action @ '' target is outside local_write_roots'')))))
                  | _ \<Rightarrow> Inr (Some ''file target is missing''))
             | _ \<Rightarrow> Inr (Some ''file action input is invalid''))
      | Some (PList _) \<Rightarrow> Inl (TypeError ''unhashable type'')
      | Some (PDict _) \<Rightarrow> Inl (TypeError ''unhashable type'')
      | _ \<Rightarrow> Inr None)"

section \<open>What the classifier lets through\<close>

lemma segment_risk_None:
  assumes "segment_risk fs trusted ssh cwd tokens = Inr None"
  shows "\<exists>exe args. tokens = exe # args \<and> CHR ''/'' \<notin> set exe \<and> list_all (\<lambda>t. \<not> token_is_ambiguous t) tokens \<and>
    exe \<notin> set DESTRUCTIVE_VERBS \<union> set DESTINATION_VERBS \<and>
    ((exe = ''git'' \<and> git_risk_reason tokens = None) \<or>
     (exe \<in> set INTERPRETERS \<and> (\<exists>script p. first_positional tokens = Some script \<and>
        canonical_target fs script cwd = Inr p \<and> p \<in> set trusted) \<and> ''-c'' \<notin> set tokens \<and> ''-e'' \<notin> set tokens) \<or>
     (exe \<in> set READ_ONLY_VERBS \<and> list_all (\<lambda>t. \<not> is_write_destination_flag t) args \<and>
        read_only_option_reason exe tokens = None))"
proof (cases tokens)
  case (Cons exe args)
  show ?thesis
  proof (cases "exe = ''.''")
    case True
    have "'''' \<notin> set READ_ONLY_VERBS \<and> '''' \<notin> set INTERPRETERS" by (simp add: READ_ONLY_VERBS_def INTERPRETERS_def)
    with assms Cons True show ?thesis
      by (simp add: segment_risk_def Let_def split: if_splits)
  next
    case False
    have "exe \<in> set INTERPRETERS \<Longrightarrow> exe \<noteq> ''git''" by (auto simp: INTERPRETERS_def)
    with assms Cons False show ?thesis
      by (auto simp: segment_risk_def Let_def list_all_iff list_ex_iff
          split: if_splits option.splits dest!: ebind_eq_InrD)
  qed
qed (use assms in \<open>simp add: segment_risk_def\<close>)

lemma segments_risk_None:
  "segments_risk fs trusted ssh cwd segs = Inr None \<Longrightarrow> seg \<in> set segs \<Longrightarrow>
   \<exists>us. unwrap seg = Some us \<and> segment_risk fs trusted ssh cwd us = Inr None"
  by (induction segs) (auto split: option.splits dest!: ebind_eq_InrD)


definition plain_fs :: fs where
  "plain_fs = \<lparr>fs_expand = Inr, fs_absolute = (\<lambda>p. startswith p ''/''), fs_resolve = Inr\<rparr>"

lemma ls_read_only: "shell_risk_reason plain_fs ''ls -la'' [] ''/w'' = Inr None"
  by code_simp


text \<open>a gap in the splitting. The chain operators the classifier splits at do not include the background
  operator, so a destructive command behind a single ampersand is taken for arguments of the read-only verb
  before it and the whole command is classified read-only, although the same command behind a double
  ampersand is recognised as destructive.\<close>

theorem background_operator_not_split:
  "shell_risk_reason fs ''ls & rm -rf /tmp/x'' [] cwd = Inr None \<and>
   shell_risk_reason fs ''ls && rm -rf /tmp/x'' [] cwd = Inr (Some ''destructive shell command: rm'')"
proof
  show "shell_risk_reason fs ''ls & rm -rf /tmp/x'' [] cwd = Inr None" by code_simp
  show "shell_risk_reason fs ''ls && rm -rf /tmp/x'' [] cwd = Inr (Some ''destructive shell command: rm'')" by code_simp
qed

lemma git_risk_None:
  assumes "git_risk_reason tokens = None"
  shows "\<exists>fsm nol sub rest. git_globals False False (tl tokens) = Inr (fsm, nol, sub # rest) \<and>
    sub \<in> set READ_ONLY_GIT_SUBCOMMANDS \<and> list_all (\<lambda>t. \<not> is_write_destination_flag t) rest \<and>
    (sub \<in> set GIT_TEXT_CONV_SUBCOMMANDS \<longrightarrow> ''--no-textconv'' \<in> set rest \<and> ''--no-ext-diff'' \<in> set rest) \<and>
    (sub = ''status'' \<longrightarrow> nol \<and> git_rest sub False fsm rest = Inr True) \<and>
    (sub \<in> set GIT_LIST_ONLY_SUBCOMMANDS \<longrightarrow> git_list_only_risk sub rest = None)"
proof (cases "git_globals False False (tl tokens)")
  case (Inr g)
  obtain fsm nol args where g: "g = (fsm, nol, args)" by (cases g)
  show ?thesis
  proof (cases args)
    case (Cons sub rest)
    have disj: "sub \<in> set GIT_TEXT_CONV_SUBCOMMANDS \<Longrightarrow> sub \<noteq> ''status'' \<and> sub \<notin> set GIT_LIST_ONLY_SUBCOMMANDS"
      "sub = ''status'' \<Longrightarrow> sub \<notin> set GIT_LIST_ONLY_SUBCOMMANDS"
      by (auto simp: GIT_TEXT_CONV_SUBCOMMANDS_def GIT_LIST_ONLY_SUBCOMMANDS_def)
    with assms Inr g Cons show ?thesis
      by (auto simp: git_risk_reason_def list_all_iff list_ex_iff split: if_splits sum.splits)
  qed (use assms Inr g in \<open>simp add: git_risk_reason_def\<close>)
qed (use assms in \<open>simp add: git_risk_reason_def\<close>)



end
