(* ===== verification/Risky_Gate.thy ===== *)
theory Risky_Gate
  imports Risk_Classifier Tool_Guard
begin

text \<open>
  The opt-in risky-action gate (\<^verbatim>\<open>kernel/risky_action_gate.py\<close>): loading and merging its configuration,
  the guard check with the pending request it records, and the approval state machine of a request. The
  workspace boundary is that of \<^verbatim>\<open>kernel/execution_workspace.py\<close>. The guard check interprets the
  \<open>gate_check\<close> contract of \<^verbatim>\<open>Tool_Guard\<close>.
\<close>

section \<open>Execution workspace\<close>

text \<open>\<^verbatim>\<open>ExecutionWorkspace(path)\<close>: resolution must succeed on an existing directory; three exception
  classes are turned into a \<^verbatim>\<open>ValueError\<close>.\<close>

definition make_workspace :: "fs \<Rightarrow> (string \<Rightarrow> bool) \<Rightarrow> string \<Rightarrow> exc + string" where
  "make_workspace fs is_dir p =
     (case resolve_path fs p of
        Inl (TypeError s) \<Rightarrow> Inl (ValueError ''execution workspace must be an existing directory'')
      | Inl (OSError s) \<Rightarrow> Inl (ValueError ''execution workspace must be an existing directory'')
      | Inl (RuntimeError s) \<Rightarrow> Inl (ValueError ''execution workspace must be an existing directory'')
      | Inl e \<Rightarrow> Inl e
      | Inr r \<Rightarrow> if is_dir r then Inr r else Inl (ValueError ''execution workspace must be an existing directory''))"

definition resolve_execution_path :: "fs \<Rightarrow> string option \<Rightarrow> string \<Rightarrow> string \<Rightarrow> exc + string" where
  "resolve_execution_path fs workspace path fallback =
     ebind (fs_expand fs path) (\<lambda>p.
       case workspace of
         None \<Rightarrow> Inr (if fs_absolute fs p then p else fallback @ ''/'' @ p)
       | Some base \<Rightarrow>
           ebind (if fs_absolute fs p then fs_resolve fs p else fs_resolve fs (base @ ''/'' @ p)) (\<lambda>r.
             if under_root r base then Inr r
             else Inl (ValueError (''path escapes execution workspace: '' @ path))))"

section \<open>Configuration\<close>

definition MERGED_LIST_KEYS :: "string list" where
  "MERGED_LIST_KEYS = [''local_write_roots'', ''remote_write_roots'', ''ssh_hosts'', ''trusted_scripts'']"

definition APPROVAL_CHANNELS :: "string list" where
  "APPROVAL_CHANNELS = [''telegram'', ''wechat'']"

definition DEFAULT_APPROVAL_TTL_SECONDS :: int where
  "DEFAULT_APPROVAL_TTL_SECONDS = 24 * 60 * 60"

definition GATE_CHECK_NAME :: string where
  "GATE_CHECK_NAME = ''risky_action_gate''"

definition TRUTHY_ENV_VALUES :: "string list" where
  "TRUTHY_ENV_VALUES = [''1'', ''true'', ''yes'', ''on'']"

definition env_opt_in_enabled :: "string option \<Rightarrow> bool" where
  "env_opt_in_enabled v \<longleftrightarrow> lower (strip (case v of None \<Rightarrow> '''' | Some s \<Rightarrow> s)) \<in> set TRUTHY_ENV_VALUES"

text \<open>A configuration file: absent, or what reading and decoding it gives.\<close>

type_synonym config_file = "(exc + py) option"

definition merge_lists :: "dict \<Rightarrow> dict \<Rightarrow> dict" where
  "merge_lists shared own =
     fold (\<lambda>key merged.
        let values = list_value shared key @ list_value own key
        in if values \<noteq> [] then dput key (PList (map PStr (uniq values))) merged else merged)
       MERGED_LIST_KEYS own"

definition load_gate_config :: "config_file \<Rightarrow> config_file \<Rightarrow> string option \<Rightarrow> exc + dict option" where
  "load_gate_config own_file shared_file env =
     (case own_file of
        None \<Rightarrow> if env_opt_in_enabled env then Inr (Some []) else Inr None
      | Some r \<Rightarrow>
          ebind r (\<lambda>own.
            case own of
              PDict o' \<Rightarrow>
                (case shared_file of
                   None \<Rightarrow> Inr (Some o')
                 | Some r' \<Rightarrow>
                     ebind r' (\<lambda>shared.
                       case shared of
                         PDict s \<Rightarrow> Inr (Some (merge_lists s o'))
                       | _ \<Rightarrow> Inl (ValueError ''shared gate_config.json must contain a JSON object'')))
            | _ \<Rightarrow> Inl (ValueError ''gate_config.json must contain a JSON object'')))"

section \<open>The guard check\<close>

record gate_env =
  ge_workdir :: string
  ge_workspace :: "string option"
  ge_fs :: fs
  ge_own :: config_file
  ge_shared :: config_file
  ge_env :: "string option"
  ge_request_id :: string
  ge_created_at :: string
  ge_write_fails :: "exc option"
  ge_float :: "rat \<Rightarrow> string"

definition or_none :: "py option \<Rightarrow> py" where
  "or_none v = (case v of Some w \<Rightarrow> if truthy w then w else PNone | None \<Rightarrow> PNone)"

definition gate_operation :: "fs \<Rightarrow> proposal \<Rightarrow> string \<Rightarrow> exc + dict" where
  "gate_operation fs p reason =
     (let args = pr_tool_args p;
          action = dget args ''action'';
          kind = (if pr_tool_name p = ''file'' \<and> action = Some (PStr ''write'') then ''file_write''
                  else if pr_tool_name p = ''file'' \<and> action = Some (PStr ''edit'') then ''file_edit''
                  else if pr_tool_name p = ''shell'' then ''shell_command''
                  else ''tool_call'');
          base = [(''kind'', PStr kind), (''tool_name'', PStr (pr_tool_name p)), (''args'', PDict args),
                  (''reason'', PStr reason)]
      in case dget args ''input'' of
           Some (PDict input) \<Rightarrow>
             if pr_tool_name p = ''shell'' then
               Inr (base @ [(''command'', dgetd input ''command'' PNone),
                            (''cwd'', or_none (dget input ''working_dir'')),
                            (''effective_cwd'', or_none (dget input ''working_dir''))])
             else if pr_tool_name p = ''file'' then
               (case dget input ''file_path'' of
                  Some (PStr t) \<Rightarrow>
                    if t \<noteq> [] then ebind (resolve_path fs t) (\<lambda>r. Inr (base @ [(''target'', PStr r)])) else Inr base
                | _ \<Rightarrow> Inr base)
             else Inr base
         | _ \<Rightarrow> Inr base)"

definition pending_dir :: "fs \<Rightarrow> string \<Rightarrow> dict \<Rightarrow> exc + string" where
  "pending_dir fs workdir config =
     (let raw = (case dget config ''pending_dir'' of
                   Some (PStr s) \<Rightarrow> if strip s \<noteq> [] then s else ''.security/pending''
                 | _ \<Rightarrow> ''.security/pending'')
      in ebind (fs_expand fs raw) (\<lambda>p.
           if fs_absolute fs p then fs_resolve fs p else fs_resolve fs (workdir @ ''/'' @ p)))"

definition pending_request :: "string \<Rightarrow> string \<Rightarrow> dict \<Rightarrow> dict" where
  "pending_request request_id created_at operation =
     [(''id'', PStr request_id), (''created_at'', PStr created_at),
      (''expires_in_seconds'', PInt DEFAULT_APPROVAL_TTL_SECONDS), (''status'', PStr ''pending''),
      (''operation'', PDict operation), (''approvals'', PDict (map (\<lambda>ch. (ch, PNone)) APPROVAL_CHANNELS))]"

text \<open>The request written and the path it is written to.\<close>

definition record_pending :: "gate_env \<Rightarrow> dict \<Rightarrow> proposal \<Rightarrow> string \<Rightarrow> exc + (string \<times> dict)" where
  "record_pending env config p reason =
     ebind (gate_operation (ge_fs env) p reason) (\<lambda>op.
     ebind (pending_dir (ge_fs env) (ge_workdir env) config) (\<lambda>dir.
       case ge_write_fails env of
         Some e \<Rightarrow> Inl e
       | None \<Rightarrow> Inr (dir @ ''/'' @ ge_request_id env @ ''.json'',
                      pending_request (ge_request_id env) (ge_created_at env) op)))"

definition execution_root :: "gate_env \<Rightarrow> string" where
  "execution_root env = (case ge_workspace env of Some w \<Rightarrow> w | None \<Rightarrow> ge_workdir env)"

text \<open>The risk of a proposal under a configuration; the left value of the inner sum is an immediate denial.\<close>

definition proposal_risk :: "gate_env \<Rightarrow> dict \<Rightarrow> proposal \<Rightarrow> exc + (string + string option)" where
  "proposal_risk env config p =
     (if pr_tool_name p = ''file'' then
        ebind (file_risk_reason (ge_fs env) (pr_tool_args p) config (execution_root env)) (\<lambda>r. Inr (Inr r))
      else if pr_tool_name p = ''shell'' \<or> pr_tool_name p = ''bash'' then
        (case (dget (pr_tool_args p) ''action'', dget (pr_tool_args p) ''input'') of
           (action, Some (PDict input)) \<Rightarrow>
             if action \<in> {None, Some PNone, Some (PStr ''run'')} then
               let raw_cwd = (case dget input ''working_dir'' of
                                Some v \<Rightarrow> if truthy v then v else PStr (execution_root env)
                              | None \<Rightarrow> PStr (execution_root env));
                   command = (case dget input ''command'' of None \<Rightarrow> '''' | Some v \<Rightarrow> py_str (ge_float env) v);
                   classify = (\<lambda>cwd. ebind (shell_risk_reason (ge_fs env) command config cwd) (\<lambda>r. Inr (Inr r)))
               in (case ge_workspace env of
                     None \<Rightarrow> classify (py_str (ge_float env) raw_cwd)
                   | Some w \<Rightarrow>
                       (case raw_cwd of
                          PStr cwd \<Rightarrow>
                            (case resolve_execution_path (ge_fs env) (Some w) cwd (execution_root env) of
                               Inl (ValueError s) \<Rightarrow> Inr (Inl ''shell working_dir escapes execution workspace'')
                             | Inl (OSError s) \<Rightarrow> Inr (Inl ''shell working_dir escapes execution workspace'')
                             | Inl e \<Rightarrow> Inl e
                             | Inr r \<Rightarrow> classify r)
                        | _ \<Rightarrow> Inl (TypeError ''path'')))
             else Inr (Inr None)
         | _ \<Rightarrow> Inr (Inr None))
      else Inr (Inr None))"

definition risky_action_check :: "gate_env \<Rightarrow> proposal \<Rightarrow> exc + guard_decision \<times> (string \<times> dict) option" where
  "risky_action_check env p =
     (case load_gate_config (ge_own env) (ge_shared env) (ge_env env) of
        Inl e \<Rightarrow>
          Inr (deny_decision GATE_CHECK_NAME (''risky-action gate configuration failed: '' @ exc_type e)
                 ''deny'' ''error'' [], None)
      | Inr None \<Rightarrow> Inr (default_allow, None)
      | Inr (Some config) \<Rightarrow>
          ebind (proposal_risk env config p) (\<lambda>risk.
            case risk of
              Inl r \<Rightarrow> Inr (deny_decision GATE_CHECK_NAME r ''deny'' ''error'' [], None)
            | Inr None \<Rightarrow> Inr (default_allow, None)
            | Inr (Some reason) \<Rightarrow>
                if reason = [] then Inr (default_allow, None)
                else
                  ebind (record_pending env config p reason) (\<lambda>(path, request).
                    Inr (deny_decision GATE_CHECK_NAME
                           (reason @ ''; pending dual-channel approval '' @ ge_request_id env) ''deny'' ''error''
                           [(''pending_request_id'', PStr (ge_request_id env)),
                            (''pending_request_path'', PStr path),
                            (''approval_channels'', PList (map PStr APPROVAL_CHANNELS))],
                         Some (path, request)))))"

definition risky_guard_check :: "gate_env \<Rightarrow> proposal \<Rightarrow> exc + guard_raw" where
  "risky_guard_check env p = ebind (risky_action_check env p) (\<lambda>(d, _). Inr (RDecision d))"

section \<open>Approval of a pending request\<close>

text \<open>
  A \<^verbatim>\<open>datetime\<close>: seconds since the first day of year 1 on its own clock, and its offset from UTC when it
  has one. Arithmetic past the year 9999 overflows; comparing a naive with an aware value is a type error.
\<close>

record dtime =
  dt_local :: rat
  dt_offset :: "rat option"

definition DT_LIMIT :: rat where
  "DT_LIMIT = 315537897600"

definition dt_plus :: "dtime \<Rightarrow> int \<Rightarrow> exc + dtime" where
  "dt_plus d n =
     (if dt_local d + of_int n < DT_LIMIT then Inr (d\<lparr>dt_local := dt_local d + of_int n\<rparr>)
      else Inl (OtherException ''OverflowError'' ''date value out of range''))"

definition dt_le :: "dtime \<Rightarrow> dtime \<Rightarrow> exc + bool" where
  "dt_le a b =
     (case (dt_offset a, dt_offset b) of
        (None, None) \<Rightarrow> Inr (dt_local a \<le> dt_local b)
      | (Some x, Some y) \<Rightarrow> Inr (dt_local a - x \<le> dt_local b - y)
      | _ \<Rightarrow> Inl (TypeError ''can't compare offset-naive and offset-aware datetimes''))"

text \<open>The standard library's parsers: \<^verbatim>\<open>datetime.fromisoformat\<close> and \<^verbatim>\<open>int\<close> of a string.\<close>

record clock_env =
  ce_parse_iso :: "string \<Rightarrow> dtime option"
  ce_parse_int :: "string \<Rightarrow> int option"
  ce_float :: "rat \<Rightarrow> string"

definition py_int :: "clock_env \<Rightarrow> py \<Rightarrow> int option" where
  "py_int ce v =
     (case v of
        PInt i \<Rightarrow> Some i
      | PBool b \<Rightarrow> Some (if b then 1 else 0)
      | PFloat r \<Rightarrow> Some (if r < 0 then - \<lfloor>- r\<rfloor> else \<lfloor>r\<rfloor>)
      | PStr s \<Rightarrow> ce_parse_int ce s
      | _ \<Rightarrow> None)"

text \<open>Whether the request has expired at \<open>now\<close>; a malformed timestamp or lifetime counts as expired.\<close>

definition request_expired :: "clock_env \<Rightarrow> dtime \<Rightarrow> dict \<Rightarrow> exc + bool" where
  "request_expired ce now payload =
     (case (ce_parse_iso ce (py_str (ce_float ce) (dgetd payload ''created_at'' PNone)),
            py_int ce (dgetd payload ''expires_in_seconds'' (PInt DEFAULT_APPROVAL_TTL_SECONDS))) of
        (Some created, Some ttl) \<Rightarrow> ebind (dt_plus created (max ttl 0)) (\<lambda>e. dt_le e now)
      | _ \<Rightarrow> Inr True)"

definition request_status :: "dict \<Rightarrow> py" where
  "request_status payload = dgetd payload ''status'' PNone"

definition set_status :: "string \<Rightarrow> dict \<Rightarrow> dict" where
  "set_status s payload = dput ''status'' (PStr s) payload"

text \<open>Both operations run under the request's lock on the file they re-read there: the result and the
  file afterwards.\<close>

definition expire_pending :: "clock_env \<Rightarrow> dtime \<Rightarrow> dict \<Rightarrow> (exc + dict) \<times> dict" where
  "expire_pending ce now file =
     (if request_status file \<noteq> PStr ''pending'' then (Inr file, file)
      else
        (case request_expired ce now file of
           Inl e \<Rightarrow> (Inl e, file)
         | Inr True \<Rightarrow> (Inr (set_status ''expired'' file), set_status ''expired'' file)
         | Inr False \<Rightarrow> (Inr file, file)))"

definition record_leg :: "string \<Rightarrow> string \<Rightarrow> dict \<Rightarrow> exc + dict" where
  "record_leg channel decision file =
     (case dgetd file ''approvals'' (PDict []) of
        PDict a \<Rightarrow>
          let a' = dput channel (PStr decision) a;
              file' = dput ''approvals'' (PDict a') file
          in Inr (if decision = ''deny'' then set_status ''denied'' file'
                  else if list_all (\<lambda>ch. dget a' ch = Some (PStr ''approve'')) APPROVAL_CHANNELS
                    then set_status ''approved'' file'
                  else file')
      | _ \<Rightarrow> Inl (TypeError ''approvals''))"

definition mark_approval :: "clock_env \<Rightarrow> dtime \<Rightarrow> string \<Rightarrow> string \<Rightarrow> dict \<Rightarrow> (exc + dict) \<times> dict" where
  "mark_approval ce now channel decision file =
     (if channel \<notin> set APPROVAL_CHANNELS then (Inl (ValueError (''unknown approval channel: '' @ channel)), file)
      else if decision \<notin> {''approve'', ''deny''} then (Inl (ValueError ''decision must be approve or deny''), file)
      else if request_status file \<noteq> PStr ''pending'' then (Inr file, file)
      else
        (case request_expired ce now file of
           Inl e \<Rightarrow> (Inl e, file)
         | Inr True \<Rightarrow> (Inr (set_status ''expired'' file), set_status ''expired'' file)
         | Inr False \<Rightarrow>
             (case record_leg channel decision file of
                Inl e \<Rightarrow> (Inl e, file)
              | Inr file' \<Rightarrow> (Inr file', file'))))"

datatype approval_op = Expire dtime | Mark string string dtime

fun apply_op :: "clock_env \<Rightarrow> approval_op \<Rightarrow> dict \<Rightarrow> dict" where
  "apply_op ce (Expire now) file = snd (expire_pending ce now file)"
| "apply_op ce (Mark ch dec now) file = snd (mark_approval ce now ch dec file)"

section \<open>The guard contract\<close>

definition no_risk :: "string + string option \<Rightarrow> bool" where
  "no_risk r \<longleftrightarrow> r = Inr None \<or> r = Inr (Some [])"

definition gate_grants :: "gate_env \<Rightarrow> proposal \<Rightarrow> bool" where
  "gate_grants env p \<longleftrightarrow>
     (case load_gate_config (ge_own env) (ge_shared env) (ge_env env) of
        Inl _ \<Rightarrow> False
      | Inr None \<Rightarrow> True
      | Inr (Some config) \<Rightarrow> (case proposal_risk env config p of Inl _ \<Rightarrow> False | Inr r \<Rightarrow> no_risk r))"

interpretation risky_gate: gate_check "risky_guard_check env" "gate_grants env" for env
proof
  fix p raw assume "risky_guard_check env p = Inr raw"
  then show "\<exists>d. raw = RDecision d"
    by (auto simp: risky_guard_check_def dest!: ebind_eq_InrD split: prod.splits)
next
  fix p d assume d: "risky_guard_check env p = Inr (RDecision d)" "gd_allowed d"
  then obtain pend where r: "risky_action_check env p = Inr (d, pend)"
    by (auto simp: risky_guard_check_def dest!: ebind_eq_InrD split: prod.splits)
  show "gate_grants env p"
  proof (cases "load_gate_config (ge_own env) (ge_shared env) (ge_env env)")
    case (Inl e)
    with r d(2) show ?thesis by (auto simp: risky_action_check_def deny_decision_def)
  next
    case (Inr c)
    then show ?thesis
    proof (cases c)
      case (Some config)
      with Inr r obtain risk where "proposal_risk env config p = Inr risk"
        by (auto simp: risky_action_check_def dest!: ebind_eq_InrD)
      with Inr Some r d(2) show ?thesis
        by (auto simp: risky_action_check_def gate_grants_def no_risk_def deny_decision_def
            split: sum.splits option.splits if_splits dest!: ebind_eq_InrD)
    qed (use Inr in \<open>simp add: gate_grants_def\<close>)
  qed
qed

lemma within_roots_True:
  "is_within_roots fs r bases = Inr True \<Longrightarrow> \<exists>b\<in>set bases. \<exists>base. resolve_path fs b = Inr base \<and> under_root r base"
  by (induction bases) (auto dest!: ebind_eq_InrD split: if_splits)


section \<open>What the approval of a request means\<close>

text \<open>
  The abstract life of a request: it waits for the channels that have not approved yet, or is closed for
  good. \<open>expiry\<close> is the clock: whether the request has expired at a time, or that the comparison fails.
\<close>

datatype approval_state = Waiting "string set" | Closed py

fun spec_step :: "(dtime \<Rightarrow> bool option) \<Rightarrow> approval_op \<Rightarrow> approval_state \<Rightarrow> approval_state" where
  "spec_step expiry op (Closed s) = Closed s"
| "spec_step expiry (Expire now) (Waiting given) =
     (if expiry now = Some True then Closed (PStr ''expired'') else Waiting given)"
| "spec_step expiry (Mark ch dec now) (Waiting given) =
     (if ch \<notin> set APPROVAL_CHANNELS \<or> dec \<notin> {''approve'', ''deny''} then Waiting given
      else case expiry now of
        None \<Rightarrow> Waiting given
      | Some True \<Rightarrow> Closed (PStr ''expired'')
      | Some False \<Rightarrow>
          if dec = ''deny'' then Closed (PStr ''denied'')
          else if set APPROVAL_CHANNELS \<subseteq> insert ch given then Closed (PStr ''approved'')
          else Waiting (insert ch given))"

definition approvals_of :: "dict \<Rightarrow> dict" where
  "approvals_of file = (case dgetd file ''approvals'' (PDict []) of PDict a \<Rightarrow> a | _ \<Rightarrow> [])"

definition approved_channels :: "dict \<Rightarrow> string set" where
  "approved_channels file = {ch \<in> set APPROVAL_CHANNELS. dget (approvals_of file) ch = Some (PStr ''approve'')}"

definition abs_request :: "dict \<Rightarrow> approval_state" where
  "abs_request file =
     (if request_status file = PStr ''pending'' then Waiting (approved_channels file)
      else Closed (request_status file))"

definition expiry_of :: "clock_env \<Rightarrow> dict \<Rightarrow> dtime \<Rightarrow> bool option" where
  "expiry_of ce file now = (case request_expired ce now file of Inl e \<Rightarrow> None | Inr b \<Rightarrow> Some b)"

text \<open>What every operation keeps: the approvals are a dictionary and the lifetime is the recorded one.\<close>

definition request_ok :: "(dtime \<Rightarrow> bool option) \<Rightarrow> clock_env \<Rightarrow> dict \<Rightarrow> bool" where
  "request_ok expiry ce file \<longleftrightarrow>
     (\<exists>a. dget file ''approvals'' = Some (PDict a)) \<and> expiry_of ce file = expiry"

lemma request_expired_cong:
  "dget f ''created_at'' = dget g ''created_at'' \<Longrightarrow> dget f ''expires_in_seconds'' = dget g ''expires_in_seconds''
    \<Longrightarrow> request_expired ce now f = request_expired ce now g"
  by (simp add: request_expired_def dgetd_def)

lemma expiry_of_dput [simp]:
  "k \<noteq> ''created_at'' \<Longrightarrow> k \<noteq> ''expires_in_seconds'' \<Longrightarrow> expiry_of ce (dput k v f) = expiry_of ce f"
  unfolding expiry_of_def by (rule ext) (simp add: request_expired_cong [of "dput k v f" f])

lemma request_status_dput [simp]:
  "request_status (dput k v f) = (if k = ''status'' then v else request_status f)"
  by (simp add: request_status_def)

lemma request_status_set [simp]: "request_status (set_status s f) = PStr s"
  by (simp add: set_status_def)

lemma approved_channels_cong:
  "dget f ''approvals'' = dget g ''approvals'' \<Longrightarrow> approved_channels f = approved_channels g"
  by (simp add: approved_channels_def approvals_of_def dgetd_def)

lemma approved_channels_status [simp]: "approved_channels (set_status s f) = approved_channels f"
  by (rule approved_channels_cong) (simp add: set_status_def)

lemma request_ok_status: "request_ok ex ce f \<Longrightarrow> request_ok ex ce (set_status s f)"
  by (simp add: request_ok_def set_status_def)

lemma record_leg_ok:
  assumes "dget f ''approvals'' = Some (PDict a)"
  shows "\<exists>f'. record_leg ch dec f = Inr f' \<and> (\<exists>b. dget f' ''approvals'' = Some (PDict b)) \<and>
     expiry_of ce f' = expiry_of ce f"
  using assms by (auto simp: record_leg_def dgetd_def Let_def set_status_def)

lemma record_leg_abs:
  assumes "dget f ''approvals'' = Some (PDict a)" "request_status f = PStr ''pending''"
    and "ch \<in> set APPROVAL_CHANNELS" "dec \<in> {''approve'', ''deny''}" "record_leg ch dec f = Inr f'"
  shows "abs_request f' =
    (if dec = ''deny'' then Closed (PStr ''denied'')
     else if set APPROVAL_CHANNELS \<subseteq> insert ch (approved_channels f) then Closed (PStr ''approved'')
     else Waiting (insert ch (approved_channels f)))"
proof (cases "dec = ''deny''")
  case True
  with assms show ?thesis by (auto simp: record_leg_def dgetd_def Let_def abs_request_def)
next
  case False
  define g where "g = dput ''approvals'' (PDict (dput ch (PStr ''approve'') a)) f"
  have all: "list_all (\<lambda>c. dget (dput ch (PStr ''approve'') a) c = Some (PStr ''approve'')) APPROVAL_CHANNELS
      \<longleftrightarrow> set APPROVAL_CHANNELS \<subseteq> insert ch (approved_channels f)"
    using assms(1) by (auto simp: list_all_iff approved_channels_def approvals_of_def dgetd_def)
  have ins: "approved_channels g = insert ch (approved_channels f)"
    using assms(1,3) by (auto simp: g_def approved_channels_def approvals_of_def dgetd_def)
  have "f' = (if set APPROVAL_CHANNELS \<subseteq> insert ch (approved_channels f) then set_status ''approved'' g else g)"
    using assms False unfolding all [symmetric] by (auto simp: record_leg_def dgetd_def Let_def g_def)
  with False ins assms(2) show ?thesis by (simp add: abs_request_def g_def)
qed

lemma apply_op_refines:
  assumes ok: "request_ok ex ce f"
  shows "request_ok ex ce (apply_op ce op f) \<and> abs_request (apply_op ce op f) = spec_step ex op (abs_request f)"
proof (cases "request_status f = PStr ''pending''")
  case False
  then show ?thesis using ok
    by (cases op) (simp_all add: expire_pending_def mark_approval_def abs_request_def)
next
  case pend: True
  have ex: "ex now = (case request_expired ce now f of Inl e \<Rightarrow> None | Inr b \<Rightarrow> Some b)" for now
    using ok by (auto simp: request_ok_def expiry_of_def)
  show ?thesis
  proof (cases op)
    case (Expire now)
    with ok pend show ?thesis
      by (auto simp: expire_pending_def abs_request_def ex request_ok_status split: sum.splits bool.splits)
  next
    case (Mark ch dec now)
    from ok obtain a where a: "dget f ''approvals'' = Some (PDict a)" by (auto simp: request_ok_def)
    from record_leg_ok [OF a] obtain f' where f': "record_leg ch dec f = Inr f'"
      "\<exists>b. dget f' ''approvals'' = Some (PDict b)" "expiry_of ce f' = expiry_of ce f" by blast
    have ok': "request_ok ex ce f'" using ok f'(2,3) by (simp add: request_ok_def)
    consider (bad) "ch \<notin> set APPROVAL_CHANNELS \<or> dec \<notin> {''approve'', ''deny''}"
      | (good) "ch \<in> set APPROVAL_CHANNELS" "dec \<in> {''approve'', ''deny''}" by blast
    then show ?thesis
    proof cases
      case bad
      with Mark ok pend show ?thesis by (auto simp: mark_approval_def abs_request_def)
    next
      case good
      note leg = record_leg_abs [OF a pend good f'(1)]
      from good Mark ok ok' pend f'(1) show ?thesis
        by (cases "request_expired ce now f")
          (auto simp: mark_approval_def abs_request_def [of f] leg ex request_ok_status abs_request_def [of "set_status _ _"]
            split: bool.splits)
    qed
  qed
qed

lemma fold_apply_refines:
  "request_ok ex ce f \<Longrightarrow> abs_request (fold (apply_op ce) ops f) = fold (spec_step ex) ops (abs_request f)"
  by (induction ops arbitrary: f) (simp_all add: apply_op_refines)

lemma pending_request_ok:
  "request_ok (expiry_of ce (pending_request rid c op)) ce (pending_request rid c op)"
  by (simp add: request_ok_def pending_request_def)

lemma pending_request_waits: "abs_request (pending_request rid c op) = Waiting {}"
  by (auto simp: pending_request_def abs_request_def request_status_def dgetd_def approved_channels_def
      approvals_of_def APPROVAL_CHANNELS_def)


section \<open>Properties\<close>

text \<open>C22: whatever sequence of expiry sweeps and approval marks runs on a freshly recorded request, its
  stored state is the one the abstract life prescribes: it waits for the channels still missing, becomes
  approved exactly when the last missing channel approves in time, denied by any channel's timely denial,
  expired by the first operation that finds its lifetime over, and never changes once it is closed.\<close>

theorem approval_refines_spec:
  "abs_request (fold (apply_op ce) ops (pending_request rid created op)) =
     fold (spec_step (expiry_of ce (pending_request rid created op))) ops (Waiting {})"
  unfolding fold_apply_refines [OF pending_request_ok] pending_request_waits ..

lemma spec_closed: "fold (spec_step ex) ops (Closed s) = Closed s"
  by (induction ops) simp_all

lemma spec_approved_cause:
  "fold (spec_step ex) ops (Waiting given) = Closed (PStr ''approved'') \<Longrightarrow>
     ch \<in> set APPROVAL_CHANNELS \<Longrightarrow> ch \<notin> given \<Longrightarrow>
     \<exists>now. Mark ch ''approve'' now \<in> set ops \<and> ex now = Some False"
proof (induction ops arbitrary: given)
  case (Cons op ops)
  show ?case
  proof (cases "spec_step ex op (Waiting given)")
    case (Waiting g)
    with Cons.prems(1) have run: "fold (spec_step ex) ops (Waiting g) = Closed (PStr ''approved'')" by simp
    show ?thesis
    proof (cases "ch \<in> g")
      case False
      from Cons.IH [OF run Cons.prems(2) False] show ?thesis by auto
    next
      case True
      with Waiting Cons.prems(3) show ?thesis
        by (cases op) (auto split: if_splits option.splits bool.splits)
    qed
  next
    case (Closed s)
    with Cons.prems(1) have s: "s = PStr ''approved''" by (simp add: spec_closed)
    with Closed Cons.prems(2,3) show ?thesis
      by (cases op) (auto split: if_splits option.splits bool.splits)
  qed
qed simp

text \<open>a request that ends up approved was approved, before it expired, on every approval channel: one
  compromised or impatient channel is never enough.\<close>

theorem approved_needs_every_channel:
  assumes "request_status (fold (apply_op ce) ops (pending_request rid created op)) = PStr ''approved''"
    and "channel \<in> set APPROVAL_CHANNELS"
  shows "\<exists>now. Mark channel ''approve'' now \<in> set ops \<and>
    request_expired ce now (pending_request rid created op) = Inr False"
proof -
  let ?req = "pending_request rid created op"
  have "abs_request (fold (apply_op ce) ops ?req) = Closed (PStr ''approved'')"
    using assms(1) by (simp add: abs_request_def)
  then have "fold (spec_step (expiry_of ce ?req)) ops (Waiting {}) = Closed (PStr ''approved'')"
    unfolding fold_apply_refines [OF pending_request_ok] pending_request_waits .
  from spec_approved_cause [OF this assms(2)] obtain now
    where "Mark channel ''approve'' now \<in> set ops" "expiry_of ce ?req now = Some False" by auto
  then show ?thesis by (cases "request_expired ce now ?req") (auto simp: expiry_of_def)
qed

definition sample_clock :: clock_env where
  "sample_clock = \<lparr>ce_parse_iso = (\<lambda>s. Some \<lparr>dt_local = 0, dt_offset = Some 0\<rparr>), ce_parse_int = (\<lambda>s. None),
     ce_float = (\<lambda>r. '''')\<rparr>"

definition sample_time :: "rat \<Rightarrow> dtime" where
  "sample_time t = \<lparr>dt_local = t, dt_offset = Some 0\<rparr>"

lemma approved_needs_every_channel_witness:
  "\<exists>now. Mark ''wechat'' ''approve'' now \<in>
       set [Mark ''telegram'' ''approve'' (sample_time 5), Mark ''wechat'' ''approve'' (sample_time 7)] \<and>
     request_expired sample_clock now (pending_request ''r1'' ''2026-01-01T00:00:00+00:00'' []) = Inr False"
  by (rule approved_needs_every_channel)
    (simp_all add: sample_clock_def sample_time_def pending_request_def APPROVAL_CHANNELS_def mark_approval_def
      request_status_def request_expired_def py_int_def dgetd_def dt_plus_def dt_le_def DT_LIMIT_def
      DEFAULT_APPROVAL_TTL_SECONDS_def record_leg_def set_status_def Let_def)

text \<open>once the gate is configured, a \<^verbatim>\<open>file\<close> write or edit that the whole guard chain allows has a
  target that resolves, with every link followed, to a place inside one of the configured write roots:
  no other check of the chain can override the gate, and no malformed input slips past it.\<close>

theorem gated_write_inside_roots:
  assumes "(n, risky_guard_check env) \<in> set checks" and "gd_allowed (evaluate checks p)"
    and "load_gate_config (ge_own env) (ge_shared env) (ge_env env) = Inr (Some config)"
    and "pr_tool_name p = ''file''" and "dget (pr_tool_args p) ''action'' = Some (PStr action)"
    and "action \<in> {''write'', ''edit''}"
  shows "\<exists>input target canonical resolved root base.
    dget (pr_tool_args p) ''input'' = Some (PDict input) \<and> dget input ''file_path'' = Some (PStr target) \<and>
    canonical_target (ge_fs env) target (execution_root env) = Inr canonical \<and>
    resolve_path (ge_fs env) canonical = Inr resolved \<and>
    root \<in> set (list_value config ''local_write_roots'') \<and> resolve_path (ge_fs env) root = Inr base \<and>
    under_root resolved base"
proof -
  have "gate_grants env p" using assms(1,2) by (rule risky_gate.chain_granted)
  with assms(3,4) obtain r where r: "file_risk_reason (ge_fs env) (pr_tool_args p) config (execution_root env) = Inr r"
    and none: "r = None \<or> r = Some []"
    by (auto simp: gate_grants_def proposal_risk_def no_risk_def ebind_def split: sum.splits)
  from r none assms(5,6) show ?thesis
    by (auto simp: file_risk_reason_def split: option.splits py.splits if_splits dest!: ebind_eq_InrD within_roots_True,
        blast+)
qed

definition sample_gate :: gate_env where
  "sample_gate = \<lparr>ge_workdir = ''/w'', ge_workspace = None,
     ge_fs = \<lparr>fs_expand = Inr, fs_absolute = (\<lambda>p. startswith p ''/''), fs_resolve = Inr\<rparr>,
     ge_own = Some (Inr (PDict [(''local_write_roots'', PList [PStr ''/w/out''])])), ge_shared = None,
     ge_env = None, ge_request_id = ''r1'', ge_created_at = ''now'', ge_write_fails = None, ge_float = (\<lambda>r. '''')\<rparr>"

definition sample_write :: proposal where
  "sample_write = \<lparr>pr_tool_name = ''file'',
     pr_tool_args = [(''action'', PStr ''write''), (''input'', PDict [(''file_path'', PStr ''out/a'')])],
     pr_tool_call_id = Some ''a'', pr_tool_trace_id = None, pr_context = []\<rparr>"

lemma gated_write_inside_roots_witness:
  "\<exists>input target canonical resolved root base.
    dget (pr_tool_args sample_write) ''input'' = Some (PDict input) \<and> dget input ''file_path'' = Some (PStr target) \<and>
    canonical_target (ge_fs sample_gate) target (execution_root sample_gate) = Inr canonical \<and>
    resolve_path (ge_fs sample_gate) canonical = Inr resolved \<and>
    root \<in> set (list_value [(''local_write_roots'', PList [PStr ''/w/out''])] ''local_write_roots'') \<and>
    resolve_path (ge_fs sample_gate) root = Inr base \<and> under_root resolved base"
  by (rule gated_write_inside_roots [of None _ "[(None, risky_guard_check sample_gate)]" _ _ "''write''"])
    (simp_all add: sample_gate_def sample_write_def load_gate_config_def evaluate_def Let_def run_check_def
      coerce_decision_def risky_guard_check_def risky_action_check_def proposal_risk_def file_risk_reason_def
      execution_root_def canonical_target_def resolve_path_def list_value_def map_filter_simps startswith_def
      under_root_def rstrip_sep_def default_allow_def allow_decision_def allow_named_def raises_strength_def)

end
