(* ===== verification/Provider_Admission.thy ===== *)
theory Provider_Admission
  imports Prelude
begin

text \<open>
  Provider-call and derived-launch admission (\<^verbatim>\<open>kernel/provider_admission.py\<close>): the typed parents of an
  execution context, the context variable that holds the current one, the two admission checks with the
  driver's port as a parameter that may answer anything, and the session and service proxies that put the
  check in front of every provider call.
\<close>

section \<open>Vocabulary\<close>

datatype call_class = Root_Call | Daemon_Call | Avatar_Child_Call

datatype launch_capability = Daemon_Launch | Avatar_Launch

datatype admission_state = Granted | Denied | Indeterminate

datatype decision_source = From_Driver | From_Transport | From_Local_Policy

record root_admission =
  ra_correlation_id :: string
  ra_policy_version :: string

text \<open>A derived parent; its hidden handle is an object identity.\<close>

record derived_admission =
  da_root :: root_admission
  da_call_class :: call_class
  da_handle :: nat

datatype admission_parent = Root_Parent root_admission | Derived_Parent derived_admission

text \<open>\<^verbatim>\<open>begin_derived_provider_admission\<close>: the constructor's checks on the root and the class.\<close>

definition begin_derived_provider_admission ::
  "nat \<Rightarrow> admission_parent \<Rightarrow> call_class \<Rightarrow> exc + derived_admission" where
  "begin_derived_provider_admission handle parent cls =
     (case parent of
        Derived_Parent _ \<Rightarrow> Inl (TypeError ''derived admission requires a root admission'')
      | Root_Parent r \<Rightarrow>
          if cls \<notin> {Daemon_Call, Avatar_Child_Call} then
            Inl (ValueError ''derived admission requires daemon or avatar_child class'')
          else Inr \<lparr>da_root = r, da_call_class = cls, da_handle = handle\<rparr>)"

text \<open>
  What a port hands back when it answers with a decision object: Python does not check the fields, so the
  state and the source may be of another type (\<open>None\<close>) and the strings any value. A lease is named by a number.
\<close>

record call_decision =
  cd_state :: "admission_state option"
  cd_reason_code :: py
  cd_source :: "decision_source option"

record launch_decision =
  ld_state :: "admission_state option"
  ld_reason_code :: py
  ld_audit_id :: py
  ld_lease :: "nat option"
  ld_source :: "decision_source option"

definition local_launch_decision :: "admission_state \<Rightarrow> string \<Rightarrow> launch_decision" where
  "local_launch_decision st reason =
     \<lparr>ld_state = Some st, ld_reason_code = PStr reason, ld_audit_id = PNone, ld_lease = None,
      ld_source = Some From_Local_Policy\<rparr>"

definition launch_allowed :: "launch_decision \<Rightarrow> bool" where
  "launch_allowed d \<longleftrightarrow> ld_state d = Some Granted"

datatype admission_error =
    Provider_Admission_Error string admission_state decision_source
  | Launch_Admission_Error launch_decision
  | Other_Error exc

text \<open>A port call: it raises, or returns a decision object or something else (\<open>None\<close>).\<close>

type_synonym call_port = "admission_parent \<Rightarrow> call_class \<Rightarrow> exc + call_decision option"

datatype launch_answer =
    Launch_Refused launch_decision
  | Launch_Raised exc
  | Launch_Answer "launch_decision option"

type_synonym launch_port = "root_admission \<Rightarrow> launch_capability \<Rightarrow> launch_answer"

section \<open>The context variable\<close>

text \<open>The current parent and the tokens handed out: the value each restores and whether it was used.\<close>

record admission_ctx =
  cx_current :: "admission_parent option"
  cx_tokens :: "(admission_parent option \<times> bool) list"

definition init_ctx :: admission_ctx where
  "init_ctx = \<lparr>cx_current = None, cx_tokens = []\<rparr>"

definition bind_provider_admission :: "admission_parent \<Rightarrow> admission_ctx \<Rightarrow> nat \<times> admission_ctx" where
  "bind_provider_admission parent cx =
     (length (cx_tokens cx),
      cx\<lparr>cx_current := Some parent, cx_tokens := cx_tokens cx @ [(cx_current cx, False)]\<rparr>)"

definition clear_provider_admission :: "nat \<Rightarrow> admission_ctx \<Rightarrow> exc + admission_ctx" where
  "clear_provider_admission tok cx =
     (if tok \<ge> length (cx_tokens cx) then Inl (ValueError ''token'')
      else case cx_tokens cx ! tok of
        (_, True) \<Rightarrow> Inl (RuntimeError ''Token has already been used once'')
      | (old, False) \<Rightarrow> Inr (cx\<lparr>cx_current := old, cx_tokens := (cx_tokens cx)[tok := (old, True)]\<rparr>))"

definition clear_current_provider_admission :: "admission_ctx \<Rightarrow> admission_ctx" where
  "clear_current_provider_admission cx =
     cx\<lparr>cx_current := None, cx_tokens := cx_tokens cx @ [(cx_current cx, False)]\<rparr>"

definition current_provider_call_class :: "admission_ctx \<Rightarrow> call_class" where
  "current_provider_call_class cx =
     (case cx_current cx of Some (Derived_Parent d) \<Rightarrow> da_call_class d | _ \<Rightarrow> Root_Call)"

section \<open>The provider-call check\<close>

definition reason_text :: "py \<Rightarrow> string option" where
  "reason_text v = (case v of PStr s \<Rightarrow> if s \<noteq> [] then Some s else None | _ \<Rightarrow> None)"

definition well_formed_grant :: "call_decision \<Rightarrow> bool" where
  "well_formed_grant d \<longleftrightarrow>
     cd_state d = Some Granted \<and> reason_text (cd_reason_code d) \<noteq> None \<and> cd_source d \<noteq> None"

definition refusal :: "call_decision option \<Rightarrow> admission_error" where
  "refusal answer =
     (case answer of
        None \<Rightarrow> Provider_Admission_Error ''provider_call_not_admitted'' Indeterminate From_Local_Policy
      | Some d \<Rightarrow>
          Provider_Admission_Error
            (case reason_text (cd_reason_code d) of Some s \<Rightarrow> s | None \<Rightarrow> ''provider_call_not_admitted'')
            (case cd_state d of Some st \<Rightarrow> st | None \<Rightarrow> Indeterminate)
            (case cd_source d of Some src \<Rightarrow> src | None \<Rightarrow> From_Local_Policy))"

text \<open>The port's answer as the check reads it: an exception becomes an indeterminate decision.\<close>

definition port_answer :: "call_port \<Rightarrow> admission_parent \<Rightarrow> call_class \<Rightarrow> call_decision option" where
  "port_answer port parent cls =
     (case port parent cls of
        Inl _ \<Rightarrow> Some \<lparr>cd_state = Some Indeterminate, cd_reason_code = PStr ''provider_admission_port_error'',
                     cd_source = Some From_Local_Policy\<rparr>
      | Inr answer \<Rightarrow> answer)"

definition require_provider_admission :: "call_port option \<Rightarrow> admission_ctx \<Rightarrow> admission_error + unit" where
  "require_provider_admission port cx =
     (case port of
        None \<Rightarrow> Inr ()
      | Some p \<Rightarrow>
          (case cx_current cx of
             None \<Rightarrow> Inl (Provider_Admission_Error ''missing_provider_admission'' Denied From_Local_Policy)
           | Some parent \<Rightarrow>
               (case port_answer p parent (current_provider_call_class cx) of
                  Some d \<Rightarrow> if well_formed_grant d then Inr () else Inl (refusal (Some d))
                | None \<Rightarrow> Inl (refusal None))))"

section \<open>The derived-launch check\<close>

text \<open>\<open>closing\<close> is what closing a lease does: nothing, or an exception, of which an \<^verbatim>\<open>OSError\<close> is swallowed.
  The second component of a result lists the leases whose \<^verbatim>\<open>close\<close> was called.\<close>

definition discard_launch_decision ::
  "(nat \<Rightarrow> exc option) \<Rightarrow> launch_decision option \<Rightarrow> string \<Rightarrow> (exc + launch_decision) \<times> nat list" where
  "discard_launch_decision closing decision reason =
     (case decision of
        Some d \<Rightarrow>
          (case ld_lease d of
             Some l \<Rightarrow>
               (case closing l of
                  None \<Rightarrow> (Inr (local_launch_decision Indeterminate reason), [l])
                | Some (OSError _) \<Rightarrow> (Inr (local_launch_decision Indeterminate reason), [l])
                | Some e \<Rightarrow> (Inl e, [l]))
           | None \<Rightarrow> (Inr (local_launch_decision Indeterminate reason), []))
      | None \<Rightarrow> (Inr (local_launch_decision Indeterminate reason), []))"

definition well_formed_launch :: "launch_decision \<Rightarrow> bool" where
  "well_formed_launch d \<longleftrightarrow>
     ld_state d \<noteq> None \<and> reason_text (ld_reason_code d) \<noteq> None \<and> ld_source d \<noteq> None \<and>
     (ld_audit_id d = PNone \<or> reason_text (ld_audit_id d) \<noteq> None)"

definition finish_launch :: "launch_decision \<Rightarrow> admission_error + launch_decision" where
  "finish_launch d = (if launch_allowed d then Inr d else Inl (Launch_Admission_Error d))"

definition require_derived_launch_admission ::
  "(nat \<Rightarrow> exc option) \<Rightarrow> launch_port option \<Rightarrow> bool \<Rightarrow> launch_capability \<Rightarrow> admission_ctx
     \<Rightarrow> (admission_error + launch_decision) \<times> nat list" where
  "require_derived_launch_admission closing port required capability cx =
     (case port of
        None \<Rightarrow>
          (if required then
             Inl (Launch_Admission_Error
               (local_launch_decision Indeterminate ''required_derived_launch_admission_port_missing''))
           else Inr (local_launch_decision Granted ''legacy_default''), [])
      | Some p \<Rightarrow>
          (case cx_current cx of
             Some (Root_Parent r) \<Rightarrow>
               (case p r capability of
                  Launch_Refused d \<Rightarrow> (Inl (Launch_Admission_Error d), [])
                | Launch_Raised e \<Rightarrow>
                    (finish_launch (local_launch_decision Indeterminate ''derived_launch_admission_port_error''), [])
                | Launch_Answer answer \<Rightarrow>
                    (case answer of
                       Some d \<Rightarrow>
                         if well_formed_launch d then (finish_launch d, [])
                         else
                           (case discard_launch_decision closing (Some d) ''malformed_derived_launch_admission_decision'' of
                              (Inl e, ls) \<Rightarrow> (Inl (Other_Error e), ls)
                            | (Inr d', ls) \<Rightarrow> (finish_launch d', ls))
                     | None \<Rightarrow>
                         (case discard_launch_decision closing None ''malformed_derived_launch_admission_decision'' of
                            (Inl e, ls) \<Rightarrow> (Inl (Other_Error e), ls)
                          | (Inr d', ls) \<Rightarrow> (finish_launch d', ls))))
           | Some (Derived_Parent _) \<Rightarrow>
               (Inl (Launch_Admission_Error (local_launch_decision Denied ''nested_derived_launch_denied'')), [])
           | None \<Rightarrow>
               (Inl (Launch_Admission_Error (local_launch_decision Denied ''missing_root_provider_admission'')), [])))"


section \<open>The proxies\<close>

text \<open>
  Provider calls, and the audit trail of an execution context: each consultation of the driver's port with
  its outcome, and each call that reached the provider.
\<close>

datatype provider_op = Send nat py | Send_Stream nat py | Generate py

datatype ('c, 'op) audit = Consulted 'c bool | Provider_IO 'op

definition consults :: "('c, 'op) audit list \<Rightarrow> nat" where
  "consults trail = length (filter (\<lambda>a. case a of Consulted _ _ \<Rightarrow> True | _ \<Rightarrow> False) trail)"

text \<open>The check of a proxy in front of one call to the wrapped object.\<close>

definition guarded_call ::
  "('w \<Rightarrow> (admission_error + unit) \<times> 'w) \<Rightarrow> ('op \<Rightarrow> 'w \<Rightarrow> (exc + py) \<times> 'w) \<Rightarrow> 'op \<Rightarrow> 'w \<Rightarrow> (admission_error + py) \<times> 'w" where
  "guarded_call gate perform op w =
     (case gate w of
        (Inl e, w1) \<Rightarrow> (Inl e, w1)
      | (Inr _, w1) \<Rightarrow>
          (case perform op w1 of (Inl e, w2) \<Rightarrow> (Inl (Other_Error e), w2) | (Inr v, w2) \<Rightarrow> (Inr v, w2)))"

record admission_world =
  aw_ctx :: admission_ctx
  aw_log :: "(admission_parent \<times> call_class, provider_op) audit list"

text \<open>The driver decides each call anew: its port is indexed by the consultations made so far.\<close>

definition admission_check :: "(nat \<Rightarrow> call_port) option \<Rightarrow> admission_world \<Rightarrow> (admission_error + unit) \<times> admission_world" where
  "admission_check port w =
     (let r = require_provider_admission (map_option (\<lambda>p. p (consults (aw_log w))) port) (aw_ctx w)
      in (r, case (port, cx_current (aw_ctx w)) of
               (Some _, Some parent) \<Rightarrow>
                 w\<lparr>aw_log := aw_log w @ [Consulted (parent, current_provider_call_class (aw_ctx w)) (r = Inr ())]\<rparr>
             | _ \<Rightarrow> w))"

definition provider_io :: "(provider_op \<Rightarrow> exc + py) \<Rightarrow> provider_op \<Rightarrow> admission_world \<Rightarrow> (exc + py) \<times> admission_world" where
  "provider_io inner op w = (inner op, w\<lparr>aw_log := aw_log w @ [Provider_IO op]\<rparr>)"

text \<open>\<^verbatim>\<open>ProviderAdmittedChatSession\<close> and \<^verbatim>\<open>ProviderAdmittedLLMService\<close>: a proxy names the wrapped session.\<close>

record admitted_session =
  as_inner :: nat

definition service_create_session :: "exc + nat \<Rightarrow> exc + admitted_session" where
  "service_create_session inner = ebind inner (\<lambda>s. Inr \<lparr>as_inner = s\<rparr>)"

definition service_get_session :: "nat option \<Rightarrow> admitted_session option" where
  "service_get_session inner = map_option (\<lambda>s. \<lparr>as_inner = s\<rparr>) inner"

definition session_send where
  "session_send port inner s message = guarded_call (admission_check port) (provider_io inner) (Send (as_inner s) message)"

definition session_send_stream where
  "session_send_stream port inner s message =
     guarded_call (admission_check port) (provider_io inner) (Send_Stream (as_inner s) message)"

definition service_generate where
  "service_generate port inner prompt = guarded_call (admission_check port) (provider_io inner) (Generate prompt)"

text \<open>What a client of the proxies and of the context can do.\<close>

datatype admission_op =
    Op_Bind admission_parent | Op_Clear nat | Op_Clear_Current
  | Op_Send admitted_session py | Op_Send_Stream admitted_session py | Op_Generate py

fun run_op :: "(nat \<Rightarrow> call_port) option \<Rightarrow> (provider_op \<Rightarrow> exc + py) \<Rightarrow> admission_op \<Rightarrow> admission_world \<Rightarrow> admission_world" where
  "run_op port inner (Op_Bind p) w = w\<lparr>aw_ctx := snd (bind_provider_admission p (aw_ctx w))\<rparr>"
| "run_op port inner (Op_Clear t) w =
     (case clear_provider_admission t (aw_ctx w) of Inl _ \<Rightarrow> w | Inr cx \<Rightarrow> w\<lparr>aw_ctx := cx\<rparr>)"
| "run_op port inner Op_Clear_Current w = w\<lparr>aw_ctx := clear_current_provider_admission (aw_ctx w)\<rparr>"
| "run_op port inner (Op_Send s m) w = snd (session_send port inner s m w)"
| "run_op port inner (Op_Send_Stream s m) w = snd (session_send_stream port inner s m w)"
| "run_op port inner (Op_Generate p) w = snd (service_generate port inner p w)"

definition init_world :: admission_world where
  "init_world = \<lparr>aw_ctx = init_ctx, aw_log = []\<rparr>"

section \<open>The contract of the gate\<close>

text \<open>Each provider call follows directly on a consultation, all its own, that granted it.\<close>

definition io_granted :: "(nat \<Rightarrow> 'c \<Rightarrow> bool) \<Rightarrow> ('c, 'op) audit list \<Rightarrow> bool" where
  "io_granted granted trail \<longleftrightarrow>
     (\<forall>pre op post. trail = pre @ Provider_IO op # post \<longrightarrow>
        (\<exists>before c. pre = before @ [Consulted c True] \<and> granted (consults before) c))"

lemma io_granted_Nil [simp]: "io_granted g []"
  by (simp add: io_granted_def)

lemma io_granted_consult: "io_granted g xs \<Longrightarrow> io_granted g (xs @ [Consulted c b])"
  unfolding io_granted_def
proof (intro allI impI)
  fix pre op post
  assume ok: "\<forall>pre op post. xs = pre @ Provider_IO op # post \<longrightarrow>
      (\<exists>before c. pre = before @ [Consulted c True] \<and> g (consults before) c)"
    and eq: "xs @ [Consulted c b] = pre @ Provider_IO op # post"
  from eq obtain post' where "xs = pre @ Provider_IO op # post'"
    by (cases post rule: rev_cases) auto
  with ok show "\<exists>before c. pre = before @ [Consulted c True] \<and> g (consults before) c" by blast
qed

lemma io_granted_call:
  assumes "io_granted g xs" "g (consults xs) c"
  shows "io_granted g (xs @ [Consulted c True, Provider_IO op])"
  unfolding io_granted_def
proof (intro allI impI)
  fix pre op' post
  assume eq: "xs @ [Consulted c True, Provider_IO op] = pre @ Provider_IO op' # post"
  show "\<exists>before c. pre = before @ [Consulted c True] \<and> g (consults before) c"
  proof (cases post rule: rev_cases)
    case Nil
    with eq assms(2) show ?thesis by auto
  next
    case (snoc post' z)
    with eq have "xs @ [Consulted c True] = pre @ Provider_IO op' # post'" by (metis append_Cons append_assoc append_butlast_last_id butlast.simps(2) butlast_append butlast_snoc list.distinct(1) append_Nil)
    with io_granted_consult [OF assms(1), of c True] show ?thesis unfolding io_granted_def by blast
  qed
qed

locale admission_gate =
  fixes gate :: "'w \<Rightarrow> (admission_error + unit) \<times> 'w"
    and perform :: "'op \<Rightarrow> 'w \<Rightarrow> (exc + py) \<times> 'w"
    and trail :: "'w \<Rightarrow> ('c, 'op) audit list"
    and granted :: "nat \<Rightarrow> 'c \<Rightarrow> bool"
  assumes gate_grants: "gate w = (Inr u, w') \<Longrightarrow>
      \<exists>c. trail w' = trail w @ [Consulted c True] \<and> granted (consults (trail w)) c"
    and gate_refuses: "gate w = (Inl e, w') \<Longrightarrow> trail w' = trail w \<or> (\<exists>c. trail w' = trail w @ [Consulted c False])"
    and perform_logs: "trail (snd (perform op w)) = trail w @ [Provider_IO op]"
begin

lemma guarded_call_granted:
  assumes "io_granted granted (trail w)"
  shows "io_granted granted (trail (snd (guarded_call gate perform op w)))"
proof (cases "gate w")
  case (Pair r w1)
  show ?thesis
  proof (cases r)
    case (Inl e)
    with Pair gate_refuses [of w e w1] assms show ?thesis by (auto simp: guarded_call_def io_granted_consult)
  next
    case (Inr u)
    with Pair gate_grants [of w u w1] obtain c where c: "trail w1 = trail w @ [Consulted c True]"
      "granted (consults (trail w)) c" by auto
    have "trail (snd (guarded_call gate perform op w)) = trail w @ [Consulted c True, Provider_IO op]"
      using Inr Pair c(1) perform_logs [of op w1] by (auto simp: guarded_call_def split: prod.splits sum.splits)
    with io_granted_call [OF assms c(2), of op] show ?thesis by simp
  qed
qed

lemma guarded_call_refused:
  "gate w = (Inl e, w') \<Longrightarrow> guarded_call gate perform op w = (Inl e, w')"
  by (simp add: guarded_call_def)

end

text \<open>The driver's answer that lets a call through: a well-formed grant for the parent and its class.\<close>

definition driver_granted :: "(nat \<Rightarrow> call_port) \<Rightarrow> nat \<Rightarrow> admission_parent \<times> call_class \<Rightarrow> bool" where
  "driver_granted port n c \<longleftrightarrow>
     (\<exists>d. port n (fst c) (snd c) = Inr (Some d) \<and> well_formed_grant d) \<and>
     snd c = (case fst c of Derived_Parent d \<Rightarrow> da_call_class d | Root_Parent _ \<Rightarrow> Root_Call)"

lemma require_grants:
  "require_provider_admission (Some p) cx = Inr u \<longleftrightarrow>
     (\<exists>parent d. cx_current cx = Some parent \<and> p parent (current_provider_call_class cx) = Inr (Some d) \<and>
        well_formed_grant d)"
  by (auto simp: require_provider_admission_def port_answer_def well_formed_grant_def
      split: option.splits sum.splits if_splits)

interpretation provider_gate: admission_gate "admission_check (Some port)" "provider_io inner" aw_log "driver_granted port"
  for port inner
proof
  fix w u w' assume a: "admission_check (Some port) w = (Inr u, w')"
  then obtain parent d where p: "cx_current (aw_ctx w) = Some parent" "well_formed_grant d"
      "port (consults (aw_log w)) parent (current_provider_call_class (aw_ctx w)) = Inr (Some d)"
    by (auto simp: admission_check_def Let_def require_grants)
  have "driver_granted port (consults (aw_log w)) (parent, current_provider_call_class (aw_ctx w))"
    using p by (auto simp: driver_granted_def current_provider_call_class_def split: admission_parent.splits)
  moreover have "aw_log w' = aw_log w @ [Consulted (parent, current_provider_call_class (aw_ctx w)) True]"
    using a p(1) by (auto simp: admission_check_def Let_def)
  ultimately show "\<exists>c. aw_log w' = aw_log w @ [Consulted c True] \<and> driver_granted port (consults (aw_log w)) c"
    by blast
next
  fix w e w' assume "admission_check (Some port) w = (Inl e, w')"
  then show "aw_log w' = aw_log w \<or> (\<exists>c. aw_log w' = aw_log w @ [Consulted c False])"
    by (auto simp: admission_check_def Let_def split: option.splits)
qed (simp add: provider_io_def)


section \<open>Every operation keeps the trail\<close>

lemma run_op_granted:
  "io_granted (driver_granted port) (aw_log w) \<Longrightarrow> io_granted (driver_granted port) (aw_log (run_op (Some port) inner op w))"
  by (cases op)
    (auto simp: session_send_def session_send_stream_def service_generate_def provider_gate.guarded_call_granted
      split: sum.splits)

lemma run_ops_granted:
  "io_granted (driver_granted port) (aw_log w) \<Longrightarrow>
     io_granted (driver_granted port) (aw_log (fold (run_op (Some port) inner) ops w))"
  by (induction ops arbitrary: w) (simp_all add: run_op_granted)

text \<open>The parents a context can ever name are those that were bound in it.\<close>

definition known_parents :: "admission_world \<Rightarrow> admission_parent set" where
  "known_parents w = {p. cx_current (aw_ctx w) = Some p} \<union> {p. \<exists>u. (Some p, u) \<in> set (cx_tokens (aw_ctx w))}
     \<union> {p. \<exists>c b. Consulted (p, c) b \<in> set (aw_log w)}"

lemma admission_check_known: "known_parents (snd (admission_check port w)) \<subseteq> known_parents w"
  by (auto simp: admission_check_def Let_def known_parents_def split: option.splits)

lemma provider_io_known: "known_parents (snd (provider_io inner op w)) = known_parents w"
  by (auto simp: provider_io_def known_parents_def)

lemma guarded_known: "known_parents (snd (guarded_call (admission_check port) (provider_io inner) op w)) \<subseteq> known_parents w"
proof (cases "admission_check port w")
  case (Pair r w1)
  with admission_check_known [of port w] provider_io_known [of inner op w1] show ?thesis
    by (auto simp: guarded_call_def split: sum.splits prod.splits)
qed

lemma clear_known:
  assumes "clear_provider_admission t (aw_ctx w) = Inr cx"
  shows "known_parents (w\<lparr>aw_ctx := cx\<rparr>) \<subseteq> known_parents w"
proof -
  obtain old where t: "t < length (cx_tokens (aw_ctx w))" "cx_tokens (aw_ctx w) ! t = (old, False)"
    and cx: "cx = (aw_ctx w)\<lparr>cx_current := old, cx_tokens := (cx_tokens (aw_ctx w))[t := (old, True)]\<rparr>"
    using assms by (auto simp: clear_provider_admission_def split: if_splits prod.splits bool.splits)
  then have "(old, False) \<in> set (cx_tokens (aw_ctx w))" by (metis nth_mem)
  then show ?thesis using set_update_subset_insert [of "cx_tokens (aw_ctx w)" t "(old, True)"]
    unfolding cx known_parents_def by fastforce
qed

lemma bind_known: "known_parents (w\<lparr>aw_ctx := snd (bind_provider_admission p (aw_ctx w))\<rparr>) \<subseteq> insert p (known_parents w)"
  by (auto simp: bind_provider_admission_def known_parents_def)

lemma clear_current_known:
  "known_parents (w\<lparr>aw_ctx := clear_current_provider_admission (aw_ctx w)\<rparr>) \<subseteq> known_parents w"
  by (auto simp: clear_current_provider_admission_def known_parents_def)

lemma run_op_known:
  "known_parents (run_op port inner op w) \<subseteq> known_parents w \<union> {p. op = Op_Bind p}"
proof (cases op)
  case (Op_Bind p)
  then show ?thesis using bind_known [where w = w and p = p] by auto
next
  case (Op_Clear t)
  then show ?thesis using clear_known [where w = w and t = t] by (auto split: sum.splits)
next
  case Op_Clear_Current
  then show ?thesis using clear_current_known [where w = w] by simp
qed (simp_all add: session_send_def session_send_stream_def service_generate_def guarded_known)

lemma run_ops_known:
  "known_parents (fold (run_op port inner) ops w) \<subseteq> known_parents w \<union> {p. Op_Bind p \<in> set ops}"
proof (induction ops arbitrary: w)
  case (Cons op ops)
  from Cons.IH [of "run_op port inner op w"] run_op_known [of port inner op w] show ?case by auto
qed simp

section \<open>Properties\<close>

text \<open>C21: under a restricted profile no call reaches the model provider without a grant of its own. Whatever
  contexts are bound and cleared and whatever calls are made through the session and service proxies,
  each provider call follows directly on one consultation of the driver, which answered a well-formed grant
  to it for a parent that was bound in this context and the call class of that parent; grants are never
  reused and never inferred.\<close>

theorem provider_io_needs_fresh_grant:
  assumes "aw_log (fold (run_op (Some port) inner) ops init_world) = pre @ Provider_IO op # post"
  shows "\<exists>before parent cls. pre = before @ [Consulted (parent, cls) True] \<and> Op_Bind parent \<in> set ops \<and>
    driver_granted port (consults before) (parent, cls)"
proof -
  let ?w = "fold (run_op (Some port) inner) ops init_world"
  have "io_granted (driver_granted port) (aw_log ?w)" by (rule run_ops_granted) (simp add: init_world_def)
  with assms obtain before c where c: "pre = before @ [Consulted c True]" "driver_granted port (consults before) c"
    unfolding io_granted_def by blast
  have "Consulted (fst c, snd c) True \<in> set (aw_log ?w)" using assms c(1) by simp
  then have "fst c \<in> known_parents ?w" unfolding known_parents_def by blast
  moreover have "known_parents init_world = {}" by (simp add: known_parents_def init_world_def init_ctx_def)
  ultimately have "Op_Bind (fst c) \<in> set ops" using run_ops_known [of "Some port" inner ops init_world] by auto
  with c show ?thesis by (intro exI [of _ before] exI [of _ "fst c"] exI [of _ "snd c"]) simp
qed

definition sample_parent :: admission_parent where
  "sample_parent = Root_Parent \<lparr>ra_correlation_id = ''t1'', ra_policy_version = ''v1''\<rparr>"

definition sample_port :: "nat \<Rightarrow> call_port" where
  "sample_port = (\<lambda>n parent cls. Inr (Some \<lparr>cd_state = Some Granted, cd_reason_code = PStr ''ok'',
     cd_source = Some From_Driver\<rparr>))"

lemma provider_io_needs_fresh_grant_witness:
  "\<exists>(before :: (_, provider_op) audit list) parent cls.
     [Consulted (sample_parent, Root_Call) True] = before @ [Consulted (parent, cls) True] \<and> Op_Bind parent \<in> set [Op_Bind sample_parent, Op_Generate (PStr ''hi'')] \<and>
     driver_granted sample_port (consults before) (parent, cls)"
  by (rule provider_io_needs_fresh_grant 
      [where port = sample_port and inner = "\<lambda>_. Inr PNone" and op = "Generate (PStr ''hi'')" and post = "[]"])
    (simp add: init_world_def init_ctx_def sample_parent_def sample_port_def service_generate_def guarded_call_def
      admission_check_def Let_def require_provider_admission_def port_answer_def well_formed_grant_def
      reason_text_def bind_provider_admission_def current_provider_call_class_def provider_io_def)

text \<open>a derived launch is admitted only by the driver's own well-formed grant to a root parent (a nested
  launch is always refused), and no child endpoint is stranded: the lease of an answer that is not handed
  to the caller is either closed, once, or travels in the structured error for the caller to release.\<close>

theorem derived_launch_accounts_leases:
  "case require_derived_launch_admission closing (Some port) required capability cx of
     (Inr d, freed) \<Rightarrow> freed = [] \<and> launch_allowed d \<and> well_formed_launch d \<and>
       (\<exists>r. cx_current cx = Some (Root_Parent r) \<and> port r capability = Launch_Answer (Some d))
   | (Inl e, freed) \<Rightarrow>
       (\<forall>r d l. cx_current cx = Some (Root_Parent r) \<longrightarrow>
          port r capability \<in> {Launch_Answer (Some d), Launch_Refused d} \<longrightarrow> ld_lease d = Some l \<longrightarrow>
          freed = [l] \<or> freed = [] \<and> e = Launch_Admission_Error d)"
  by (auto simp: require_derived_launch_admission_def finish_launch_def discard_launch_decision_def
      launch_allowed_def local_launch_decision_def split: option.splits admission_parent.splits launch_answer.splits
      exc.splits)

lemma derived_launch_accounts_leases_witness:
  "\<not> (\<exists>d. require_derived_launch_admission (\<lambda>_. None)
       (Some (\<lambda>r c. Launch_Answer (Some \<lparr>ld_state = Some Granted, ld_reason_code = PStr [], ld_audit_id = PNone,
          ld_lease = Some 7, ld_source = Some From_Driver\<rparr>))) True Daemon_Launch
       \<lparr>cx_current = Some sample_parent, cx_tokens = []\<rparr> = (Inr d, []))"
  using derived_launch_accounts_leases 
    [where closing = "\<lambda>_. None" and port = "\<lambda>r c. Launch_Answer (Some \<lparr>ld_state = Some Granted,
      ld_reason_code = PStr [], ld_audit_id = PNone, ld_lease = Some 7, ld_source = Some From_Driver\<rparr>)" and
      required = True and capability = Daemon_Launch and cx = "\<lparr>cx_current = Some sample_parent, cx_tokens = []\<rparr>"]
  by (auto simp: well_formed_launch_def reason_text_def)

end
