(* ===== verification/Notification_Attention.thy ===== *)
theory Notification_Attention
  imports Prelude "HOL-Library.Multiset"
begin

text \<open>
  Notification channels and what wakes the agent (\<^verbatim>\<open>kernel/notifications.py\<close>): channel names, the daemon
  channel's batch state and alarm threshold, the mask that turns its content changes into one attention
  token, and the verified read of fingerprint and payloads from a store that other processes write.
\<close>

section \<open>Channel names\<close>

definition is_channel_start :: "char \<Rightarrow> bool" where
  "is_channel_start c \<longleftrightarrow> is_upper c \<or> is_lower c \<or> is_digit c"

definition is_channel_char :: "char \<Rightarrow> bool" where
  "is_channel_char c \<longleftrightarrow> is_channel_start c \<or> c \<in> {CHR ''_'', CHR ''.'', CHR ''-''}"

fun has_dotdot :: "string \<Rightarrow> bool" where
  "has_dotdot (a # b # s) = (a = CHR ''.'' \<and> b = CHR ''.'' \<or> has_dotdot (b # s))"
| "has_dotdot _ = False"

definition channel_syntax_ok :: "string \<Rightarrow> bool" where
  "channel_syntax_ok s = (case s of [] \<Rightarrow> False | c # cs \<Rightarrow> is_channel_start c \<and> list_all is_channel_char cs)"

definition validate_channel_name :: "py \<Rightarrow> exc + string" where
  "validate_channel_name v =
     (case v of
        PStr s \<Rightarrow>
          if s = [] then Inl (ValueError ''channel must be a non-empty string'')
          else if has_dotdot s then Inl (ValueError (''channel must not contain '' @ str_repr ''..''))
          else if \<not> channel_syntax_ok s then
            Inl (ValueError ''channel must match ^[A-Za-z0-9][A-Za-z0-9_.-]*$'')
          else Inr s
      | _ \<Rightarrow> Inl (ValueError ''channel must be a non-empty string''))"

section \<open>The daemon channel\<close>

definition DAEMON_CHANNEL :: string where "DAEMON_CHANNEL = ''daemon''"

definition DAEMON_DELAYED_ATTENTION_TOKEN :: string where
  "DAEMON_DELAYED_ATTENTION_TOKEN = ''daemon:delayed=1''"

text \<open>\<open>config\<close> is the decoded \<^verbatim>\<open>notification.json\<close>, \<open>None\<close> when it cannot be read or decoded.\<close>

definition daemon_alarm_threshold :: "string option \<Rightarrow> py option \<Rightarrow> int option" where
  "daemon_alarm_threshold workdir config =
     (case workdir of
        None \<Rightarrow> None
      | Some w \<Rightarrow>
          if w = [] then None
          else
            (case config of
               Some (PDict c) \<Rightarrow>
                 (case dget c ''channels'' of
                    Some (PDict chans) \<Rightarrow>
                      (case dget chans DAEMON_CHANNEL of
                         Some (PDict d) \<Rightarrow>
                           (case dget d ''alarm_threshold'' of
                              Some (PInt n) \<Rightarrow> if n < 0 then None else Some n
                            | _ \<Rightarrow> None)
                       | _ \<Rightarrow> None)
                  | _ \<Rightarrow> None)
             | _ \<Rightarrow> None))"

text \<open>The \<^verbatim>\<open>data.daemon\<close> object of a payload.\<close>

definition daemon_state_object :: "py \<Rightarrow> dict option" where
  "daemon_state_object payload =
     (case payload of
        PDict p \<Rightarrow>
          (case dget p ''data'' of
             Some (PDict d) \<Rightarrow> (case dget d DAEMON_CHANNEL of Some (PDict s) \<Rightarrow> Some s | _ \<Rightarrow> None)
           | _ \<Rightarrow> None)
      | _ \<Rightarrow> None)"

definition daemon_batch_state :: "py \<Rightarrow> int \<times> bool" where
  "daemon_batch_state payload =
     (case daemon_state_object payload of
        None \<Rightarrow> (0, False)
      | Some s \<Rightarrow>
          ((case dget s ''count'' of Some (PInt n) \<Rightarrow> if n < 0 then 0 else n | _ \<Rightarrow> 0),
           dget s ''alarm_fired'' = Some (PBool True)))"

definition next_daemon_batch_state :: "py \<Rightarrow> int option \<Rightarrow> dict" where
  "next_daemon_batch_state payload threshold =
     (case daemon_batch_state payload of
        (n, alarm_fired) \<Rightarrow>
          let n' = n + 1;
              fired = (case threshold of Some t \<Rightarrow> if n' > t then True else alarm_fired | None \<Rightarrow> alarm_fired)
          in [(''count'', PInt n'), (''alarm_fired'', PBool fired)])"

definition daemon_attention_token :: "py \<Rightarrow> int option \<Rightarrow> bool \<Rightarrow> string option" where
  "daemon_attention_token payload threshold delayed =
     (if delayed then Some DAEMON_DELAYED_ATTENTION_TOKEN
      else
        (case threshold of
           None \<Rightarrow> None
         | Some t \<Rightarrow>
             (case daemon_batch_state payload of
                (n, alarm_fired) \<Rightarrow>
                  Some (''daemon:alarm='' @ (if alarm_fired \<or> n > t then ''1'' else ''0'')))))"

text \<open>A fingerprint: file name, size and digest of each channel file.\<close>

type_synonym fingerprint = "(string \<times> int \<times> string) list"

definition daemon_file :: string where "daemon_file = DAEMON_CHANNEL @ ''.json''"

definition apply_daemon_attention_mask :: "fingerprint \<Rightarrow> py \<Rightarrow> int option \<Rightarrow> bool \<Rightarrow> fingerprint" where
  "apply_daemon_attention_mask fp payload threshold delayed =
     (case daemon_attention_token payload threshold delayed of
        None \<Rightarrow> fp
      | Some token \<Rightarrow>
          let masked = map (\<lambda>e. if fst e = daemon_file then (fst e, 0, token) else e) fp;
              masked' = (if \<exists>e\<in>set masked. fst e = daemon_file then masked else masked @ [(daemon_file, 0, token)])
          in sort_key fst masked')"

text \<open>\<open>active_target\<close>: the channel of the live delay record, when one is live.\<close>

definition masked_empty_attention_fp :: "string option \<Rightarrow> py option \<Rightarrow> string option \<Rightarrow> fingerprint" where
  "masked_empty_attention_fp workdir config active_target =
     (let threshold = daemon_alarm_threshold workdir config;
          delayed = (active_target = Some DAEMON_CHANNEL)
      in if threshold = None \<and> \<not> delayed then [] else apply_daemon_attention_mask [] PNone threshold delayed)"

section \<open>The verified read\<close>

text \<open>
  The store answers its reads one after the other; \<open>n\<close> is the position of a read in that order. Each read
  may fail. A consumer filter hides a delayed target other than the daemon channel.
\<close>

record notif_store =
  ns_fingerprint :: "nat \<Rightarrow> (string \<Rightarrow> bool) \<Rightarrow> exc + fingerprint"
  ns_snapshot :: "nat \<Rightarrow> (string \<Rightarrow> bool) \<Rightarrow> exc + (string \<times> py) list"

definition COHERENT_READ_ATTEMPTS :: nat where "COHERENT_READ_ATTEMPTS = 3"

record coherent_read =
  cr_raw_fp :: fingerprint
  cr_masked_fp :: fingerprint
  cr_payloads :: "(string \<times> py) list"
  cr_stable :: bool

definition read_triple ::
  "notif_store \<Rightarrow> (string \<Rightarrow> bool) \<Rightarrow> nat \<Rightarrow> exc + fingerprint \<times> (string \<times> py) list \<times> fingerprint" where
  "read_triple store allow n =
     ebind (ns_fingerprint store n allow) (\<lambda>before.
     ebind (ns_snapshot store (n + 1) allow) (\<lambda>payloads.
     ebind (ns_fingerprint store (n + 2) allow) (\<lambda>after.
       Inr (before, payloads, after))))"

text \<open>The left result is the early return after a failed read.\<close>

fun read_attempts ::
  "notif_store \<Rightarrow> (string \<Rightarrow> bool) \<Rightarrow> nat \<Rightarrow> nat \<Rightarrow> fingerprint \<Rightarrow> (string \<times> py) list
     \<Rightarrow> fingerprint + fingerprint \<times> (string \<times> py) list \<times> bool" where
  "read_attempts store allow 0 n raw_fp payloads = Inr (raw_fp, payloads, False)"
| "read_attempts store allow (Suc k) n raw_fp payloads =
     (case read_triple store allow n of
        Inl _ \<Rightarrow> Inl raw_fp
      | Inr (before, payloads', after) \<Rightarrow>
          if before = after then Inr (after, payloads', True)
          else read_attempts store allow k (n + 3) after payloads')"

definition consumer_allow :: "(string \<Rightarrow> bool) \<Rightarrow> string option \<Rightarrow> string \<Rightarrow> bool" where
  "consumer_allow allow delayed_target channel \<longleftrightarrow>
     allow channel \<and> Some channel \<noteq> (if delayed_target = Some DAEMON_CHANNEL then None else delayed_target)"

definition coherent_attention_read ::
  "notif_store \<Rightarrow> (string \<Rightarrow> bool) \<Rightarrow> string option \<Rightarrow> int option \<Rightarrow> coherent_read" where
  "coherent_attention_read store allow delayed_target threshold =
     (let daemon_delayed = (delayed_target = Some DAEMON_CHANNEL)
      in case read_attempts store (consumer_allow allow delayed_target) COHERENT_READ_ATTEMPTS 0 [] [] of
           Inl raw_fp \<Rightarrow> \<lparr>cr_raw_fp = raw_fp, cr_masked_fp = raw_fp, cr_payloads = [], cr_stable = False\<rparr>
         | Inr (raw_fp, payloads, calm) \<Rightarrow>
             \<lparr>cr_raw_fp = raw_fp,
              cr_masked_fp =
                (if threshold = None \<and> \<not> daemon_delayed then raw_fp
                 else apply_daemon_attention_mask raw_fp (dgetd payloads DAEMON_CHANNEL PNone) threshold daemon_delayed),
              cr_payloads = payloads, cr_stable = calm\<rparr>)"

definition attention_fingerprint where
  "attention_fingerprint store allow delayed_target threshold =
     cr_masked_fp (coherent_attention_read store allow delayed_target threshold)"


section \<open>The batch\<close>

lemma batch_state_next:
  assumes "daemon_state_object p = Some (next_daemon_batch_state q (Some t))" "daemon_batch_state q = (n, f)" "0 \<le> n"
  shows "daemon_batch_state p = (n + 1, f \<or> n + 1 > t)"
  using assms by (auto simp: daemon_batch_state_def [of p] next_daemon_batch_state_def Let_def)

lemma batch_state_run:
  assumes "daemon_state_object (p 0) = None"
    and "\<And>k. daemon_state_object (p (Suc k)) = Some (next_daemon_batch_state (p k) (Some (int t)))"
  shows "daemon_batch_state (p k) = (int k, k > t)"
proof (induction k)
  case 0
  then show ?case using assms(1) by (simp add: daemon_batch_state_def)
next
  case (Suc k)
  have "daemon_batch_state (p (Suc k)) = (int k + 1, k > t \<or> int k + 1 > int t)"
    by (rule batch_state_next [OF assms(2) Suc.IH]) simp
  then show ?case by auto
qed

text \<open>The masked fingerprint depends only on the other channels and the token.\<close>

definition masked_as :: "fingerprint \<Rightarrow> string \<Rightarrow> fingerprint" where
  "masked_as others token = sort_key fst ((daemon_file, 0, token) # others)"

abbreviation others_of :: "fingerprint \<Rightarrow> fingerprint" where
  "others_of fp \<equiv> filter (\<lambda>e. fst e \<noteq> daemon_file) fp"

lemma sort_key_distinct_mset:
  assumes "mset xs = mset ys" "distinct (map fst xs)"
  shows "sort_key fst xs = sort_key fst ys"
proof (rule sort_key_inj_key_eq)
  show "mset xs = mset (sort_key fst ys)" using assms(1) by simp
  show "inj_on fst (set xs)" using assms(2) by (simp add: distinct_map)
qed simp

lemma masked_entries:
  assumes "distinct (map fst fp)" "daemon_attention_token p thr d = Some token"
  defines "masked \<equiv> map (\<lambda>e. if fst e = daemon_file then (fst e, 0, token) else e) fp"
  shows "mset (if \<exists>e\<in>set masked. fst e = daemon_file then masked else masked @ [(daemon_file, 0, token)])
     = mset ((daemon_file, 0, token) # others_of fp)"
proof (cases "daemon_file \<in> fst ` set fp")
  case True
  then obtain e where e: "e \<in> set fp" "fst e = daemon_file" by auto
  obtain xs ys where fp: "fp = xs @ e # ys" using e(1) by (auto simp: in_set_conv_decomp)
  have rest: "\<forall>x\<in>set xs \<union> set ys. fst x \<noteq> daemon_file"
    using assms(1) e(2) fp by (auto simp: rev_image_eqI)
  then have "map (\<lambda>e. if fst e = daemon_file then (fst e, 0, token) else e) xs = xs"
    "map (\<lambda>e. if fst e = daemon_file then (fst e, 0, token) else e) ys = ys"
    by (intro map_idI; simp)+
  with e(2) fp rest have "masked = xs @ (daemon_file, 0, token) # ys" "others_of fp = xs @ ys"
    by (simp_all add: masked_def)
  then show ?thesis by auto
next
  case False
  then have "masked = fp" "others_of fp = fp"
    by (auto simp: masked_def rev_image_eqI intro!: map_idI filter_True)
  with False show ?thesis by (auto simp: image_iff)
qed

lemma mask_masked_as:
  assumes "distinct (map fst fp)" "daemon_attention_token p thr d = Some token"
  shows "apply_daemon_attention_mask fp p thr d = masked_as (others_of fp) token"
proof -
  have "distinct (map fst ((daemon_file, 0, token) # others_of fp))"
    using assms(1) by (auto simp: distinct_map_filter)
  from sort_key_distinct_mset [OF masked_entries [OF assms, symmetric] this] show ?thesis
    unfolding apply_daemon_attention_mask_def masked_as_def assms(2) Let_def option.case by (rule sym)
qed

lemma masked_as_inj [simp]: "masked_as others a = masked_as others b \<longleftrightarrow> a = b"
proof
  assume "masked_as others a = masked_as others b"
  then have "mset (masked_as others a) = mset (masked_as others b)" by simp
  then show "a = b" by (simp add: masked_as_def)
qed simp


section \<open>Reads of a store that others write\<close>

text \<open>
  \<open>dir n\<close> is the content of the directory at the \<open>n\<close>-th read: a successful read shows it, and any read may
  fail.
\<close>

definition observes :: "notif_store \<Rightarrow> (string \<Rightarrow> bool) \<Rightarrow> (nat \<Rightarrow> 'd) \<Rightarrow> ('d \<Rightarrow> fingerprint) \<Rightarrow> ('d \<Rightarrow> (string \<times> py) list) \<Rightarrow> bool" where
  "observes store allow dir fp_of snap_of \<longleftrightarrow>
     (\<forall>n fp. ns_fingerprint store n allow = Inr fp \<longrightarrow> fp = fp_of (dir n)) \<and>
     (\<forall>n ps. ns_snapshot store n allow = Inr ps \<longrightarrow> ps = snap_of (dir n))"

lemma read_triple_observes:
  assumes "observes store allow dir fp_of snap_of" "read_triple store allow n = Inr (before, ps, after)"
  shows "before = fp_of (dir n) \<and> ps = snap_of (dir (n + 1)) \<and> after = fp_of (dir (n + 2))"
  using assms by (auto simp: observes_def read_triple_def dest!: ebind_eq_InrD)

lemma read_attempts_stable:
  assumes "observes store allow dir fp_of snap_of"
    and "read_attempts store allow k n raw0 ps0 = Inr (raw, ps, True)"
  shows "\<exists>m. raw = fp_of (dir m) \<and> raw = fp_of (dir (m + 2)) \<and> ps = snap_of (dir (m + 1))"
  using assms(2)
proof (induction k arbitrary: n raw0 ps0)
  case (Suc k)
  then show ?case using read_triple_observes [OF assms(1), of n]
    by (fastforce split: sum.splits if_splits prod.splits)
qed simp

section \<open>Properties\<close>

text \<open>one wake per daemon batch. With an alarm threshold set, however the batch grows after a clear and
  whatever the notices say, the attention fingerprint of the daemon channel moves at one append only, the one
  that takes the batch's count strictly past the threshold; every other append stays readable without
  waking the agent, provided the other channels are quiet.\<close>

theorem one_wake_per_batch:
  assumes "daemon_state_object (p 0) = None"
    and "\<And>k. daemon_state_object (p (Suc k)) = Some (next_daemon_batch_state (p k) (Some (int t)))"
    and "\<And>k. distinct (map fst (fp k)) \<and> others_of (fp k) = others"
  shows "apply_daemon_attention_mask (fp (Suc k)) (p (Suc k)) (Some (int t)) False
      \<noteq> apply_daemon_attention_mask (fp k) (p k) (Some (int t)) False \<longleftrightarrow> k = t"
proof -
  have token: "daemon_attention_token (p j) (Some (int t)) False
      = Some (''daemon:alarm='' @ (if j > t then ''1'' else ''0''))" for j
    using batch_state_run [OF assms(1,2), of j] by (auto simp: daemon_attention_token_def)
  have "apply_daemon_attention_mask (fp j) (p j) (Some (int t)) False
      = masked_as others (''daemon:alarm='' @ (if j > t then ''1'' else ''0''))" for j
    using mask_masked_as [OF _ token] assms(3) by metis
  then show ?thesis by auto
qed

primrec sample_batch :: "nat \<Rightarrow> py" where
  "sample_batch 0 = PNone"
| "sample_batch (Suc k) = PDict [(''data'', PDict [(''daemon'', PDict (next_daemon_batch_state (sample_batch k) (Some (int 2))))])]"

definition sample_fp :: "nat \<Rightarrow> fingerprint" where
  "sample_fp k = (''email.json'', 9, ''e'') # (if k = 0 then [] else [(''daemon.json'', int k, nat_str k)])"

lemma one_wake_per_batch_witness:
  "apply_daemon_attention_mask (sample_fp 3) (sample_batch 3) (Some (int 2)) False
     \<noteq> apply_daemon_attention_mask (sample_fp 2) (sample_batch 2) (Some (int 2)) False"
proof -
  have "(3::nat) = Suc 2" by simp
  then show ?thesis
    using one_wake_per_batch [of sample_batch 2 sample_fp "[(''email.json'', 9, ''e'')]" 2]
    by (simp add: sample_fp_def daemon_file_def DAEMON_CHANNEL_def daemon_state_object_def)
qed


definition sample_store :: notif_store where
  "sample_store = \<lparr>ns_fingerprint = (\<lambda>n allow. if n = 0 then Inr [] else Inr [(''daemon.json'', 2, ''d'')]),
     ns_snapshot = (\<lambda>n allow. if n = 0 then Inr [] else Inr [(''daemon'', PDict [])])\<rparr>"


text \<open>
  An unstable read can be torn: the fingerprint is the last one taken and the payloads those read before it,
  so callers must not treat the two as one version.
\<close>

lemma unstable_read_can_tear:
  fixes n :: nat
  defines "fp_of \<equiv> \<lambda>n::nat. [(''a.json'', int n, '''')]" and "snap_of \<equiv> \<lambda>n::nat. [(''a'', PInt (int n))]"
  defines "store \<equiv> \<lparr>ns_fingerprint = (\<lambda>n allow. Inr (fp_of n)), ns_snapshot = (\<lambda>n allow. Inr (snap_of n))\<rparr>"
  shows "observes store (consumer_allow (\<lambda>_. True) None) (\<lambda>n. n) fp_of snap_of \<and>
    (cr_raw_fp (coherent_attention_read store (\<lambda>_. True) None None) = fp_of n \<longrightarrow>
       cr_payloads (coherent_attention_read store (\<lambda>_. True) None None) \<noteq> snap_of n)"
  by (simp add: observes_def assms coherent_attention_read_def COHERENT_READ_ATTEMPTS_def numeral_3_eq_3 read_triple_def)

end
