(* ===== verification/Hook_Registry.thy ===== *)
theory Hook_Registry
  imports Notification_Attention Tool_Guard
begin

text \<open>
  The channel allowlist and the registry of external hooks (\<^verbatim>\<open>kernel/notifications.py\<close>, with the registry
  file operations of \<^verbatim>\<open>adapters/posix/notification_store.py\<close>): who may publish on which channel, the
  manifests of registered hooks, and the in-memory mirror of the registry the allow predicate consults.
\<close>

section \<open>The module's state\<close>

type_synonym file_stat = "nat \<times> nat"

definition NOTIFICATION_CHANNEL_ALLOWLIST :: "string list" where
  "NOTIFICATION_CHANNEL_ALLOWLIST =
     [''bash'', ''btw'', ''cron'', ''daemon'', ''delay-alarm'', ''email'', ''goal'', ''molt'', ''nudge'', ''post-molt'',
      ''soul'', ''system'', ''tool_loop_guard'']"

definition NOTIFICATION_CHANNEL_PREFIX_ALLOWLIST :: "string list" where
  "NOTIFICATION_CHANNEL_PREFIX_ALLOWLIST = [''mcp.'']"

definition STORE_RESERVED_NON_CHANNEL_STEMS :: "string list" where
  "STORE_RESERVED_NON_CHANNEL_STEMS = [''hooks'', ''large_result_acks'']"

record channel_policy =
  cp_allowlist :: "string list"
  cp_hooks :: "(string \<times> string list) list"
  cp_seeded :: "string list"
  cp_stat :: "(string \<times> file_stat option) list"
  cp_warned :: "(string option \<times> string list) list"

definition init_policy :: channel_policy where
  "init_policy = \<lparr>cp_allowlist = NOTIFICATION_CHANNEL_ALLOWLIST, cp_hooks = [], cp_seeded = [], cp_stat = [],
     cp_warned = []\<rparr>"

text \<open>The registry file of one agent: what loading it gives, and its stat.\<close>

record hook_file =
  hf_content :: "exc + dict list"
  hf_stat :: "file_stat option"

definition is_channel_allowed :: "channel_policy \<Rightarrow> string option \<Rightarrow> py \<Rightarrow> bool" where
  "is_channel_allowed pol workdir channel =
     (case validate_channel_name channel of
        Inl _ \<Rightarrow> False
      | Inr c \<Rightarrow>
          if c \<in> set (cp_allowlist pol) then True
          else if list_ex (startswith c) NOTIFICATION_CHANNEL_PREFIX_ALLOWLIST then True
          else (case workdir of None \<Rightarrow> False | Some w \<Rightarrow> c \<in> set (dgetd (cp_hooks pol) w [])))"

definition repr_names :: "string list \<Rightarrow> string" where
  "repr_names xs = py_repr (\<lambda>r. '''') (PList (map PStr xs))"

definition validate_allowed_channel :: "channel_policy \<Rightarrow> string option \<Rightarrow> py \<Rightarrow> exc + unit" where
  "validate_allowed_channel pol workdir channel =
     ebind (validate_channel_name channel) (\<lambda>c.
       if is_channel_allowed pol workdir channel then Inr ()
       else Inl (ValueError (''notification channel is not allowlisted: '' @ str_repr c
             @ ''; allowed='' @ repr_names (sort (cp_allowlist pol))
             @ ''; allowed_prefixes='' @ repr_names NOTIFICATION_CHANNEL_PREFIX_ALLOWLIST)))"

definition register_notification_channel :: "py \<Rightarrow> channel_policy \<Rightarrow> exc + channel_policy" where
  "register_notification_channel channel pol =
     ebind (validate_channel_name channel) (\<lambda>c. Inr (pol\<lparr>cp_allowlist := List.insert c (cp_allowlist pol)\<rparr>))"

section \<open>Manifests\<close>

definition REQUIRED_HOOK_FIELDS :: "string list" where
  "REQUIRED_HOOK_FIELDS = [''name'', ''channel'', ''source'', ''description'', ''how_to_modify'', ''how_to_cancel'']"

definition EDITABLE_HOOK_FIELDS :: "string list" where
  "EDITABLE_HOOK_FIELDS =
     [''version'', ''source'', ''description'', ''channel'', ''how_to_modify'', ''how_to_cancel'', ''instructions'']"

definition manifest_channel :: "dict \<Rightarrow> string option" where
  "manifest_channel m = (case dget m ''channel'' of Some (PStr s) \<Rightarrow> if s \<noteq> [] then Some s else None | _ \<Rightarrow> None)"

definition quoted :: "string \<Rightarrow> string" where
  "quoted s = [squote] @ s @ [squote]"

fun check_fields :: "dict \<Rightarrow> string list \<Rightarrow> exc + unit" where
  "check_fields m [] = Inr ()"
| "check_fields m (f # fs) =
     (case dget m f of
        Some (PStr s) \<Rightarrow>
          if s \<noteq> [] then check_fields m fs
          else Inl (ValueError (''hook manifest requires a non-empty string '' @ quoted f))
      | _ \<Rightarrow> Inl (ValueError (''hook manifest requires a non-empty string '' @ quoted f)))"

definition validate_hook_manifest :: "channel_policy \<Rightarrow> dict \<Rightarrow> exc + unit" where
  "validate_hook_manifest pol m =
     ebind (check_fields m REQUIRED_HOOK_FIELDS) (\<lambda>_.
     ebind (validate_channel_name (case manifest_channel m of Some s \<Rightarrow> PStr s | None \<Rightarrow> PNone)) (\<lambda>c.
       if c \<in> set (cp_allowlist pol) then
         Inl (ValueError (''channel '' @ quoted c @ '' is a built-in notification channel; pick a hook-owned name''))
       else if c \<in> set STORE_RESERVED_NON_CHANNEL_STEMS then
         Inl (ValueError (''channel '' @ quoted c @ '' is reserved by the notification store''))
       else Inr ()))"

definition find_manifest :: "dict list \<Rightarrow> string \<Rightarrow> nat option" where
  "find_manifest ms name = find_index (\<lambda>m. dget m ''name'' = Some (PStr name)) ms"

section \<open>The mirror\<close>

definition hook_channels :: "dict list \<Rightarrow> string list" where
  "hook_channels ms = remdups (List.map_filter manifest_channel ms)"

definition sync_hook_registry :: "string option \<Rightarrow> hook_file \<Rightarrow> channel_policy \<Rightarrow> channel_policy" where
  "sync_hook_registry workdir file pol =
     (case workdir of
        None \<Rightarrow> pol
      | Some w \<Rightarrow>
          if dgetd (cp_stat pol) w None = hf_stat file \<and> w \<in> set (cp_seeded pol) then pol
          else
            (case hf_content file of
               Inl _ \<Rightarrow> pol
             | Inr ms \<Rightarrow>
                 pol\<lparr>cp_hooks := dput w (hook_channels ms) (cp_hooks pol),
                     cp_stat := dput w (hf_stat file) (cp_stat pol),
                     cp_seeded := List.insert w (cp_seeded pol)\<rparr>))"

text \<open>
  A mutation of the registry file: whether a write or the removal of an emptied registry fails, and the
  stat of a written file, come from the file system.
\<close>

record file_env =
  fe_write_fails :: "exc option"
  fe_unlink_fails :: bool
  fe_new_stat :: file_stat

type_synonym manifest_mutator = "dict list \<Rightarrow> dict list \<times> bool \<times> dict"

definition update_hook_manifests :: "file_env \<Rightarrow> manifest_mutator \<Rightarrow> hook_file \<Rightarrow> exc + dict \<times> hook_file" where
  "update_hook_manifests fe mutator file =
     ebind (hf_content file) (\<lambda>current.
       case mutator current of
         (ms, change, val) \<Rightarrow>
           if \<not> change then Inr (val, file)
           else if ms = [] then
             Inr (val, if fe_unlink_fails fe then file else \<lparr>hf_content = Inr [], hf_stat = None\<rparr>)
           else
             (case fe_write_fails fe of
                Some e \<Rightarrow> Inl e
              | None \<Rightarrow> Inr (val, \<lparr>hf_content = Inr ms, hf_stat = Some (fe_new_stat fe)\<rparr>)))"

definition update_hook_registry ::
  "file_env \<Rightarrow> string option \<Rightarrow> manifest_mutator \<Rightarrow> hook_file \<Rightarrow> channel_policy \<Rightarrow> (exc + dict) \<times> hook_file \<times> channel_policy" where
  "update_hook_registry fe workdir mutator file pol =
     (case update_hook_manifests fe mutator file of
        Inl e \<Rightarrow> (Inl e, file, pol)
      | Inr (val, file') \<Rightarrow>
          (Inr val, file',
           sync_hook_registry workdir file'
             (case workdir of
                None \<Rightarrow> pol
              | Some w \<Rightarrow> pol\<lparr>cp_seeded := removeAll w (cp_seeded pol), cp_stat := dpop w (cp_stat pol)\<rparr>)))"

definition clear_blocked_channel_warning :: "string option \<Rightarrow> string \<Rightarrow> channel_policy \<Rightarrow> channel_policy" where
  "clear_blocked_channel_warning workdir channel pol =
     (case dget (cp_warned pol) workdir of
        None \<Rightarrow> pol
      | Some ws \<Rightarrow> pol\<lparr>cp_warned := dput workdir (removeAll channel ws) (cp_warned pol)\<rparr>)"

text \<open>Whether the warning event is enqueued, and the policy afterwards.\<close>

definition flag_unregistered_channel :: "string option \<Rightarrow> string \<Rightarrow> channel_policy \<Rightarrow> bool \<times> channel_policy" where
  "flag_unregistered_channel workdir channel pol =
     (if is_channel_allowed pol workdir (PStr channel) then (False, pol)
      else
        let warned = dgetd (cp_warned pol) workdir []
        in if channel \<in> set warned then (False, pol\<lparr>cp_warned := dput workdir warned (cp_warned pol)\<rparr>)
           else (True, pol\<lparr>cp_warned := dput workdir (warned @ [channel]) (cp_warned pol)\<rparr>))"

definition is_present_channel_flagable :: "string \<Rightarrow> bool" where
  "is_present_channel_flagable name =
     (if \<not> endswith name ''.json'' then False
      else
        let stem = take (length name - 5) name
        in if startswith stem ''.'' then False
           else (case validate_channel_name (PStr stem) of Inl _ \<Rightarrow> False | Inr _ \<Rightarrow> True))"

section \<open>The operations of the notification tool\<close>

definition hook_registry_load_failed :: "exc \<Rightarrow> dict" where
  "hook_registry_load_failed e =
     [(''status'', PStr ''error''), (''reason'', PStr ''hook_registry_load_failed''),
      (''message'', PStr (''Could not load hooks.json: '' @ take 300 (exc_text e)))]"

text \<open>The exceptions of a registry update that become a structured result; every other one propagates.\<close>

definition registry_failure :: "exc \<Rightarrow> exc + dict" where
  "registry_failure e =
     (case e of
        OSError _ \<Rightarrow> Inr (hook_registry_load_failed e)
      | OtherException t s \<Rightarrow> if t = ''JSONDecodeError'' then Inr (hook_registry_load_failed e) else Inl e
      | _ \<Rightarrow> Inl e)"

definition reason_of :: "dict \<Rightarrow> py" where
  "reason_of val = dgetd val ''reason'' PNone"

definition opt_py :: "py option \<Rightarrow> py" where
  "opt_py v = (case v of Some w \<Rightarrow> w | None \<Rightarrow> PNone)"

definition channel_conflict :: "string option \<Rightarrow> dict \<Rightarrow> bool" where
  "channel_conflict channel m \<longleftrightarrow> manifest_channel m = channel"

definition channel_in_use :: "string option \<Rightarrow> dict \<Rightarrow> dict" where
  "channel_in_use channel existing =
     [(''reason'', PStr ''channel_in_use''), (''channel'', case channel of Some c \<Rightarrow> PStr c | None \<Rightarrow> PNone),
      (''name'', opt_py (dget existing ''name''))]"

definition add_mutator :: "dict \<Rightarrow> string \<Rightarrow> manifest_mutator" where
  "add_mutator manifest name current =
     (let channel = manifest_channel manifest in
      if find_manifest current name \<noteq> None then
        (current, False, [(''reason'', PStr ''duplicate_name''), (''name'', PStr name)])
      else
        (case find (channel_conflict channel) current of
           Some existing \<Rightarrow> (current, False, channel_in_use channel existing)
         | None \<Rightarrow> (current @ [manifest], True, [(''reason'', PStr ''added''), (''name'', PStr name)])))"

definition with_status :: "string \<Rightarrow> dict \<Rightarrow> dict" where
  "with_status s val = (''status'', PStr s) # val"

definition add_hook ::
  "file_env \<Rightarrow> string option \<Rightarrow> dict \<Rightarrow> hook_file \<Rightarrow> channel_policy \<Rightarrow> (exc + dict) \<times> hook_file \<times> channel_policy" where
  "add_hook fe workdir manifest file pol =
     (case validate_hook_manifest pol manifest of
        Inl e \<Rightarrow> (Inl e, file, pol)
      | Inr _ \<Rightarrow>
          let name = (case dget manifest ''name'' of Some (PStr s) \<Rightarrow> s | _ \<Rightarrow> '''')
          in (case update_hook_registry fe workdir (add_mutator manifest name) file pol of
                (Inl e, file', pol') \<Rightarrow> (registry_failure e, file', pol')
              | (Inr val, file', pol') \<Rightarrow>
                  if reason_of val = PStr ''added'' then
                    (Inr (with_status ''ok'' val), file',
                     (case manifest_channel manifest of
                        Some c \<Rightarrow> clear_blocked_channel_warning workdir c pol' | None \<Rightarrow> pol'))
                  else (Inr (with_status ''error'' val), file', pol')))"

definition edit_mutator :: "channel_policy \<Rightarrow> string \<Rightarrow> dict \<Rightarrow> manifest_mutator" where
  "edit_mutator pol name provided current =
     (case find_manifest current name of
        None \<Rightarrow> (current, False, [(''reason'', PStr ''not_found''), (''name'', PStr name)])
      | Some idx \<Rightarrow>
          let updated = fold (\<lambda>(k, v). dput k v) provided (current ! idx)
          in (case validate_hook_manifest pol updated of
                Inl e \<Rightarrow> (current, False, [(''reason'', PStr ''invalid_manifest''), (''message'', PStr (exc_text e))])
              | Inr _ \<Rightarrow>
                  (case find (channel_conflict (manifest_channel updated)) (remove_nth idx current) of
                     Some existing \<Rightarrow> (current, False, channel_in_use (manifest_channel updated) existing)
                   | None \<Rightarrow> (current[idx := updated], True, [(''reason'', PStr ''edited''), (''name'', PStr name)]))))"

definition edit_hook ::
  "file_env \<Rightarrow> string option \<Rightarrow> string \<Rightarrow> dict \<Rightarrow> hook_file \<Rightarrow> channel_policy \<Rightarrow> (exc + dict) \<times> hook_file \<times> channel_policy" where
  "edit_hook fe workdir name changes file pol =
     (if name = [] then (Inl (ValueError ''edit_hook requires a hook name''), file, pol)
      else if \<not> list_all (\<lambda>(k, _). k \<in> set EDITABLE_HOOK_FIELDS) changes then
        (Inl (ValueError (''not editable hook fields: '' @ repr_names
               (sort (remdups (filter (\<lambda>k. k \<notin> set EDITABLE_HOOK_FIELDS) (map fst changes)))))), file, pol)
      else
        let provided = filter (\<lambda>(_, v). v \<noteq> PNone) changes
        in if provided = [] then
             (Inr [(''status'', PStr ''ok''), (''reason'', PStr ''no_change''), (''name'', PStr name)], file, pol)
           else
             (case update_hook_registry fe workdir (edit_mutator pol name provided) file pol of
                (Inl e, file', pol') \<Rightarrow> (registry_failure e, file', pol')
              | (Inr val, file', pol') \<Rightarrow>
                  if reason_of val = PStr ''edited'' then
                    (Inr (with_status ''ok'' val), file',
                     (case dget provided ''channel'' of
                        Some (PStr c) \<Rightarrow> clear_blocked_channel_warning workdir c pol' | _ \<Rightarrow> pol'))
                  else (Inr (with_status ''error'' val), file', pol')))"

definition drop_mutator :: "string \<Rightarrow> manifest_mutator" where
  "drop_mutator name current =
     (case find_manifest current name of
        None \<Rightarrow> (current, False, [(''reason'', PStr ''not_found''), (''name'', PStr name)])
      | Some idx \<Rightarrow> (remove_nth idx current, True, [(''reason'', PStr ''dropped''), (''name'', PStr name)]))"

definition drop_hook ::
  "file_env \<Rightarrow> string option \<Rightarrow> string \<Rightarrow> hook_file \<Rightarrow> channel_policy \<Rightarrow> (exc + dict) \<times> hook_file \<times> channel_policy" where
  "drop_hook fe workdir name file pol =
     (if name = [] then (Inl (ValueError ''drop_hook requires a hook name''), file, pol)
      else
        (case update_hook_registry fe workdir (drop_mutator name) file pol of
           (Inl e, file', pol') \<Rightarrow> (registry_failure e, file', pol')
         | (Inr val, file', pol') \<Rightarrow>
             (Inr (with_status (if reason_of val = PStr ''dropped'' then ''ok'' else ''error'') val), file', pol')))"

definition list_hooks :: "hook_file \<Rightarrow> dict list + dict" where
  "list_hooks file = (case hf_content file of Inl e \<Rightarrow> Inr (hook_registry_load_failed e) | Inr ms \<Rightarrow> Inl ms)"


section \<open>The registry invariant\<close>

definition registry_ok :: "channel_policy \<Rightarrow> dict list \<Rightarrow> bool" where
  "registry_ok pol ms \<longleftrightarrow>
     (\<forall>m\<in>set ms. validate_hook_manifest pol m = Inr ()) \<and>
     distinct (map (\<lambda>m. dget m ''name'') ms) \<and> distinct (map manifest_channel ms)"

record hook_system =
  hs_file :: hook_file
  hs_policy :: channel_policy

definition init_hooks :: hook_system where
  "init_hooks = \<lparr>hs_file = \<lparr>hf_content = Inr [], hf_stat = None\<rparr>, hs_policy = init_policy\<rparr>"

abbreviation upd_hooks :: "'a \<times> hook_file \<times> channel_policy \<Rightarrow> hook_system" where
  "upd_hooks r \<equiv> \<lparr>hs_file = fst (snd r), hs_policy = snd (snd r)\<rparr>"

inductive hook_step :: "string \<Rightarrow> hook_system \<Rightarrow> hook_system \<Rightarrow> bool" for w where
  h_add: "hook_step w s (upd_hooks (add_hook fe (Some w) manifest (hs_file s) (hs_policy s)))"
| h_edit: "hook_step w s (upd_hooks (edit_hook fe (Some w) name changes (hs_file s) (hs_policy s)))"
| h_drop: "hook_step w s (upd_hooks (drop_hook fe (Some w) name (hs_file s) (hs_policy s)))"
| h_sync: "hook_step w s (s\<lparr>hs_policy := sync_hook_registry (Some w) (hs_file s) (hs_policy s)\<rparr>)"
| h_flag: "hook_step w s (s\<lparr>hs_policy := snd (flag_unregistered_channel workdir channel (hs_policy s))\<rparr>)"

text \<open>The mirror shows the registry, for its own agent only; the manifests are well formed.\<close>

definition hooks_inv :: "string \<Rightarrow> hook_system \<Rightarrow> bool" where
  "hooks_inv w s \<longleftrightarrow>
     (\<exists>ms. hf_content (hs_file s) = Inr ms \<and> registry_ok (hs_policy s) ms \<and>
        set (dgetd (cp_hooks (hs_policy s)) w []) = set (hook_channels ms)) \<and>
     cp_allowlist (hs_policy s) = NOTIFICATION_CHANNEL_ALLOWLIST \<and>
     (\<forall>w'. w' \<noteq> w \<longrightarrow> dgetd (cp_hooks (hs_policy s)) w' [] = [])"

lemma validate_hook_cong: "cp_allowlist pol = cp_allowlist pol' \<Longrightarrow> validate_hook_manifest pol = validate_hook_manifest pol'"
  by (rule ext) (simp add: validate_hook_manifest_def)

lemma registry_ok_cong: "cp_allowlist pol = cp_allowlist pol' \<Longrightarrow> registry_ok pol = registry_ok pol'"
  unfolding registry_ok_def by (drule validate_hook_cong) simp

lemma set_hook_channels: "set (hook_channels ms) = {c. \<exists>m\<in>set ms. manifest_channel m = Some c}"
  by (induction ms) (auto simp: hook_channels_def map_filter_simps split: option.splits)

definition mutator_ok :: "channel_policy \<Rightarrow> manifest_mutator \<Rightarrow> bool" where
  "mutator_ok pol f \<longleftrightarrow> (\<forall>ms ms' change v. registry_ok pol ms \<longrightarrow> f ms = (ms', change, v) \<longrightarrow> registry_ok pol ms')"

lemma fields_checked:
  "check_fields m fs = Inr () \<Longrightarrow> f \<in> set fs \<Longrightarrow> \<exists>s. dget m f = Some (PStr s) \<and> s \<noteq> []"
  by (induction fs) (auto split: option.splits py.splits if_splits)

lemma validated_fields:
  "validate_hook_manifest pol m = Inr () \<Longrightarrow> f \<in> set REQUIRED_HOOK_FIELDS \<Longrightarrow> \<exists>s. dget m f = Some (PStr s) \<and> s \<noteq> []"
  by (auto simp: validate_hook_manifest_def dest!: ebind_eq_InrD fields_checked)

lemma find_None: "find P xs = None \<Longrightarrow> \<forall>x\<in>set xs. \<not> P x"
  by (simp add: find_None_iff)

lemma add_mutator_ok:
  assumes "validate_hook_manifest pol m = Inr ()" "dget m ''name'' = Some (PStr name)"
  shows "mutator_ok pol (add_mutator m name)"
  using assms
  by (auto simp: mutator_ok_def add_mutator_def registry_ok_def find_manifest_def find_index_None_iff Let_def
      channel_conflict_def split: if_splits option.splits dest!: find_None)

lemma distinct_map_remove_nth: "distinct (map f xs) \<Longrightarrow> distinct (map f (remove_nth i xs))"
proof (cases "i < length xs")
  case True
  assume "distinct (map f xs)"
  then have "distinct (map f (take i xs @ xs ! i # drop (Suc i) xs))" using id_take_nth_drop [OF True] by simp
  then show ?thesis by (auto simp: remove_nth_def)
qed (simp add: remove_nth_def)

lemma drop_mutator_ok: "mutator_ok pol (drop_mutator name)"
  by (auto simp: mutator_ok_def drop_mutator_def registry_ok_def distinct_map_remove_nth
      split: option.splits dest: set_mp [OF set_remove_nth_subset] simp del: distinct_map)

lemma dget_fold_dput:
  "j \<notin> fst ` set ps \<Longrightarrow> dget (fold (\<lambda>(k, v). dput k v) ps d) j = dget d j"
  by (induction ps arbitrary: d) auto

lemma distinct_map_update:
  assumes "distinct (map f xs)" "i < length xs" "f y \<notin> f ` set (remove_nth i xs)"
  shows "distinct (map f (xs[i := y]))"
proof -
  have "distinct (map f (take i xs @ xs ! i # drop (Suc i) xs))" using assms(1) id_take_nth_drop [OF assms(2)] by simp
  with assms(3) have "distinct (map f (take i xs @ y # drop (Suc i) xs))"
    by (auto simp: remove_nth_def image_Un)
  then show ?thesis using assms(2) by (simp add: upd_conv_take_nth_drop)
qed

lemma edit_mutator_ok:
  assumes "''name'' \<notin> fst ` set provided"
  shows "mutator_ok pol (edit_mutator pol name provided)"
proof -
  have "registry_ok pol (ms[i := u])"
    if ok: "registry_ok pol ms" and i: "find_manifest ms name = Some i"
      and u: "u = fold (\<lambda>(k, v). dput k v) provided (ms ! i)" "validate_hook_manifest pol u = Inr ()"
      and free: "find (channel_conflict (manifest_channel u)) (remove_nth i ms) = None" for ms i u
  proof -
    from i have lt: "i < length ms" by (auto simp: find_manifest_def dest: find_index_SomeD)
    have name: "dget u ''name'' = dget (ms ! i) ''name''" using u(1) assms by (simp add: dget_fold_dput)
    have "distinct (map (\<lambda>m. dget m ''name'') (take i ms @ ms ! i # drop (Suc i) ms))"
      using ok id_take_nth_drop [OF lt] by (simp add: registry_ok_def del: distinct_map)
    then have "dget u ''name'' \<notin> (\<lambda>m. dget m ''name'') ` set (remove_nth i ms)"
      unfolding name by (auto simp: remove_nth_def)
    moreover have "manifest_channel u \<notin> manifest_channel ` set (remove_nth i ms)"
      using find_None [OF free] by (auto simp: channel_conflict_def)
    ultimately show ?thesis using ok lt u(2)
      by (auto simp: registry_ok_def simp del: distinct_map intro!: distinct_map_update
          dest!: set_mp [OF set_update_subset_insert])
  qed
  then show ?thesis
    by (auto simp: mutator_ok_def edit_mutator_def Let_def split: option.splits sum.splits)
qed


lemma sync_hooks_inv:
  assumes "hf_content file = Inr ms" "registry_ok pol ms" "cp_allowlist pol = NOTIFICATION_CHANNEL_ALLOWLIST"
    and "\<And>w'. w' \<noteq> w \<Longrightarrow> dgetd (cp_hooks pol) w' [] = []"
    and "w \<in> set (cp_seeded pol) \<Longrightarrow> set (dgetd (cp_hooks pol) w []) = set (hook_channels ms)"
  shows "let pol' = sync_hook_registry (Some w) file pol in
    registry_ok pol' ms \<and> cp_allowlist pol' = NOTIFICATION_CHANNEL_ALLOWLIST \<and>
    set (dgetd (cp_hooks pol') w []) = set (hook_channels ms) \<and>
    (\<forall>w'. w' \<noteq> w \<longrightarrow> dgetd (cp_hooks pol') w' [] = [])"
proof -
  have "cp_allowlist (sync_hook_registry (Some w) file pol) = cp_allowlist pol"
    by (simp add: sync_hook_registry_def split: sum.splits)
  from registry_ok_cong [OF this] assms show ?thesis
    by (auto simp: Let_def sync_hook_registry_def)
qed

lemma update_hooks_inv:
  assumes inv: "hooks_inv w s" and ok: "mutator_ok (hs_policy s) f"
  shows "hooks_inv w (upd_hooks (update_hook_registry fe (Some w) f (hs_file s) (hs_policy s)))"
proof (cases "update_hook_manifests fe f (hs_file s)")
  case (Inl e)
  with inv show ?thesis by (simp add: update_hook_registry_def hooks_inv_def)
next
  case (Inr r)
  obtain v file' where r: "r = (v, file')" by (cases r)
  obtain ms where ms: "hf_content (hs_file s) = Inr ms" "registry_ok (hs_policy s) ms" using inv by (auto simp: hooks_inv_def)
  have "\<exists>ms'. hf_content file' = Inr ms' \<and> registry_ok (hs_policy s) ms'"
  proof -
    obtain ms1 ch v1 where f: "f ms = (ms1, ch, v1)" by (cases "f ms")
    with ok ms(2) have "registry_ok (hs_policy s) ms1" by (auto simp: mutator_ok_def)
    moreover have "registry_ok (hs_policy s) []" by (simp add: registry_ok_def)
    ultimately show ?thesis using Inr r ms f
      by (auto simp: update_hook_manifests_def split: if_splits option.splits)
  qed
  then obtain ms' where ms': "hf_content file' = Inr ms'" "registry_ok (hs_policy s) ms'" by blast
  let ?pol = "(hs_policy s)\<lparr>cp_seeded := removeAll w (cp_seeded (hs_policy s)), cp_stat := dpop w (cp_stat (hs_policy s))\<rparr>"
  have ok': "registry_ok ?pol ms'" using ms'(2) registry_ok_cong [of ?pol "hs_policy s"] by simp
  have "w \<notin> set (cp_seeded ?pol)" by simp
  with sync_hooks_inv [OF ms'(1) ok', of w] inv Inr r ms'(1) show ?thesis
    by (auto simp: update_hook_registry_def hooks_inv_def Let_def)
qed

lemma hooks_inv_warned [simp]:
  "hooks_inv w (s\<lparr>hs_policy := (hs_policy s)\<lparr>cp_warned := x\<rparr>\<rparr>) = hooks_inv w s"
  using registry_ok_cong [of "(hs_policy s)\<lparr>cp_warned := x\<rparr>" "hs_policy s"] by (simp add: hooks_inv_def)

lemma hooks_inv_warned' [simp]:
  "hooks_inv w \<lparr>hs_file = file, hs_policy = pol\<lparr>cp_warned := x\<rparr>\<rparr> = hooks_inv w \<lparr>hs_file = file, hs_policy = pol\<rparr>"
  using hooks_inv_warned [where s = "\<lparr>hs_file = file, hs_policy = pol\<rparr>" and w = w and x = x] by simp

lemma hooks_inv_clear [simp]:
  "hooks_inv w \<lparr>hs_file = file, hs_policy = clear_blocked_channel_warning wd c pol\<rparr> = hooks_inv w \<lparr>hs_file = file, hs_policy = pol\<rparr>"
  by (simp add: clear_blocked_channel_warning_def split: option.splits)

lemma name_not_editable: "''name'' \<notin> set EDITABLE_HOOK_FIELDS"
  by (simp add: EDITABLE_HOOK_FIELDS_def)

lemma validated_name:
  assumes "validate_hook_manifest pol m = Inr ()"
  shows "dget m ''name'' = Some (PStr (case dget m ''name'' of Some (PStr s) \<Rightarrow> s | _ \<Rightarrow> ''''))"
  using validated_fields [OF assms, of "''name''"] by (auto simp: REQUIRED_HOOK_FIELDS_def)

lemma add_hook_inv:
  assumes "hooks_inv w s"
  shows "hooks_inv w (upd_hooks (add_hook fe (Some w) m (hs_file s) (hs_policy s)))"
proof (cases "validate_hook_manifest (hs_policy s) m")
  case (Inr u)
  then have v: "validate_hook_manifest (hs_policy s) m = Inr ()" by simp
  from update_hooks_inv [OF assms add_mutator_ok [OF v validated_name [OF v]], of fe] v
  show ?thesis
    by (auto simp: add_hook_def Let_def split: prod.splits sum.splits option.splits)
qed (use assms in \<open>simp add: add_hook_def hooks_inv_def\<close>)

lemma edit_hook_inv:
  assumes "hooks_inv w s"
  shows "hooks_inv w (upd_hooks (edit_hook fe (Some w) name ch (hs_file s) (hs_policy s)))"
proof (cases "name = [] \<or> \<not> list_all (\<lambda>(k, _). k \<in> set EDITABLE_HOOK_FIELDS) ch \<or> filter (\<lambda>(_, v). v \<noteq> PNone) ch = []")
  case False
  let ?provided = "filter (\<lambda>(_, v). v \<noteq> PNone) ch"
  from False have "''name'' \<notin> fst ` set ?provided" using name_not_editable by (auto simp: list_all_iff)
  from update_hooks_inv [OF assms edit_mutator_ok [OF this], of fe name] False
  show ?thesis
    by (auto simp: edit_hook_def Let_def split: prod.splits sum.splits option.splits py.splits)
qed (use assms in \<open>auto simp: edit_hook_def Let_def hooks_inv_def\<close>)

lemma drop_hook_inv:
  assumes "hooks_inv w s"
  shows "hooks_inv w (upd_hooks (drop_hook fe (Some w) name (hs_file s) (hs_policy s)))"
proof (cases "name = []")
  case False
  from update_hooks_inv [OF assms drop_mutator_ok, of fe name] False show ?thesis
    by (auto simp: drop_hook_def split: prod.splits sum.splits)
qed (use assms in \<open>simp add: drop_hook_def hooks_inv_def\<close>)

interpretation hooks: step_invariant init_hooks "hook_step w" "hooks_inv w" for w
proof
  show "hooks_inv w init_hooks"
    by (simp add: hooks_inv_def init_hooks_def init_policy_def registry_ok_def hook_channels_def map_filter_simps)
next
  fix s t assume inv: "hooks_inv w s" and step: "hook_step w s t"
  from step show "hooks_inv w t"
  proof cases
    case h_sync
    obtain ms where "hf_content (hs_file s) = Inr ms" "registry_ok (hs_policy s) ms"
      "set (dgetd (cp_hooks (hs_policy s)) w []) = set (hook_channels ms)" using inv by (auto simp: hooks_inv_def)
    with sync_hooks_inv [OF this(1,2), of w] inv h_sync show ?thesis by (auto simp: hooks_inv_def Let_def)
  next
    case (h_flag workdir channel)
    with inv show ?thesis by (auto simp: flag_unregistered_channel_def Let_def)
  qed (use inv add_hook_inv edit_hook_inv drop_hook_inv in auto)
qed


section \<open>Properties\<close>

lemma validate_channel_Inr: "validate_channel_name (PStr ch) = Inr c \<Longrightarrow> c = ch"
  by (auto simp: validate_channel_name_def split: if_splits)

lemma allowed_iff:
  "is_channel_allowed pol wd (PStr ch) \<longleftrightarrow> validate_channel_name (PStr ch) = Inr ch \<and>
     (ch \<in> set (cp_allowlist pol) \<or> list_ex (startswith ch) NOTIFICATION_CHANNEL_PREFIX_ALLOWLIST \<or>
      (\<exists>w. wd = Some w \<and> ch \<in> set (dgetd (cp_hooks pol) w [])))"
  by (cases "validate_channel_name (PStr ch)"; cases wd) (auto simp: is_channel_allowed_def dest: validate_channel_Inr)

text \<open>the allow predicate tells the truth about the hook registry. Whatever hooks of an agent are added,
  edited and dropped, whichever of these calls are refused or fail on disk, the stored manifests stay valid
  with distinct names and channels, a channel is open to the agent exactly when its name is well formed and
  it is built in, of the bridge family or claimed by a stored manifest, and no hook of this agent opens a
  channel for another agent or outside any.\<close>

theorem hook_registry_exact:
  assumes "reach init_hooks (hook_step w) s"
  shows "\<exists>ms. hf_content (hs_file s) = Inr ms \<and> registry_ok (hs_policy s) ms \<and>
    (\<forall>ch. is_channel_allowed (hs_policy s) (Some w) (PStr ch) \<longleftrightarrow> validate_channel_name (PStr ch) = Inr ch \<and>
       (ch \<in> set NOTIFICATION_CHANNEL_ALLOWLIST \<or> list_ex (startswith ch) NOTIFICATION_CHANNEL_PREFIX_ALLOWLIST \<or>
        (\<exists>m\<in>set ms. manifest_channel m = Some ch))) \<and>
    (\<forall>w' ch. w' \<noteq> Some w \<longrightarrow> is_channel_allowed (hs_policy s) w' (PStr ch) \<longrightarrow>
       ch \<in> set NOTIFICATION_CHANNEL_ALLOWLIST \<or> list_ex (startswith ch) NOTIFICATION_CHANNEL_PREFIX_ALLOWLIST)"
proof -
  have inv: "hooks_inv w s" by (rule hooks.reach_inv [OF assms])
  then obtain ms where ms: "hf_content (hs_file s) = Inr ms" "registry_ok (hs_policy s) ms"
    "set (dgetd (cp_hooks (hs_policy s)) w []) = set (hook_channels ms)" by (auto simp: hooks_inv_def)
  have "ch \<notin> set (dgetd (cp_hooks (hs_policy s)) w' [])" if "w' \<noteq> w" for w' ch
    using inv that by (simp add: hooks_inv_def)
  with ms inv show ?thesis
    by (intro exI [of _ ms]) (auto simp: allowed_iff set_hook_channels hooks_inv_def)
qed

definition sample_manifest :: dict where
  "sample_manifest = [(''name'', PStr ''ci''), (''channel'', PStr ''ci.build''), (''source'', PStr ''cron job''),
     (''description'', PStr ''d''), (''how_to_modify'', PStr ''m''), (''how_to_cancel'', PStr ''c'')]"

definition sample_env :: file_env where
  "sample_env = \<lparr>fe_write_fails = None, fe_unlink_fails = False, fe_new_stat = (1, 1)\<rparr>"

definition sample_hooks :: hook_system where
  "sample_hooks = upd_hooks (add_hook sample_env (Some ''/a'') sample_manifest (hs_file init_hooks) (hs_policy init_hooks))"

lemma sample_valid: "validate_hook_manifest init_policy sample_manifest = Inr ()"
  by (simp add: validate_hook_manifest_def sample_manifest_def REQUIRED_HOOK_FIELDS_def manifest_channel_def
      validate_channel_name_def channel_syntax_ok_def is_channel_start_def is_channel_char_def is_lower_def
      is_upper_def is_digit_def init_policy_def NOTIFICATION_CHANNEL_ALLOWLIST_def STORE_RESERVED_NON_CHANNEL_STEMS_def)

lemma sample_hooks_content: "hf_content (hs_file sample_hooks) = Inr [sample_manifest]"
  using sample_valid
  by (simp add: sample_hooks_def init_hooks_def add_hook_def sample_env_def update_hook_registry_def Let_def
      update_hook_manifests_def add_mutator_def find_manifest_def reason_of_def dgetd_def split: option.splits)

lemma hook_registry_exact_witness:
  "is_channel_allowed (hs_policy sample_hooks) (Some ''/a'') (PStr ''ci.build'')"
proof -
  have "reach init_hooks (hook_step ''/a'') sample_hooks"
    unfolding sample_hooks_def by (intro reach_step [OF reach_init] h_add)
  from hook_registry_exact [OF this] sample_hooks_content
  have "is_channel_allowed (hs_policy sample_hooks) (Some ''/a'') (PStr ''ci.build'') \<longleftrightarrow>
      validate_channel_name (PStr ''ci.build'') = Inr ''ci.build'' \<and>
      (''ci.build'' \<in> set NOTIFICATION_CHANNEL_ALLOWLIST \<or>
       list_ex (startswith ''ci.build'') NOTIFICATION_CHANNEL_PREFIX_ALLOWLIST \<or>
       manifest_channel sample_manifest = Some ''ci.build'')" by auto
  moreover have "validate_channel_name (PStr ''ci.build'') = Inr ''ci.build''"
    by (simp add: validate_channel_name_def channel_syntax_ok_def is_channel_start_def is_channel_char_def
        is_lower_def is_upper_def is_digit_def)
  ultimately show ?thesis by (simp add: manifest_channel_def sample_manifest_def)
qed

text \<open>
  Dropping the last hook while the registry file cannot be removed answers success although the manifest,
  and with it the channel, stays.
\<close>

lemma drop_reports_success_on_failed_unlink:
  "let r = drop_hook (sample_env\<lparr>fe_unlink_fails := True\<rparr>) (Some ''/a'') ''ci'' (hs_file sample_hooks) (hs_policy sample_hooks)
   in fst r = Inr [(''status'', PStr ''ok''), (''reason'', PStr ''dropped''), (''name'', PStr ''ci'')] \<and>
      hf_content (fst (snd r)) = Inr [sample_manifest]"
  using sample_hooks_content
  by (simp add: drop_hook_def sample_env_def update_hook_registry_def Let_def update_hook_manifests_def
      drop_mutator_def find_manifest_def reason_of_def dgetd_def with_status_def sample_manifest_def remove_nth_def)

end
