(* ===== verification/Tool_Plugin.thy ===== *)
theory Tool_Plugin
  imports Prelude
begin

text \<open>
  Official tool plugins and the agent's tool surface: declarations, the least-privilege host facade and the
  fail-fast registrar of \<^verbatim>\<open>kernel/tool_plugin/__init__.py\<close>, the anchors, bindings and claims that
  \<^verbatim>\<open>kernel/base_agent/__init__.py\<close> keeps for them, and the tool registry and dispatcher of
  \<^verbatim>\<open>kernel/base_agent/tools.py\<close>.

  Declarations and bound plugins are frozen objects compared by identity: they are addresses, read through
  the heaps \<open>decl\<close> and \<open>plug\<close>. A handler is a token; an exception is its class name and a cause.
\<close>

section \<open>Declarations\<close>

definition MANUAL_ACTION :: string where "MANUAL_ACTION = ''manual''"
definition SETTINGS_ACTION :: string where "SETTINGS_ACTION = ''settings''"

definition settings_input_schema :: dict where
  "settings_input_schema =
     [(''type'', PStr ''object''), (''properties'', PDict []), (''required'', PList []),
      (''additionalProperties'', PBool False)]"

definition GRANTABLE_HOST_PORTS :: "string list" where
  "GRANTABLE_HOST_PORTS =
     [''workdir'', ''prompt_section'', ''avatar_parent'', ''context_runtime'', ''daemon_runtime'', ''email_runtime'',
      ''file_io'', ''plugin_catalog'', ''psyche_settings'', ''notification_state'', ''notifications'',
      ''configuration'', ''soul_runtime'', ''system_runtime'', ''identity'', ''shutdown'',
      ''task_card_lifecycle'', ''task_card_notifications'', ''active_provider'', ''web_runtime'',
      ''provider_identity'']"

definition OFFICIAL_TOOL_PLUGIN_NAMES :: "string list" where
  "OFFICIAL_TOOL_PLUGIN_NAMES =
     [''mcp'', ''avatar'', ''context'', ''daemon'', ''email'', ''file'', ''plugin'', ''psyche'', ''notification'',
      ''shell'', ''soul'', ''system'', ''task_card'', ''vision'', ''web'']"

text \<open>A host facade: the plugin it was granted to, and its ports (a port is a token).\<close>

record plugin_host =
  ph_plugin_name :: string
  ph_ports :: "(string \<times> nat) list"

record bound_plugin =
  bp_name :: string
  bp_schema :: dict
  bp_handler :: nat
  bp_description :: string
  bp_glossary_package :: "string option"
  bp_activate :: "exc option option"

text \<open>The binder may raise, or return a bound plugin (its address) or anything else (\<open>None\<close>).\<close>

record plugin_declaration =
  dc_name :: string
  dc_actions :: "string list"
  dc_input_schemas :: "(string \<times> dict) list"
  dc_manual_input_schema :: dict
  dc_manual :: string
  dc_description :: string
  dc_binder :: "plugin_host \<Rightarrow> exc + nat option"
  dc_requires :: "string list"
  dc_glossary_package :: "string option"
  dc_settings :: bool

abbreviation tool_error :: "string \<Rightarrow> string \<Rightarrow> exc" where
  "tool_error cls cause \<equiv> OtherException cls cause"

definition declaration_error :: "string \<Rightarrow> exc" where
  "declaration_error cause = tool_error ''ToolPluginDeclarationError'' cause"

text \<open>\<^verbatim>\<open>__post_init__\<close>, on the fields as the caller passes them: a text may be no string, the actions no tuple.\<close>

record raw_declaration =
  rd_texts :: "py \<times> py \<times> py"
  rd_settings :: "bool option"
  rd_actions :: "string list option"
  rd_schemas :: "string list"
  rd_requires :: "string list"
  rd_binder_callable :: bool

definition text_ok :: "py \<Rightarrow> bool" where
  "text_ok v = (case v of PStr s \<Rightarrow> strip s \<noteq> [] | _ \<Rightarrow> False)"

definition declaration_post_init :: "raw_declaration \<Rightarrow> exc + unit" where
  "declaration_post_init rd =
     (case rd_texts rd of
        (name, manual, description) \<Rightarrow>
          if \<not> text_ok name then Inl (declaration_error ''name'')
          else if \<not> text_ok manual then Inl (declaration_error ''manual'')
          else if \<not> text_ok description then Inl (declaration_error ''description'')
          else
            (case rd_settings rd of
               None \<Rightarrow> Inl (declaration_error ''settings'')
             | Some settings \<Rightarrow>
                 (case rd_actions rd of
                    None \<Rightarrow> Inl (declaration_error ''actions'')
                  | Some actions \<Rightarrow>
                      if actions = [] \<and> \<not> settings then Inl (declaration_error ''actions'')
                      else if SETTINGS_ACTION \<in> set actions \<or> MANUAL_ACTION \<in> set actions then
                        Inl (declaration_error ''reserved action'')
                      else if \<not> distinct actions then Inl (declaration_error ''duplicate action'')
                      else if set (rd_schemas rd) \<noteq> set actions then Inl (declaration_error ''input schemas'')
                      else if \<not> list_all (\<lambda>p. p \<in> set GRANTABLE_HOST_PORTS) (rd_requires rd) then
                        Inl (declaration_error ''non-grantable host port'')
                      else if \<not> distinct (rd_requires rd) then Inl (declaration_error ''duplicate host port'')
                      else if \<not> rd_binder_callable rd then Inl (declaration_error ''binder'')
                      else Inr ())))"

definition public_actions :: "plugin_declaration \<Rightarrow> string list" where
  "public_actions d = dc_actions d @ (if dc_settings d then [SETTINGS_ACTION, MANUAL_ACTION] else [MANUAL_ACTION])"

definition public_input_schemas :: "plugin_declaration \<Rightarrow> (string \<times> dict) list" where
  "public_input_schemas d =
     dput MANUAL_ACTION (dc_manual_input_schema d)
       (if dc_settings d then dput SETTINGS_ACTION settings_input_schema (dc_input_schemas d)
        else dc_input_schemas d)"

section \<open>Granting and binding\<close>

definition host_grant :: "plugin_declaration \<Rightarrow> (string \<times> nat) list \<Rightarrow> exc + plugin_host" where
  "host_grant d ports =
     (if \<not> list_all (dhas ports) (dc_requires d) then Inl (tool_error ''HostPortError'' (dc_name d))
      else Inr \<lparr>ph_plugin_name = dc_name d,
                ph_ports = map (\<lambda>p. (p, dgetd ports p 0)) (dc_requires d)\<rparr>)"

definition host_port :: "plugin_host \<Rightarrow> string \<Rightarrow> exc + nat" where
  "host_port h p = (case dget (ph_ports h) p of Some v \<Rightarrow> Inr v | None \<Rightarrow> Inl (AttributeError p))"

definition advertised_actions :: "dict \<Rightarrow> py list option" where
  "advertised_actions schema =
     (case dget schema ''properties'' of
        Some (PDict props) \<Rightarrow>
          (case dget props ''action'' of
             Some (PDict action) \<Rightarrow> (case dget action ''enum'' of Some (PList xs) \<Rightarrow> Some xs | _ \<Rightarrow> None)
           | _ \<Rightarrow> None)
      | _ \<Rightarrow> None)"

definition bind_declaration :: "(nat \<Rightarrow> bound_plugin) \<Rightarrow> plugin_declaration \<Rightarrow> plugin_host \<Rightarrow> exc + nat" where
  "bind_declaration plug d host =
     (if ph_plugin_name host \<noteq> dc_name d then Inl (tool_error ''HostPortError'' (dc_name d))
      else
        ebind (dc_binder d host) (\<lambda>r.
          case r of
            None \<Rightarrow> Inl (declaration_error ''binder result'')
          | Some b \<Rightarrow>
              if bp_name (plug b) \<noteq> dc_name d then Inl (declaration_error ''bound name'')
              else
                (case advertised_actions (bp_schema (plug b)) of
                   None \<Rightarrow> Inl (declaration_error ''no action enum'')
                 | Some xs \<Rightarrow>
                     if xs \<noteq> map PStr (public_actions d) then Inl (declaration_error ''public actions'')
                     else Inr b)))"

section \<open>The agent's tool surface\<close>

record function_schema =
  fs_name :: string
  fs_description :: string
  fs_parameters :: dict
  fs_system_prompt :: string
  fs_glossary_package :: "string option"

text \<open>An injected intrinsic: its schema and description, its handler, and whether it is an official plugin's.\<close>

record intrinsic_module =
  im_schema :: dict
  im_description :: string
  im_handler :: nat
  im_official :: bool

record tool_agent =
  ta_sealed :: bool
  ta_intrinsics :: "(string \<times> intrinsic_module) list"
  ta_handlers :: "(string \<times> nat) list"
  ta_schemas :: "function_schema list"
  ta_chat :: "function_schema list option"
  ta_claims :: "(string \<times> nat) list"
  ta_anchors :: "(string \<times> nat) list"
  ta_bindings :: "(string \<times> nat) list"

definition REASONING_DESCRIPTION :: string where
  "REASONING_DESCRIPTION = ''Brief explanation of why you are calling this tool (recorded in your diary).''"

text \<open>
  \<^verbatim>\<open>dict(params.get("properties", {}))\<close> and the injected parameter. The properties of a schema are an
  object or empty; anything else is an error of \<^verbatim>\<open>dict\<close>.
\<close>

definition with_reasoning :: "dict \<Rightarrow> exc + dict" where
  "with_reasoning params =
     (case dgetd params ''properties'' (PDict []) of
        PDict props \<Rightarrow>
          Inr (dput ''properties''
                 (PDict (dput ''reasoning''
                    (PDict [(''type'', PStr ''string''), (''description'', PStr REASONING_DESCRIPTION)]) props)) params)
      | _ \<Rightarrow> Inl (TypeError ''properties''))"

definition wire_schema :: "string \<Rightarrow> string \<Rightarrow> dict \<Rightarrow> exc + function_schema" where
  "wire_schema name description params =
     ebind (with_reasoning params) (\<lambda>ps.
       Inr \<lparr>fs_name = name, fs_description = description, fs_parameters = ps, fs_system_prompt = '''',
            fs_glossary_package = None\<rparr>)"

definition build_tool_schemas :: "tool_agent \<Rightarrow> exc + function_schema list" where
  "build_tool_schemas ag =
     ebind (emap (\<lambda>(name, m). wire_schema name (im_description m) (im_schema m))
              (filter (\<lambda>(name, m). \<not> im_official m) (ta_intrinsics ag))) (\<lambda>xs.
     ebind (emap (\<lambda>s. wire_schema (fs_name s) (fs_description s) (fs_parameters s)) (ta_schemas ag)) (\<lambda>ys.
       Inr (xs @ ys)))"

definition update_chat_tools :: "tool_agent \<Rightarrow> (exc + unit) \<times> tool_agent" where
  "update_chat_tools ag =
     (case ta_chat ag of
        None \<Rightarrow> (Inr (), ag)
      | Some _ \<Rightarrow>
          (case build_tool_schemas ag of
             Inl e \<Rightarrow> (Inl e, ag)
           | Inr xs \<Rightarrow> (Inr (), ag\<lparr>ta_chat := Some xs\<rparr>)))"

record tool_entry =
  te_schema :: "dict option"
  te_handler :: "nat option"
  te_description :: string
  te_system_prompt :: string
  te_glossary_package :: "string option"

definition collision :: "string \<Rightarrow> exc" where
  "collision name = tool_error ''OfficialToolNameCollisionError'' name"

text \<open>\<open>official\<close>: the private mount token was presented.\<close>

definition add_tool :: "bool \<Rightarrow> string \<Rightarrow> tool_entry \<Rightarrow> tool_agent \<Rightarrow> (exc + unit) \<times> tool_agent" where
  "add_tool official name e ag =
     (if name \<in> set OFFICIAL_TOOL_PLUGIN_NAMES \<and> \<not> official then (Inl (collision name), ag)
      else if ta_sealed ag then (Inl (RuntimeError ''Cannot modify tools after start()''), ag)
      else
        let ag1 = (case te_handler e of None \<Rightarrow> ag | Some h \<Rightarrow> ag\<lparr>ta_handlers := dput name h (ta_handlers ag)\<rparr>);
            ag2 = (case te_schema e of
                     None \<Rightarrow> ag1
                   | Some schema \<Rightarrow>
                       ag1\<lparr>ta_schemas := filter (\<lambda>s. fs_name s \<noteq> name) (ta_schemas ag1) @
                         [\<lparr>fs_name = name, fs_description = te_description e, fs_parameters = schema,
                           fs_system_prompt = te_system_prompt e, fs_glossary_package = te_glossary_package e\<rparr>]\<rparr>)
        in update_chat_tools ag2)"

definition remove_tool :: "string \<Rightarrow> tool_agent \<Rightarrow> (exc + unit) \<times> tool_agent" where
  "remove_tool name ag =
     (if name \<in> set OFFICIAL_TOOL_PLUGIN_NAMES then (Inl (collision name), ag)
      else if ta_sealed ag then (Inl (RuntimeError ''Cannot modify tools after start()''), ag)
      else
        update_chat_tools (ag\<lparr>ta_handlers := dpop name (ta_handlers ag),
                              ta_schemas := filter (\<lambda>s. fs_name s \<noteq> name) (ta_schemas ag)\<rparr>))"

definition override_intrinsic :: "string \<Rightarrow> tool_agent \<Rightarrow> (exc + intrinsic_module) \<times> tool_agent" where
  "override_intrinsic name ag =
     (if ta_sealed ag then (Inl (RuntimeError ''Cannot modify tools after start()''), ag)
      else case dget (ta_intrinsics ag) name of
        None \<Rightarrow> (Inl (KeyError name), ag)
      | Some m \<Rightarrow> (Inr m, ag\<lparr>ta_intrinsics := dpop name (ta_intrinsics ag)\<rparr>))"

text \<open>The handler a call is routed to, and the arguments it gets.\<close>

definition dispatch_tool :: "string \<Rightarrow> dict option \<Rightarrow> string \<Rightarrow> tool_agent \<Rightarrow> exc + nat \<times> dict" where
  "dispatch_tool name args tc_id ag =
     (let args' = (case args of None \<Rightarrow> [] | Some d \<Rightarrow> d) in
      case dget (ta_intrinsics ag) name of
        Some m \<Rightarrow>
          let with_id = dput ''_tc_id'' (PStr tc_id) args'
          in if im_official m then
               (case dget (ta_handlers ag) name of
                  Some h \<Rightarrow> Inr (h, with_id)
                | None \<Rightarrow> Inl (RuntimeError (''official intrinsic '' @ str_repr name @ '' was dispatched before it mounted'')))
             else Inr (im_handler m, with_id)
      | None \<Rightarrow>
          (case dget (ta_handlers ag) name of
             Some h \<Rightarrow> Inr (h, args')
           | None \<Rightarrow>
               if name = ''bash'' then
                 (case dget (ta_handlers ag) ''shell'' of
                    Some h \<Rightarrow> Inr (h, args')
                  | None \<Rightarrow> Inl (tool_error ''UnknownToolError'' name))
               else Inl (tool_error ''UnknownToolError'' name)))"


section \<open>Anchors, mounts and claims\<close>

text \<open>
  The heaps of declarations and bound plugins, the ports the host offers a declaration, and whether
  building them fails.
\<close>

record plugin_world =
  pw_decl :: "nat \<Rightarrow> plugin_declaration"
  pw_plug :: "nat \<Rightarrow> bound_plugin"
  pw_ports_for :: "nat \<Rightarrow> exc + (string \<times> nat) list"

definition authorize_declaration :: "plugin_world \<Rightarrow> nat \<Rightarrow> tool_agent \<Rightarrow> (exc + unit) \<times> tool_agent" where
  "authorize_declaration pw d ag =
     (let name = dc_name (pw_decl pw d) in
      if name \<notin> set OFFICIAL_TOOL_PLUGIN_NAMES then
        (Inl (PermissionError ''cannot anchor an unreserved official name''), ag)
      else case dget (ta_anchors ag) name of
        None \<Rightarrow> (Inr (), ag\<lparr>ta_anchors := dput name d (ta_anchors ag)\<rparr>)
      | Some d' \<Rightarrow>
          if d' \<noteq> d then (Inl (tool_error ''DuplicateToolPluginNameError'' name), ag)
          else (Inr (), ag\<lparr>ta_anchors := dput name d (ta_anchors ag)\<rparr>))"

definition record_binding :: "plugin_world \<Rightarrow> nat \<Rightarrow> nat \<Rightarrow> tool_agent \<Rightarrow> (exc + unit) \<times> tool_agent" where
  "record_binding pw d b ag =
     (case authorize_declaration pw d ag of
        (Inl e, ag1) \<Rightarrow> (Inl e, ag1)
      | (Inr _, ag1) \<Rightarrow> (Inr (), ag1\<lparr>ta_bindings := dput (dc_name (pw_decl pw d)) b (ta_bindings ag1)\<rparr>))"

text \<open>The registrar's one-use authorization. \<open>mt_mounted\<close>: the agent has mounted it.\<close>

record mount_transaction =
  mt_declaration :: nat
  mt_plugin :: nat
  mt_consumed :: bool
  mt_mounted :: bool

definition issue_transaction :: "nat \<Rightarrow> nat \<Rightarrow> mount_transaction" where
  "issue_transaction d b = \<lparr>mt_declaration = d, mt_plugin = b, mt_consumed = False, mt_mounted = False\<rparr>"

definition consume_transaction :: "mount_transaction \<Rightarrow> exc + mount_transaction" where
  "consume_transaction t =
     (if mt_consumed t then Inl (PermissionError ''official mount authorization was already consumed'')
      else Inr (t\<lparr>mt_consumed := True\<rparr>))"

definition mark_mounted :: "mount_transaction \<Rightarrow> exc + mount_transaction" where
  "mark_mounted t =
     (if \<not> mt_consumed t \<or> mt_mounted t then
        Inl (PermissionError ''official mount transaction was not consumed for this mount'')
      else Inr (t\<lparr>mt_mounted := True\<rparr>))"

definition official_entry :: "bound_plugin \<Rightarrow> tool_entry" where
  "official_entry b =
     \<lparr>te_schema = Some (bp_schema b), te_handler = Some (bp_handler b), te_description = bp_description b,
      te_system_prompt = '''', te_glossary_package = bp_glossary_package b\<rparr>"

definition mount_official_tool ::
  "plugin_world \<Rightarrow> mount_transaction \<Rightarrow> tool_agent \<Rightarrow> (exc + mount_transaction) \<times> tool_agent" where
  "mount_official_tool pw t ag =
     (let d = mt_declaration t; b = mt_plugin t; name = dc_name (pw_decl pw d) in
      if name \<notin> set OFFICIAL_TOOL_PLUGIN_NAMES \<or> bp_name (pw_plug pw b) \<noteq> name
         \<or> dget (ta_anchors ag) name \<noteq> Some d \<or> dget (ta_bindings ag) name \<noteq> Some b then
        (Inl (PermissionError ''official mount transaction is not the canonical declaration/bind result''), ag)
      else if dget (ta_claims ag) name \<notin> {None, Some d} then
        (Inl (PermissionError ''official mount transaction is not for the live claim''), ag)
      else
        (case consume_transaction t of
           Inl e \<Rightarrow> (Inl e, ag)
         | Inr t1 \<Rightarrow>
             (case add_tool True name (official_entry (pw_plug pw b)) ag of
                (Inl e, ag1) \<Rightarrow> (Inl e, ag1)
              | (Inr _, ag1) \<Rightarrow> (mark_mounted t1, ag1))))"

definition claim_official_tool ::
  "plugin_world \<Rightarrow> mount_transaction \<Rightarrow> tool_agent \<Rightarrow> (exc + unit) \<times> tool_agent" where
  "claim_official_tool pw t ag =
     (let d = mt_declaration t; name = dc_name (pw_decl pw d) in
      if \<not> mt_mounted t then (Inl (PermissionError ''official claim requires a completed official mount''), ag)
      else if dget (ta_anchors ag) name \<noteq> Some d then
        (Inl (PermissionError ''official claim is not for the anchored declaration''), ag)
      else if dget (ta_bindings ag) name \<noteq> Some (mt_plugin t) then
        (Inl (PermissionError ''official claim is not for the canonical bound result''), ag)
      else (Inr (), ag\<lparr>ta_claims := dput name d (ta_claims ag)\<rparr>))"

section \<open>The registrar\<close>

fun check_names :: "plugin_world \<Rightarrow> (string \<times> nat) list \<Rightarrow> string list \<Rightarrow> nat list \<Rightarrow> exc + unit" where
  "check_names pw claimed seen [] = Inr ()"
| "check_names pw claimed seen (d # ds) =
     (let name = dc_name (pw_decl pw d) in
      if name \<notin> set OFFICIAL_TOOL_PLUGIN_NAMES then Inl (tool_error ''UnreservedToolPluginNameError'' name)
      else if name \<in> set seen then Inl (tool_error ''DuplicateToolPluginNameError'' name)
      else if dget claimed name \<notin> {None, Some d} then Inl (tool_error ''DuplicateToolPluginNameError'' name)
      else check_names pw claimed (name # seen) ds)"

fun authorize_all :: "plugin_world \<Rightarrow> nat list \<Rightarrow> tool_agent \<Rightarrow> (exc + unit) \<times> tool_agent" where
  "authorize_all pw [] ag = (Inr (), ag)"
| "authorize_all pw (d # ds) ag =
     (case authorize_declaration pw d ag of
        (Inl e, ag1) \<Rightarrow> (Inl e, ag1)
      | (Inr _, ag1) \<Rightarrow> authorize_all pw ds ag1)"

text \<open>One member of the batch: grant, bind, record, activate, mount and claim.\<close>

definition register_one :: "plugin_world \<Rightarrow> nat \<Rightarrow> tool_agent \<Rightarrow> (exc + nat) \<times> tool_agent" where
  "register_one pw d ag =
     (case ebind (pw_ports_for pw d) (\<lambda>ports.
           ebind (host_grant (pw_decl pw d) ports) (bind_declaration (pw_plug pw) (pw_decl pw d))) of
        Inl e \<Rightarrow> (Inl e, ag)
      | Inr b \<Rightarrow>
          (case record_binding pw d b ag of
             (Inl e, ag1) \<Rightarrow> (Inl e, ag1)
           | (Inr _, ag1) \<Rightarrow>
               (case bp_activate (pw_plug pw b) of
                  Some (Some e) \<Rightarrow> (Inl e, ag1)
                | _ \<Rightarrow>
                    (case mount_official_tool pw (issue_transaction d b) ag1 of
                       (Inl e, ag2) \<Rightarrow> (Inl e, ag2)
                     | (Inr t, ag2) \<Rightarrow>
                         (case claim_official_tool pw t ag2 of
                            (Inl e, ag3) \<Rightarrow> (Inl e, ag3)
                          | (Inr _, ag3) \<Rightarrow> (Inr b, ag3))))))"

fun register_loop :: "plugin_world \<Rightarrow> nat list \<Rightarrow> tool_agent \<Rightarrow> (exc + nat list) \<times> tool_agent" where
  "register_loop pw [] ag = (Inr [], ag)"
| "register_loop pw (d # ds) ag =
     (case register_one pw d ag of
        (Inl e, ag1) \<Rightarrow> (Inl e, ag1)
      | (Inr b, ag1) \<Rightarrow>
          (case register_loop pw ds ag1 of
             (Inl e, ag2) \<Rightarrow> (Inl e, ag2)
           | (Inr bs, ag2) \<Rightarrow> (Inr (b # bs), ag2)))"

definition register_official_tool_plugins :: "plugin_world \<Rightarrow> nat list \<Rightarrow> tool_agent \<Rightarrow> (exc + nat list) \<times> tool_agent" where
  "register_official_tool_plugins pw ds ag =
     (case check_names pw (ta_claims ag) [] ds of
        Inl e \<Rightarrow> (Inl e, ag)
      | Inr _ \<Rightarrow>
          (case authorize_all pw ds ag of
             (Inl e, ag1) \<Rightarrow> (Inl e, ag1)
           | (Inr _, ag1) \<Rightarrow> register_loop pw ds ag1))"

text \<open>The tool part of a refresh: the surface, the claims and the bindings are cleared,
  the intrinsics wired again, and the anchors stay.\<close>

definition refresh_tool_surface :: "(string \<times> intrinsic_module) list \<Rightarrow> tool_agent \<Rightarrow> tool_agent" where
  "refresh_tool_surface intrinsics ag =
     ag\<lparr>ta_sealed := False, ta_handlers := [], ta_schemas := [], ta_claims := [], ta_bindings := [],
        ta_intrinsics := intrinsics\<rparr>"

definition init_tool_agent :: "(string \<times> intrinsic_module) list \<Rightarrow> tool_agent" where
  "init_tool_agent intrinsics =
     \<lparr>ta_sealed = False, ta_intrinsics = intrinsics, ta_handlers = [], ta_schemas = [], ta_chat = None,
      ta_claims = [], ta_anchors = [], ta_bindings = []\<rparr>"


section \<open>The invariant of the official surface\<close>

text \<open>The plugin is what the declaration's binder made of a host with exactly the ports it requires.\<close>

definition bound_by :: "plugin_world \<Rightarrow> nat \<Rightarrow> nat \<Rightarrow> bool" where
  "bound_by pw d b \<longleftrightarrow>
     (\<exists>ports. bind_declaration (pw_plug pw) (pw_decl pw d)
        \<lparr>ph_plugin_name = dc_name (pw_decl pw d), ph_ports = ports\<rparr> = Inr b \<and>
        map fst ports = dc_requires (pw_decl pw d))"

definition plugin_schema :: "bound_plugin \<Rightarrow> function_schema" where
  "plugin_schema b =
     \<lparr>fs_name = bp_name b, fs_description = bp_description b, fs_parameters = bp_schema b, fs_system_prompt = '''',
      fs_glossary_package = bp_glossary_package b\<rparr>"

abbreviation official :: "string \<Rightarrow> bool" where
  "official n \<equiv> n \<in> set OFFICIAL_TOOL_PLUGIN_NAMES"

abbreviation schemas_of :: "string \<Rightarrow> tool_agent \<Rightarrow> function_schema list" where
  "schemas_of n ag \<equiv> filter (\<lambda>s. fs_name s = n) (ta_schemas ag)"

text \<open>An official name is either not mounted or shows one bind of its anchored declaration.\<close>

definition name_ok :: "plugin_world \<Rightarrow> tool_agent \<Rightarrow> string \<Rightarrow> bool" where
  "name_ok pw ag n \<longleftrightarrow>
     (case dget (ta_handlers ag) n of
        None \<Rightarrow> schemas_of n ag = [] \<and> dget (ta_claims ag) n = None
      | Some h \<Rightarrow>
          (\<exists>d b. dget (ta_anchors ag) n = Some d \<and> bound_by pw d b \<and> h = bp_handler (pw_plug pw b) \<and>
             schemas_of n ag = [plugin_schema (pw_plug pw b)] \<and> dget (ta_claims ag) n \<in> {None, Some d}))"

definition surface_ok :: "plugin_world \<Rightarrow> tool_agent \<Rightarrow> bool" where
  "surface_ok pw ag \<longleftrightarrow>
     (\<forall>n. official n \<longrightarrow> name_ok pw ag n) \<and>
     (\<forall>n d. dget (ta_anchors ag) n = Some d \<longrightarrow> dc_name (pw_decl pw d) = n \<and> official n) \<and>
     (\<forall>n b. dget (ta_bindings ag) n = Some b \<longrightarrow> (\<exists>d. dget (ta_anchors ag) n = Some d \<and> bound_by pw d b))"

lemma surface_okI:
  assumes "\<And>n. official n \<Longrightarrow> name_ok pw ag n"
    and "\<And>n d. dget (ta_anchors ag) n = Some d \<Longrightarrow> dc_name (pw_decl pw d) = n \<and> official n"
    and "\<And>n b. dget (ta_bindings ag) n = Some b \<Longrightarrow> \<exists>d. dget (ta_anchors ag) n = Some d \<and> bound_by pw d b"
  shows "surface_ok pw ag"
  using assms by (simp add: surface_ok_def)

text \<open>Changes of the surface that an official name does not see.\<close>

lemma name_ok_cong:
  "dget (ta_handlers ag) n = dget (ta_handlers ag') n \<Longrightarrow> schemas_of n ag = schemas_of n ag' \<Longrightarrow>
     dget (ta_anchors ag) n = dget (ta_anchors ag') n \<Longrightarrow> dget (ta_claims ag) n = dget (ta_claims ag') n \<Longrightarrow>
     name_ok pw ag n = name_ok pw ag' n"
  by (simp only: name_ok_def)

lemma surface_ok_same:
  assumes "surface_ok pw ag" "ta_handlers ag' = ta_handlers ag" "ta_schemas ag' = ta_schemas ag"
    "ta_anchors ag' = ta_anchors ag" "ta_claims ag' = ta_claims ag" "ta_bindings ag' = ta_bindings ag"
  shows "surface_ok pw ag'"
  using assms(1) name_ok_cong [of ag' _ ag pw] assms(2-) by (simp add: surface_ok_def)

lemma update_chat_same:
  "snd (update_chat_tools ag) = ag\<lparr>ta_chat := ta_chat (snd (update_chat_tools ag))\<rparr>"
  by (cases ag) (simp add: update_chat_tools_def split: option.splits sum.splits)

lemma surface_ok_chat [simp]: "surface_ok pw (ag\<lparr>ta_chat := c\<rparr>) = surface_ok pw ag"
  using surface_ok_same [of pw ag "ag\<lparr>ta_chat := c\<rparr>"] surface_ok_same [of pw "ag\<lparr>ta_chat := c\<rparr>" ag] by auto

lemma update_chat_ok [simp]: "surface_ok pw (snd (update_chat_tools ag)) = surface_ok pw ag"
  by (subst update_chat_same) simp

lemma add_tool_other_ok:
  assumes "surface_ok pw ag"
  shows "surface_ok pw (snd (add_tool False n e ag))"
proof (cases "official n \<or> ta_sealed ag")
  case False
  let ?ag1 = "case te_handler e of None \<Rightarrow> ag | Some h \<Rightarrow> ag\<lparr>ta_handlers := dput n h (ta_handlers ag)\<rparr>"
  let ?ag2 = "case te_schema e of None \<Rightarrow> ?ag1
    | Some schema \<Rightarrow> ?ag1\<lparr>ta_schemas := filter (\<lambda>s. fs_name s \<noteq> n) (ta_schemas ?ag1) @
        [\<lparr>fs_name = n, fs_description = te_description e, fs_parameters = schema,
          fs_system_prompt = te_system_prompt e, fs_glossary_package = te_glossary_package e\<rparr>]\<rparr>"
  have "name_ok pw ?ag2 m" if "official m" for m
  proof -
    have "m \<noteq> n" using that False by auto
    then have "name_ok pw ?ag2 m = name_ok pw ag m"
      by (intro name_ok_cong) (auto split: option.splits intro!: filter_cong)
    with assms that show ?thesis by (simp add: surface_ok_def)
  qed
  then have "surface_ok pw ?ag2" using assms by (auto simp: surface_ok_def split: option.splits)
  with False show ?thesis by (simp add: add_tool_def Let_def)
qed (use assms in \<open>auto simp: add_tool_def\<close>)

lemma remove_tool_ok:
  assumes "surface_ok pw ag"
  shows "surface_ok pw (snd (remove_tool n ag))"
proof (cases "official n \<or> ta_sealed ag")
  case False
  let ?ag1 = "ag\<lparr>ta_handlers := dpop n (ta_handlers ag), ta_schemas := filter (\<lambda>s. fs_name s \<noteq> n) (ta_schemas ag)\<rparr>"
  have "name_ok pw ?ag1 m" if "official m" for m
  proof -
    have "m \<noteq> n" using that False by auto
    then have "name_ok pw ?ag1 m = name_ok pw ag m" by (intro name_ok_cong) (auto intro!: filter_cong)
    with assms that show ?thesis by (simp add: surface_ok_def)
  qed
  then have "surface_ok pw ?ag1" using assms by (auto simp: surface_ok_def)
  with False show ?thesis by (simp add: remove_tool_def)
qed (use assms in \<open>auto simp: remove_tool_def\<close>)


lemma authorize_facts:
  assumes "authorize_declaration pw d ag = (Inr u, ag')"
  shows "official (dc_name (pw_decl pw d))" "dget (ta_anchors ag) (dc_name (pw_decl pw d)) \<in> {None, Some d}"
    "ag' = ag\<lparr>ta_anchors := dput (dc_name (pw_decl pw d)) d (ta_anchors ag)\<rparr>"
  using assms by (auto simp: authorize_declaration_def Let_def split: if_splits option.splits)

lemma authorize_error: "authorize_declaration pw d ag = (Inl e, ag') \<Longrightarrow> ag' = ag"
  by (auto simp: authorize_declaration_def Let_def split: if_splits option.splits)

lemma anchored_ok:
  assumes ok: "surface_ok pw ag" and "official (dc_name (pw_decl pw d))"
    and free: "dget (ta_anchors ag) (dc_name (pw_decl pw d)) \<in> {None, Some d}"
  shows "surface_ok pw (ag\<lparr>ta_anchors := dput (dc_name (pw_decl pw d)) d (ta_anchors ag)\<rparr>)"
proof (rule surface_okI)
  fix n assume "official n"
  with ok have "name_ok pw ag n" by (simp add: surface_ok_def)
  then show "name_ok pw (ag\<lparr>ta_anchors := dput (dc_name (pw_decl pw d)) d (ta_anchors ag)\<rparr>) n"
    using free by (auto simp: name_ok_def split: option.splits)
next
  fix n b assume b: "dget (ta_bindings (ag\<lparr>ta_anchors := dput (dc_name (pw_decl pw d)) d (ta_anchors ag)\<rparr>)) n = Some b"
  then have "\<exists>d'. dget (ta_anchors ag) n = Some d' \<and> bound_by pw d' b" using ok by (simp add: surface_ok_def)
  with free show "\<exists>d'. dget (ta_anchors (ag\<lparr>ta_anchors := dput (dc_name (pw_decl pw d)) d (ta_anchors ag)\<rparr>)) n = Some d'
      \<and> bound_by pw d' b" by auto
qed (use assms in \<open>auto simp: surface_ok_def split: if_splits\<close>)

lemma authorize_ok:
  assumes ok: "surface_ok pw ag"
  shows "surface_ok pw (snd (authorize_declaration pw d ag))"
proof (cases "authorize_declaration pw d ag")
  case (Pair r ag')
  show ?thesis
  proof (cases r)
    case (Inl e)
    with Pair ok show ?thesis using authorize_error [of pw d ag e ag'] by simp
  next
    case (Inr u)
    with Pair have "authorize_declaration pw d ag = (Inr u, ag')" by simp
    note f = authorize_facts [OF this]
    from anchored_ok [OF ok f(1,2)] Pair show ?thesis unfolding f(3) by simp
  qed
qed

lemma authorize_all_ok: "surface_ok pw ag \<Longrightarrow> surface_ok pw (snd (authorize_all pw ds ag))"
proof (induction ds arbitrary: ag)
  case (Cons d ds)
  from authorize_ok [OF Cons.prems, of d] Cons.IH show ?case
    by (auto split: prod.splits sum.splits)
qed simp

lemma record_binding_ok:
  assumes "surface_ok pw ag" "bound_by pw d b"
  shows "surface_ok pw (snd (record_binding pw d b ag))"
proof (cases "authorize_declaration pw d ag")
  case (Pair r ag1)
  show ?thesis
  proof (cases r)
    case (Inl e)
    with Pair authorize_ok [OF assms(1), of d] show ?thesis by (simp add: record_binding_def)
  next
    case (Inr u)
    from authorize_ok [OF assms(1), of d] Pair have ok1: "surface_ok pw ag1" by simp
    have anchor: "dget (ta_anchors ag1) (dc_name (pw_decl pw d)) = Some d"
      using authorize_facts(3) [of pw d ag u ag1] Pair Inr by simp
    let ?ag = "ag1\<lparr>ta_bindings := dput (dc_name (pw_decl pw d)) b (ta_bindings ag1)\<rparr>"
    have "surface_ok pw ?ag"
    proof (rule surface_okI)
      fix n assume "official n"
      then have "name_ok pw ag1 n" using ok1 by (simp add: surface_ok_def)
      then show "name_ok pw ?ag n" by (simp add: name_ok_def cong: option.case_cong)
    next
      fix n b' assume b': "dget (ta_bindings ?ag) n = Some b'"
      show "\<exists>d. dget (ta_anchors ?ag) n = Some d \<and> bound_by pw d b'"
      proof (cases "n = dc_name (pw_decl pw d)")
        case True
        with b' anchor assms(2) show ?thesis by simp
      next
        case False
        with b' have "dget (ta_bindings ag1) n = Some b'" by simp
        with ok1 show ?thesis by (simp add: surface_ok_def)
      qed
    qed (use ok1 in \<open>simp add: surface_ok_def\<close>)
    with Pair Inr show ?thesis by (simp add: record_binding_def)
  qed
qed

lemma bind_name: "bind_declaration plug d host = Inr b \<Longrightarrow> bp_name (plug b) = dc_name d"
  by (auto simp: bind_declaration_def split: if_splits option.splits dest!: ebind_eq_InrD)

lemma bound_by_name: "bound_by pw d b \<Longrightarrow> bp_name (pw_plug pw b) = dc_name (pw_decl pw d)"
  by (auto simp: bound_by_def dest: bind_name)

text \<open>What an official mount leaves, whether or not the live session could be updated.\<close>

lemma add_official:
  assumes "\<not> ta_sealed ag"
  shows "\<exists>c. snd (add_tool True n (official_entry b) ag) = ag\<lparr>ta_handlers := dput n (bp_handler b) (ta_handlers ag),
     ta_schemas := filter (\<lambda>s. fs_name s \<noteq> n) (ta_schemas ag) @ [(plugin_schema b)\<lparr>fs_name := n\<rparr>], ta_chat := c\<rparr>"
  using assms update_chat_same
  by (auto simp: add_tool_def Let_def official_entry_def plugin_schema_def)

lemma mounted_ok:
  assumes ok: "surface_ok pw ag" and off: "official n" and "dget (ta_anchors ag) n = Some d" "bound_by pw d b"
    and "bp_name (pw_plug pw b) = n" "dget (ta_claims ag) n \<in> {None, Some d}"
  shows "surface_ok pw (ag\<lparr>ta_handlers := dput n (bp_handler (pw_plug pw b)) (ta_handlers ag),
     ta_schemas := filter (\<lambda>s. fs_name s \<noteq> n) (ta_schemas ag) @ [(plugin_schema (pw_plug pw b))\<lparr>fs_name := n\<rparr>],
     ta_chat := c\<rparr>)" (is "surface_ok pw ?ag")
proof (rule surface_okI)
  fix m assume m: "official m"
  show "name_ok pw ?ag m"
  proof (cases "m = n")
    case True
    with assms(3-6) show ?thesis by (auto simp: name_ok_def plugin_schema_def intro!: exI [of _ b])
  next
    case False
    then have "name_ok pw ?ag m = name_ok pw ag m"
      by (intro name_ok_cong) (auto intro!: filter_cong)
    with ok m show ?thesis by (simp add: surface_ok_def)
  qed
qed (use ok in \<open>auto simp: surface_ok_def\<close>)


lemma mount_effect:
  assumes "mount_official_tool pw t ag = (r, ag')" "ag' \<noteq> ag"
  defines "n \<equiv> dc_name (pw_decl pw (mt_declaration t))" and "b \<equiv> pw_plug pw (mt_plugin t)"
  shows "official n" "bp_name b = n" "dget (ta_anchors ag) n = Some (mt_declaration t)"
    "dget (ta_bindings ag) n = Some (mt_plugin t)" "dget (ta_claims ag) n \<in> {None, Some (mt_declaration t)}"
    "\<exists>c. ag' = ag\<lparr>ta_handlers := dput n (bp_handler b) (ta_handlers ag),
       ta_schemas := filter (\<lambda>s. fs_name s \<noteq> n) (ta_schemas ag) @ [(plugin_schema b)\<lparr>fs_name := n\<rparr>], ta_chat := c\<rparr>"
proof -
  have tests: "official n \<and> bp_name b = n \<and> dget (ta_anchors ag) n = Some (mt_declaration t) \<and>
      dget (ta_bindings ag) n = Some (mt_plugin t) \<and> dget (ta_claims ag) n \<in> {None, Some (mt_declaration t)} \<and>
      ag' = snd (add_tool True n (official_entry b) ag)"
    using assms(1,2) unfolding n_def b_def
    by (auto simp: mount_official_tool_def Let_def split: if_splits sum.splits prod.splits)
  moreover have "\<not> ta_sealed ag"
    using tests assms(2) by (auto simp: add_tool_def)
  ultimately show "official n" "bp_name b = n" "dget (ta_anchors ag) n = Some (mt_declaration t)"
    "dget (ta_bindings ag) n = Some (mt_plugin t)" "dget (ta_claims ag) n \<in> {None, Some (mt_declaration t)}"
    "\<exists>c. ag' = ag\<lparr>ta_handlers := dput n (bp_handler b) (ta_handlers ag),
       ta_schemas := filter (\<lambda>s. fs_name s \<noteq> n) (ta_schemas ag) @ [(plugin_schema b)\<lparr>fs_name := n\<rparr>], ta_chat := c\<rparr>"
    using add_official [of ag n b] by simp_all
qed

lemma mount_ok:
  assumes ok: "surface_ok pw ag" and m: "mount_official_tool pw t ag = (r, ag')"
  shows "surface_ok pw ag'"
proof (cases "ag' = ag")
  case False
  note eff = mount_effect [OF m False]
  obtain d where "dget (ta_anchors ag) (dc_name (pw_decl pw (mt_declaration t))) = Some d" "bound_by pw d (mt_plugin t)"
    using ok eff(4) unfolding surface_ok_def by blast
  with eff(3) have "bound_by pw (mt_declaration t) (mt_plugin t)" by simp
  from mounted_ok [OF ok eff(1,3) this eff(2,5)] eff(6) show ?thesis by auto
qed (use ok in simp)

lemma mount_success:
  assumes "mount_official_tool pw t ag = (Inr t', ag')"
  shows "t' = t\<lparr>mt_consumed := True, mt_mounted := True\<rparr>" "\<not> ta_sealed ag"
    "ag' = snd (add_tool True (dc_name (pw_decl pw (mt_declaration t))) (official_entry (pw_plug pw (mt_plugin t))) ag)"
  using assms
  by (auto simp: mount_official_tool_def mark_mounted_def consume_transaction_def Let_def add_tool_def
      split: if_splits sum.splits prod.splits)

lemma mount_handlers:
  assumes "mount_official_tool pw t ag = (Inr t', ag')"
  shows "ta_handlers ag' = dput (dc_name (pw_decl pw (mt_declaration t))) (bp_handler (pw_plug pw (mt_plugin t))) (ta_handlers ag)
    \<and> ta_claims ag' = ta_claims ag \<and> ta_anchors ag' = ta_anchors ag \<and> ta_bindings ag' = ta_bindings ag"
  using add_official [OF mount_success(2) [OF assms], of "dc_name (pw_decl pw (mt_declaration t))" "pw_plug pw (mt_plugin t)"]
    mount_success(3) [OF assms] by auto

lemma claim_ok:
  assumes ok: "surface_ok pw ag" and c: "claim_official_tool pw t ag = (r, ag')"
    and h: "dget (ta_handlers ag) (dc_name (pw_decl pw (mt_declaration t))) \<noteq> None"
  shows "surface_ok pw ag'"
proof (cases "ag' = ag")
  case False
  let ?n = "dc_name (pw_decl pw (mt_declaration t))"
  have a: "dget (ta_anchors ag) ?n = Some (mt_declaration t)"
    and ag': "ag' = ag\<lparr>ta_claims := dput ?n (mt_declaration t) (ta_claims ag)\<rparr>"
    using c False by (auto simp: claim_official_tool_def Let_def split: if_splits)
  show ?thesis
  proof (rule surface_okI)
    fix m assume "official m"
    with ok have "name_ok pw ag m" by (simp add: surface_ok_def)
    with a h show "name_ok pw ag' m"
      unfolding ag' by (cases "m = ?n") (auto simp: name_ok_def split: option.splits)
  qed (use ok in \<open>auto simp: ag' surface_ok_def\<close>)
qed (use ok in simp)

lemma granted_bound:
  assumes "ebind (pw_ports_for pw d) (\<lambda>ports.
      ebind (host_grant (pw_decl pw d) ports) (bind_declaration (pw_plug pw) (pw_decl pw d))) = Inr b"
  shows "bound_by pw d b"
proof -
  from assms obtain ports where "pw_ports_for pw d = Inr ports"
    "ebind (host_grant (pw_decl pw d) ports) (bind_declaration (pw_plug pw) (pw_decl pw d)) = Inr b"
    by (auto dest!: ebind_eq_InrD)
  then have "bind_declaration (pw_plug pw) (pw_decl pw d) \<lparr>ph_plugin_name = dc_name (pw_decl pw d),
      ph_ports = map (\<lambda>p. (p, dgetd ports p 0)) (dc_requires (pw_decl pw d))\<rparr> = Inr b"
    by (auto simp: host_grant_def split: if_splits)
  then show ?thesis unfolding bound_by_def
    by (intro exI [of _ "map (\<lambda>p. (p, dgetd ports p 0)) (dc_requires (pw_decl pw d))"]) (simp add: comp_def)
qed

lemma register_one_ok:
  assumes ok: "surface_ok pw ag"
  shows "surface_ok pw (snd (register_one pw d ag))"
proof (cases "ebind (pw_ports_for pw d) (\<lambda>ports.
    ebind (host_grant (pw_decl pw d) ports) (bind_declaration (pw_plug pw) (pw_decl pw d)))")
  case (Inr b)
  obtain r1 ag1 where rec: "record_binding pw d b ag = (r1, ag1)" by (cases "record_binding pw d b ag")
  have ok1: "surface_ok pw ag1" using record_binding_ok [OF ok granted_bound [OF Inr]] rec by simp
  obtain r2 ag2 where mnt: "mount_official_tool pw (issue_transaction d b) ag1 = (r2, ag2)"
    by (cases "mount_official_tool pw (issue_transaction d b) ag1")
  have ok2: "surface_ok pw ag2" by (rule mount_ok [OF ok1 mnt])
  have "surface_ok pw ag3" if "r2 = Inr t" "claim_official_tool pw t ag2 = (r3, ag3)" for t r3 ag3
  proof (rule claim_ok [OF ok2 that(2)])
    show "dget (ta_handlers ag2) (dc_name (pw_decl pw (mt_declaration t))) \<noteq> None"
      using mount_handlers [of pw "issue_transaction d b" ag1 t ag2] mount_success(1) [of pw "issue_transaction d b" ag1 t ag2]
        mnt that(1) by (simp add: issue_transaction_def)
  qed
  with ok1 ok2 show ?thesis
    by (auto simp: register_one_def Inr rec mnt split: sum.splits option.splits prod.splits)
qed (use ok in \<open>simp add: register_one_def\<close>)

lemma register_loop_ok: "surface_ok pw ag \<Longrightarrow> surface_ok pw (snd (register_loop pw ds ag))"
proof (induction ds arbitrary: ag)
  case (Cons d ds)
  from register_one_ok [OF Cons.prems, of d] Cons.IH show ?case
    by (auto split: prod.splits sum.splits) (metis snd_conv)+
qed simp

lemma register_ok:
  assumes "surface_ok pw ag"
  shows "surface_ok pw (snd (register_official_tool_plugins pw ds ag))"
  using authorize_all_ok [OF assms, of ds] register_loop_ok assms
  by (auto simp: register_official_tool_plugins_def split: prod.splits sum.splits)


section \<open>Reachable tool surfaces\<close>

text \<open>What may happen to an agent's tools, by official registration or by any other route.\<close>

inductive tool_step :: "plugin_world \<Rightarrow> tool_agent \<Rightarrow> tool_agent \<Rightarrow> bool" for pw where
  s_register: "tool_step pw ag (snd (register_official_tool_plugins pw ds ag))"
| s_add: "tool_step pw ag (snd (add_tool False name e ag))"
| s_remove: "tool_step pw ag (snd (remove_tool name ag))"
| s_override: "tool_step pw ag (snd (override_intrinsic name ag))"
| s_refresh: "tool_step pw ag (refresh_tool_surface intrinsics ag)"
| s_seal: "tool_step pw ag (ag\<lparr>ta_sealed := True\<rparr>)"
| s_session: "tool_step pw ag (ag\<lparr>ta_chat := c\<rparr>)"

interpretation tool_surface: step_invariant "init_tool_agent intrinsics" "tool_step pw" "surface_ok pw" for intrinsics pw
proof
  show "surface_ok pw (init_tool_agent intrinsics)"
    by (rule surface_okI) (simp_all add: init_tool_agent_def name_ok_def)
next
  fix s t assume ok: "surface_ok pw s" and "tool_step pw s t"
  from this(2) show "surface_ok pw t"
  proof cases
    case (s_override name)
    have "surface_ok pw (s\<lparr>ta_intrinsics := x\<rparr>)" for x by (rule surface_ok_same [OF ok]) simp_all
    with ok s_override show ?thesis by (auto simp: override_intrinsic_def split: option.splits)
  next
    case (s_refresh intrinsics)
    show ?thesis unfolding s_refresh
      by (rule surface_okI) (use ok in \<open>auto simp: refresh_tool_surface_def name_ok_def surface_ok_def\<close>)
  next
    case s_seal
    show ?thesis unfolding s_seal by (rule surface_ok_same [OF ok]) simp_all
  qed (use ok register_ok add_tool_other_ok remove_tool_ok in auto)
qed

section \<open>Properties\<close>


definition sample_plugin :: bound_plugin where
  "sample_plugin = \<lparr>bp_name = ''web'',
     bp_schema = [(''properties'', PDict [(''action'', PDict [(''enum'', PList [PStr ''search'', PStr ''manual''])])])],
     bp_handler = 7, bp_description = ''d'', bp_glossary_package = None, bp_activate = None\<rparr>"

definition sample_declaration :: plugin_declaration where
  "sample_declaration = \<lparr>dc_name = ''web'', dc_actions = [''search''], dc_input_schemas = [(''search'', [])],
     dc_manual_input_schema = [], dc_manual = ''m'', dc_description = ''d'', dc_binder = (\<lambda>h. Inr (Some 0)),
     dc_requires = [''workdir''], dc_glossary_package = None, dc_settings = False\<rparr>"

definition sample_world :: plugin_world where
  "sample_world = \<lparr>pw_decl = (\<lambda>_. sample_declaration), pw_plug = (\<lambda>_. sample_plugin),
     pw_ports_for = (\<lambda>_. Inr [(''workdir'', 3), (''identity'', 4)])\<rparr>"

definition sample_tools :: tool_agent where
  "sample_tools = snd (register_official_tool_plugins sample_world [0] (init_tool_agent []))"

lemma sample_tools_eq:
  "sample_tools = \<lparr>ta_sealed = False, ta_intrinsics = [], ta_handlers = [(''web'', 7)],
     ta_schemas = [plugin_schema sample_plugin], ta_chat = None, ta_claims = [(''web'', 0)],
     ta_anchors = [(''web'', 0)], ta_bindings = [(''web'', 0)]\<rparr>"
  by (simp add: sample_tools_def register_official_tool_plugins_def sample_world_def sample_declaration_def
      sample_plugin_def init_tool_agent_def OFFICIAL_TOOL_PLUGIN_NAMES_def authorize_declaration_def Let_def
      register_one_def host_grant_def dhas_def bind_declaration_def advertised_actions_def public_actions_def
      MANUAL_ACTION_def record_binding_def mount_official_tool_def issue_transaction_def consume_transaction_def
      add_tool_def official_entry_def update_chat_tools_def mark_mounted_def claim_official_tool_def plugin_schema_def)



text \<open>The batch is free of name conflicts.\<close>

definition names_free :: "plugin_world \<Rightarrow> tool_agent \<Rightarrow> nat list \<Rightarrow> bool" where
  "names_free pw ag ds \<longleftrightarrow>
     distinct (map (\<lambda>d. dc_name (pw_decl pw d)) ds) \<and>
     (\<forall>d\<in>set ds. official (dc_name (pw_decl pw d)) \<and> dget (ta_claims ag) (dc_name (pw_decl pw d)) \<in> {None, Some d})"

lemma fresh_names:
  "(\<forall>d\<in>S. Q d \<and> f d \<notin> insert a T \<and> R d) \<longleftrightarrow> a \<notin> f ` S \<and> (\<forall>d\<in>S. Q d \<and> f d \<notin> T \<and> R d)"
  by auto

lemma check_names_iff:
  "check_names pw claimed seen ds = Inr () \<longleftrightarrow>
     distinct (map (\<lambda>d. dc_name (pw_decl pw d)) ds) \<and>
     (\<forall>d\<in>set ds. dc_name (pw_decl pw d) \<notin> set seen \<and> official (dc_name (pw_decl pw d)) \<and>
        dget claimed (dc_name (pw_decl pw d)) \<in> {None, Some d})"
proof (induction ds arbitrary: seen)
  case (Cons d ds)
  let ?n = "dc_name (pw_decl pw d)"
  have "check_names pw claimed seen (d # ds) = Inr () \<longleftrightarrow>
      official ?n \<and> ?n \<notin> set seen \<and> dget claimed ?n \<in> {None, Some d} \<and> check_names pw claimed (?n # seen) ds = Inr ()"
    unfolding check_names.simps Let_def by (simp del: insert_iff)
  also have "\<dots> \<longleftrightarrow> distinct (map (\<lambda>d. dc_name (pw_decl pw d)) (d # ds)) \<and>
     (\<forall>d\<in>set (d # ds). dc_name (pw_decl pw d) \<notin> set seen \<and> official (dc_name (pw_decl pw d)) \<and>
        dget claimed (dc_name (pw_decl pw d)) \<in> {None, Some d})"
    unfolding Cons.IH by (simp add: fresh_names conj_ac del: insert_iff)
  finally show ?case .
qed simp

text \<open>What a registered declaration leaves.\<close>

definition registered :: "plugin_world \<Rightarrow> tool_agent \<Rightarrow> nat \<Rightarrow> nat \<Rightarrow> bool" where
  "registered pw ag d b \<longleftrightarrow>
     dget (ta_claims ag) (dc_name (pw_decl pw d)) = Some d \<and>
     dget (ta_handlers ag) (dc_name (pw_decl pw d)) = Some (bp_handler (pw_plug pw b)) \<and> bound_by pw d b"

lemma register_one_success:
  assumes "register_one pw d ag = (Inr b, ag')"
  shows "registered pw ag' d b"
    "\<And>m. m \<noteq> dc_name (pw_decl pw d) \<Longrightarrow> dget (ta_claims ag') m = dget (ta_claims ag) m \<and>
       dget (ta_handlers ag') m = dget (ta_handlers ag) m"
proof -
  let ?n = "dc_name (pw_decl pw d)"
  obtain ag1 ag2 t where bind: "ebind (pw_ports_for pw d) (\<lambda>ports.
        ebind (host_grant (pw_decl pw d) ports) (bind_declaration (pw_plug pw) (pw_decl pw d))) = Inr b"
    and rec: "record_binding pw d b ag = (Inr (), ag1)"
    and mnt: "mount_official_tool pw (issue_transaction d b) ag1 = (Inr t, ag2)"
    and clm: "claim_official_tool pw t ag2 = (Inr (), ag')"
    using assms by (auto simp: register_one_def split: sum.splits prod.splits option.splits)
  have "ta_claims ag1 = ta_claims ag \<and> ta_handlers ag1 = ta_handlers ag"
    using rec authorize_facts(3) [of pw d ag] by (fastforce simp: record_binding_def split: prod.splits sum.splits)
  moreover have "ta_handlers ag2 = dput ?n (bp_handler (pw_plug pw b)) (ta_handlers ag1) \<and> ta_claims ag2 = ta_claims ag1"
    using mount_handlers [OF mnt] by (simp add: issue_transaction_def)
  moreover have "ag' = ag2\<lparr>ta_claims := dput ?n d (ta_claims ag2)\<rparr>"
    using clm mount_success(1) [OF mnt]
    by (auto simp: claim_official_tool_def Let_def issue_transaction_def split: if_splits)
  ultimately show "registered pw ag' d b"
    "\<And>m. m \<noteq> ?n \<Longrightarrow> dget (ta_claims ag') m = dget (ta_claims ag) m \<and> dget (ta_handlers ag') m = dget (ta_handlers ag) m"
    using granted_bound [OF bind] by (simp_all add: registered_def)
qed

lemma register_loop_success:
  "register_loop pw ds ag = (Inr bs, ag') \<Longrightarrow> distinct (map (\<lambda>d. dc_name (pw_decl pw d)) ds) \<Longrightarrow>
     list_all2 (registered pw ag') ds bs \<and>
     (\<forall>m. m \<notin> (\<lambda>d. dc_name (pw_decl pw d)) ` set ds \<longrightarrow>
        dget (ta_claims ag') m = dget (ta_claims ag) m \<and> dget (ta_handlers ag') m = dget (ta_handlers ag) m)"
proof (induction ds arbitrary: ag bs)
  case (Cons d ds)
  then obtain b ag1 bs1 where one: "register_one pw d ag = (Inr b, ag1)"
    and rest: "register_loop pw ds ag1 = (Inr bs1, ag')" and bs: "bs = b # bs1"
    by (auto split: prod.splits sum.splits)
  note IH = Cons.IH [OF rest] and one' = register_one_success [OF one]
  have "dc_name (pw_decl pw d) \<notin> (\<lambda>d. dc_name (pw_decl pw d)) ` set ds" "distinct (map (\<lambda>d. dc_name (pw_decl pw d)) ds)"
    using Cons.prems(2) by auto
  with IH one' bs show ?case by (simp add: registered_def)
qed simp

text \<open>registration refuses a name conflict as a unit and otherwise delivers every member. A batch that names an
  unreserved or repeated name, or a name claimed by another declaration, leaves the agent exactly as it was,
  before any binder runs; a batch that succeeds had no conflict, and each of its declarations is claimed and
  served by the handler of its own bind.\<close>

theorem registration_refused_or_complete:
  "(\<not> names_free pw ag ds \<longrightarrow> (\<exists>e. register_official_tool_plugins pw ds ag = (Inl e, ag))) \<and>
   (\<forall>bs ag'. register_official_tool_plugins pw ds ag = (Inr bs, ag') \<longrightarrow>
      names_free pw ag ds \<and> list_all2 (registered pw ag') ds bs)"
proof -
  have free: "check_names pw (ta_claims ag) [] ds = Inr () \<longleftrightarrow> names_free pw ag ds"
    by (auto simp: check_names_iff names_free_def)
  have "list_all2 (registered pw ag') ds bs"
    if "register_official_tool_plugins pw ds ag = (Inr bs, ag')" "names_free pw ag ds" for bs ag'
    using that register_loop_success [of pw ds _ bs ag']
    by (auto simp: register_official_tool_plugins_def names_free_def split: prod.splits sum.splits)
  then show ?thesis
    using free by (cases "check_names pw (ta_claims ag) [] ds") (auto simp: register_official_tool_plugins_def)
qed

lemma registration_refused_or_complete_witness:
  "\<exists>e. register_official_tool_plugins sample_world [0, 1] sample_tools = (Inl e, sample_tools)"
proof -
  have "\<not> names_free sample_world sample_tools [0, 1]" by (simp add: names_free_def sample_world_def)
  with registration_refused_or_complete [of sample_world sample_tools "[0, 1]"] show ?thesis by blast
qed

end
