(* ===== verification/Config_Resolve.thy ===== *)
theory Config_Resolve
  imports Result_Artifacts
begin

text \<open>
  Configuration text (\<^verbatim>\<open>config_resolve.py\<close>): the two scanners that turn JSONC into JSON, the \<^verbatim>\<open>.env\<close>
  reader and the \<^verbatim>\<open>*_env\<close> fields of the capabilities.

  The scanners are index loops in the code and stay loops here (\<open>while_option\<close>, whose \<open>None\<close> is a
  loop that never ends); the laws say that they end on every text and give the structural scan, and
  that text which \<^verbatim>\<open>json.dumps\<close> wrote passes both of them unchanged.

  \<^verbatim>\<open>json.loads\<close> is the parameter \<open>loads\<close>. The process environment is a dictionary of strings.
\<close>

section \<open>Comments\<close>

record strip_state =
  ss_parts :: "string list"
  ss_in_string :: bool
  ss_escaped :: bool
  ss_in_comment :: bool
  ss_i :: nat

definition strip_init :: strip_state where
  "strip_init = \<lparr>ss_parts = [], ss_in_string = False, ss_escaped = False, ss_in_comment = False, ss_i = 0\<rparr>"

text \<open>One pass of the loop body; \<open>ss_i st < length text\<close> there.\<close>

definition strip_step :: "string \<Rightarrow> strip_state \<Rightarrow> strip_state" where
  "strip_step text st =
     (let i = ss_i st; ch = text ! i; keep = st\<lparr>ss_parts := ss_parts st @ [[ch]], ss_i := i + 1\<rparr> in
      if ss_in_comment st then
        (if ch = CHR 0x0A then keep\<lparr>ss_in_comment := False\<rparr> else st\<lparr>ss_i := i + 1\<rparr>)
      else if ss_in_string st then
        (if ss_escaped st then keep\<lparr>ss_escaped := False\<rparr>
         else if ch = backslash then keep\<lparr>ss_escaped := True\<rparr>
         else if ch = dquote then keep\<lparr>ss_in_string := False\<rparr>
         else keep)
      else if ch = dquote then keep\<lparr>ss_in_string := True\<rparr>
      else if ch = CHR ''/'' \<and> i + 1 < length text \<and> text ! (i + 1) = CHR ''/'' then
        st\<lparr>ss_in_comment := True, ss_i := i + 2\<rparr>
      else keep)"

definition strip_comments :: "string \<Rightarrow> string option" where
  "strip_comments text =
     map_option (\<lambda>st. concat (ss_parts st))
       (while_option (\<lambda>st. ss_i st < length text) (strip_step text) strip_init)"

section \<open>Trailing commas\<close>

definition closing :: "char \<Rightarrow> bool" where
  "closing c \<longleftrightarrow> c = CHR ''}'' \<or> c = CHR '']''"

text \<open>
  \<^verbatim>\<open>_TRAILING_COMMA_RE.sub\<close>: a comma, any white space and a closing bracket give the bracket. White
  space is never a bracket, so the greedy match needs no backtracking.
\<close>

function sub_commas :: "string \<Rightarrow> string" where
  "sub_commas [] = []"
| "sub_commas (c # cs) =
     (if c = CHR '','' \<and> (\<exists>b\<in>set (take 1 (lstrip cs)). closing b)
      then hd (lstrip cs) # sub_commas (tl (lstrip cs))
      else c # sub_commas cs)"
  by pat_completeness auto
termination
proof (relation "measure length")
  fix c cs assume "c = CHR '','' \<and> (\<exists>b\<in>set (take 1 (lstrip cs)). closing b)"
  show "(tl (lstrip cs), c # cs) \<in> measure length"
    using length_dropWhile_le [of is_space cs] by (simp add: lstrip_def)
qed auto

record comma_state =
  cs_out :: "string list"
  cs_pos :: nat
  cs_in_string :: bool
  cs_escaped :: bool
  cs_i :: nat

definition comma_init :: comma_state where
  "comma_init = \<lparr>cs_out = [], cs_pos = 0, cs_in_string = False, cs_escaped = False, cs_i = 0\<rparr>"

text \<open>\<^verbatim>\<open>text[a:b]\<close> for indexes inside the text.\<close>

definition slice :: "nat \<Rightarrow> nat \<Rightarrow> string \<Rightarrow> string" where
  "slice a b text = take (b - a) (drop a text)"

definition comma_step :: "string \<Rightarrow> comma_state \<Rightarrow> comma_state" where
  "comma_step text st =
     (let i = cs_i st; ch = text ! i in
      if cs_in_string st then
        (let copy = st\<lparr>cs_out := cs_out st @ [[ch]], cs_i := i + 1\<rparr> in
         if cs_escaped st then copy\<lparr>cs_escaped := False\<rparr>
         else if ch = backslash then copy\<lparr>cs_escaped := True\<rparr>
         else if ch = dquote then copy\<lparr>cs_in_string := False, cs_pos := i + 1\<rparr>
         else copy)
      else if ch = dquote then
        st\<lparr>cs_out := cs_out st @ [sub_commas (slice (cs_pos st) i text), [ch]],
           cs_in_string := True, cs_i := i + 1\<rparr>
      else st\<lparr>cs_i := i + 1\<rparr>)"

text \<open>
  Inside a string that never closes, \<^verbatim>\<open>pos\<close> still names the segment before the opening quote, and the
  last line of the code copies from there again.
\<close>

definition strip_trailing_commas :: "string \<Rightarrow> string option" where
  "strip_trailing_commas text =
     map_option (\<lambda>st. concat (cs_out st) @ sub_commas (drop (cs_pos st) text))
       (while_option (\<lambda>st. cs_i st < length text) (comma_step text) comma_init)"

datatype parsed = Diverges | DecodeError | Parsed py

definition parse_jsonc :: "(string \<Rightarrow> py option) \<Rightarrow> string \<Rightarrow> parsed" where
  "parse_jsonc loads text =
     (case Option.bind (strip_comments text) strip_trailing_commas of
        None \<Rightarrow> Diverges
      | Some t \<Rightarrow> (case loads t of None \<Rightarrow> DecodeError | Some v \<Rightarrow> Parsed v))"

section \<open>Environment variables\<close>

type_synonym environ = "(string \<times> string) list"

text \<open>
  \<^verbatim>\<open>resolve_env\<close>. The name comes from decoded JSON: one that is neither falsy nor a string makes
  \<^verbatim>\<open>os.environ.get\<close> raise.
\<close>

definition resolve_env :: "environ \<Rightarrow> py \<Rightarrow> py \<Rightarrow> exc + py" where
  "resolve_env env value env_name =
     (if truthy env_name then
        (case env_name of
           PStr name \<Rightarrow>
             (case dget env name of
                Some v \<Rightarrow> Inr (if v \<noteq> [] then PStr v else value)
              | None \<Rightarrow> Inr value)
         | _ \<Rightarrow> Inl (TypeError ''str expected''))
      else Inr value)"

text \<open>\<^verbatim>\<open>resolve_env_checked\<close>: the value, and the warnings given.\<close>

definition resolve_env_checked :: "environ \<Rightarrow> py \<Rightarrow> py \<Rightarrow> string \<Rightarrow> exc + py \<times> string list" where
  "resolve_env_checked env value env_name ctxt =
     ebind (resolve_env env value env_name) (\<lambda>resolved.
       Inr (resolved,
         if truthy env_name \<and> resolved = PNone
         then [ctxt @ '': environment variable '' @ py_repr (\<lambda>_. []) env_name
               @ '' is unset or empty and no fallback value is configured'']
         else []))"

definition strip_matched_quotes :: "string \<Rightarrow> string" where
  "strip_matched_quotes val =
     (if 2 \<le> length val \<and> hd val = last val \<and> (hd val = squote \<or> hd val = dquote)
      then butlast (tl val) else val)"

text \<open>The assignment that a line of the file makes, if it makes one.\<close>

definition env_assignment :: "string \<Rightarrow> (string \<times> string) option" where
  "env_assignment raw =
     (let line = strip raw in
      if line = [] \<or> startswith line ''#'' then None
      else
        let line = (if startswith line ''export '' \<or> startswith line (''export'' @ [CHR 0x09])
                    then lstrip (drop (length ''export'') line) else line)
        in
        if CHR ''='' \<notin> set line then None
        else
          let key = strip (before_char CHR ''='' line); val = after_char CHR ''='' line in
          if key = [] \<or> CHR '' '' \<in> set key then None
          else Some (key, strip_matched_quotes (strip val)))"

text \<open>
  The loop over the lines. Writing a name or value with a null byte makes \<^verbatim>\<open>os.environ\<close> raise, after
  the assignments before it have been made.
\<close>

fun load_env_lines :: "bool \<Rightarrow> string list \<Rightarrow> environ \<Rightarrow> exc option \<times> environ" where
  "load_env_lines overwrite [] env = (None, env)"
| "load_env_lines overwrite (l # ls) env =
     (case env_assignment l of
        None \<Rightarrow> load_env_lines overwrite ls env
      | Some (key, val) \<Rightarrow>
          if overwrite \<or> \<not> dhas env key then
            (if char_of (0 :: nat) \<in> set (key @ val) then (Some (ValueError ''embedded null byte''), env)
             else load_env_lines overwrite ls (dput key val env))
          else load_env_lines overwrite ls env)"

text \<open>\<^verbatim>\<open>load_env_file\<close>: the file is its text, or absent.\<close>

definition load_env_file :: "bool \<Rightarrow> string option \<Rightarrow> environ \<Rightarrow> exc option \<times> environ" where
  "load_env_file overwrite file env =
     (case file of None \<Rightarrow> (None, env) | Some text \<Rightarrow> load_env_lines overwrite (splitlines text) env)"

definition dget_none :: "dict \<Rightarrow> string \<Rightarrow> py" where
  "dget_none d k = dgetd d k PNone"

text \<open>\<^verbatim>\<open>_resolve_env_fields\<close>: the suffixed keys are listed before the first of them is resolved.\<close>

fun resolve_env_keys :: "environ \<Rightarrow> string list \<Rightarrow> dict \<Rightarrow> exc + dict" where
  "resolve_env_keys env [] d = Inr d"
| "resolve_env_keys env (k # ks) d =
     (let base = take (length k - length ''_env'') k in
      ebind (dindex d k) (\<lambda>name.
      ebind (resolve_env env (dget_none d base) name) (\<lambda>v.
        resolve_env_keys env ks (dput base v (dpop k d)))))"

definition resolve_env_fields :: "environ \<Rightarrow> dict \<Rightarrow> exc + dict" where
  "resolve_env_fields env d = resolve_env_keys env (filter (\<lambda>k. endswith k ''_env'') (dkeys d)) d"

definition resolve_capabilities :: "environ \<Rightarrow> dict \<Rightarrow> exc + dict" where
  "resolve_capabilities env caps =
     emap (\<lambda>(name, kwargs).
       case kwargs of
         PDict d \<Rightarrow> if d \<noteq> [] then ebind (resolve_env_fields env d) (\<lambda>r. Inr (name, PDict r))
                    else Inr (name, kwargs)
       | _ \<Rightarrow> Inr (name, kwargs)) caps"

section \<open>Laws of the scanners\<close>

datatype scan_mode = Plain | InString | InEscape | InComment

fun string_mode :: "char \<Rightarrow> scan_mode" where
  "string_mode c = (if c = backslash then InEscape else if c = dquote then Plain else InString)"

text \<open>The two scans by recursion on the text; \<open>since\<close> is the text from \<^verbatim>\<open>pos\<close> to the scan index.\<close>

fun strip_scan :: "scan_mode \<Rightarrow> string \<Rightarrow> string" where
  "strip_scan m [] = []"
| "strip_scan InComment (c # cs) = (if c = CHR 0x0A then c # strip_scan Plain cs else strip_scan InComment cs)"
| "strip_scan InEscape (c # cs) = c # strip_scan InString cs"
| "strip_scan InString (c # cs) = c # strip_scan (string_mode c) cs"
| "strip_scan Plain (c # cs) =
     (if c = dquote then c # strip_scan InString cs
      else if c = CHR ''/'' \<and> take 1 cs = ''/'' then strip_scan InComment (tl cs)
      else c # strip_scan Plain cs)"

fun comma_scan :: "scan_mode \<Rightarrow> string \<Rightarrow> string \<Rightarrow> string" where
  "comma_scan m since [] = sub_commas since"
| "comma_scan InEscape since (c # cs) = c # comma_scan InString (since @ [c]) cs"
| "comma_scan InString since (c # cs) =
     c # comma_scan (string_mode c) (if string_mode c = Plain then [] else since @ [c]) cs"
| "comma_scan m since (c # cs) =
     (if c = dquote then sub_commas since @ c # comma_scan InString (since @ [c]) cs
      else comma_scan Plain (since @ [c]) cs)"

definition strip_mode :: "strip_state \<Rightarrow> scan_mode" where
  "strip_mode st =
     (if ss_in_comment st then InComment
      else if ss_in_string st then (if ss_escaped st then InEscape else InString) else Plain)"

definition comma_mode :: "comma_state \<Rightarrow> scan_mode" where
  "comma_mode st = (if cs_in_string st then (if cs_escaped st then InEscape else InString) else Plain)"

lemma drop_nth: "i < length xs \<Longrightarrow> drop i xs = xs ! i # drop (Suc i) xs"
  by (simp add: Cons_nth_drop_Suc)

lemma second_nth: "take 1 (drop (Suc i) xs) = [y] \<longleftrightarrow> Suc i < length xs \<and> xs ! Suc i = y"
  by (cases "Suc i < length xs") (auto simp: drop_nth)

lemma special_chars: "dquote \<noteq> CHR ''/''" "CHR ''/'' \<noteq> dquote" "backslash \<noteq> dquote" "dquote \<noteq> backslash"
  by (simp_all add: dquote_def backslash_def)

definition strip_ok :: "strip_state \<Rightarrow> bool" where
  "strip_ok st \<longleftrightarrow> (ss_in_comment st \<longrightarrow> \<not> ss_in_string st) \<and> (ss_escaped st \<longrightarrow> ss_in_string st)"

lemma strip_step_scan:
  assumes ok: "strip_ok st" and i: "ss_i st < length src"
  shows "strip_ok (strip_step src st) \<and>
    length src - ss_i (strip_step src st) < length src - ss_i st \<and>
    concat (ss_parts (strip_step src st)) @ strip_scan (strip_mode (strip_step src st)) (drop (ss_i (strip_step src st)) src) =
      concat (ss_parts st) @ strip_scan (strip_mode st) (drop (ss_i st) src)"
proof -
  define c cs where "c = src ! ss_i st" and "cs = drop (Suc (ss_i st)) src"
  then have here: "drop (ss_i st) src = c # cs" using i by (simp add: drop_nth)
  have further: "length src - Suc (ss_i st) < length src - ss_i st"
    "length src - Suc (Suc (ss_i st)) < length src - ss_i st" using i by simp_all
  have double: "take 1 cs = ''/'' \<longleftrightarrow> Suc (ss_i st) < length src \<and> src ! Suc (ss_i st) = CHR ''/''"
    unfolding cs_def by (rule second_nth)
  have after: "drop (Suc (Suc (ss_i st))) src = tl cs" by (simp add: cs_def drop_Suc tl_drop)
  consider "ss_in_comment st" | "\<not> ss_in_comment st" "ss_in_string st" | "\<not> ss_in_comment st" "\<not> ss_in_string st"
    by blast
  then show ?thesis
  proof cases
    case 3
    show ?thesis
    proof (cases "c = CHR ''/'' \<and> take 1 cs = ''/''")
      case True
      then have "src ! ss_i st = CHR ''/''" "Suc (ss_i st) < length src" "src ! Suc (ss_i st) = CHR ''/''"
        using double by (simp_all add: c_def)
      with 3 ok further True show ?thesis
        by (simp add: here strip_step_def strip_mode_def strip_ok_def special_chars Let_def after)
    qed (use 3 ok further here cs_def c_def double in \<open>auto simp: strip_step_def strip_mode_def strip_ok_def Let_def special_chars\<close>)
  qed (use ok further here cs_def c_def in \<open>auto simp: strip_step_def strip_mode_def strip_ok_def Let_def special_chars\<close>)
qed

lemma strip_comments_scan: "strip_comments src = Some (strip_scan Plain src)"
proof -
  let ?f = "\<lambda>st. concat (ss_parts st) @ strip_scan (strip_mode st) (drop (ss_i st) src)"
  obtain t where t: "while_option (\<lambda>st. ss_i st < length src) (strip_step src) strip_init = Some t"
    "\<not> ss_i t < length src" "?f t = ?f strip_init"
    using while_result [where P = strip_ok and b = "\<lambda>st. ss_i st < length src" and c = "strip_step src"
        and m = "\<lambda>st. length src - ss_i st" and f = ?f and s = strip_init] strip_step_scan
    by (auto simp: strip_ok_def strip_init_def)
  then show ?thesis by (simp add: strip_comments_def strip_init_def strip_mode_def)
qed

definition comma_ok :: "string \<Rightarrow> comma_state \<Rightarrow> bool" where
  "comma_ok src st \<longleftrightarrow> cs_pos st \<le> cs_i st \<and> (cs_escaped st \<longrightarrow> cs_in_string st)"

lemma slice_Suc: "pos \<le> i \<Longrightarrow> i < length src \<Longrightarrow> slice pos (Suc i) src = slice pos i src @ [src ! i]"
  by (simp add: slice_def Suc_diff_le take_Suc_conv_app_nth)

lemma slice_all: "\<not> i < length src \<Longrightarrow> slice pos i src = drop pos src"
  by (simp add: slice_def)

lemma slice_empty [simp]: "slice i i src = []"
  by (simp add: slice_def)

lemma comma_step_scan:
  assumes ok: "comma_ok src st" and i: "cs_i st < length src"
  shows "comma_ok src (comma_step src st) \<and>
    length src - cs_i (comma_step src st) < length src - cs_i st \<and>
    concat (cs_out (comma_step src st)) @
      comma_scan (comma_mode (comma_step src st)) (slice (cs_pos (comma_step src st)) (cs_i (comma_step src st)) src)
        (drop (cs_i (comma_step src st)) src) =
    concat (cs_out st) @ comma_scan (comma_mode st) (slice (cs_pos st) (cs_i st) src) (drop (cs_i st) src)"
proof -
  have here: "drop (cs_i st) src = src ! cs_i st # drop (Suc (cs_i st)) src" using i by (simp add: drop_nth)
  have more: "slice (cs_pos st) (Suc (cs_i st)) src = slice (cs_pos st) (cs_i st) src @ [src ! cs_i st]"
    using ok i by (simp add: comma_ok_def slice_Suc)
  have further: "length src - Suc (cs_i st) < length src - cs_i st" using i by simp
  consider "cs_in_string st" "cs_escaped st" | "cs_in_string st" "\<not> cs_escaped st" | "\<not> cs_in_string st"
    by blast
  then show ?thesis
    by cases (use ok further in \<open>auto simp: here more comma_step_def comma_mode_def comma_ok_def Let_def special_chars\<close>)
qed

lemma strip_trailing_commas_scan: "strip_trailing_commas src = Some (comma_scan Plain [] src)"
proof -
  let ?f = "\<lambda>st. concat (cs_out st) @ comma_scan (comma_mode st) (slice (cs_pos st) (cs_i st) src) (drop (cs_i st) src)"
  obtain t where t: "while_option (\<lambda>st. cs_i st < length src) (comma_step src) comma_init = Some t"
    "\<not> cs_i t < length src" "?f t = ?f comma_init"
    using while_result [where P = "comma_ok src" and b = "\<lambda>st. cs_i st < length src" and c = "comma_step src"
        and m = "\<lambda>st. length src - cs_i st" and f = ?f and s = comma_init] comma_step_scan
    by (auto simp: comma_ok_def comma_init_def)
  then show ?thesis by (simp add: strip_trailing_commas_def comma_init_def comma_mode_def slice_all)
qed

text \<open>
  A text is quiet when neither scanner has anything to remove from it: outside its strings it has no
  slash, and no closing bracket comes after a comma and white space only. The flag says whether that
  is so far the case.
\<close>

fun quiet :: "scan_mode \<Rightarrow> bool \<Rightarrow> string \<Rightarrow> (scan_mode \<times> bool) option" where
  "quiet m p [] = Some (m, p)"
| "quiet InComment p (c # cs) = None"
| "quiet InEscape p (c # cs) = quiet InString False cs"
| "quiet InString p (c # cs) = quiet (string_mode c) False cs"
| "quiet Plain p (c # cs) =
     (if c = CHR ''/'' \<or> p \<and> closing c then None
      else if c = dquote then quiet InString False cs
      else quiet Plain (c = CHR '','' \<or> p \<and> is_space c) cs)"

lemma quiet_append: "quiet m p (a @ b) = Option.bind (quiet m p a) (\<lambda>(m', p'). quiet m' p' b)"
  by (induction m p a rule: quiet.induct) auto

lemma quiet_strip: "quiet m p s = Some r \<Longrightarrow> strip_scan m s = s"
  by (induction m p s rule: quiet.induct) (auto split: if_splits)

lemma space_chars: "is_space c \<Longrightarrow> c \<noteq> CHR ''/'' \<and> c \<noteq> dquote \<and> c \<noteq> CHR '','' \<and> \<not> closing c"
  by (auto simp: is_space_def dquote_def closing_def)

lemma quiet_pending: "quiet Plain True cs = Some r \<Longrightarrow> \<not> (\<exists>b\<in>set (take 1 (lstrip cs)). closing b)"
proof (induction cs)
  case (Cons c cs)
  show ?case
  proof (cases "is_space c")
    case True
    with Cons space_chars [OF True] show ?thesis by (simp add: lstrip_def)
  next
    case False
    with Cons.prems show ?thesis by (simp add: lstrip_def split: if_splits)
  qed
qed (simp add: lstrip_def)

lemma quiet_sub: "quiet Plain p s = Some r \<Longrightarrow> dquote \<notin> set s \<Longrightarrow> sub_commas s = s"
proof (induction s arbitrary: p)
  case (Cons c cs)
  then show ?case
    using quiet_pending [of cs r] by (auto simp: closing_def split: if_splits)
qed simp

lemma quiet_commas:
  assumes "quiet m p s = Some (Plain, p')"
  shows "m = Plain \<Longrightarrow> dquote \<notin> set since \<Longrightarrow> quiet Plain False since = Some (Plain, p) \<Longrightarrow>
      comma_scan m since s = since @ s"
    and "m \<noteq> Plain \<Longrightarrow> comma_scan m since s = s"
  using assms
proof (induction m p s arbitrary: since rule: quiet.induct)
  case (1 m p)
  { case 1 then show ?case using quiet_sub by auto
  next case 2 then show ?case by simp }
next
  case (2 p c cs)
  { case 1 then show ?case by simp
  next case 2 then show ?case by simp }
next
  case (3 p c cs)
  { case 1 then show ?case by simp
  next case 2 with 3 show ?case by simp }
next
  case (4 p c cs)
  { case 1 then show ?case by simp
  next case 2 with 4 show ?case by (cases "string_mode c = Plain") simp_all }
next
  case (5 p c cs)
  { case 1
    then show ?case
    proof (cases "c = dquote")
      case True
      with 1 5(2) quiet_sub [of False since] show ?thesis by (auto split: if_splits)
    next
      case False
      from 1 False have "quiet Plain False (since @ [c]) = Some (Plain, c = CHR '','' \<or> p \<and> is_space c)"
        by (auto simp: quiet_append split: if_splits)
      with 1 False 5(3) [of "since @ [c]"] show ?thesis by (auto split: if_splits)
    qed
  next case 2 then show ?case by simp }
qed

text \<open>A piece of JSON text that leaves the scanners where they were, with no comma pending.\<close>

definition neutral :: "string \<Rightarrow> bool" where
  "neutral w \<longleftrightarrow> (\<forall>p. quiet Plain p w = Some (Plain, False))"

definition word_char :: "char \<Rightarrow> bool" where
  "word_char c \<longleftrightarrow> c \<noteq> CHR ''/'' \<and> c \<noteq> dquote \<and> c \<noteq> CHR '','' \<and> \<not> closing c \<and> \<not> is_space c"

lemma neutral_word: "w \<noteq> [] \<Longrightarrow> \<forall>c\<in>set w. word_char c \<Longrightarrow> neutral w"
proof -
  have flat: "\<forall>c\<in>set w. word_char c \<Longrightarrow> quiet Plain False w = Some (Plain, False)" for w
    by (induction w) (auto simp: word_char_def)
  show "w \<noteq> [] \<Longrightarrow> \<forall>c\<in>set w. word_char c \<Longrightarrow> neutral w"
    using flat [of "tl w"] by (cases w) (auto simp: neutral_def word_char_def)
qed

lemma neutral_append: "neutral a \<Longrightarrow> quiet Plain False m = Some (Plain, p) \<Longrightarrow> neutral b \<Longrightarrow> neutral (a @ m @ b)"
  by (simp add: neutral_def quiet_append)

lemma neutral_join:
  assumes "quiet Plain False sep = Some (Plain, p)" "\<forall>x\<in>set xs. neutral x" "xs \<noteq> []"
  shows "neutral (join_str sep xs)"
  using assms by (induction sep xs rule: join_str.induct) (auto intro: neutral_append)

lemma neutral_digits: "neutral (nat_str n)" "neutral (int_str i)"
proof -
  have "list_all (\<lambda>n. word_char (digit_char n)) [0..<10]" by code_simp
  then have digit: "word_char (digit_char n)" if "n < 10" for n using that by (simp add: list_all_iff)
  have all: "\<forall>c\<in>set (nat_str n). word_char c" for n
  proof (induction n rule: nat_str.induct)
    case (1 n)
    then show ?case by (subst nat_str.simps) (auto simp: digit)
  qed
  have sign: "word_char CHR ''-''"
    by (simp add: word_char_def dquote_def closing_def is_space_def)
  show "neutral (nat_str n)" using all by (simp add: neutral_word nat_str_nonempty)
  show "neutral (int_str i)"
    using all sign by (auto simp: int_str_def intro!: neutral_word dest: nat_str_nonempty [THEN notE])
qed

lemma quiet_hex: "n < 16 \<Longrightarrow> string_mode (hex_digit n) = InString"
proof -
  have "list_all (\<lambda>n. string_mode (hex_digit n) = InString) [0..<16]" by code_simp
  then show "n < 16 \<Longrightarrow> ?thesis" by (simp add: list_all_iff)
qed

lemma raw_char_cases:
  obtains (plain) "raw_json_char c = [c]" "c \<noteq> dquote" "c \<noteq> backslash"
  | (escape) d where "raw_json_char c = [backslash, d]"
  | (hex) n m where "raw_json_char c = [backslash, CHR ''u'', CHR ''0'', CHR ''0'', hex_digit n, hex_digit m]" "n < 16" "m < 16"
proof -
  let ?n = "of_char c :: nat"
  have lt: "?n div 16 < 16" "?n mod 16 < 16"
    using nat_of_char_less_256 [of c] by (simp_all add: div_less_iff_less_mult)
  show ?thesis
  proof (cases "127 \<le> ?n")
    case True
    then have "c \<noteq> dquote" "c \<noteq> backslash" by (auto simp: dquote_def backslash_def)
    with True show ?thesis by (intro plain) (simp_all add: raw_json_char_def)
  next
    case False
    then have raw: "raw_json_char c = json_char c" by (simp add: raw_json_char_def)
    show ?thesis
    proof (cases "c = dquote \<or> c = backslash \<or> ?n \<in> {10, 13, 9, 12, 8}")
      case True
      then have "\<exists>d. json_char c = [backslash, d]" unfolding json_char_def Let_def by auto
      with raw show ?thesis using escape by auto
    next
      case other: False
      show ?thesis
      proof (cases "?n < 32")
        case True
        with other raw hex lt show ?thesis by (simp add: json_char_def Let_def)
      next
        case big: False
        with other raw False plain show ?thesis by (simp add: json_char_def Let_def)
      qed
    qed
  qed
qed

lemma quiet_escape: "quiet InString False (backslash # d # s) = quiet InString False s"
  by simp

lemma quiet_raw_char: "quiet InString False (raw_json_char c) = Some (InString, False)"
proof (cases rule: raw_char_cases [of c])
  case plain
  then show ?thesis by simp
next
  case (escape d)
  then show ?thesis by (simp only: quiet_escape quiet.simps(1))
next
  case (hex n m)
  have modes: "string_mode CHR ''0'' = InString" "string_mode backslash = InEscape"
    by (simp_all add: backslash_def dquote_def)
  from hex show ?thesis by (simp only: modes quiet.simps(1,3,4) quiet_hex)
qed

lemma quiet_raw_chars: "quiet InString False (concat (map raw_json_char s)) = Some (InString, False)"
  by (induction s) (simp_all add: quiet_append quiet_raw_char)

lemma quiet_quote: "quiet Plain p (dquote # s) = quiet InString False s" "quiet InString p (dquote # s) = quiet Plain False s"
  by (simp_all add: special_chars) (simp_all add: closing_def dquote_def)

lemma neutral_string: "neutral (raw_json_string s)"
  by (simp add: neutral_def raw_json_string_def quiet_append quiet_raw_chars quiet_quote del: quiet.simps(2-5))

lemma quiet_brackets:
  "quiet Plain p (CHR ''['' # s) = quiet Plain False s" "quiet Plain p (CHR ''{'' # s) = quiet Plain False s"
  "quiet Plain False (CHR '']'' # s) = quiet Plain False s" "quiet Plain False (CHR ''}'' # s) = quiet Plain False s"
  by (simp_all add: closing_def dquote_def is_space_def)

lemma neutral_brackets:
  assumes "neutral w \<or> w = []" "quiet Plain False a = Some (Plain, False)" "quiet Plain False b = Some (Plain, False)"
  shows "neutral (''['' @ a @ w @ b @ '']'')" "neutral (''{'' @ a @ w @ b @ ''}'')"
  using assms by (auto simp: neutral_def quiet_append quiet_brackets simp del: quiet.simps(2-5))

lemma quiet_pad: "quiet Plain p (json_pad n) = Some (Plain, p)"
proof -
  have "quiet Plain p (replicate k CHR '' '') = Some (Plain, p)" for k
    by (induction k) (simp_all add: closing_def dquote_def is_space_def)
  then show ?thesis by (simp add: json_pad_def nl_def closing_def dquote_def is_space_def)
qed

text \<open>Floats are rendered without quotes, slashes, commas, brackets or white space.\<close>

definition plain_floats :: "(rat \<Rightarrow> string) \<Rightarrow> bool" where
  "plain_floats fr \<longleftrightarrow> (\<forall>r. fr r \<noteq> [] \<and> (\<forall>c\<in>set (fr r). word_char c))"

lemma neutral_names: "neutral ''null''" "neutral ''true''" "neutral ''false''"
  by (rule neutral_word; simp add: word_char_def dquote_def closing_def is_space_def)+

lemma quiet_separators: "quiet Plain False '', '' = Some (Plain, True)" "quiet Plain False '': '' = Some (Plain, False)"
  "quiet Plain False ('','' @ json_pad n) = Some (Plain, True)"
  using quiet_pad [of True n] by (simp_all add: quiet_append closing_def dquote_def is_space_def)

lemma neutral_item: "neutral w \<Longrightarrow> neutral (raw_json_string k @ '': '' @ w)"
  by (rule neutral_append [OF neutral_string quiet_separators(2)])

lemma neutral_items: "\<forall>x\<in>set xs. neutral x \<Longrightarrow> neutral (join_str '', '' xs) \<or> join_str '', '' xs = []"
  using neutral_join [OF quiet_separators(1)] by (cases "xs = []") auto

lemma neutral_list: "\<forall>x\<in>set xs. neutral x \<Longrightarrow>
    neutral (''['' @ join_str '', '' xs @ '']'') \<and> neutral (''{'' @ join_str '', '' xs @ ''}'')"
  using neutral_brackets [OF neutral_items, of xs "[]" "[]"] by simp

lemma neutral_block: "\<forall>x\<in>set xs. neutral x \<Longrightarrow>
    neutral (json_block ''['' '']'' n xs) \<and> neutral (json_block ''{'' ''}'' n xs)"
proof (cases "xs = []")
  case True
  then show ?thesis using neutral_brackets [of "[]" "[]" "[]"] by (simp add: json_block_def)
next
  case False
  assume "\<forall>x\<in>set xs. neutral x"
  then have "neutral (join_str ('','' @ json_pad (Suc n)) xs)"
    using False by (rule neutral_join [OF quiet_separators(3)])
  then show ?thesis
    using neutral_brackets [OF disjI1 quiet_pad quiet_pad] False by (simp add: json_block_def)
qed

lemma neutral_json_text: "plain_floats fr \<Longrightarrow> neutral (json_text fr v)"
proof (induction fr v rule: json_text.induct)
  case (4 fr r)
  then show ?case by (simp add: plain_floats_def neutral_word)
next
  case (6 fr xs)
  then show ?case by (simp del: append.simps add: neutral_list)
next
  case (7 fr d)
  then have "\<forall>x\<in>set (map (\<lambda>(k, v). raw_json_string k @ '': '' @ json_text fr v) d). neutral x"
    by (auto intro: neutral_item simp del: append.simps)
  then show ?case using neutral_list by (simp del: append.simps)
qed (simp_all add: neutral_names neutral_digits neutral_string)

lemma neutral_json_indented: "plain_floats fr \<Longrightarrow> neutral (json_indented fr n v)"
proof (induction fr n v rule: json_indented.induct)
  case (1 fr n xs)
  then show ?case by (simp add: neutral_block)
next
  case (2 fr n d)
  then have "\<forall>x\<in>set (map (\<lambda>(k, v). raw_json_string k @ '': '' @ json_indented fr (Suc n) v) d). neutral x"
    by (auto intro: neutral_item simp del: append.simps)
  then show ?case using neutral_block by (simp del: append.simps)
qed (simp_all add: neutral_json_text del: json_text.simps)

lemma parse_neutral: "neutral w \<Longrightarrow> quiet Plain False e = Some (Plain, p) \<Longrightarrow>
    parse_jsonc loads (w @ e) = (case loads (w @ e) of None \<Rightarrow> DecodeError | Some v \<Rightarrow> Parsed v)"
proof -
  assume "neutral w" "quiet Plain False e = Some (Plain, p)"
  then have q: "quiet Plain False (w @ e) = Some (Plain, p)" by (simp add: neutral_def quiet_append)
  have "strip_scan Plain (w @ e) = w @ e" by (rule quiet_strip [OF q])
  moreover have "comma_scan Plain [] (w @ e) = w @ e" using quiet_commas(1) [OF q, of "[]"] by simp
  ultimately show ?thesis by (simp add: parse_jsonc_def strip_comments_scan strip_trailing_commas_scan)
qed

text \<open>Both scanners of the configuration reader end on every text, well formed or not: their index loops
  return, and what they return is the scan by recursion on the text.\<close>

theorem jsonc_scanners_terminate:
  "strip_comments src = Some (strip_scan Plain src) \<and>
   strip_trailing_commas src = Some (comma_scan Plain [] src) \<and>
   parse_jsonc loads src \<noteq> Diverges"
  by (simp add: parse_jsonc_def strip_comments_scan strip_trailing_commas_scan split: option.splits)

text \<open>Text that the kernel wrote itself is read back as it was written: on the JSON of any value, compact or
  indented, with or without the final newline, the JSONC reader is \<^verbatim>\<open>json.loads\<close>, whatever slashes, commas
  and brackets the strings of the value contain.\<close>

theorem jsonc_reads_json:
  assumes "plain_floats fr"
  shows "parse_jsonc loads (json_text fr v) = (case loads (json_text fr v) of None \<Rightarrow> DecodeError | Some u \<Rightarrow> Parsed u) \<and>
    (\<forall>final. final = [] \<or> final = nl \<longrightarrow>
      parse_jsonc loads (json_indented fr n v @ final) =
        (case loads (json_indented fr n v @ final) of None \<Rightarrow> DecodeError | Some u \<Rightarrow> Parsed u))"
proof -
  have ends: "quiet Plain False [] = Some (Plain, False)" "quiet Plain False nl = Some (Plain, False)"
    by (simp_all add: nl_def closing_def dquote_def)
  show ?thesis
    using parse_neutral [OF neutral_json_text [OF assms] ends(1), of loads v]
      parse_neutral [OF neutral_json_indented [OF assms] ends(1), of loads n v]
      parse_neutral [OF neutral_json_indented [OF assms] ends(2), of loads n v]
    by (auto simp del: json_indented.simps json_text.simps)
qed

lemma jsonc_reads_json_witness:
  "plain_floats (\<lambda>_. ''1.5'') \<and>
   parse_jsonc (\<lambda>s. Some (PStr s)) (json_text (\<lambda>_. ''1.5'') (PList [PStr ''a // b'', PStr '', ]''])) =
     Parsed (PStr (json_text (\<lambda>_. ''1.5'') (PList [PStr ''a // b'', PStr '', ]''])))"
proof -
  have "plain_floats (\<lambda>_. ''1.5'')"
    by (simp add: plain_floats_def word_char_def dquote_def closing_def is_space_def)
  from jsonc_reads_json [OF this, of "\<lambda>s. Some (PStr s)" "PList [PStr ''a // b'', PStr '', ]'']"] this
  show ?thesis by (simp del: json_text.simps json_indented.simps)
qed

section \<open>Laws of the environment file\<close>

lemma load_env_lines_get:
  "fst (load_env_lines overwrite ls env) = None \<Longrightarrow>
   dget (snd (load_env_lines overwrite ls env)) key =
     (let made = List.map_filter env_assignment ls in
      if overwrite then (case map_of (rev made) key of Some v \<Rightarrow> Some v | None \<Rightarrow> dget env key)
      else (case dget env key of Some v \<Rightarrow> Some v | None \<Rightarrow> map_of made key))"
proof (induction overwrite ls env rule: load_env_lines.induct)
  case (2 overwrite l ls env)
  show ?case
  proof (cases "env_assignment l")
    case None
    with 2 show ?thesis by (simp add: List.map_filter_simps)
  next
    case (Some a)
    obtain k v where a: "a = (k, v)" by (cases a)
    show ?thesis
    proof (cases "overwrite \<or> \<not> dhas env k")
      case True
      with 2(4) Some a have fine: "char_of (0 :: nat) \<notin> set (k @ v)" by (auto split: if_splits)
      have rest: "fst (load_env_lines overwrite ls (dput k v env)) = None"
        using 2(4) Some a True fine by (auto split: if_splits)
      show ?thesis
        using 2(2) [OF Some a [symmetric] True fine rest] Some a True fine
        by (auto simp: List.map_filter_simps Let_def dhas_iff map_of_append split: option.splits)
    next
      case False
      with 2 Some a show ?thesis
        by (auto simp: List.map_filter_simps dhas_iff split: option.splits)
    qed
  qed
qed (simp add: List.map_filter_simps split: option.splits)

text \<open>Loading an environment file decides between its assignments and the process environment the way a
  caller asked for: without \<^verbatim>\<open>overwrite\<close> a variable that is set stays as it was and a variable assigned
  twice takes its first value; with it the file's last assignment wins; nothing else changes.\<close>

theorem env_file_precedence:
  assumes "load_env_file overwrite (Some content) env = (None, env')"
  shows "dget env' key =
    (let made = List.map_filter env_assignment (splitlines content) in
     if overwrite then (case map_of (rev made) key of Some v \<Rightarrow> Some v | None \<Rightarrow> dget env key)
     else (case dget env key of Some v \<Rightarrow> Some v | None \<Rightarrow> map_of made key))"
  using assms load_env_lines_get [of overwrite "splitlines content" env key] by (simp add: load_env_file_def)

lemma env_file_precedence_witness:
  "dget (snd (load_env_file False (Some (''A=1'' @ nl @ ''export B=2'' @ nl @ ''B=3'')) [(''A'', ''0'')])) ''B'' = Some ''2''"
proof -
  have run: "load_env_file False (Some (''A=1'' @ nl @ ''export B=2'' @ nl @ ''B=3'')) [(''A'', ''0'')] =
      (None, [(''A'', ''0''), (''B'', ''2'')])"
    by code_simp
  have made: "List.map_filter env_assignment (splitlines (''A=1'' @ nl @ ''export B=2'' @ nl @ ''B=3'')) =
      [(''A'', ''1''), (''B'', ''2''), (''B'', ''3'')]" by code_simp
  show ?thesis using env_file_precedence [OF run, of "''B''"] made run by (simp add: Let_def)
qed

end
