(* ===== verification/Provider_Failure.thy ===== *)
theory Provider_Failure
  imports Prelude
begin

text \<open>
  What a failed provider call tells the run loop: the exception as the kernel may inspect it
  (\<^verbatim>\<open>kernel/llm/base.py\<close>) and the classification that decides how a turn recovers
  (\<^verbatim>\<open>kernel/base_agent/turn.py\<close>).

  An exception is untrusted: its \<^verbatim>\<open>__str__\<close> and \<^verbatim>\<open>__repr__\<close> may raise. The classes it is an instance of are
  a list of names, its own first. Attributes are the ones the code reads with \<^verbatim>\<open>getattr\<close>; one that is absent
  reads as \<^verbatim>\<open>None\<close>.
\<close>

section \<open>Exceptions\<close>

type_synonym headers = "string \<Rightarrow> exc + py"

record failure =
  f_classes :: "string list"
  f_str :: "string option"
  f_repr :: "string option"
  f_attrs :: dict
  f_response :: "(dict \<times> headers option) option"
  f_replay :: "(bool \<times> bool) option"
  f_writable :: bool
  f_trim_stats :: "(int \<times> int) option"

definition f_type :: "failure \<Rightarrow> string" where
  "f_type f = (case f_classes f of [] \<Rightarrow> ''Exception'' | n # _ \<Rightarrow> n)"

definition isinstance :: "failure \<Rightarrow> string \<Rightarrow> bool" where
  "isinstance f n \<longleftrightarrow> n \<in> set (f_classes f)"

definition f_attr :: "failure \<Rightarrow> string \<Rightarrow> py" where
  "f_attr f k = dgetd (f_attrs f) k PNone"

definition safe_exception_description :: "failure \<Rightarrow> string" where
  "safe_exception_description f =
     (case f_str f of
        Some s \<Rightarrow> if s \<noteq> [] then s
                  else (case f_repr f of Some r \<Rightarrow> if r \<noteq> [] then r else ''<unrenderable '' @ f_type f @ ''>''
                                       | None \<Rightarrow> ''<unrenderable '' @ f_type f @ ''>'')
      | None \<Rightarrow> (case f_repr f of Some r \<Rightarrow> if r \<noteq> [] then r else ''<unrenderable '' @ f_type f @ ''>''
                                 | None \<Rightarrow> ''<unrenderable '' @ f_type f @ ''>''))"

section \<open>Replay safety\<close>

text \<open>
  Only the kernel's own wrapper carries the marks (\<open>f_replay\<close>: partial stream, no further retry). A
  provider exception is wrapped; a wrapper that is marked again keeps what it had.
\<close>

definition llm_replay_terminal_flags :: "failure \<Rightarrow> bool \<times> bool" where
  "llm_replay_terminal_flags f = (case f_replay f of None \<Rightarrow> (False, False) | Some marks \<Rightarrow> marks)"

definition mark_llm_replay_terminal :: "bool \<Rightarrow> bool \<Rightarrow> string \<Rightarrow> failure \<Rightarrow> failure" where
  "mark_llm_replay_terminal partial_stream no_aed_retry msg f =
     (let (p, n) = llm_replay_terminal_flags f; marks = (p \<or> partial_stream, n \<or> no_aed_retry) in
      case f_replay f of
        Some _ \<Rightarrow> f\<lparr>f_replay := Some marks\<rparr>
      | None \<Rightarrow>
          \<lparr>f_classes = [''LLMReplayTerminalError'', ''Exception'', ''BaseException''], f_str = Some msg,
           f_repr = Some (''LLMReplayTerminalError('' @ str_repr msg @ '')''), f_attrs = [], f_response = None,
           f_replay = Some marks, f_writable = True, f_trim_stats = None\<rparr>)"

lemma marks_accumulate:
  "llm_replay_terminal_flags (mark_llm_replay_terminal p n msg f) =
     (fst (llm_replay_terminal_flags f) \<or> p, snd (llm_replay_terminal_flags f) \<or> n)"
  by (simp add: mark_llm_replay_terminal_def llm_replay_terminal_flags_def Let_def split: option.splits)

section \<open>Classes of failure\<close>

definition TRANSIENT_EXC_NAMES :: "string list" where
  "TRANSIENT_EXC_NAMES =
     [''APIConnectionError'', ''APITimeoutError'', ''InternalServerError'', ''ServerError'', ''ServiceUnavailableError'',
      ''ReadError'', ''ConnectError'', ''ConnectTimeout'', ''ReadTimeout'', ''PoolTimeout'', ''RemoteProtocolError'',
      ''IncompleteRead'', ''ConnectionResetError'', ''TimeoutError'']"

definition TRANSIENT_MSG_FRAGMENTS :: "string list" where
  "TRANSIENT_MSG_FRAGMENTS =
     [''an error occurred while processing your request'', ''peer closed connection'', ''incomplete chunked read'',
      ''connection reset'', ''read timed out'', ''timed out'', ''timeout'', ''temporarily unavailable'',
      ''service unavailable'', ''bad gateway'', ''gateway timeout'']"

definition RATE_LIMIT_MSG_FRAGMENTS :: "string list" where
  "RATE_LIMIT_MSG_FRAGMENTS =
     [''rate limit'', ''rate_limit'', ''rate-limit'', ''too many requests'', ''quota'', ''usage limit'', ''usage_limit'',
      ''usage_limit_reached'', ''resets_in_seconds'', ''throttl'', ''429'']"

definition CLIENT_ERROR_MSG_FRAGMENTS :: "string list" where
  "CLIENT_ERROR_MSG_FRAGMENTS =
     [''bad request'', ''400 bad request'', ''messages_parameter_illegal'', ''invalid request'', ''invalid parameter'',
      ''malformed request'']"

definition OVER_WINDOW_MSG_FRAGMENTS :: "string list" where
  "OVER_WINDOW_MSG_FRAGMENTS =
     [''context window'', ''context_window'', ''context length'', ''context_length_exceeded'', ''maximum context length'',
      ''exceeds the maximum'', ''prompt is too long'', ''prompt too long'', ''input is too long'', ''input token count'',
      ''tokens in the input'', ''request too large'', ''too many tokens'']"

definition mentions :: "string list \<Rightarrow> failure \<Rightarrow> bool" where
  "mentions fragments f \<longleftrightarrow> list_ex (\<lambda>s. sublist s (lower (safe_exception_description f))) fragments"

text \<open>\<^verbatim>\<open>isinstance(value, int)\<close>, which a bool satisfies.\<close>

fun int_value :: "py \<Rightarrow> int option" where
  "int_value (PInt i) = Some i"
| "int_value (PBool b) = Some (if b then 1 else 0)"
| "int_value _ = None"

definition exception_status_code :: "failure \<Rightarrow> int option" where
  "exception_status_code f =
     (case List.map_filter (\<lambda>k. int_value (f_attr f k)) [''status_code'', ''status'', ''code''] of
        i # _ \<Rightarrow> Some i
      | [] \<Rightarrow> (case f_response f of
                None \<Rightarrow> None
              | Some (attrs, _) \<Rightarrow> int_value (dgetd attrs ''status_code'' PNone)))"

definition is_transient_provider_error :: "failure \<Rightarrow> bool" where
  "is_transient_provider_error f \<longleftrightarrow>
     (if isinstance f ''EmptyLLMResponseError'' then True
      else case exception_status_code f of
             Some s \<Rightarrow> 500 \<le> s \<and> s < 600
           | None \<Rightarrow> isinstance f ''httpx.HTTPError'' \<or> f_type f \<in> set TRANSIENT_EXC_NAMES
                     \<or> mentions TRANSIENT_MSG_FRAGMENTS f)"

definition is_rate_limit_error :: "failure \<Rightarrow> bool" where
  "is_rate_limit_error f \<longleftrightarrow>
     (case exception_status_code f of Some s \<Rightarrow> s = 429 | None \<Rightarrow> mentions RATE_LIMIT_MSG_FRAGMENTS f)"

definition is_client_error :: "failure \<Rightarrow> bool" where
  "is_client_error f \<longleftrightarrow>
     (case exception_status_code f of
        Some s \<Rightarrow> 400 \<le> s \<and> s < 500 \<and> s \<noteq> 429
      | None \<Rightarrow> mentions CLIENT_ERROR_MSG_FRAGMENTS f)"

definition is_over_window_error :: "failure \<Rightarrow> bool" where
  "is_over_window_error f \<longleftrightarrow>
     \<not> isinstance f ''EmptyLLMResponseError'' \<and> mentions OVER_WINDOW_MSG_FRAGMENTS f"

section \<open>When to try again\<close>

definition digits_value :: "string \<Rightarrow> nat" where
  "digits_value s = foldl (\<lambda>n c. 10 * n + ((of_char c :: nat) - 48)) 0 s"

text \<open>\<^verbatim>\<open>str.isdigit\<close> on one byte: the superscripts count, and \<^verbatim>\<open>float\<close> then rejects them.\<close>

definition superscript :: "char \<Rightarrow> bool" where
  "superscript c \<longleftrightarrow> (of_char c :: nat) \<in> {178, 179, 185}"

text \<open>
  \<open>fr\<close> renders a float; \<open>http_date\<close> gives the seconds until an RFC 7231 date, where the text is one. Numbers
  are exact here: the overflow of \<^verbatim>\<open>float\<close> beyond 1e308 is left out.
\<close>

definition parse_retry_after ::
  "(rat \<Rightarrow> string) \<Rightarrow> (string \<Rightarrow> rat option) \<Rightarrow> py \<Rightarrow> exc + rat option" where
  "parse_retry_after fr http_date v =
     (case v of
        PNone \<Rightarrow> Inr None
      | PBool _ \<Rightarrow> Inr None
      | PInt i \<Rightarrow> Inr (Some (of_int i))
      | PFloat r \<Rightarrow> Inr (Some r)
      | _ \<Rightarrow>
          let t = strip (py_str fr v) in
          if t = [] then Inr None
          else if list_all (\<lambda>c. is_digit c \<or> superscript c) t then
            (if list_ex superscript t then Inl (ValueError ''could not convert string to float'')
             else Inr (Some (of_nat (digits_value t))))
          else Inr (map_option (\<lambda>d. max d 0) (http_date t)))"

text \<open>The first usable answer of a list of probes; one that raises ends the search.\<close>

fun first_parsed :: "(exc + rat option) list \<Rightarrow> exc + rat option" where
  "first_parsed [] = Inr None"
| "first_parsed (p # ps) = ebind p (\<lambda>r. case r of Some s \<Rightarrow> Inr (Some s) | None \<Rightarrow> first_parsed ps)"

text \<open>\<^verbatim>\<open>re.search\<close> for a key, separators and a number, without regard to case.\<close>

definition separator :: "char \<Rightarrow> bool" where
  "separator c \<longleftrightarrow> c = dquote \<or> c = squote \<or> c = CHR ''='' \<or> c = CHR '':'' \<or> is_space c"

definition number_after :: "string \<Rightarrow> string \<Rightarrow> nat option" where
  "number_after key s =
     (if startswith (lower s) key then
        let r = drop (length key) s; seps = takeWhile separator r; ds = takeWhile is_digit (dropWhile separator r)
        in if seps \<noteq> [] \<and> ds \<noteq> [] then Some (digits_value ds) else None
      else None)"

fun search_number :: "string \<Rightarrow> string \<Rightarrow> nat option" where
  "search_number key [] = number_after key []"
| "search_number key (c # cs) =
     (case number_after key (c # cs) of Some n \<Rightarrow> Some n | None \<Rightarrow> search_number key cs)"

definition rate_limit_retry_after_seconds ::
  "(rat \<Rightarrow> string) \<Rightarrow> (string \<Rightarrow> rat option) \<Rightarrow> failure \<Rightarrow> exc + rat option" where
  "rate_limit_retry_after_seconds fr http_date f =
     (let parse = parse_retry_after fr http_date;
          of_attrs = map (\<lambda>k. parse (f_attr f k)) [''retry_after'', ''retry_after_seconds''];
          of_headers =
            (case f_response f of
               Some (_, Some getter) \<Rightarrow>
                 map (\<lambda>k. case ebind (getter k) parse of Inl _ \<Rightarrow> Inr None | Inr r \<Rightarrow> Inr r)
                   [''Retry-After'', ''retry-after'', ''retry_after'']
             | _ \<Rightarrow> []);
          of_body =
            (case f_attr f ''body'' of
               PDict d \<Rightarrow> map (\<lambda>k. parse (dgetd d k PNone))
                            [''retry_after'', ''retry-after'', ''Retry-After'', ''resets_in_seconds'']
             | _ \<Rightarrow> []);
          of_text = map (\<lambda>k. Inr (map_option of_nat (search_number k (safe_exception_description f))))
                      [''resets_in_seconds'', ''retry_after'', ''retry-after'']
      in first_parsed (of_attrs @ of_headers @ of_body @ of_text))"

lemma retry_after_examples:
  "rate_limit_retry_after_seconds (\<lambda>_. []) (\<lambda>_. None)
     \<lparr>f_classes = [''RateLimitError''], f_str = Some ''Resets_in_Seconds: 42'', f_repr = None, f_attrs = [],
      f_response = None, f_replay = None, f_writable = True, f_trim_stats = None\<rparr> = Inr (Some 42)"
  by code_simp

end
