(* ===== verification/Overflow_Recovery.thy ===== *)
theory Overflow_Recovery
  imports Chat_Laws Provider_Failure
begin

text \<open>
  Context-overflow recovery of \<^verbatim>\<open>ChatSession\<close> (\<^verbatim>\<open>kernel/llm/base.py\<close>) and the send of an adapter that uses it
  (\<^verbatim>\<open>llm/anthropic/adapter.py\<close>): when the provider rejects a request as too long, the oldest tenth of the
  conversation is dropped and the request is made again, ten rounds at most.

  The provider is a function of the conversation it is sent and of a world; it may fail in any way, any number
  of times. \<open>over\<close> recognises the provider's context errors.
\<close>

section \<open>One trim\<close>

text \<open>The loop that moves the cut forward; \<open>0 < k\<close> there.\<close>

function snap_cut :: "chat_entry list \<Rightarrow> nat \<Rightarrow> nat" where
  "snap_cut es k =
     (if k < length es then
        (if k = 0 then k
         else if has_calls (es ! (k - 1)) then snap_cut es (k + 1)
         else if is_result_entry (es ! k) then snap_cut es (k + 1)
         else k)
      else k)"
  by pat_completeness auto
termination
  by (relation "measure (\<lambda>(es, k). length es - k)") auto

declare snap_cut.simps [simp del]

text \<open>
  \<^verbatim>\<open>int(n * 0.10)\<close>: the float 0.1 is a little above a tenth, by far too little to reach the next integer.
\<close>

definition drop_count :: "nat \<Rightarrow> nat" where
  "drop_count n = max 1 (n div 10)"

definition trim_context_one_round :: "chat \<Rightarrow> nat \<times> chat" where
  "trim_context_one_round c =
     (case entries c of
        [] \<Rightarrow> (0, c)
      | e # _ \<Rightarrow>
          let es = entries c;
              first_conv = (if e_role e = System then 1 else 0);
              conv_len = length es - first_conv;
              k = snap_cut es (first_conv + drop_count conv_len)
          in if conv_len \<le> 1 then (0, c)
             else if k \<ge> length es then (0, c)
             else (k - first_conv, c\<lparr>entries := take first_conv es @ drop k es\<rparr>))"

section \<open>The retry loop\<close>

definition OVERFLOW_MAX_ROUNDS :: nat where
  "OVERFLOW_MAX_ROUNDS = 10"

definition attach_overflow_trim_stats :: "nat \<Rightarrow> nat \<Rightarrow> failure \<Rightarrow> failure" where
  "attach_overflow_trim_stats sum_dropped rounds f =
     (if sum_dropped = 0 \<or> \<not> f_writable f then f else f\<lparr>f_trim_stats := Some (int sum_dropped, int rounds)\<rparr>)"

type_synonym ('a, 'w) attempt = "chat \<Rightarrow> 'w \<Rightarrow> (failure + 'a) \<times> chat \<times> 'w"

partial_function (option) overflow_loop ::
  "(failure \<Rightarrow> bool) \<Rightarrow> ('a, 'w) attempt \<Rightarrow> nat \<Rightarrow> nat \<Rightarrow> chat \<Rightarrow> 'w \<Rightarrow> ((failure + 'a \<times> nat \<times> nat) \<times> chat \<times> 'w) option"
where
  "overflow_loop over do_call sum_dropped rounds c w =
     (case do_call c w of
        (Inr r, c1, w1) \<Rightarrow> Some (Inr (r, sum_dropped, rounds), c1, w1)
      | (Inl f, c1, w1) \<Rightarrow>
          if \<not> over f then Some (Inl f, c1, w1)
          else if rounds \<ge> OVERFLOW_MAX_ROUNDS then Some (Inl (attach_overflow_trim_stats sum_dropped rounds f), c1, w1)
          else
            (case trim_context_one_round c1 of
               (dropped, c2) \<Rightarrow>
                 if dropped = 0 then Some (Inl (attach_overflow_trim_stats sum_dropped rounds f), c1, w1)
                 else overflow_loop over do_call (sum_dropped + dropped) (rounds + 1) c2 w1))"

definition run_with_overflow_recovery where
  "run_with_overflow_recovery over do_call c w = overflow_loop over do_call 0 0 c w"

section \<open>The notice\<close>

definition overflow_notice :: "int \<Rightarrow> int \<Rightarrow> string" where
  "overflow_notice sum_dropped rounds =
     ''[kernel] Context exceeded the provider's hard token limit. ''
     @ ''To recover, the kernel dropped '' @ int_str sum_dropped @ '' oldest entries ''
     @ ''across '' @ int_str rounds @ '' retry round(s). Detail from earlier turns may ''
     @ ''be lost '' @ em_dash @ '' re-read recent context before acting on it. ''
     @ ''**Strongly recommend triggering a molt soon** '' @ em_dash @ '' the conversation ''
     @ ''is past the model's safe limit and further growth will overflow ''
     @ ''again.''"

definition inject_overflow_notice :: "rat \<Rightarrow> int \<Rightarrow> int \<Rightarrow> chat \<Rightarrow> chat" where
  "inject_overflow_notice now sum_dropped rounds c =
     append_entry now User [TextBlock (overflow_notice sum_dropped rounds)] [] id c"

definition inject_overflow_notice_after_error :: "rat \<Rightarrow> failure \<Rightarrow> chat \<Rightarrow> chat" where
  "inject_overflow_notice_after_error now f c =
     (case f_trim_stats f of
        None \<Rightarrow> c
      | Some (sum_dropped, rounds) \<Rightarrow> if 0 < sum_dropped then inject_overflow_notice now sum_dropped rounds c else c)"

section \<open>The send of the Anthropic adapter\<close>

datatype wire_message = Continue | User_Text string | Tool_Results "tool_result list"

record reply =
  rp_blocks :: "block list"
  rp_usage :: "(string \<times> int) list"

record 'w adapter =
  sa_hook :: "chat \<Rightarrow> chat"
  sa_create :: "chat \<Rightarrow> 'w \<Rightarrow> (failure + reply) \<times> 'w"
  sa_model :: string
  sa_now :: rat

definition ANTHROPIC_OVERFLOW_NEEDLES :: "string list" where
  "ANTHROPIC_OVERFLOW_NEEDLES =
     [''too many tokens'', ''context length'', ''context window'', ''prompt is too long'', ''input is too long'',
      ''maximum context'', ''request too large'']"

text \<open>\<^verbatim>\<open>str(exc)\<close> of a library exception renders.\<close>

definition anthropic_overflow :: "failure \<Rightarrow> bool" where
  "anthropic_overflow f \<longleftrightarrow>
     isinstance f ''anthropic.BadRequestError'' \<and>
     list_ex (\<lambda>s. sublist s (lower (case f_str f of None \<Rightarrow> [] | Some t \<Rightarrow> t))) ANTHROPIC_OVERFLOW_NEEDLES"

text \<open>An exception of the kernel's own operations, as the recovery loop sees it.\<close>

definition kernel_failure :: "exc \<Rightarrow> failure" where
  "kernel_failure e =
     \<lparr>f_classes = [case e of ValueError _ \<Rightarrow> ''ValueError'' | TypeError _ \<Rightarrow> ''TypeError'' | KeyError _ \<Rightarrow> ''KeyError''
        | AttributeError _ \<Rightarrow> ''AttributeError'' | RuntimeError _ \<Rightarrow> ''RuntimeError'' | PermissionError _ \<Rightarrow> ''PermissionError''
        | PendingToolCallsError \<Rightarrow> ''PendingToolCallsError'' | IndexError \<Rightarrow> ''IndexError'' | OSError _ \<Rightarrow> ''OSError''
        | OtherException n _ \<Rightarrow> n | IllTyped _ \<Rightarrow> ''TypeError'', ''Exception'', ''BaseException''],
      f_str = Some (case e of ValueError s \<Rightarrow> s | TypeError s \<Rightarrow> s | KeyError s \<Rightarrow> str_repr s | AttributeError s \<Rightarrow> s
        | RuntimeError s \<Rightarrow> s | PermissionError s \<Rightarrow> s | PendingToolCallsError \<Rightarrow> [] | IndexError \<Rightarrow> [] | OSError s \<Rightarrow> s
        | OtherException _ s \<Rightarrow> s | IllTyped s \<Rightarrow> s),
      f_repr = None, f_attrs = [], f_response = None, f_replay = None, f_writable = True, f_trim_stats = None\<rparr>"

text \<open>\<^verbatim>\<open>_do_call\<close>: repair the pairing, then ask the provider.\<close>

definition adapter_call :: "'w adapter \<Rightarrow> (reply, 'w) attempt" where
  "adapter_call ad c w =
     (case enforce_tool_pairing (sa_now ad) c of
        (Inl e, c1) \<Rightarrow> (Inl (kernel_failure e), c1, w)
      | (Inr _, c1) \<Rightarrow> (case sa_create ad c1 w of (r, w1) \<Rightarrow> (r, c1, w1)))"

definition stage_message :: "rat \<Rightarrow> wire_message \<Rightarrow> chat \<Rightarrow> unit outcome" where
  "stage_message now m c =
     (case m of
        Continue \<Rightarrow> (Inr (), c)
      | User_Text t \<Rightarrow> add_user_message now t c
      | Tool_Results rs \<Rightarrow> (Inr (), snd (add_tool_results now rs c)))"

definition is_user :: "chat_entry \<Rightarrow> bool" where
  "is_user e \<longleftrightarrow> e_role e = User"

definition record_reply :: "'w adapter \<Rightarrow> reply \<Rightarrow> chat \<Rightarrow> chat" where
  "record_reply ad r c =
     (if rp_blocks r = [] then c
      else add_assistant_message (sa_now ad) (rp_blocks r) [] (Some (sa_model ad)) (Some ''anthropic'') (rp_usage r) c)"

text \<open>\<^verbatim>\<open>send\<close>; \<open>None\<close> would be a recovery loop that never ends.\<close>

definition adapter_send ::
  "'w adapter \<Rightarrow> wire_message \<Rightarrow> chat \<Rightarrow> 'w \<Rightarrow> ((failure + reply) \<times> chat \<times> 'w) option" where
  "adapter_send ad m c w =
     (case stage_message (sa_now ad) m c of
        (Inl e, c1) \<Rightarrow> Some (Inl (kernel_failure e), c1, w)
      | (Inr _, c1) \<Rightarrow>
          (case run_with_overflow_recovery anthropic_overflow (adapter_call ad) (sa_hook ad c1) w of
             None \<Rightarrow> None
           | Some (Inl f, c2, w2) \<Rightarrow>
               let c3 = (if m = Continue then c2 else snd (drop_trailing is_user c2))
               in Some (Inl f, inject_overflow_notice_after_error (sa_now ad) f c3, w2)
           | Some (Inr (r, sum_dropped, rounds), c2, w2) \<Rightarrow>
               let c3 = (if 0 < rounds then inject_overflow_notice (sa_now ad) (int sum_dropped) (int rounds) c2 else c2)
               in Some (Inr r, record_reply ad r c3, w2)))"

section \<open>Restoring the results of a failed continuation\<close>

text \<open>
  \<^verbatim>\<open>_restore_tool_results_after_continuation_failure\<close> (\<^verbatim>\<open>base_agent/turn.py\<close>): the value says whether the
  results were committed. Its scan, save and log are left out.
\<close>

definition restore_tool_results :: "rat \<Rightarrow> tool_result list \<Rightarrow> chat option \<Rightarrow> bool \<times> chat option" where
  "restore_tool_results now rs chat =
     (case chat of
        None \<Rightarrow> (False, None)
      | Some c \<Rightarrow>
          if rs = [] \<or> \<not> has_pending_tool_calls c then (False, Some c)
          else (True, Some (snd (add_tool_results now rs c))))"

section \<open>Laws of the trim\<close>

lemma snap_cut_unfold:
  "snap_cut es k =
     (if 0 < k \<and> k < length es \<and> (has_calls (es ! (k - 1)) \<or> is_result_entry (es ! k)) then snap_cut es (Suc k)
      else k)"
  by (subst snap_cut.simps) auto

lemma snap_cut_props:
  "k \<le> snap_cut es k \<and>
   (0 < k \<longrightarrow> snap_cut es k < length es \<longrightarrow>
     \<not> has_calls (es ! (snap_cut es k - 1)) \<and> \<not> is_result_entry (es ! snap_cut es k))"
proof (induction "length es - k" arbitrary: k rule: less_induct)
  case less
  show ?case
  proof (cases "0 < k \<and> k < length es \<and> (has_calls (es ! (k - 1)) \<or> is_result_entry (es ! k))")
    case True
    then have "snap_cut es k = snap_cut es (Suc k)" by (subst snap_cut_unfold) simp
    moreover from True have "k < length es" by blast
    then have "length es - Suc k < length es - k" by simp
    ultimately show ?thesis using less.hyps [of "Suc k"] by (simp add: Suc_le_eq)
  next
    case False
    then have "snap_cut es k = k" by (subst snap_cut_unfold) auto
    with False show ?thesis by auto
  qed
qed

lemmas snap_cut_ge = snap_cut_props [THEN conjunct1]
  and snap_cut_stop = snap_cut_props [THEN conjunct2, rule_format]

text \<open>What a trim that drops something does: the system head and everything from the cut stay.\<close>

lemma trim_split:
  assumes "trim_context_one_round c = (d, c')" "d \<noteq> 0"
  obtains h dropped kept where "entries c = h @ dropped @ kept" "c' = c\<lparr>entries := h @ kept\<rparr>"
    "length dropped = d" "kept \<noteq> []" "\<forall>e\<in>set h. e_role e = System" "length h \<le> 1"
    "\<not> tail_pending (h @ dropped)" "\<not> is_result_entry (hd kept)"
proof -
  define first_conv where "first_conv = (if e_role (hd (entries c)) = System then 1 else 0 :: nat)"
  define k where "k = snap_cut (entries c) (first_conv + drop_count (length (entries c) - first_conv))"
  from assms have ne: "entries c \<noteq> []" by (auto simp: trim_context_one_round_def split: list.splits)
  then have hd: "hd (entries c) = entries c ! 0" by (simp add: hd_conv_nth)
  have eq: "trim_context_one_round c =
      (if length (entries c) - first_conv \<le> 1 \<or> k \<ge> length (entries c) then (0, c)
       else (k - first_conv, c\<lparr>entries := take first_conv (entries c) @ drop k (entries c)\<rparr>))"
    using ne by (auto simp: trim_context_one_round_def first_conv_def k_def Let_def split: list.splits)
  with assms have k: "k < length (entries c)" "d = k - first_conv"
    "c' = c\<lparr>entries := take first_conv (entries c) @ drop k (entries c)\<rparr>" by (auto split: if_splits)
  have pos: "first_conv < k" using k(2) assms(2) by simp
  have start: "0 < first_conv + drop_count (length (entries c) - first_conv)"
    by (simp add: drop_count_def max_def)
  have stop: "\<not> has_calls (entries c ! (k - 1))" "\<not> is_result_entry (entries c ! k)"
    using snap_cut_stop [OF start, of "entries c"] k(1) unfolding k_def by blast+
  let ?h = "take first_conv (entries c)" and ?dropped = "drop first_conv (take k (entries c))"
  have parts: "?h @ ?dropped = take k (entries c)"
    using pos by (metis append_take_drop_id less_imp_le min.absorb2 take_take min.commute)
  show ?thesis
  proof (rule that [of ?h ?dropped "drop k (entries c)"])
    show "entries c = ?h @ ?dropped @ drop k (entries c)" using parts by (metis append.assoc append_take_drop_id)
    show "length ?dropped = d" using k by simp
    show "drop k (entries c) \<noteq> []" using k(1) by simp
    show "\<forall>e\<in>set ?h. e_role e = System" using ne hd by (auto simp: first_conv_def take_Suc hd_conv_nth)
    show "\<not> tail_pending (?h @ ?dropped)"
    proof -
      have "last (take k (entries c)) = entries c ! (k - 1)"
        using pos k(1) by (subst last_conv_nth) auto
      then show ?thesis unfolding parts using stop(1) by (simp add: tail_pending_def)
    qed
    show "\<not> is_result_entry (hd (drop k (entries c)))" using stop(2) k(1) by (simp add: hd_drop_conv_nth)
  qed (use k(3) in \<open>simp_all add: first_conv_def\<close>)
qed

lemma trim_none: "trim_context_one_round c = (0, c') \<Longrightarrow> c' = c"
proof (rule ccontr)
  assume none: "trim_context_one_round c = (0, c')" and "c' \<noteq> c"
  then obtain e es where es: "entries c = e # es" by (auto simp: trim_context_one_round_def split: list.splits)
  define first_conv where "first_conv = (if e_role e = System then 1 else 0 :: nat)"
  have "first_conv + drop_count (length (entries c) - first_conv) \<le>
      snap_cut (entries c) (first_conv + drop_count (length (entries c) - first_conv))" by (rule snap_cut_ge)
  moreover have "0 < drop_count n" for n by (simp add: drop_count_def)
  ultimately have "first_conv < snap_cut (entries c) (first_conv + drop_count (length (entries c) - first_conv))"
    by (metis add_less_cancel_left less_le_trans add_0_right)
  then show False using none \<open>c' \<noteq> c\<close> es
    by (auto simp: trim_context_one_round_def Let_def first_conv_def split: if_splits)
qed

lemma not_pending_system: "\<forall>e\<in>set h. e_role e = System \<Longrightarrow> \<not> tail_pending h"
  by (auto simp: tail_pending_def has_calls_def dest: last_in_set)

lemma trim_wire:
  assumes "wire_ok c"
  shows "wire_ok (snd (trim_context_one_round c))"
proof -
  obtain d c' where t: "trim_context_one_round c = (d, c')" by fastforce
  show ?thesis
  proof (cases "d = 0")
    case False
    from trim_split [OF t False] obtain h dropped kept where p: "entries c = h @ dropped @ kept"
      "c' = c\<lparr>entries := h @ kept\<rparr>" "\<forall>e\<in>set h. e_role e = System" "\<not> tail_pending (h @ dropped)" by metis
    from assms have all: "well_paired ((h @ dropped) @ kept)" by (simp add: wire_ok_def p(1))
    then have "well_paired kept"
      using well_paired_append [OF well_paired_prefix_append [OF all] p(4)] by blast
    moreover have "well_paired h" using all well_paired_prefix_append [of h] by simp
    ultimately show ?thesis
      using well_paired_append [OF _ not_pending_system [OF p(3)]] t p(2) by (simp add: wire_ok_def)
  qed (use t trim_none assms in auto)
qed

section \<open>Laws of the loop\<close>

text \<open>The loop goes round exactly when the failure is a context error, rounds are left and the trim dropped something.\<close>

definition trims_again :: "(failure \<Rightarrow> bool) \<Rightarrow> failure + 'a \<Rightarrow> nat \<Rightarrow> nat \<Rightarrow> bool" where
  "trims_again over r rounds d \<longleftrightarrow> (\<exists>f. r = Inl f \<and> over f \<and> rounds < OVERFLOW_MAX_ROUNDS \<and> d \<noteq> 0)"

lemma overflow_again:
  assumes "do_call c w = (r, c1, w1)" "trim_context_one_round c1 = (d, c2)" "trims_again over r rounds d"
  shows "overflow_loop over do_call n rounds c w = overflow_loop over do_call (n + d) (rounds + 1) c2 w1"
  using assms by (subst overflow_loop.simps) (auto simp: trims_again_def)

lemma overflow_stops:
  assumes "do_call c w = (r, c1, w1)" "trim_context_one_round c1 = (d, c2)" "\<not> trims_again over r rounds d"
  shows "\<exists>q. overflow_loop over do_call n rounds c w = Some (q, c1, w1) \<and>
    (\<forall>a n' k. q = Inr (a, n', k) \<longrightarrow> k = rounds)"
proof (cases r)
  case (Inl f)
  with assms show ?thesis by (subst overflow_loop.simps) (auto simp: trims_again_def)
next
  case (Inr a)
  with assms show ?thesis by (subst overflow_loop.simps) auto
qed

lemma overflow_loop_returns:
  "rounds \<le> OVERFLOW_MAX_ROUNDS \<Longrightarrow>
   \<exists>r c' w'. overflow_loop over do_call n rounds c w = Some (r, c', w') \<and>
     (\<forall>a n' k. r = Inr (a, n', k) \<longrightarrow> k \<le> OVERFLOW_MAX_ROUNDS) \<and>
     ((\<forall>c w. asked (snd (snd (do_call c w))) \<le> Suc (asked w)) \<longrightarrow>
        asked w' \<le> asked w + Suc (OVERFLOW_MAX_ROUNDS - rounds))"
proof (induction "OVERFLOW_MAX_ROUNDS - rounds" arbitrary: n rounds c w rule: less_induct)
  case less
  obtain r1 c1 w1 where call: "do_call c w = (r1, c1, w1)" by (metis prod_cases3)
  have one: "(\<forall>c w. asked (snd (snd (do_call c w))) \<le> Suc (asked w)) \<longrightarrow> asked w1 \<le> Suc (asked w)"
    using call by (metis snd_conv)
  obtain d c2 where trim: "trim_context_one_round c1 = (d, c2)" by fastforce
  show ?case
  proof (cases "trims_again over r1 rounds d")
    case True
    note step = overflow_again [where do_call = do_call and c = c and w = w and n = n, OF call trim True]
    from True have "OVERFLOW_MAX_ROUNDS - (rounds + 1) < OVERFLOW_MAX_ROUNDS - rounds" "rounds + 1 \<le> OVERFLOW_MAX_ROUNDS"
      by (auto simp: trims_again_def)
    from less.hyps [OF this, of "n + d" c2 w1] obtain r c' w' where
      rest: "overflow_loop over do_call (n + d) (rounds + 1) c2 w1 = Some (r, c', w')"
      "\<forall>a n' k. r = Inr (a, n', k) \<longrightarrow> k \<le> OVERFLOW_MAX_ROUNDS"
      "(\<forall>c w. asked (snd (snd (do_call c w))) \<le> Suc (asked w)) \<longrightarrow>
         asked w' \<le> asked w1 + Suc (OVERFLOW_MAX_ROUNDS - (rounds + 1))"
      by blast
    show ?thesis unfolding step
      using rest one True by (intro exI [of _ r] exI [of _ c'] exI [of _ w']) (auto simp: trims_again_def)
  next
    case False
    show ?thesis using overflow_stops [where do_call = do_call and c = c and w = w and n = n, OF call trim False] one less.prems by auto
  qed
qed

lemma overflow_loop_invariant:
  assumes "\<And>c w. I c \<Longrightarrow> I (fst (snd (do_call c w)))" "\<And>c. I c \<Longrightarrow> I (snd (trim_context_one_round c))"
  shows "I c \<Longrightarrow> overflow_loop over do_call n rounds c w = Some (r, c', w') \<Longrightarrow> I c'"
proof (induction "OVERFLOW_MAX_ROUNDS - rounds" arbitrary: n rounds c w rule: less_induct)
  case less
  obtain r1 c1 w1 where call: "do_call c w = (r1, c1, w1)" by (metis prod_cases3)
  obtain d c2 where trim: "trim_context_one_round c1 = (d, c2)" by fastforce
  have c1: "I c1" using assms(1) [OF less.prems(1), of w] call by simp
  then have c2: "I c2" using assms(2) [of c1] trim by simp
  show ?case
  proof (cases "trims_again over r1 rounds d")
    case True
    then have "OVERFLOW_MAX_ROUNDS - (rounds + 1) < OVERFLOW_MAX_ROUNDS - rounds" by (auto simp: trims_again_def)
    from less.hyps [OF this c2] overflow_again [where do_call = do_call and c = c and w = w and n = n, OF call trim True] less.prems(2) show ?thesis by simp
  next
    case False
    with overflow_stops [where do_call = do_call and c = c and w = w and n = n, OF call trim False] less.prems(2) c1 show ?thesis by auto
  qed
qed

lemma call_wire: "wire_ok c \<Longrightarrow> wire_ok (fst (snd (adapter_call ad c w)))"
  using wire_enforce [of c "sa_now ad"] by (auto simp: adapter_call_def split: prod.splits sum.splits)

lemma conversation_append [simp]:
  "conversation_entries (append_entry now r bs pd upd c) =
     conversation_entries c @ filter (\<lambda>e. e_role e \<noteq> System) [upd (new_entry (next_id c) r bs now pd)]"
  by (simp add: conversation_entries_def append_entry_def)

lemma flush_conversation: "conversation_entries (snd (flush_pending_system now c)) = conversation_entries c"
  by (auto simp: flush_pending_system_def Let_def append_system_def new_entry_def conversation_entries_def append_entry_def
      split: option.splits sum.splits)

lemma call_conversation:
  assumes "wire_ok c"
  shows "conversation_entries (fst (snd (adapter_call ad c w))) = conversation_entries c"
proof -
  obtain r c1 where fl: "flush_pending_system (sa_now ad) c = (r, c1)" by fastforce
  have "pair_entries (entries c1) = entries c1"
    using wire_flush [OF assms, of "sa_now ad"] fl by (simp add: wire_ok_def pair_entries_well_paired)
  moreover have "conversation_entries c1 = conversation_entries c"
    using flush_conversation [of "sa_now ad" c] fl by simp
  ultimately show ?thesis
    by (auto simp: adapter_call_def enforce_tool_pairing_def fl conversation_entries_def split: sum.splits prod.splits)
qed

lemma trim_conversation: "suffix (conversation_entries (snd (trim_context_one_round c))) (conversation_entries c)"
proof -
  obtain d c' where t: "trim_context_one_round c = (d, c')" by fastforce
  show ?thesis
  proof (cases "d = 0")
    case False
    from trim_split [OF t False] obtain h dropped kept where p: "entries c = h @ dropped @ kept"
      "c' = c\<lparr>entries := h @ kept\<rparr>" "\<forall>e\<in>set h. e_role e = System" by metis
    then show ?thesis by (auto simp: t conversation_entries_def suffix_def)
  qed (use t trim_none in auto)
qed

text \<open>Overflow recovery always ends: whatever the provider answers, however often it rejects the context, the
  loop returns a reply or raises after at most eleven requests, and a reply reports at most ten rounds.\<close>

theorem overflow_recovery_terminates:
  assumes "\<forall>c w. asked (snd (snd (do_call c w))) \<le> Suc (asked w)"
  shows "\<exists>r c' w'. run_with_overflow_recovery over do_call c w = Some (r, c', w') \<and> asked w' \<le> asked w + 11 \<and>
    (\<forall>a n k. r = Inr (a, n, k) \<longrightarrow> k \<le> 10)"
proof -
  have "0 \<le> OVERFLOW_MAX_ROUNDS" by simp
  from overflow_loop_returns [OF this, of over do_call 0 c w asked] assms show ?thesis
    by (auto simp: run_with_overflow_recovery_def OVERFLOW_MAX_ROUNDS_def)
qed

text \<open>A recovered send never tears the conversation: trimming keeps every tool call next to its results, and
  what is left of the conversation is its newest part, in order.\<close>

theorem overflow_recovery_keeps_pairs:
  assumes "wire_ok c" "run_with_overflow_recovery over (adapter_call ad) c w = Some (r, c', w')"
  shows "wire_ok c' \<and> suffix (conversation_entries c') (conversation_entries c)"
proof -
  let ?I = "\<lambda>d. wire_ok d \<and> suffix (conversation_entries d) (conversation_entries c)"
  have "?I (snd (trim_context_one_round d))" if "?I d" for d
    using that trim_wire trim_conversation suffix_order.trans by blast
  moreover have "?I (fst (snd (adapter_call ad d v)))" if "?I d" for d v
    using that call_wire [of d ad v] call_conversation [of d ad v] by simp
  ultimately show ?thesis
    using overflow_loop_invariant [where I = ?I and c = c, OF _ _ _ assms(2) [unfolded run_with_overflow_recovery_def]]
      assms(1) by simp
qed

section \<open>A failed continuation\<close>

text \<open>The conversation while a batch of results is on its way to the provider.\<close>

definition continuing :: "chat \<Rightarrow> bool" where
  "continuing c \<longleftrightarrow> wire_ok c \<and> pending_system c = None \<and>
     (\<exists>pre a u. entries c = pre @ [a, u] \<and> has_calls a \<and> is_user u)"

lemma call_same:
  assumes "wire_ok c" "pending_system c = None"
  shows "fst (snd (adapter_call ad c w)) = c" "fst (adapter_call ad c w) = fst (sa_create ad c w)"
  using assms
  by (auto simp: adapter_call_def enforce_tool_pairing_def flush_pending_system_def wire_ok_def pair_entries_well_paired
      split: prod.splits)

lemma continuing_call: "continuing c \<Longrightarrow> continuing (fst (snd (adapter_call ad c w)))"
  by (simp add: continuing_def call_same)

lemma continuing_trim:
  assumes "continuing c"
  shows "continuing (snd (trim_context_one_round c))"
proof -
  obtain d c' where t: "trim_context_one_round c = (d, c')" by fastforce
  from assms obtain pre a u where e: "entries c = pre @ [a, u]" "has_calls a" "is_user u"
    by (auto simp: continuing_def)
  show ?thesis
  proof (cases "d = 0")
    case False
    from trim_split [OF t False] obtain h dropped kept where p: "entries c = h @ dropped @ kept"
      "c' = c\<lparr>entries := h @ kept\<rparr>" "kept \<noteq> []" "\<not> tail_pending (h @ dropped)" by metis
    obtain ks k where kept: "kept = ks @ [k]" using p(3) by (metis rev_exhaust)
    then have front: "k = u" "h @ dropped @ ks = pre @ [a]" using p(1) e(1) by auto
    have "ks \<noteq> []"
    proof
      assume "ks = []"
      with front(2) have "h @ dropped = pre @ [a]" by simp
      with p(4) e(2) show False by (simp add: tail_pending_def)
    qed
    then obtain ms b where ks: "ks = ms @ [b]" by (metis rev_exhaust)
    then have "(h @ dropped @ ms) @ [b] = pre @ [a]" using front(2) by simp
    then have "ks = ms @ [a]" using ks by blast
    with kept front(1) have "entries c' = (h @ ms) @ [a, u]" using p(2) by simp
    moreover have "wire_ok c'" using trim_wire [of c] assms t by (simp add: continuing_def)
    moreover have "pending_system c' = None" using assms p(2) by (simp add: continuing_def)
    ultimately show ?thesis using e t unfolding continuing_def by auto
  qed (use t trim_none assms in auto)
qed

lemma trim_subset: "set (entries (snd (trim_context_one_round c))) \<subseteq> set (entries c)"
proof -
  obtain d c' where t: "trim_context_one_round c = (d, c')" by fastforce
  show ?thesis
  proof (cases "d = 0")
    case False
    from trim_split [OF t False] obtain h dropped kept where "entries c = h @ dropped @ kept"
      "c' = c\<lparr>entries := h @ kept\<rparr>" by metis
    then show ?thesis using t by auto
  qed (use t trim_none in auto)
qed

lemma overflow_loop_failure:
  assumes "\<And>c w f. fst (do_call c w) = Inl f \<Longrightarrow> f_trim_stats f = None"
  shows "overflow_loop over do_call n rounds c w = Some (Inl f, c', w') \<Longrightarrow>
    f_trim_stats f = None \<or> (\<exists>k m. 0 < k \<and> f_trim_stats f = Some (k, m))"
proof (induction "OVERFLOW_MAX_ROUNDS - rounds" arbitrary: n rounds c w rule: less_induct)
  case less
  obtain r1 c1 w1 where call: "do_call c w = (r1, c1, w1)" by (metis prod_cases3)
  obtain d c2 where trim: "trim_context_one_round c1 = (d, c2)" by fastforce
  show ?case
  proof (cases "trims_again over r1 rounds d")
    case True
    then have "OVERFLOW_MAX_ROUNDS - (rounds + 1) < OVERFLOW_MAX_ROUNDS - rounds" by (auto simp: trims_again_def)
    from less.hyps [OF this]
      overflow_again [where do_call = do_call and c = c and w = w and n = n, OF call trim True] less.prems
    show ?thesis by simp
  next
    case False
    show ?thesis
    proof (cases r1)
      case (Inl g)
      with call assms have "f_trim_stats g = None" by (metis fst_conv)
      moreover have "f = g \<or> f = attach_overflow_trim_stats n rounds g"
        using less.prems False Inl
        by (subst (asm) overflow_loop.simps) (auto simp: call trim trims_again_def split: if_splits)
      ultimately show ?thesis by (auto simp: attach_overflow_trim_stats_def split: if_splits)
    next
      case (Inr a)
      with less.prems show ?thesis by (subst (asm) overflow_loop.simps) (simp add: call)
    qed
  qed
qed

lemma place_fresh:
  "\<forall>r\<in>set rs. \<forall>e\<in>set es. \<not> holds_placeholder (tr_id r) e \<Longrightarrow> place_results rs es t = (es, rs, t)"
  by (induction rs) (auto simp: place_result_def find_index_None_iff [THEN iffD2])

lemma drop_user_tail:
  "entries c = pre @ [a, u] \<Longrightarrow> has_calls a \<Longrightarrow> is_user u \<Longrightarrow>
   snd (drop_trailing is_user c) = c\<lparr>entries := pre @ [a]\<rparr>"
  by (simp add: drop_trailing_def is_user_def has_calls_def)

lemma continuing_result:
  assumes "continuing c" "\<forall>r\<in>set rs. \<forall>e\<in>set (entries c). \<not> holds_placeholder (tr_id r) e" "rs \<noteq> []"
    and "f_trim_stats f = None \<or> (\<exists>k m. 0 < k \<and> f_trim_stats f = Some (k, m))"
    and "c' = inject_overflow_notice_after_error now f (snd (drop_trailing is_user c))"
  shows "if f_trim_stats f = None
     then \<exists>c''. restore_tool_results t rs (Some c') = (True, Some c'') \<and> results_of (e_content (last (entries c''))) = rs
     else restore_tool_results t rs (Some c') = (False, Some c') \<and> \<not> wire_ok c'"
proof -
  from assms(1) obtain pre a u where e: "entries c = pre @ [a, u]" "has_calls a" "is_user u" and "wire_ok c"
    by (auto simp: continuing_def)
  note tail = drop_user_tail [OF e]
  have paired: "well_paired (pre @ [a])"
    using \<open>wire_ok c\<close> well_paired_prefix_append [of "pre @ [a]" "[u]"] by (simp add: wire_ok_def e(1))
  show ?thesis
  proof (cases "f_trim_stats f = None")
    case True
    then have "c' = c\<lparr>entries := pre @ [a]\<rparr>" using assms(5) tail by (simp add: inject_overflow_notice_after_error_def)
    moreover have "place_results rs (pre @ [a]) None = (pre @ [a], rs, None)"
      using assms(2) e(1) by (intro place_fresh) auto
    ultimately show ?thesis using True assms(3) e(2)
      by (simp add: restore_tool_results_def has_pending_tool_calls_def tail_pending_def add_tool_results_def
          append_entry_def new_entry_def)
  next
    case False
    with assms(4) obtain k m where stats: "0 < k" "f_trim_stats f = Some (k, m)" by auto
    with assms(5) tail obtain s where c': "entries c' = pre @ [a] @ [s]" "e_role s = User" "results_of (e_content s) = []"
      by (simp add: inject_overflow_notice_after_error_def inject_overflow_notice_def append_entry_def new_entry_def)
    then have "\<not> has_pending_tool_calls c'"
      by (simp add: has_pending_tool_calls_def tail_pending_def has_calls_def)
    moreover have "\<not> answers a s"
      using e(2) c'(3) by (auto simp: answers_def answers_ids_def has_calls_iff)
    then have "\<not> well_paired (pre @ [a] @ [s])"
      using well_paired_answer [OF paired] e(2) by (simp add: tail_pending_def)
    ultimately show ?thesis using False stats c'(1) by (simp add: restore_tool_results_def wire_ok_def)
  qed
qed


section \<open>Instances\<close>

declare overflow_loop.simps [code] snap_cut.simps [code]

definition too_long :: failure where
  "too_long = \<lparr>f_classes = [''BadRequestError'', ''anthropic.BadRequestError''], f_str = Some ''prompt is too long'',
     f_repr = None, f_attrs = [], f_response = None, f_replay = None, f_writable = True, f_trim_stats = None\<rparr>"

definition sample_entry :: "int \<Rightarrow> role \<Rightarrow> block list \<Rightarrow> chat_entry" where
  "sample_entry i r bs = new_entry i r bs 0 []"

definition sample_call :: tool_call where
  "sample_call = \<lparr>tc_id = ''t1'', tc_name = ''read'', tc_args = []\<rparr>"

definition sample_result :: tool_result where
  "sample_result = \<lparr>tr_id = ''t1'', tr_name = ''read'', tr_content = PStr ''data'', tr_metadata = [],
     tr_synthesized = False, tr_agent_pending = None\<rparr>"

definition sample_before :: chat where
  "sample_before = init_chat\<lparr>entries := [sample_entry 0 User [TextBlock ''hello''],
     sample_entry 1 Assistant [TextBlock ''hi''], sample_entry 2 Assistant [ToolCallBlock sample_call]], next_id := 3\<rparr>"

definition refusing :: "nat adapter" where
  "refusing = \<lparr>sa_hook = (\<lambda>c. c), sa_create = (\<lambda>c w. (Inl too_long, Suc w)), sa_model = ''m'', sa_now = 0\<rparr>"

lemma overflow_recovery_terminates_witness:
  "\<exists>r c' w'. run_with_overflow_recovery (\<lambda>_. True) (\<lambda>c w. (Inl too_long :: failure + unit, c, Suc w)) init_chat 0 =
     Some (r, c', w') \<and> w' \<le> 0 + 11 \<and> (\<forall>a n k. r = Inr (a, n, k) \<longrightarrow> k \<le> 10)"
  by (rule overflow_recovery_terminates [where asked = "\<lambda>w. w"]) simp

definition sample_sent :: chat where
  "sample_sent = snd (add_tool_results 0 [sample_result] sample_before)"

lemma sample_wire: "wire_ok sample_before" "wire_ok sample_sent" "has_pending_tool_calls sample_before"
  by (simp_all add: sample_sent_def add_tool_results_def sample_before_def init_chat_def sample_entry_def new_entry_def
      sample_call_def sample_result_def wire_ok_def opens_def has_calls_def answers_def answers_ids_def is_result_entry_def
      results_only_def place_result_def holds_placeholder_def append_entry_def has_pending_tool_calls_def tail_pending_def)

lemma overflow_recovery_keeps_pairs_witness:
  "\<exists>r c' w'. run_with_overflow_recovery anthropic_overflow (adapter_call refusing) sample_sent 0 = Some (r, c', w') \<and>
     length (entries c') = 2 \<and> wire_ok c' \<and> suffix (conversation_entries c') (conversation_entries sample_sent)"
proof -
  have "map_option (\<lambda>(r, c, w). length (entries c))
      (run_with_overflow_recovery anthropic_overflow (adapter_call refusing) sample_sent 0) = Some 2" by code_simp
  then obtain r c' w' where run: "run_with_overflow_recovery anthropic_overflow (adapter_call refusing) sample_sent 0 =
      Some (r, c', w')" "length (entries c') = 2" by (auto split: prod.splits)
  with overflow_recovery_keeps_pairs [OF sample_wire(2) run(1)] show ?thesis by blast
qed


text \<open>
  Only the entry at the head is spared: a system prompt that replaced the first one during the session is an
  ordinary entry to the trim. The conversation still believes it is in force, so setting the same prompt again
  adds nothing, and the log goes on under the prompt it started with.
\<close>

definition sample_prompted :: chat where
  "sample_prompted = add_system 0 ''new'' None (add_system 0 ''old'' None init_chat)"

lemma trim_loses_system_prompt:
  "\<exists>c. c = snd (trim_context_one_round (append_entry 0 User [TextBlock ''q''] [] id sample_prompted)) \<and>
     current_system_text c = Some ''new'' \<and> add_system 1 ''new'' None c = c \<and>
     map e_content (filter (\<lambda>e. e_role e = System) (entries c)) = [[TextBlock ''old'']]"
proof -
  let ?c = "snd (trim_context_one_round (append_entry 0 User [TextBlock ''q''] [] id sample_prompted))"
  have "current_system_text ?c = Some ''new''" "current_tools ?c = None" "pending_system ?c = None"
    "map e_content (filter (\<lambda>e. e_role e = System) (entries ?c)) = [[TextBlock ''old'']]" by code_simp+
  then show ?thesis by (simp add: add_system_def tools_eq_def)
qed

end
