(* ===== verification/Turn_Engine.thy ===== *)
theory Turn_Engine
  imports Overflow_Recovery Sent_Tracker Tool_Executor
begin

text \<open>
  The turn engine (\<^verbatim>\<open>_handle_request\<close> and \<^verbatim>\<open>_process_response\<close> in \<^verbatim>\<open>kernel/base_agent/turn.py\<close>): send a request,
  run the tool calls of the answer, send their results, and go on until an answer calls no tool. It ties the
  components together: the loop guard that ends runaway loops, the tool executor, the tracker of external
  messages, the conversation, and the send of the provider session with its overflow recovery.

  The provider session is the Anthropic one of \<^verbatim>\<open>Overflow_Recovery\<close>. How a batch is run is an argument, because the
  parallel executor has more than one outcome; the laws ask that it is one the executor allows.
\<close>

section \<open>Responses\<close>

record llm_response =
  re_text :: string
  re_calls :: "call_request list"
  re_thoughts :: "string list"
  re_diag :: dict
  re_api :: "string option"

definition is_all_empty_response :: "llm_response \<Rightarrow> bool" where
  "is_all_empty_response r \<longleftrightarrow> re_text r = [] \<and> re_calls r = [] \<and> re_thoughts r = []"

fun text_part :: "block \<Rightarrow> string list" where
  "text_part (TextBlock t) = [t]"
| "text_part _ = []"

fun thought_part :: "block \<Rightarrow> string list" where
  "thought_part (ThinkingBlock t pd) = (if t = [] then [] else [t])"
| "thought_part _ = []"

definition to_request :: "tool_call \<Rightarrow> call_request" where
  "to_request t = \<lparr>cr_name = tc_name t, cr_args = tc_args t, cr_id = Some (tc_id t)\<rparr>"

text \<open>\<^verbatim>\<open>_parse_response\<close> of the Anthropic adapter, its usage numbers left out.\<close>

definition parse_response :: "reply \<Rightarrow> llm_response" where
  "parse_response rp =
     \<lparr>re_text = join_str [CHR 0x0A] (concat (map text_part (rp_blocks rp))),
      re_calls = map to_request (calls_of (rp_blocks rp)),
      re_thoughts = concat (map thought_part (rp_blocks rp)), re_diag = [], re_api = None\<rparr>"

section \<open>State\<close>

datatype engine_effect =
    Ef_Sent wire_message
  | Ef_Dispatched "call_request list"
  | Ef_Batch "tool_result list"
  | Ef_Committed "tool_result list"
  | Ef_Saved
  | Ef_Settled
  | Ef_Closed string
  | Ef_Guard_Notice string string
  | Ef_Restored
  | Ef_Reported failure
  | Ef_Logged string dict

record 'x engine =
  en_chat :: chat
  en_exec :: "'x executor"
  en_tracker :: sent_tracker
  en_fx :: "engine_effect list"

text \<open>
  What the engine is given. \<open>te_run\<close> runs a batch; \<open>te_decorate\<close> stamps notifications, the task card and the runtime
  snapshot on its results; \<open>te_prompt\<close> builds the system prompt and the tool schemas; \<open>te_save\<close> writes the history
  and may fail; \<open>te_drain\<close> splices queued involuntary pairs into the conversation.
\<close>

record 'x turn_env =
  te_exec :: "'x exec_env"
  te_run :: "string option \<Rightarrow> call_request list \<Rightarrow> 'x executor \<Rightarrow> batch_outcome \<times> 'x executor"
  te_adapter :: "'x adapter"
  te_prompt :: "'x \<Rightarrow> string \<times> py list option"
  te_decorate :: "call_request list \<Rightarrow> tool_result list \<Rightarrow> 'x \<Rightarrow> tool_result list \<times> 'x"
  te_save :: "chat \<Rightarrow> 'x \<Rightarrow> failure option \<times> 'x"
  te_drain :: "chat \<Rightarrow> 'x \<Rightarrow> chat \<times> 'x"
  te_housekeeping :: "'x \<Rightarrow> 'x"
  te_content :: "'x \<Rightarrow> string"
  te_loads :: "string \<Rightarrow> py option"
  te_sha :: "string \<Rightarrow> string"
  te_now :: rat

abbreviation en_world :: "'x engine \<Rightarrow> 'x" where
  "en_world en \<equiv> ex_world (en_exec en)"

abbreviation en_guard :: "'x engine \<Rightarrow> loop_guard" where
  "en_guard en \<equiv> ex_guard (en_exec en)"

definition ef :: "engine_effect \<Rightarrow> 'x engine \<Rightarrow> 'x engine" where
  "ef e en = en\<lparr>en_fx := en_fx en @ [e]\<rparr>"

definition with_world :: "'x \<Rightarrow> 'x engine \<Rightarrow> 'x engine" where
  "with_world w en = en\<lparr>en_exec := (en_exec en)\<lparr>ex_world := w\<rparr>\<rparr>"

definition with_guard :: "loop_guard \<Rightarrow> 'x engine \<Rightarrow> 'x engine" where
  "with_guard g en = en\<lparr>en_exec := (en_exec en)\<lparr>ex_guard := g\<rparr>\<rparr>"

definition with_chat :: "chat \<Rightarrow> 'x engine \<Rightarrow> 'x engine" where
  "with_chat c en = en\<lparr>en_chat := c\<rparr>"

definition cancelled :: "'x turn_env \<Rightarrow> 'x engine \<Rightarrow> bool" where
  "cancelled te en \<longleftrightarrow> xe_cancelled (te_exec te) (en_world en)"

section \<open>Messages to people\<close>

text \<open>\<^verbatim>\<open>value in frozenset(names)\<close>: a list or a dict has no hash.\<close>

definition in_names :: "py \<Rightarrow> string list \<Rightarrow> exc + bool" where
  "in_names v names =
     (case v of
        PList _ \<Rightarrow> Inl (TypeError ''unhashable type: list'')
      | PDict _ \<Rightarrow> Inl (TypeError ''unhashable type: dict'')
      | PStr s \<Rightarrow> Inr (s \<in> set names)
      | _ \<Rightarrow> Inr False)"

text \<open>The first of several arguments that holds something.\<close>

definition first_set :: "dict \<Rightarrow> string list \<Rightarrow> py option" where
  "first_set d ks = map_option (\<lambda>k. dgetd d k PNone) (find (\<lambda>k. truthy (dgetd d k PNone)) ks)"

text \<open>Recipients are compared as values, so one that is no text is kept apart from every text.\<close>

definition recipient_key :: "(rat \<Rightarrow> string) \<Rightarrow> py \<Rightarrow> string" where
  "recipient_key fr v = (case v of PStr s \<Rightarrow> s | _ \<Rightarrow> CHR 0x00 # py_repr fr v)"

definition duplicate_warning :: string where
  "duplicate_warning =
     ''Recently sent similar message to this recipient.''
     @ '' This send already executed; avoid sending it again.''"

definition warning_sign :: string where
  "warning_sign = map (\<lambda>n. char_of (n :: nat)) [226, 154, 160, 239, 184, 143]"

definition advise_duplicate :: "tool_result \<Rightarrow> exc + tool_result" where
  "advise_duplicate r =
     (case tr_content r of
        PDict d \<Rightarrow>
          Inr (r\<lparr>tr_content := PDict (dput ''_advisory'' (PDict
            [(''type'', PStr ''duplicate_send''), (''severity'', PStr ''warning''), (''allowed'', PBool True),
             (''blocked'', PBool False), (''advisory_only'', PBool True), (''message'', PStr duplicate_warning),
             (''skill_refs'', PList [PStr ''system-manual''])]) d)\<rparr>)
      | v \<Rightarrow>
          (case (if truthy v then v else PStr []) of
             PStr s \<Rightarrow> Inr (r\<lparr>tr_content := PStr (s @ [CHR 0x0A] @ warning_sign @ '' '' @ duplicate_warning)\<rparr>)
           | _ \<Rightarrow> Inl (TypeError ''can only concatenate str'')))"

text \<open>The first result that answers the call is advised.\<close>

fun advise_first :: "string option \<Rightarrow> tool_result list \<Rightarrow> exc + tool_result list" where
  "advise_first i [] = Inr []"
| "advise_first i (r # rs) =
     (if Some (tr_id r) = i then ebind (advise_duplicate r) (\<lambda>r'. Inr (r' # rs))
      else ebind (advise_first i rs) (\<lambda>rs'. Inr (r # rs')))"

text \<open>One call of \<^verbatim>\<open>_check_external_send\<close>'s loop, and the loop; a raise ends it with what was tracked so far.\<close>

definition check_send ::
  "'x turn_env \<Rightarrow> call_request \<Rightarrow> tool_result list \<Rightarrow> sent_tracker \<Rightarrow> (exc + tool_result list) \<times> sent_tracker" where
  "check_send te tc rs t =
     (if cr_name tc \<notin> set SEND_TOOLS then (Inr rs, t)
      else
        (case in_names (dgetd (cr_args tc) ''action'' (PStr [])) SEND_ACTIONS of
           Inl e \<Rightarrow> (Inl e, t)
         | Inr False \<Rightarrow> (Inr rs, t)
         | Inr True \<Rightarrow>
             (let fr = env_float (te_exec te); now = te_now te in
              case (first_set (cr_args tc) [''message'', ''body'', ''text''],
                    first_set (cr_args tc) [''to'', ''chat_id'', ''address'']) of
                (Some content, Some recipient) \<Rightarrow>
                  (let c = py_str fr content; r = recipient_key fr recipient in
                   case was_recently_sent (te_sha te) now now c r None t of
                     (True, t1) \<Rightarrow> (advise_first (cr_id tc) rs, t1)
                   | (False, t1) \<Rightarrow> (Inr rs, record_sent (te_sha te) now now c r (cr_name tc) t1))
              | _ \<Rightarrow> (Inr rs, t))))"

fun check_external_send ::
  "'x turn_env \<Rightarrow> call_request list \<Rightarrow> tool_result list \<Rightarrow> sent_tracker \<Rightarrow> (exc + tool_result list) \<times> sent_tracker"
where
  "check_external_send te [] rs t = (Inr rs, t)"
| "check_external_send te (tc # tcs) rs t =
     (case check_send te tc rs t of
        (Inl e, t1) \<Rightarrow> (Inl e, t1)
      | (Inr rs1, t1) \<Rightarrow> check_external_send te tcs rs1 t1)"

section \<open>Polling\<close>

definition poll_payload :: "'x turn_env \<Rightarrow> py \<Rightarrow> py" where
  "poll_payload te v =
     (case v of
        PDict d \<Rightarrow> v
      | PStr s \<Rightarrow> (case te_loads te s of Some w \<Rightarrow> w | None \<Rightarrow> PNone)
      | _ \<Rightarrow> PNone)"

definition found_new :: "'x turn_env \<Rightarrow> call_request \<Rightarrow> tool_result list \<Rightarrow> bool" where
  "found_new te tc rs =
     (case find (\<lambda>r. Some (tr_id r) = cr_id tc \<and> tr_id r \<noteq> []) (rev rs) of
        None \<Rightarrow> False
      | Some r \<Rightarrow>
          (case poll_payload te (tr_content r) of
             PDict d \<Rightarrow> list_ex (\<lambda>k. truthy (dgetd d k PNone)) [''messages'', ''emails'', ''conversations'']
           | _ \<Rightarrow> False))"

definition check_poll ::
  "'x turn_env \<Rightarrow> tool_result list \<Rightarrow> call_request \<Rightarrow> sent_tracker \<Rightarrow> (exc + bool) \<times> sent_tracker" where
  "check_poll te rs tc t =
     (if cr_name tc \<notin> set SEND_TOOLS then (Inr False, t)
      else
        (let action = dgetd (cr_args tc) ''action'' (PStr []) in
         case in_names action SEND_ACTIONS of
           Inl e \<Rightarrow> (Inl e, t)
         | Inr True \<Rightarrow> (Inr False, reset_poll (cr_name tc) t)
         | Inr False \<Rightarrow>
             (case in_names action CHECK_ACTIONS of
                Inl e \<Rightarrow> (Inl e, t)
              | Inr False \<Rightarrow> (Inr False, t)
              | Inr True \<Rightarrow>
                  (let t1 = record_poll (cr_name tc) (found_new te tc rs) t
                   in (Inr (should_stop_polling (cr_name tc) t1), t1)))))"

fun check_poll_backoff ::
  "'x turn_env \<Rightarrow> tool_result list \<Rightarrow> call_request list \<Rightarrow> bool \<Rightarrow> sent_tracker \<Rightarrow> (exc + bool) \<times> sent_tracker" where
  "check_poll_backoff te rs [] idle t = (Inr idle, t)"
| "check_poll_backoff te rs (tc # tcs) idle t =
     (case check_poll te rs tc t of
        (Inl e, t1) \<Rightarrow> (Inl e, t1)
      | (Inr stop, t1) \<Rightarrow> check_poll_backoff te rs tcs (idle \<or> stop) t1)"

section \<open>Steps of the engine\<close>

text \<open>A message to the provider: \<^verbatim>\<open>SessionManager.send\<close> refreshes the system prompt and the tools, then sends.\<close>

definition refresh_system :: "'x turn_env \<Rightarrow> 'x \<Rightarrow> chat \<Rightarrow> chat" where
  "refresh_system te w c =
     (case te_prompt te w of
        (prompt, tools) \<Rightarrow>
          let c1 = add_system (te_now te) prompt (current_tools c) c
          in add_system (te_now te) (case current_system_text c1 of None \<Rightarrow> [] | Some t \<Rightarrow> t) tools c1)"

definition send_request ::
  "'x turn_env \<Rightarrow> wire_message \<Rightarrow> 'x engine \<Rightarrow> ((failure + llm_response) \<times> 'x engine) option" where
  "send_request te m en =
     (case adapter_send (te_adapter te) m (refresh_system te (en_world en) (en_chat en)) (en_world en) of
        None \<Rightarrow> None
      | Some (r, c, w) \<Rightarrow>
          let en1 = with_world w (with_chat c (ef (Ef_Sent m) en))
          in Some ((case r of Inl f \<Rightarrow> Inl f | Inr rp \<Rightarrow> Inr (parse_response rp)), en1))"

definition settle_facts :: "'x engine \<Rightarrow> 'x engine" where
  "settle_facts en = ef Ef_Settled en"

definition save_history :: "'x turn_env \<Rightarrow> 'x engine \<Rightarrow> failure option \<times> 'x engine" where
  "save_history te en =
     (case te_save te (en_chat en) (en_world en) of (f, w) \<Rightarrow> (f, ef Ef_Saved (with_world w en)))"

text \<open>\<^verbatim>\<open>if tool_results and agent._chat: commit_tool_results; scan_and_emit_committed_facts\<close>.\<close>

definition commit_results :: "'x turn_env \<Rightarrow> tool_result list \<Rightarrow> 'x engine \<Rightarrow> 'x engine" where
  "commit_results te rs en =
     (if rs = [] then en
      else settle_facts (ef (Ef_Committed rs) (with_chat (snd (add_tool_results (te_now te) rs (en_chat en))) en)))"

definition handler_result :: "string \<Rightarrow> bool \<Rightarrow> string list \<Rightarrow> dict" where
  "handler_result t failed errors =
     [(''text'', PStr t), (''failed'', PBool failed), (''errors'', PList (map PStr errors))]"

definition lines_text :: "string list \<Rightarrow> string" where
  "lines_text parts = join_str [CHR 0x0A] parts"

definition empty_response_error :: "string \<Rightarrow> bool \<Rightarrow> failure" where
  "empty_response_error ledger in_tool_loop =
     \<lparr>f_classes = [''EmptyLLMResponseError'', ''RuntimeError'', ''Exception'', ''BaseException''],
      f_str = Some (''LLM returned empty response (no text, no tool_calls, no thoughts) ''
        @ (if in_tool_loop then ''after tool results'' else ''on initial send'') @ ''; ledger='' @ ledger),
      f_repr = None, f_attrs = [], f_response = None, f_replay = None, f_writable = True, f_trim_stats = None\<rparr>"

text \<open>
  \<^verbatim>\<open>_handle_guarded_non_dispatch\<close>: the calls are answered by synthetic results that say nothing was
  dispatched, the history is saved and the notice published. Publishing never fails the turn.
\<close>

definition guarded_non_dispatch ::
  "'x turn_env \<Rightarrow> call_request list \<Rightarrow> string \<Rightarrow> string \<Rightarrow> string list \<Rightarrow> 'x engine \<Rightarrow> (failure + dict) \<times> 'x engine" where
  "guarded_non_dispatch te tcs reason detail parts en =
     (let done = (\<lambda>en1. (Inr (handler_result (lines_text parts) False []), ef (Ef_Guard_Notice reason detail) en1)) in
      if has_pending_tool_calls (en_chat en) then
        (case close_pending_tool_calls (env_float (te_exec te)) (te_now te) (reason @ '': '' @ detail) False True None (en_chat en) of
           (Inl e, c) \<Rightarrow> (Inl (kernel_failure e), with_chat c en)
         | (Inr _, c) \<Rightarrow>
             (case save_history te (ef (Ef_Closed reason) (with_chat c en)) of
                (Some f, en1) \<Rightarrow> (Inl f, en1)
              | (None, en1) \<Rightarrow> done en1))
      else done en)"

text \<open>The exit of \<^verbatim>\<open>_check_poll_backoff\<close>; the close behind the commit is best-effort.\<close>

definition close_after_poll :: "'x turn_env \<Rightarrow> 'x engine \<Rightarrow> 'x engine" where
  "close_after_poll te en =
     (if \<not> has_pending_tool_calls (en_chat en) then en
      else
        (case close_pending_tool_calls (env_float (te_exec te)) (te_now te) ''poll_backoff_exit'' True False None (en_chat en) of
           (Inl e, c) \<Rightarrow> ef (Ef_Logged ''heal_pending_tool_calls_failed'' []) (with_chat c en)
         | (Inr _, c) \<Rightarrow>
             (case save_history te (ef (Ef_Closed ''poll_backoff_exit'') (with_chat c en)) of
                (Some _, en1) \<Rightarrow> ef (Ef_Logged ''heal_pending_tool_calls_failed'' []) en1
              | (None, en1) \<Rightarrow> ef (Ef_Logged ''heal_pending_tool_calls'' []) en1)))"

definition poll_exit ::
  "'x turn_env \<Rightarrow> tool_result list \<Rightarrow> string list \<Rightarrow> 'x engine \<Rightarrow> (failure + dict) \<times> 'x engine" where
  "poll_exit te rs parts en =
     (let out = handler_result (lines_text parts) False [] in
      if rs = [] then (Inr out, ef (Ef_Logged ''idle_after_poll_backoff'' []) en)
      else
        (case save_history te (commit_results te rs en) of
           (Some f, en1) \<Rightarrow> (Inl f, en1)
         | (None, en1) \<Rightarrow> (Inr out, ef (Ef_Logged ''idle_after_poll_backoff'' []) (close_after_poll te en1))))"

text \<open>
  A failed continuation: the results are committed again where the calls are still open. A save that fails
  while they are replaces the provider's failure.
\<close>

definition continuation_failed ::
  "'x turn_env \<Rightarrow> tool_result list \<Rightarrow> failure \<Rightarrow> 'x engine \<Rightarrow> failure \<times> 'x engine" where
  "continuation_failed te rs f en =
     (case restore_tool_results (te_now te) rs (Some (en_chat en)) of
        (True, Some c) \<Rightarrow>
          (case save_history te (settle_facts (ef Ef_Restored (with_chat c en))) of
             (Some g, en1) \<Rightarrow> (g, en1)
           | (None, en1) \<Rightarrow> (f, ef (Ef_Reported f) (settle_facts en1)))
      | _ \<Rightarrow> (f, ef (Ef_Reported f) (settle_facts en)))"

section \<open>One batch\<close>

text \<open>The batch is counted before it runs; the progress notice is gone when it is over.\<close>

definition run_batch ::
  "'x turn_env \<Rightarrow> llm_response \<Rightarrow> 'x engine \<Rightarrow> (tool_result list \<times> bool \<times> py) \<times> 'x engine" where
  "run_batch te resp en =
     (let tcs = re_calls resp;
          en1 = ef (Ef_Dispatched tcs) (with_guard (fst (record_calls (en_guard en) (int (length tcs)))) en)
      in case te_run te (re_api resp) tcs (en_exec en1) of
           ((rs, intercepted, t), ex) \<Rightarrow>
             let en2 = en1\<lparr>en_exec := ex\<lparr>ex_guard := clear_progress_notice (ex_guard ex)\<rparr>\<rparr>
             in (case te_decorate te tcs rs (en_world en2) of
                   (rs1, w) \<Rightarrow> ((rs1, intercepted, t), ef (Ef_Batch rs1) (with_world w en2))))"

datatype 'x pass = Next llm_response "'x engine" | Done "failure + dict" "'x engine"

text \<open>What follows a batch that was neither intercepted nor cancelled.\<close>

definition continue_with ::
  "'x turn_env \<Rightarrow> llm_response \<Rightarrow> string list \<Rightarrow> tool_result list \<Rightarrow> 'x engine \<Rightarrow> 'x pass option" where
  "continue_with te resp parts rs en =
     (case check_external_send te (re_calls resp) rs (en_tracker en) of
        (Inl e, t) \<Rightarrow> Some (Done (Inl (kernel_failure e)) (en\<lparr>en_tracker := t\<rparr>))
      | (Inr rs1, t) \<Rightarrow>
          (case check_poll_backoff te rs1 (re_calls resp) False t of
             (Inl e, t1) \<Rightarrow> Some (Done (Inl (kernel_failure e)) (en\<lparr>en_tracker := t1\<rparr>))
           | (Inr True, t1) \<Rightarrow>
               (case poll_exit te rs1 parts (en\<lparr>en_tracker := t1\<rparr>) of (out, en1) \<Rightarrow> Some (Done out en1))
           | (Inr False, t1) \<Rightarrow>
               (case send_request te (Tool_Results rs1) (en\<lparr>en_tracker := t1\<rparr>) of
                  None \<Rightarrow> None
                | Some (Inl f, en1) \<Rightarrow>
                    (case continuation_failed te rs1 f en1 of (g, en2) \<Rightarrow> Some (Done (Inl g) en2))
                | Some (Inr next, en1) \<Rightarrow>
                    (case save_history te (settle_facts en1) of
                       (Some f, en2) \<Rightarrow> Some (Done (Inl f) en2)
                     | (None, en2) \<Rightarrow> Some (Next next (with_world (te_housekeeping te (en_world en2)) en2))))))"

text \<open>One pass of the loop over a response; \<open>parts\<close> is the text collected before it.\<close>

definition process_pass ::
  "'x turn_env \<Rightarrow> string \<Rightarrow> bool \<Rightarrow> string list \<Rightarrow> llm_response \<Rightarrow> 'x engine \<Rightarrow> 'x pass option" where
  "process_pass te ledger in_tool_loop parts resp en =
     (let tcs = re_calls resp in
      if is_all_empty_response resp then Some (Done (Inl (empty_response_error ledger in_tool_loop)) en)
      else if tcs = [] then
        (let final = lines_text parts; errors = ex_errors (en_exec en)
         in Some (Done (Inr (handler_result final (errors \<noteq> [] \<and> strip final = []) errors)) en))
      else if cancelled te en then Some (Done (Inr (handler_result [] False [])) en)
      else
        (case check_limit (en_guard en) (int (length tcs)) of
           Some reason \<Rightarrow>
             (case guarded_non_dispatch te tcs ''tool_loop_limit'' reason parts en of (out, en1) \<Rightarrow> Some (Done out en1))
         | None \<Rightarrow>
             (case check_invalid_tool_limit (en_guard en) of
                Some reason \<Rightarrow>
                  (case guarded_non_dispatch te tcs ''invalid_tool_limit'' reason parts en of (out, en1) \<Rightarrow> Some (Done out en1))
              | None \<Rightarrow>
                  (case run_batch te resp en of
                     ((rs, intercepted, t), en1) \<Rightarrow>
                       if intercepted then
                         Some (Done (Inr [(''text'', t), (''failed'', PBool False), (''errors'', PList [])]) (commit_results te rs en1))
                       else if cancelled te en1 then Some (Done (Inr (handler_result [] False [])) (commit_results te rs en1))
                       else continue_with te resp parts rs en1))))"

text \<open>\<^verbatim>\<open>_process_response\<close>; \<open>None\<close> would be a loop that never ends.\<close>

partial_function (option) process_loop ::
  "'x turn_env \<Rightarrow> string \<Rightarrow> bool \<Rightarrow> string list \<Rightarrow> llm_response \<Rightarrow> 'x engine \<Rightarrow> ((failure + dict) \<times> 'x engine) option"
where
  "process_loop te ledger in_tool_loop parts resp en =
     (let parts1 = parts @ (if re_text resp = [] then [] else [re_text resp]) in
      case process_pass te ledger in_tool_loop parts1 resp en of
        None \<Rightarrow> None
      | Some (Done out en1) \<Rightarrow> Some (out, en1)
      | Some (Next next en1) \<Rightarrow> process_loop te ledger True parts1 next en1)"

declare process_loop.simps [code]

definition process_response ::
  "'x turn_env \<Rightarrow> string \<Rightarrow> llm_response \<Rightarrow> 'x engine \<Rightarrow> ((failure + dict) \<times> 'x engine) option" where
  "process_response te ledger resp en =
     process_loop te ledger False [] resp (en\<lparr>en_exec := (en_exec en)\<lparr>ex_errors := []\<rparr>\<rparr>)"

section \<open>A request\<close>

text \<open>\<^verbatim>\<open>_get_guard_limits\<close> and the fresh guard of a request.\<close>

definition fresh_guard :: loop_guard where
  "fresh_guard = init_guard ACTIVE_TURN_TOOL_CALL_EMERGENCY_LIMIT 3 8 2 None None"

definition fresh_executor :: "'x executor \<Rightarrow> 'x executor" where
  "fresh_executor ex = ex\<lparr>ex_guard := fresh_guard, ex_lifecycle := [], ex_errors := [], ex_pending := [],
     ex_molt_round := None, ex_api_call_id := None\<rparr>"

text \<open>
  \<^verbatim>\<open>_handle_request\<close> behind its poison guard: \<open>te_content\<close> is the request text with the rendered meta block in
  front. The worker-recovery notes around it are left out.
\<close>

definition handle_request :: "'x turn_env \<Rightarrow> 'x engine \<Rightarrow> ((failure + dict) \<times> 'x engine) option" where
  "handle_request te en =
     (case te_drain te (en_chat en) (en_world en) of
        (c, w) \<Rightarrow>
          let en1 = with_world w (with_chat c en);
              en2 = en1\<lparr>en_exec := fresh_executor (en_exec en1)\<rparr>;
              t = te_content te (en_world en2);
              en3 = with_world (te_housekeeping te (en_world en2)) en2
          in (case send_request te (User_Text t) en3 of
                None \<Rightarrow> None
              | Some (Inl f, en4) \<Rightarrow> Some (Inl f, en4)
              | Some (Inr resp, en4) \<Rightarrow>
                  (case save_history te (settle_facts en4) of
                     (Some f, en5) \<Rightarrow> Some (Inl f, en5)
                   | (None, en5) \<Rightarrow> process_response te ''main'' resp en5)))"

end
