(* ===== verification/Turn_Engine_Laws.thy ===== *)
theory Turn_Engine_Laws
  imports Turn_Engine Tool_Lifecycle Chat_Laws
begin

text \<open>
  Laws of the turn engine: the tool loop ends within the fuse of the loop guard, no call runs past a guard or a
  cancellation, and the conversation is left with its calls answered.
\<close>

section \<open>The executor does not touch the call count\<close>

text \<open>Only the engine counts calls; the executor records repetitions and invented names.\<close>

definition meter :: "'w executor \<Rightarrow> int \<times> int" where
  "meter st = (lg_total_calls (ex_guard st), lg_max_total_calls (ex_guard st))"

lemma meter_updates [simp]:
  "meter (st\<lparr>ex_log := a\<rparr>) = meter st" "meter (st\<lparr>ex_lifecycle := b\<rparr>) = meter st"
  "meter (st\<lparr>ex_errors := c\<rparr>) = meter st" "meter (st\<lparr>ex_pending := d\<rparr>) = meter st"
  "meter (st\<lparr>ex_molt_round := e\<rparr>) = meter st" "meter (st\<lparr>ex_api_call_id := f\<rparr>) = meter st"
  "meter (st\<lparr>ex_world := w\<rparr>) = meter st"
  "meter (st\<lparr>ex_guard := g\<rparr>) = (lg_total_calls g, lg_max_total_calls g)"
  by (simp_all add: meter_def)

lemma meter_logs [simp]:
  "meter (log_ev ev kvs st) = meter st"
  "meter (log_lifecycle ev n i tr kvs st) = meter st"
  "meter (notify_lifecycle n tr ls st) = meter st"
  "meter (log_tool_result n i tr args s el r x st) = meter st"
  "meter (add_error n m st) = meter st"
  "meter (log_guard_approval tc tr d st) = meter st"
  "meter (log_dispatch_failed tc tr n m el st) = meter st"
  "meter (log_start tc args tr st) = meter st"
  "meter (snd (tool_trace_id env tc st)) = meter st"
  "meter (snd (prepare_args tc tr st)) = meter st"
  "meter (stage_meta env i el tr st) = meter st"
  "meter (run_pre_hook env tc args st) = meter st"
  "meter (snd (invoke_result_hook env tc args msg st)) = meter st"
  "meter (returned_error env tc r st) = meter st"
  by (simp_all add: log_ev_def log_lifecycle_def notify_lifecycle_def log_tool_result_def add_error_def
      log_guard_approval_def log_dispatch_failed_def log_start_def tool_trace_id_def prepare_args_def stage_meta_def
      run_pre_hook_def invoke_result_hook_def returned_error_def Let_def split_beta split: option.split)

lemma meter_guard [simp]:
  "(lg_total_calls (fst (record_tool_call fr (ex_guard st) n args)), lg_max_total_calls (fst (record_tool_call fr (ex_guard st) n args)))
     = meter st"
  "(lg_total_calls (record_invalid_tool (ex_guard st) n), lg_max_total_calls (record_invalid_tool (ex_guard st) n)) = meter st"
  by (simp_all add: record_tool_call_def record_invalid_tool_def meter_def Let_def)

lemma meter_log_done [simp]:
  "(\<And>s. meter (f s) = meter s) \<Longrightarrow> meter (log_done tc args tr el r f st) = meter st"
  by (simp add: log_done_def)

lemma meter_fold [simp]: "(\<And>x s. x \<in> set xs \<Longrightarrow> meter (f x s) = meter s) \<Longrightarrow> meter (fold f xs st) = meter st"
  by (induction xs arbitrary: st) auto

lemma meter_summarize [simp]: "meter (snd (summarize_visible env tc args r st)) = meter st"
  by (simp add: summarize_visible_def split_beta)

lemma meter_reminder [simp]:
  "meter (emit_reminder_event d st) = meter st" "meter (maybe_emit_current_molt_event d st) = meter st"
  by (simp_all add: emit_reminder_event_def maybe_emit_current_molt_event_def Let_def split: option.split py.split)

lemma meter_reconstruction [simp]: "meter (snd (attach_reconstruction env p st)) = meter st"
  by (auto simp: attach_reconstruction_def Let_def split_beta split: option.split sum.split py.split)

lemma meter_tool_block [simp]: "meter (snd (attach_tool_block env v i tr el sp s st)) = meter st"
  by (auto simp: attach_tool_block_def Let_def split_beta split: option.split py.split)

lemma meter_build [simp]: "meter (snd (build_result_message env n r i tr s el st)) = meter st"
  by (simp add: build_result_message_def Let_def split_beta split: option.split)

lemma meter_answers [simp]:
  "(\<And>s. meter (f s) = meter s) \<Longrightarrow> meter (snd (reject_unknown env tc args tr f st)) = meter st"
  "meter (snd (deny_tool_call env tc args tr p d st)) = meter st"
  "meter (snd (fail_dispatch env tc args tr v p d el e st)) = meter st"
  "meter (snd (present_result env tc args tr el r st)) = meter st"
  by (simp_all add: reject_unknown_def deny_tool_call_def fail_dispatch_def present_result_def Let_def split_beta)

lemma meter_single [simp]: "meter (snd (execute_single env tc st)) = meter st"
  by (simp add: execute_single_def Let_def split_beta split: sum.split)

lemma meter_sequential: "meter (snd (execute_sequential env acc tcs st)) = meter st"
  by (induction tcs arbitrary: acc st) (simp_all add: Let_def split_beta)

definition batch_meter :: "'w batch \<Rightarrow> int \<times> int" where
  "batch_meter b = meter (ba_exec b)"

lemma batch_meter_frame [simp]:
  "batch_meter (b\<lparr>ba_exec := st\<rparr>) = meter st" "batch_meter (b\<lparr>ba_phase := ph\<rparr>) = batch_meter b"
  "batch_meter (b\<lparr>ba_errors := er\<rparr>) = batch_meter b" "batch_meter (b\<lparr>ba_results := rs\<rparr>) = batch_meter b"
  "batch_meter (b\<lparr>ba_begun := bg\<rparr>) = batch_meter b" "batch_meter (b\<lparr>ba_terminal := tm\<rparr>) = batch_meter b"
  "batch_meter (b\<lparr>ba_refused := rf\<rparr>) = batch_meter b" "batch_meter (b\<lparr>ba_jobs := jb\<rparr>) = batch_meter b"
  "batch_meter (b\<lparr>ba_futures := fs\<rparr>) = batch_meter b"
  "(\<And>s. meter (f s) = meter s) \<Longrightarrow> batch_meter (on_exec f b) = batch_meter b"
  "batch_meter (emit_lifecycle n tr ls b) = batch_meter b"
  by (simp_all add: batch_meter_def on_exec_def emit_lifecycle_def)

lemma batch_meter_fold [simp]:
  "(\<And>x b. x \<in> set xs \<Longrightarrow> batch_meter (f x b) = batch_meter b) \<Longrightarrow> batch_meter (fold f xs b) = batch_meter b"
  by (induction xs arbitrary: b) auto

lemma batch_meter_admit [simp]: "batch_meter (admit_call env i tc b) = batch_meter b"
  by (simp add: admit_call_def Let_def split_beta refuse_def batch_meter_def)

lemma batch_meter_admits [simp]: "batch_meter (admit_calls env tcs st) = meter st"
  by (simp add: admit_calls_def split_beta) (simp add: init_batch_def batch_meter_def)

lemma batch_meter_finish [simp]: "batch_meter (finish_job env j b) = batch_meter b"
  by (simp add: finish_job_def Let_def split_beta batch_meter_def split: sum.split)

lemma batch_meter_collect [simp]:
  "batch_meter (collect_failure env j err n m x b) = batch_meter b"
  "batch_meter (collect_job env j fu b) = batch_meter b"
  "batch_meter (expire env b) = batch_meter b"
  by (simp_all add: collect_failure_def collect_job_def expire_def timeout_job_def fail_all_def Let_def split: sum.split prod.split)

lemma batch_meter_step: "batch_step env b b' \<Longrightarrow> batch_meter b' = batch_meter b"
  by (erule batch_step.cases) (simp_all add: begin_job_def)

lemma batch_meter_reach: "reach b (batch_step env) b' \<Longrightarrow> batch_meter b' = batch_meter b"
  by (induction rule: reach.induct) (auto dest: batch_meter_step)

lemma meter_present [simp]:
  "meter (snd (present_collected env j r el st)) = meter st" "meter (snd (present_failure env j err el st)) = meter st"
  by (simp_all add: present_collected_def present_failure_def Let_def split_beta)

lemma meter_present_jobs: "meter (snd (present_jobs env b js acc st)) = meter st"
  by (induction js arbitrary: acc st) (simp_all add: Let_def split_beta split: option.split)

lemma meter_conclude: "meter (snd (conclude env b)) = batch_meter b"
  using meter_present_jobs [of env b "ba_jobs b" "ba_refused b" "ba_exec b"]
  by (simp add: conclude_def batch_meter_def split_beta)

lemma execute_meter: "execute env api tcs st (out, st') \<Longrightarrow> meter st' = meter st"
proof (erule executeE)
  fix st1 assume "execute_sequential env [] tcs (st\<lparr>ex_api_call_id := api\<rparr>) = (out, st1)" "st' = st1\<lparr>ex_api_call_id := ex_api_call_id st\<rparr>"
  with meter_sequential [of env "[]" tcs "st\<lparr>ex_api_call_id := api\<rparr>"] show ?thesis by simp
next
  fix st1 assume p: "execute_parallel env tcs (st\<lparr>ex_api_call_id := api\<rparr>) (out, st1)"
    and st': "st' = st1\<lparr>ex_api_call_id := ex_api_call_id st\<rparr>"
  have "meter st1 = meter st"
  proof (rule execute_parallelE [OF p])
    let ?b = "admit_calls env tcs (st\<lparr>ex_api_call_id := api\<rparr>)"
    assume "(out, st1) = ((in_order (ba_refused ?b), False, PStr []), ba_exec ?b)"
    then show ?thesis using batch_meter_admits [of env tcs "st\<lparr>ex_api_call_id := api\<rparr>"] by (simp add: batch_meter_def)
  next
    fix b
    assume "(out, st1) = conclude env b"
      and r: "reach (run_pre_hooks env (admit_calls env tcs (st\<lparr>ex_api_call_id := api\<rparr>))) (batch_step env) b"
    then show ?thesis using meter_conclude [of env b] batch_meter_reach [OF r] by (simp add: run_pre_hooks_def prod_eq_iff)
  qed
  with st' show ?thesis by simp
qed

section \<open>The tool loop ends\<close>

text \<open>A batch is run the way the executor allows.\<close>

definition follows :: "'x turn_env \<Rightarrow> bool" where
  "follows te \<longleftrightarrow> (\<forall>api tcs ex. execute (te_exec te) api tcs ex (te_run te api tcs ex))"

definition en_meter :: "'x engine \<Rightarrow> int \<times> int" where
  "en_meter en = meter (en_exec en)"

fun dispatched :: "engine_effect list \<Rightarrow> nat" where
  "dispatched [] = 0"
| "dispatched (Ef_Dispatched tcs # es) = length tcs + dispatched es"
| "dispatched (_ # es) = dispatched es"

fun sends :: "engine_effect list \<Rightarrow> nat" where
  "sends [] = 0"
| "sends (Ef_Sent m # es) = Suc (sends es)"
| "sends (_ # es) = sends es"

lemma dispatched_append [simp]: "dispatched (es @ fs) = dispatched es + dispatched fs"
  by (induction es rule: dispatched.induct) simp_all

lemma sends_append [simp]: "sends (es @ fs) = sends es + sends fs"
  by (induction es rule: sends.induct) simp_all

lemma engine_ops [simp]:
  "en_meter (ef e en) = en_meter en" "en_chat (ef e en) = en_chat en" "en_exec (ef e en) = en_exec en"
  "en_tracker (ef e en) = en_tracker en" "en_fx (ef e en) = en_fx en @ [e]"
  "en_meter (with_world w en) = en_meter en" "en_chat (with_world w en) = en_chat en" "en_fx (with_world w en) = en_fx en"
  "en_world (with_world w en) = w"
  "en_meter (with_chat c en) = en_meter en" "en_chat (with_chat c en) = c" "en_fx (with_chat c en) = en_fx en"
  "en_exec (with_chat c en) = en_exec en"
  "en_chat (with_guard g en) = en_chat en" "en_fx (with_guard g en) = en_fx en"
  "en_meter (with_guard g en) = (lg_total_calls g, lg_max_total_calls g)" "en_exec (with_guard g en) = (en_exec en)\<lparr>ex_guard := g\<rparr>"
  "en_meter (en\<lparr>en_tracker := t\<rparr>) = en_meter en"
  by (simp_all add: ef_def with_world_def with_chat_def with_guard_def en_meter_def)

lemma save_frame [simp]:
  "en_meter (snd (save_history te en)) = en_meter en" "en_chat (snd (save_history te en)) = en_chat en"
  "en_fx (snd (save_history te en)) = en_fx en @ [Ef_Saved]"
  by (simp_all add: save_history_def split_beta)

lemma recovery_returns: "run_with_overflow_recovery anthropic_overflow (adapter_call ad) d v \<noteq> None"
  using overflow_loop_returns [of 0 anthropic_overflow "adapter_call ad" 0 d v "\<lambda>_. 0"]
  by (auto simp: run_with_overflow_recovery_def)

lemma adapter_send_returns: "adapter_send ad m c w \<noteq> None"
  by (simp add: adapter_send_def Let_def recovery_returns split: prod.splits sum.splits option.splits)

lemma send_request_returns:
  obtains r en1 where "send_request te m en = Some (r, en1)" "en_meter en1 = en_meter en" "en_fx en1 = en_fx en @ [Ef_Sent m]"
proof -
  obtain x where "adapter_send (te_adapter te) m (refresh_system te (en_world en) (en_chat en)) (en_world en) = Some x"
    using adapter_send_returns [of "te_adapter te" m "refresh_system te (en_world en) (en_chat en)" "en_world en"] by auto
  then show thesis using that by (simp add: send_request_def Let_def split_beta)
qed

text \<open>What a turn has spent, and what its fuse still allows.\<close>

definition spent :: "'x engine \<Rightarrow> nat \<times> nat" where
  "spent en = (dispatched (en_fx en), sends (en_fx en))"

definition budget :: "'x engine \<Rightarrow> nat" where
  "budget en = nat (snd (en_meter en) - fst (en_meter en))"

lemma spent_ops [simp]:
  "spent (with_world w en) = spent en" "spent (with_chat c en) = spent en" "spent (with_guard g en) = spent en"
  "spent (en\<lparr>en_tracker := t\<rparr>) = spent en" "spent (snd (save_history te en)) = spent en"
  "spent (ef Ef_Saved en) = spent en" "spent (ef Ef_Settled en) = spent en" "spent (ef (Ef_Closed s) en) = spent en"
  "spent (ef (Ef_Committed rs) en) = spent en" "spent (ef (Ef_Logged s d) en) = spent en"
  "spent (ef (Ef_Guard_Notice s d') en) = spent en" "spent (ef Ef_Restored en) = spent en"
  "spent (ef (Ef_Reported f) en) = spent en" "spent (settle_facts en) = spent en"
  "spent (ef (Ef_Batch rs) en) = spent en" "spent (en\<lparr>en_exec := ex\<rparr>) = spent en"
  by (simp_all add: spent_def settle_facts_def with_world_def with_chat_def with_guard_def)

lemma spent_commit [simp]: "spent (commit_results te rs en) = spent en"
  by (simp add: commit_results_def)

lemma save_history_spent: "save_history te en = (f, en1) \<Longrightarrow> spent en1 = spent en"
  by (metis snd_conv spent_ops(5))

lemma guarded_spent [simp]: "spent (snd (guarded_non_dispatch te tcs reason d parts en)) = spent en"
  by (auto simp: guarded_non_dispatch_def Let_def dest: save_history_spent split: prod.split sum.split option.split)

lemma close_after_poll_spent [simp]: "spent (close_after_poll te en) = spent en"
  by (auto simp: close_after_poll_def dest: save_history_spent split: prod.split sum.split option.split)

lemma poll_exit_spent [simp]: "spent (snd (poll_exit te rs parts en)) = spent en"
  by (auto simp: poll_exit_def Let_def dest: save_history_spent split: prod.split option.split)

lemma continuation_failed_spent [simp]: "spent (snd (continuation_failed te rs f en)) = spent en"
  by (auto simp: continuation_failed_def dest: save_history_spent split: prod.split option.split bool.split)

lemma send_request_spent:
  obtains r en1 where "send_request te m en = Some (r, en1)" "en_meter en1 = en_meter en"
    "spent en1 = (fst (spent en), Suc (snd (spent en)))"
  by (rule send_request_returns [of te m en]) (simp add: spent_def)

text \<open>The executor a batch is given: its calls are counted.\<close>

definition counted :: "call_request list \<Rightarrow> 'x engine \<Rightarrow> 'x executor" where
  "counted tcs en = (en_exec en)\<lparr>ex_guard := fst (record_calls (en_guard en) (int (length tcs)))\<rparr>"

lemma run_batch_eq:
  assumes "te_run te (re_api resp) (re_calls resp) (counted (re_calls resp) en) = ((rs, i, t), ex)"
    "te_decorate te (re_calls resp) rs (ex_world ex) = (rs1, w)"
  shows "run_batch te resp en = ((rs1, i, t),
    en\<lparr>en_exec := ex\<lparr>ex_guard := clear_progress_notice (ex_guard ex), ex_world := w\<rparr>,
       en_fx := en_fx en @ [Ef_Dispatched (re_calls resp), Ef_Batch rs1]\<rparr>)"
  using assms unfolding run_batch_def Let_def counted_def with_guard_def ef_def with_world_def by simp

lemma run_batchE:
  assumes "run_batch te resp en = ((rs1, i, t), en1)"
  obtains rs ex w where "te_run te (re_api resp) (re_calls resp) (counted (re_calls resp) en) = ((rs, i, t), ex)"
    "te_decorate te (re_calls resp) rs (ex_world ex) = (rs1, w)"
    "en_exec en1 = ex\<lparr>ex_guard := clear_progress_notice (ex_guard ex), ex_world := w\<rparr>"
    "en_chat en1 = en_chat en" "en_tracker en1 = en_tracker en"
    "en_fx en1 = en_fx en @ [Ef_Dispatched (re_calls resp), Ef_Batch rs1]"
proof -
  obtain rs i' t' ex where run: "te_run te (re_api resp) (re_calls resp) (counted (re_calls resp) en) = ((rs, i', t'), ex)"
    by (metis prod.exhaust)
  obtain rs' w where dec: "te_decorate te (re_calls resp) rs (ex_world ex) = (rs', w)" by fastforce
  from run_batch_eq [OF run dec] run dec assms show thesis by (intro that [of rs ex w]) simp_all
qed

lemma meter_counted: "tcs \<noteq> [] \<Longrightarrow> meter (counted tcs en) = (fst (en_meter en) + int (length tcs), snd (en_meter en))"
  by (simp add: counted_def record_calls_def Let_def en_meter_def) (simp add: meter_def)

lemma run_batch_spent:
  assumes "follows te" "run_batch te resp en = ((rs, i, t), en1)" "re_calls resp \<noteq> []"
  shows "en_meter en1 = (fst (en_meter en) + int (length (re_calls resp)), snd (en_meter en))"
    "spent en1 = (fst (spent en) + length (re_calls resp), snd (spent en))"
proof -
  obtain rs0 ex w where run: "te_run te (re_api resp) (re_calls resp) (counted (re_calls resp) en) = ((rs0, i, t), ex)"
    and ex: "en_exec en1 = ex\<lparr>ex_guard := clear_progress_notice (ex_guard ex), ex_world := w\<rparr>"
    and fx: "en_fx en1 = en_fx en @ [Ef_Dispatched (re_calls resp), Ef_Batch rs]"
    using assms(2) by (rule run_batchE)
  from assms(1) run have "execute (te_exec te) (re_api resp) (re_calls resp) (counted (re_calls resp) en) ((rs0, i, t), ex)"
    by (metis follows_def)
  from execute_meter [OF this] show "en_meter en1 = (fst (en_meter en) + int (length (re_calls resp)), snd (en_meter en))"
    using meter_counted [OF assms(3)] ex by (simp add: en_meter_def clear_progress_notice_def) (simp add: meter_def)
  from fx show "spent en1 = (fst (spent en) + length (re_calls resp), snd (spent en))" by (simp add: spent_def)
qed

definition sent_once :: "'x engine \<Rightarrow> 'x pass \<Rightarrow> bool" where
  "sent_once en p \<longleftrightarrow>
     (case p of
        Done out en1 \<Rightarrow> fst (spent en1) = fst (spent en) \<and> snd (spent en1) \<le> Suc (snd (spent en))
      | Next resp en1 \<Rightarrow> en_meter en1 = en_meter en \<and> spent en1 = (fst (spent en), Suc (snd (spent en))))"

lemma continue_spent: "\<exists>p. continue_with te resp parts rs en = Some p \<and> sent_once en p"
proof (cases "check_external_send te (re_calls resp) rs (en_tracker en)")
  case (Pair r t)
  show ?thesis
  proof (cases r)
    case (Inl e)
    with Pair show ?thesis by (simp add: continue_with_def sent_once_def)
  next
    case (Inr rs1)
    obtain stop t1 where poll: "check_poll_backoff te rs1 (re_calls resp) False t = (stop, t1)" by fastforce
    let ?en = "en\<lparr>en_tracker := t1\<rparr>"
    obtain r1 en1 where send: "send_request te (Tool_Results rs1) ?en = Some (r1, en1)" "en_meter en1 = en_meter ?en"
      "spent en1 = (fst (spent ?en), Suc (snd (spent ?en)))" by (rule send_request_spent)
    obtain f en2 where save: "save_history te (settle_facts en1) = (f, en2)" by fastforce
    have meter: "en_meter en2 = en_meter en1"
      using save save_frame(1) [of te "settle_facts en1"] by (simp add: settle_facts_def)
    show ?thesis
    proof (cases stop)
      case (Inl e)
      with Pair Inr poll show ?thesis by (simp add: continue_with_def sent_once_def)
    next
      case stop: (Inr b)
      show ?thesis
      proof (cases b)
        case True
        with Pair Inr poll stop poll_exit_spent [of te rs1 parts ?en] show ?thesis
          by (simp add: continue_with_def sent_once_def split_beta)
      next
        case False
        show ?thesis
        proof (cases r1)
          case (Inl g)
          with Pair Inr poll stop False send continuation_failed_spent [of te rs1 g en1] show ?thesis
            by (simp add: continue_with_def sent_once_def split_beta)
        next
          case again: (Inr resp')
          with Pair Inr poll stop False again send save meter save_history_spent [OF save] show ?thesis
            by (cases f) (simp_all add: continue_with_def sent_once_def)
        qed
      qed
    qed
  qed
qed

definition in_budget :: "'x engine \<Rightarrow> 'x pass \<Rightarrow> bool" where
  "in_budget en p \<longleftrightarrow>
     (case p of
        Done out en1 \<Rightarrow>
          fst (spent en1) \<le> fst (spent en) + budget en \<and> snd (spent en1) \<le> snd (spent en) + budget en
      | Next resp en1 \<Rightarrow>
          budget en1 < budget en \<and> fst (spent en1) + budget en1 = fst (spent en) + budget en
          \<and> snd (spent en1) = Suc (snd (spent en)))"

lemma check_limit_fits:
  "check_limit (en_guard en) (int (length tcs)) = None \<Longrightarrow> tcs \<noteq> [] \<Longrightarrow> length tcs \<le> budget en"
  by (auto simp: check_limit_def budget_def en_meter_def meter_def split: if_splits)

lemma pass_spent:
  assumes "follows te"
  shows "\<exists>p. process_pass te ledger b parts resp en = Some p \<and> in_budget en p"
proof -
  let ?tcs = "re_calls resp"
  have guarded: "in_budget en (case guarded_non_dispatch te ?tcs reason d parts en of (out, en1) \<Rightarrow> Done out en1)" for reason d
    using guarded_spent [of te ?tcs reason d parts en] by (simp add: in_budget_def split_beta)
  obtain rs i t en1 where batch: "run_batch te resp en = ((rs, i, t), en1)" by (metis prod.exhaust)
  obtain p where cont: "continue_with te resp parts rs en1 = Some p" "sent_once en1 p" using continue_spent by blast
  show ?thesis
  proof (cases "is_all_empty_response resp \<or> ?tcs = [] \<or> cancelled te en \<or> check_limit (en_guard en) (int (length ?tcs)) \<noteq> None
      \<or> check_invalid_tool_limit (en_guard en) \<noteq> None")
    case True
    then show ?thesis using guarded
      by (auto simp: process_pass_def Let_def split_beta in_budget_def split: option.splits)
  next
    case False
    note ran = run_batch_spent [OF assms batch]
    from False have fits: "?tcs \<noteq> []" "length ?tcs \<le> budget en" using check_limit_fits by auto
    with ran have b: "budget en1 = budget en - length ?tcs" by (auto simp: budget_def)
    have "in_budget en p"
      using cont(2) ran fits b by (cases p) (auto simp: sent_once_def in_budget_def budget_def Suc_le_eq simp flip: length_greater_0_conv)
    with False batch cont(1) ran fits show ?thesis
      by (simp add: process_pass_def Let_def) (auto simp: in_budget_def)
  qed
qed

lemma loop_spent:
  assumes "follows te"
  shows "\<exists>out en1. process_loop te ledger b parts resp en = Some (out, en1)
    \<and> fst (spent en1) \<le> fst (spent en) + budget en \<and> snd (spent en1) \<le> snd (spent en) + budget en"
proof (induction "budget en" arbitrary: b parts resp en rule: less_induct)
  case less
  let ?parts = "parts @ (if re_text resp = [] then [] else [re_text resp])"
  obtain p where p: "process_pass te ledger b ?parts resp en = Some p" "in_budget en p" using pass_spent [OF assms] by blast
  show ?case
  proof (cases p)
    case (Done out en1)
    with p show ?thesis by (subst process_loop.simps) (simp add: in_budget_def)
  next
    case (Next resp2 en1)
    with p(2) have w: "budget en1 < budget en" "fst (spent en1) + budget en1 = fst (spent en) + budget en"
      "snd (spent en1) = Suc (snd (spent en))" by (simp_all add: in_budget_def)
    from less [OF w(1), of True ?parts resp2] obtain out en2 where
      r: "process_loop te ledger True ?parts resp2 en1 = Some (out, en2)"
      "fst (spent en2) \<le> fst (spent en1) + budget en1" "snd (spent en2) \<le> snd (spent en1) + budget en1" by blast
    then have "process_loop te ledger b parts resp en = Some (out, en2)"
      using p(1) Next by (subst process_loop.simps) simp
    with r w show ?thesis by auto
  qed
qed

lemma request_returns:
  assumes "follows te"
  shows "\<exists>out en'. handle_request te en = Some (out, en') \<and>
    dispatched (en_fx en') \<le> dispatched (en_fx en) + 10000 \<and> sends (en_fx en') \<le> sends (en_fx en) + 10001"
proof -
  obtain c w where "te_drain te (en_chat en) (en_world en) = (c, w)" by fastforce
  note drain = this
  define en2 where "en2 = (with_world w (with_chat c en))\<lparr>en_exec := fresh_executor (en_exec (with_world w (with_chat c en)))\<rparr>"
  define en3 where "en3 = with_world (te_housekeeping te (en_world en2)) en2"
  let ?m = "User_Text (te_content te (en_world en2))"
  have "en_meter en2 = (0, 10000)"
    by (simp add: en2_def en_meter_def fresh_executor_def fresh_guard_def init_guard_def meter_def
        ACTIVE_TURN_TOOL_CALL_EMERGENCY_LIMIT_def)
  then have start: "en_meter en3 = (0, 10000)" "spent en3 = spent en" by (simp_all add: en3_def) (simp add: en2_def spent_def)
  obtain r en4 where send: "send_request te ?m en3 = Some (r, en4)" "en_meter en4 = en_meter en3"
    "spent en4 = (fst (spent en3), Suc (snd (spent en3)))" by (rule send_request_spent)
  have req: "handle_request te en = (case r of Inl f \<Rightarrow> Some (Inl f, en4)
      | Inr resp \<Rightarrow> (case save_history te (settle_facts en4) of
          (Some f, en5) \<Rightarrow> Some (Inl f, en5) | (None, en5) \<Rightarrow> process_response te ''main'' resp en5))"
    using send(1) by (simp add: handle_request_def drain Let_def en2_def en3_def split: sum.split)
  show ?thesis
  proof (cases r)
    case (Inl f)
    with req send start show ?thesis by (simp add: spent_def)
  next
    case (Inr resp)
    obtain f en5 where save: "save_history te (settle_facts en4) = (f, en5)" by fastforce
    then have en5: "en_meter en5 = (0, 10000)" "spent en5 = (fst (spent en), Suc (snd (spent en)))"
      using save_frame(1) [of te "settle_facts en4"] save_history_spent [OF save] send start
      by (simp_all add: settle_facts_def)
    define en6 where "en6 = en5\<lparr>en_exec := (en_exec en5)\<lparr>ex_errors := []\<rparr>\<rparr>"
    have en6: "budget en6 = 10000" "spent en6 = spent en5"
      using en5(1) by (simp_all add: budget_def en6_def en_meter_def)
    obtain out en' where "process_loop te ''main'' False [] resp en6 = Some (out, en')"
      "fst (spent en') \<le> fst (spent en6) + budget en6" "snd (spent en') \<le> snd (spent en6) + budget en6"
      using loop_spent [OF assms] by blast
    with req Inr save en5(2) en6 show ?thesis
      by (cases f) (simp_all add: process_response_def en6_def [symmetric] spent_def)
  qed
qed

text \<open>C1: A turn always ends. Whatever the model answers, whatever the tools do and however often the provider
  fails, handling one request returns, after at most 10000 dispatched tool calls and 10001 messages to the
  provider; the emergency fuse of the loop guard is what bounds the loop, since every pass that goes on has
  run at least one call.\<close>

theorem turn_terminates:
  assumes "follows te"
  shows "\<exists>out en'. handle_request te en = Some (out, en') \<and>
    dispatched (en_fx en') \<le> dispatched (en_fx en) + 10000 \<and> sends (en_fx en') \<le> sends (en_fx en) + 10001"
  using request_returns [OF assms] .

section \<open>An instance\<close>

text \<open>A batch run one call after the other, as the executor does when no tool is declared parallel-safe.\<close>

definition run_sequential ::
  "'x exec_env \<Rightarrow> string option \<Rightarrow> call_request list \<Rightarrow> 'x executor \<Rightarrow> batch_outcome \<times> 'x executor" where
  "run_sequential env api tcs st =
     (case execute_sequential env [] tcs (st\<lparr>ex_api_call_id := api\<rparr>) of
        (out, st1) \<Rightarrow> (out, st1\<lparr>ex_api_call_id := ex_api_call_id st\<rparr>))"

lemma follows_sequential:
  assumes "xe_parallel_safe (te_exec te) = []" "te_run te = run_sequential (te_exec te)"
  shows "follows te"
proof -
  have "execute (te_exec te) api tcs ex (run_sequential (te_exec te) api tcs ex)" for api tcs ex
    using assms(1) by (auto simp: run_sequential_def all_parallel_safe_def intro: execute.sequential split: prod.split)
  with assms(2) show ?thesis by (simp add: follows_def)
qed

definition demo_reply :: "chat \<Rightarrow> reply" where
  "demo_reply c =
     \<lparr>rp_blocks = (if list_ex (\<lambda>e. results_of (e_content e) \<noteq> []) (entries c) then [TextBlock ''done''] else [ToolCallBlock Overflow_Recovery.sample_call]), rp_usage = []\<rparr>"

definition demo_adapter :: "nat adapter" where
  "demo_adapter = \<lparr>sa_hook = (\<lambda>c. c), sa_create = (\<lambda>c w. (Inr (demo_reply c), w)), sa_model = ''m'', sa_now = 0\<rparr>"

definition demo_turn :: "nat turn_env" where
  "demo_turn =
     (let xe = sample_exec_env\<lparr>xe_parallel_safe := []\<rparr>
      in \<lparr>te_exec = xe, te_run = run_sequential xe, te_adapter = demo_adapter, te_prompt = (\<lambda>_. (''you'', None)),
          te_decorate = (\<lambda>_ rs w. (rs, w)), te_save = (\<lambda>_ w. (None, w)), te_drain = (\<lambda>c w. (c, w)),
          te_housekeeping = (\<lambda>w. w), te_content = (\<lambda>_. ''go''), te_loads = (\<lambda>_. None), te_sha = (\<lambda>s. s), te_now = 0\<rparr>)"

definition demo_agent_engine :: "nat engine" where
  "demo_agent_engine = \<lparr>en_chat = init_chat, en_exec = sample_executor, en_tracker = default_tracker, en_fx = []\<rparr>"

lemma demo_follows: "follows demo_turn"
  by (rule follows_sequential) (simp_all add: demo_turn_def Let_def)

lemma turn_terminates_witness:
  "\<exists>out en'. handle_request demo_turn demo_agent_engine = Some (out, en') \<and>
     dispatched (en_fx en') \<le> dispatched (en_fx demo_agent_engine) + 10000 \<and> sends (en_fx en') \<le> sends (en_fx demo_agent_engine) + 10001"
  by (rule turn_terminates [OF demo_follows])

end
