(* ===== verification/AED_Loop.thy ===== *)
theory AED_Loop
  imports Result_Artifacts Provider_Failure Turns
begin

text \<open>
  Automatic error recovery of a turn: the loop of \<^verbatim>\<open>_run_loop_body\<close> (\<^verbatim>\<open>kernel/base_agent/turn.py\<close>) that
  hands a message to the turn engine and decides, after a failure, whether and how the turn is tried again.

  The turn engine (\<^verbatim>\<open>_handle_message\<close>) is an argument: it may change anything in the state and fail in any
  way. So are the things around the loop: cancellation, the shutdown event, the provider session that is
  rebuilt (an adapter may touch the conversation it is given), the catalogue text of the revival message. What
  the loop does is recorded in order as a list of effects, the calls of the turn engine among them, each with
  the conversation it was entered with and what it ended in.
\<close>

section \<open>State\<close>

datatype agent_state = ACTIVE | IDLE | STUCK | ASLEEP | SUSPENDED

text \<open>The part of the agent that the turn engine and the loop share; \<open>'x\<close> is everything else.\<close>

record 'x core =
  co_chat :: "chat option"
  co_state :: agent_state
  co_asleep :: bool
  co_poisoned :: bool
  co_fallback_attempted :: bool
  co_world :: 'x

datatype effect =
    Fx_Handled message "chat option" "failure + dict option"
  | Fx_Logged string dict
  | Fx_Reported failure "nat option" bool
  | Fx_Recovered
  | Fx_Published agent_state string
  | Fx_Closed string
  | Fx_Compacted compaction_stats
  | Fx_Saved string
  | Fx_Waited rat
  | Fx_Slept rat
  | Fx_Rebuilt
  | Fx_Notified_Origin
  | Fx_Hang_Recorded
  | Fx_Refresh string

record 'x run =
  rn_core :: "'x core"
  rn_fx :: "effect list"

record 'x aed_env =
  ae_handle :: "message \<Rightarrow> 'x core \<Rightarrow> (failure + dict option) \<times> 'x core"
  ae_cancelled :: "'x core \<Rightarrow> bool"
  ae_shutdown_wait :: "rat \<Rightarrow> 'x core \<Rightarrow> bool"
  ae_rebuild :: "chat \<Rightarrow> 'x \<Rightarrow> exc option \<times> chat \<times> 'x"
  ae_spill :: "'x spill_env"
  ae_workdir :: "path option"
  ae_http_date :: "string \<Rightarrow> rat option"
  ae_diagnostics :: "failure \<Rightarrow> dict"
  ae_can_fallback :: "'x core \<Rightarrow> bool"
  ae_max_attempts :: int
  ae_revive :: "string \<Rightarrow> string"
  ae_hex :: string
  ae_now :: rat

record loop_locals =
  lo_msg :: message
  lo_sleep_state :: agent_state
  lo_result :: "dict option"
  lo_error :: "failure option"
  lo_failure :: "string option"
  lo_aed :: nat
  lo_transient :: nat
  lo_rate :: nat
  lo_skip_save :: bool

definition init_locals :: "message \<Rightarrow> loop_locals" where
  "init_locals m =
     \<lparr>lo_msg = m, lo_sleep_state = IDLE, lo_result = None, lo_error = None, lo_failure = None, lo_aed = 0,
      lo_transient = 0, lo_rate = 0, lo_skip_save = False\<rparr>"

datatype 'x loop_step = Again loop_locals "'x run" | Leave loop_locals "'x run" | Escape exc "'x run"

section \<open>Small operations\<close>

definition emit :: "effect \<Rightarrow> 'x run \<Rightarrow> 'x run" where
  "emit e r = r\<lparr>rn_fx := rn_fx r @ [e]\<rparr>"

definition on_core :: "('x core \<Rightarrow> 'x core) \<Rightarrow> 'x run \<Rightarrow> 'x run" where
  "on_core g r = r\<lparr>rn_core := g (rn_core r)\<rparr>"

definition log_event :: "string \<Rightarrow> dict \<Rightarrow> 'x run \<Rightarrow> 'x run" where
  "log_event name d r = emit (Fx_Logged name d) r"

definition set_state :: "agent_state \<Rightarrow> string \<Rightarrow> 'x run \<Rightarrow> 'x run" where
  "set_state s reason r = emit (Fx_Published s reason) (on_core (\<lambda>c. c\<lparr>co_state := s\<rparr>) r)"

definition report_api_error :: "failure \<Rightarrow> nat option \<Rightarrow> bool \<Rightarrow> 'x run \<Rightarrow> 'x run" where
  "report_api_error f n final r = emit (Fx_Reported f n final) r"

text \<open>\<^verbatim>\<open>sleep_state = ASLEEP; agent._asleep.set(); break\<close>.\<close>

definition go_asleep :: "loop_locals \<Rightarrow> 'x run \<Rightarrow> 'x loop_step" where
  "go_asleep l r = Leave (l\<lparr>lo_sleep_state := ASLEEP\<rparr>) (on_core (\<lambda>c. c\<lparr>co_asleep := True\<rparr>) r)"

text \<open>\<^verbatim>\<open>close_pending_tool_calls(reason=..., tool_completed=True)\<close> on the live conversation, if there is one.\<close>

definition close_calls :: "'x aed_env \<Rightarrow> string \<Rightarrow> 'x run \<Rightarrow> (exc + 'x run)" where
  "close_calls env reason r =
     (case co_chat (rn_core r) of
        None \<Rightarrow> Inr r
      | Some c \<Rightarrow>
          (case close_pending_tool_calls (se_float (ae_spill env)) (ae_now env) reason True False None c of
             (Inl e, _) \<Rightarrow> Inl e
           | (Inr _, c') \<Rightarrow> Inr (emit (Fx_Closed reason) (on_core (\<lambda>k. k\<lparr>co_chat := Some c'\<rparr>) r))))"

text \<open>\<^verbatim>\<open>_compact_history_before_retry\<close>; without a live conversation there are no statistics.\<close>

definition compact_before_retry :: "'x aed_env \<Rightarrow> string \<Rightarrow> 'x run \<Rightarrow> compaction_stats option \<times> 'x run" where
  "compact_before_retry env source r =
     (case co_chat (rn_core r) of
        None \<Rightarrow> (None, r)
      | Some c \<Rightarrow>
          (case compact_oversized_history (ae_spill env) RETROACTIVE_MAX_CHARS (ae_workdir env) c (co_world (rn_core r)) of
             (c', st, events, w) \<Rightarrow>
               let r1 = on_core (\<lambda>k. k\<lparr>co_chat := Some c', co_world := w\<rparr>) r;
                   r2 = fold (\<lambda>(name, d). log_event name d) events r1;
                   r3 = log_event ''aed_history_compacted'' ((''source'', PStr source) # stats_log_fields st)
                          (emit (Fx_Compacted st) r2)
               in (Some st, if 0 < cs_compacted st then emit (Fx_Saved ''retroactive_compaction'') r3 else r3)))"

definition prepare_aed_retry_message :: "'x aed_env \<Rightarrow> string \<Rightarrow> message" where
  "prepare_aed_retry_message env err =
     make_message (ae_hex env) (ae_now env) MSG_REQUEST ''system'' (Text_Content (ae_revive env err)) None"

section \<open>Failures that end the turn\<close>

definition no_candidate_exit :: "'x aed_env \<Rightarrow> failure \<Rightarrow> loop_locals \<Rightarrow> 'x run \<Rightarrow> 'x loop_step" where
  "no_candidate_exit env f l r =
     (let err = safe_exception_description f in
      go_asleep l (report_api_error f None True
        (log_event ''no_candidate_terminal''
          ([(''error'', PStr (take 300 err)), (''exception'', PStr (f_type f))] @ ae_diagnostics env f) r)))"

definition partial_stream_exit :: "failure \<Rightarrow> loop_locals \<Rightarrow> 'x run \<Rightarrow> 'x loop_step" where
  "partial_stream_exit f l r =
     Leave (l\<lparr>lo_skip_save := True\<rparr>)
       (log_event ''llm_partial_stream_terminal''
         [(''error'', PStr (take 300 (safe_exception_description f))), (''exception'', PStr (f_type f))] r)"

definition no_aed_retry_exit :: "failure \<Rightarrow> loop_locals \<Rightarrow> 'x run \<Rightarrow> 'x loop_step" where
  "no_aed_retry_exit f l r =
     go_asleep l (report_api_error f None True
       (log_event ''llm_no_aed_retry_terminal''
         [(''error'', PStr (take 300 (safe_exception_description f))), (''exception'', PStr (f_type f))] r))"

text \<open>The recovery artifact, the poison mark and the notification are one effect here.\<close>

definition worker_hang_exit :: "failure \<Rightarrow> loop_locals \<Rightarrow> 'x run \<Rightarrow> 'x loop_step" where
  "worker_hang_exit f l r =
     (let err = safe_exception_description f;
          r1 = emit Fx_Hang_Recorded (on_core (\<lambda>c. c\<lparr>co_poisoned := True\<rparr>) r);
          r2 = log_event ''llm_worker_still_running'' [(''error'', PStr (take 300 err))] r1;
          r3 = emit (Fx_Refresh ''worker_still_running'') (set_state STUCK err r2);
          r4 = on_core (\<lambda>c. c\<lparr>co_asleep := True\<rparr>) r3;
          r5 = set_state ASLEEP ''LLM worker still running; refresh/relaunch requested'' r4
      in Leave (l\<lparr>lo_sleep_state := ASLEEP, lo_skip_save := True\<rparr>) r5)"

section \<open>Failures that are tried again\<close>

definition RATE_LIMIT_RETRY_LIMIT :: nat where "RATE_LIMIT_RETRY_LIMIT = 3"
definition RATE_LIMIT_BACKOFF_START_S :: rat where "RATE_LIMIT_BACKOFF_START_S = 5"
definition RATE_LIMIT_BACKOFF_MAX_S :: rat where "RATE_LIMIT_BACKOFF_MAX_S = 60"
definition TRANSIENT_AED_RETRY_LIMIT :: nat where "TRANSIENT_AED_RETRY_LIMIT = 3"

definition rate_limit_backoff :: "rat option \<Rightarrow> nat \<Rightarrow> rat" where
  "rate_limit_backoff retry_after n =
     (case retry_after of
        Some s \<Rightarrow> min (max s 1) RATE_LIMIT_BACKOFF_MAX_S
      | None \<Rightarrow> min (RATE_LIMIT_BACKOFF_START_S * 2 ^ (n - 1)) RATE_LIMIT_BACKOFF_MAX_S)"

definition rate_limit_branch :: "'x aed_env \<Rightarrow> failure \<Rightarrow> loop_locals \<Rightarrow> 'x run \<Rightarrow> 'x loop_step" where
  "rate_limit_branch env f l r =
     (let err = safe_exception_description f in
      if lo_rate l < RATE_LIMIT_RETRY_LIMIT then
        (let n = lo_rate l + 1; l1 = l\<lparr>lo_rate := n\<rparr> in
         case rate_limit_retry_after_seconds (se_float (ae_spill env)) (ae_http_date env) f of
           Inl e \<Rightarrow> Escape e r
         | Inr retry_after \<Rightarrow>
             (let backoff = rate_limit_backoff retry_after n in
              case close_calls env (''rate_limit_retry: '' @ take 200 err) r of
                Inl e \<Rightarrow> Escape e r
              | Inr r1 \<Rightarrow>
                  (let r2 = emit (Fx_Waited backoff) (report_api_error f (Some n) False
                              (log_event ''aed_rate_limit_retry''
                                [(''attempt'', PInt (int n)), (''max_attempts'', PInt (int RATE_LIMIT_RETRY_LIMIT)),
                                 (''backoff_s'', PFloat backoff),
                                 (''retry_after_s'', case retry_after of None \<Rightarrow> PNone | Some s \<Rightarrow> PFloat s),
                                 (''error'', PStr (take 300 err))] r1))
                   in if ae_shutdown_wait env backoff (rn_core r2) then Leave l1 r2
                      else Again (l1\<lparr>lo_msg := prepare_aed_retry_message env err\<rparr>) r2)))
      else
        (let r1 = report_api_error f (Some (lo_rate l)) True
                    (log_event ''aed_rate_limit_exhausted''
                      [(''attempts'', PInt (int (lo_rate l))), (''error'', PStr (take 300 err))] r);
             r2 = set_state ASLEEP (''rate-limit exhausted after '' @ nat_str (lo_rate l) @ '' attempts'') r1
         in go_asleep l (emit Fx_Notified_Origin r2)))"

definition transient_retry :: "'x aed_env \<Rightarrow> failure \<Rightarrow> loop_locals \<Rightarrow> 'x run \<Rightarrow> 'x loop_step" where
  "transient_retry env f l r =
     (let err = safe_exception_description f; n = lo_transient l + 1; l1 = l\<lparr>lo_transient := n\<rparr>;
          backoff = min (2 ^ (n - 1)) 8 :: rat in
      case close_calls env (''transient_retry: '' @ take 200 err) r of
        Inl e \<Rightarrow> Escape e r
      | Inr r1 \<Rightarrow>
          (let r2 = snd (compact_before_retry env ''aed_transient'' r1);
               r3 = emit (Fx_Slept backoff) (report_api_error f (Some n) False
                      (log_event ''aed_transient_retry''
                        [(''attempt'', PInt (int n)), (''max_attempts'', PInt (int TRANSIENT_AED_RETRY_LIMIT)),
                         (''backoff_s'', PFloat backoff), (''error'', PStr (take 300 err))] r2))
           in Again (l1\<lparr>lo_msg := prepare_aed_retry_message env err\<rparr>) r3))"


section \<open>Deterministic recovery\<close>

text \<open>The state and log of a new attempt; the report is final when no further recovery exists.\<close>

definition begin_attempt :: "'x aed_env \<Rightarrow> failure \<Rightarrow> nat \<Rightarrow> 'x run \<Rightarrow> 'x run" where
  "begin_attempt env f n r =
     (let err = safe_exception_description f;
          r1 = log_event ''aed_attempt'' [(''attempt'', PInt (int n)), (''error'', PStr err)]
                 (set_state STUCK (''AED attempt '' @ nat_str n @ '': '' @ err) r);
          viable = \<not> co_fallback_attempted (rn_core r1) \<and> ae_can_fallback env (rn_core r1)
      in report_api_error f (Some n) (ae_max_attempts env \<le> int n \<and> \<not> viable) r1)"

text \<open>The attempts are spent. A preset fallback is only logged: the reader of \<^verbatim>\<open>init.json\<close> never writes it.\<close>

definition exhausted_exit :: "'x aed_env \<Rightarrow> failure \<Rightarrow> loop_locals \<Rightarrow> 'x run \<Rightarrow> 'x loop_step" where
  "exhausted_exit env f l r =
     (let err = safe_exception_description f; n = lo_aed l;
          viable = \<not> co_fallback_attempted (rn_core r) \<and> ae_can_fallback env (rn_core r);
          r1 = (if viable then
                  report_api_error f (Some n) True
                    (log_event ''preset_auto_fallback_disabled''
                      [(''reason'', PStr ''init_json_is_read_only_to_boot_refresh_reader'')]
                      (log_event ''preset_auto_fallback''
                        [(''reason'', PStr err), (''failed_attempts'', PInt (int n))]
                        (on_core (\<lambda>c. c\<lparr>co_fallback_attempted := True\<rparr>) r)))
                else r);
          r2 = log_event ''aed_exhausted'' [(''attempts'', PInt (int n)), (''error'', PStr err)] r1;
          r3 = set_state ASLEEP (''AED exhausted after '' @ nat_str n @ '' attempts'') r2
      in go_asleep l (emit Fx_Notified_Origin r3))"

definition client_noop_exit :: "failure \<Rightarrow> loop_locals \<Rightarrow> 'x run \<Rightarrow> 'x loop_step" where
  "client_noop_exit f l r =
     go_asleep l (report_api_error f (Some (lo_aed l)) True
       (log_event ''aed_client_error_noop''
         [(''attempts'', PInt (int (lo_aed l))), (''error'', PStr (take 300 (safe_exception_description f)))] r))"

definition zero_progress_exit ::
  "'x aed_env \<Rightarrow> failure \<Rightarrow> compaction_stats \<Rightarrow> loop_locals \<Rightarrow> 'x run \<Rightarrow> 'x loop_step" where
  "zero_progress_exit env f st l r =
     (let err = safe_exception_description f; n = PInt (int (lo_aed l)) in
      go_asleep l (log_event ''aed_exhausted'' [(''attempts'', n), (''error'', PStr err)]
        (report_api_error f (Some (lo_aed l)) True
          (log_event ''aed_zero_progress_abort''
            [(''attempt'', n), (''max_attempts'', PInt (ae_max_attempts env)), (''error'', PStr err),
             (''scanned_blocks'', PInt (cs_scanned st))] r))))"

text \<open>\<^verbatim>\<open>_rebuild_session\<close> on the history, then the revival message and the ACTIVE state.\<close>

definition rebuild_and_retry :: "'x aed_env \<Rightarrow> failure \<Rightarrow> loop_locals \<Rightarrow> 'x run \<Rightarrow> 'x loop_step" where
  "rebuild_and_retry env f l r =
     (let resume = (\<lambda>r1. Again (l\<lparr>lo_msg := prepare_aed_retry_message env (safe_exception_description f)\<rparr>)
                          (set_state ACTIVE (''AED recovery attempt '' @ nat_str (lo_aed l)) r1)) in
      case co_chat (rn_core r) of
        None \<Rightarrow> resume r
      | Some c \<Rightarrow>
          (case ae_rebuild env c (co_world (rn_core r)) of
             (bad, c', w) \<Rightarrow>
               let r1 = emit Fx_Rebuilt (on_core (\<lambda>k. k\<lparr>co_chat := Some c', co_world := w\<rparr>) r)
               in (case bad of Some e \<Rightarrow> Escape e r1 | None \<Rightarrow> resume r1)))"

definition aed_branch :: "'x aed_env \<Rightarrow> bool \<Rightarrow> failure \<Rightarrow> loop_locals \<Rightarrow> 'x run \<Rightarrow> 'x loop_step" where
  "aed_branch env over_window f l r =
     (let err = safe_exception_description f; n = lo_aed l + 1; l1 = l\<lparr>lo_aed := n\<rparr> in
      case close_calls env (if err \<noteq> [] then err else ''aed_recovery'') r of
        Inl e \<Rightarrow> Escape e r
      | Inr r1 \<Rightarrow>
          (let r2 = begin_attempt env f n r1 in
           if ae_max_attempts env \<le> int n then exhausted_exit env f l1 r2
           else
             (case compact_before_retry env (if over_window then ''aed_over_window'' else ''aed_deterministic'') r2 of
                (st, r3) \<Rightarrow>
                  if \<not> over_window \<and> is_client_error f \<and> (case st of None \<Rightarrow> True | Some s \<Rightarrow> cs_compacted s = 0)
                  then client_noop_exit f l1 r3
                  else
                    (case st of
                       Some s \<Rightarrow> if over_window \<and> cs_compacted s = 0 then zero_progress_exit env f s l1 r3
                                 else rebuild_and_retry env f l1 r3
                     | None \<Rightarrow> rebuild_and_retry env f l1 r3))))"

section \<open>One pass and the loop\<close>

text \<open>The \<^verbatim>\<open>except\<close> block, in the order of its tests.\<close>

definition on_failure :: "'x aed_env \<Rightarrow> failure \<Rightarrow> loop_locals \<Rightarrow> 'x run \<Rightarrow> 'x loop_step" where
  "on_failure env f l r =
     (let err = safe_exception_description f; (partial_stream, no_retry) = llm_replay_terminal_flags f in
      if isinstance f ''NoCandidateError'' then no_candidate_exit env f l r
      else if partial_stream then partial_stream_exit f l r
      else if no_retry then no_aed_retry_exit f l r
      else if isinstance f ''WorkerStillRunningError'' then worker_hang_exit f l r
      else
        let over_window = is_over_window_error f;
            r1 = (if over_window then
                    log_event ''aed_over_window_detected''
                      [(''error'', PStr (take 300 err)), (''exception'', PStr (f_type f))] r
                  else r)
        in if \<not> over_window \<and> is_rate_limit_error f then rate_limit_branch env f l r1
           else if \<not> over_window \<and> is_transient_provider_error f then
             (if lo_transient l < TRANSIENT_AED_RETRY_LIMIT then transient_retry env f l r1
              else aed_branch env over_window f l
                     (log_event ''aed_transient_exhausted''
                       [(''attempts'', PInt (int (lo_transient l))), (''error'', PStr (take 300 err))] r1))
           else aed_branch env over_window f l r1)"

definition poisoned_exit :: "loop_locals \<Rightarrow> 'x run \<Rightarrow> 'x loop_step" where
  "poisoned_exit l r =
     (let r1 = emit (Fx_Refresh ''run_loop_poison_guard'')
                 (log_event ''turn_skipped_poisoned_interface'' [(''message_type'', PStr (m_type (lo_msg l)))] r)
      in go_asleep (l\<lparr>lo_skip_save := True, lo_failure := Some ''agent interface is unavailable''\<rparr>) r1)"

definition aed_step :: "'x aed_env \<Rightarrow> loop_locals \<Rightarrow> 'x run \<Rightarrow> 'x loop_step" where
  "aed_step env l r =
     (if ae_cancelled env (rn_core r) then Leave l r
      else if co_poisoned (rn_core r) then poisoned_exit l r
      else
        (case ae_handle env (lo_msg l) (rn_core r) of
           (Inr answer, c) \<Rightarrow>
             let r1 = emit (Fx_Handled (lo_msg l) (co_chat (rn_core r)) (Inr answer)) (on_core (\<lambda>_. c) r);
                 r2 = (if lo_aed l \<noteq> 0 \<or> lo_transient l \<noteq> 0 \<or> lo_rate l \<noteq> 0 then emit Fx_Recovered r1 else r1)
             in Leave (l\<lparr>lo_result := answer, lo_error := None, lo_transient := 0, lo_rate := 0\<rparr>) r2
         | (Inl f, c) \<Rightarrow>
             on_failure env f (l\<lparr>lo_error := Some f\<rparr>)
               (emit (Fx_Handled (lo_msg l) (co_chat (rn_core r)) (Inl f)) (on_core (\<lambda>_. c) r))))"

partial_function (option) aed_loop :: "'x aed_env \<Rightarrow> loop_locals \<Rightarrow> 'x run \<Rightarrow> 'x loop_step option" where
  "aed_loop env l r =
     (case aed_step env l r of
        Again l1 r1 \<Rightarrow> aed_loop env l1 r1
      | Leave l1 r1 \<Rightarrow> Some (Leave l1 r1)
      | Escape e r1 \<Rightarrow> Some (Escape e r1))"

declare aed_loop.simps [code]

section \<open>After the turn\<close>

text \<open>
  The published state and the history save that follow the loop. An agent whose asleep latch is set keeps the
  state it has.
\<close>

definition finish_turn :: "loop_locals \<Rightarrow> 'x run \<Rightarrow> 'x run" where
  "finish_turn l r =
     (let r1 = (if co_asleep (rn_core r) then r else set_state (lo_sleep_state l) '''' r) in
      if lo_skip_save l then
        log_event ''chat_history_save_skipped'' [(''reason'', PStr ''worker_still_running_interface_unsafe'')] r1
      else emit (Fx_Saved '''') r1)"

record settlement =
  st_outcome :: turn_outcome
  st_text :: string
  st_error :: "string option"
  st_errors :: "string list"

text \<open>\<^verbatim>\<open>handler_result.get("errors") or ()\<close> as a tuple of texts: a lone text is one error, so is anything that
  cannot be iterated over, and iterating over a dict gives its keys.\<close>

definition error_items :: "py \<Rightarrow> py list" where
  "error_items v =
     (if truthy v then (case v of PList xs \<Rightarrow> xs | PDict d \<Rightarrow> map (\<lambda>(k, _). PStr k) d | _ \<Rightarrow> [v]) else [])"

definition settlement_of :: "(rat \<Rightarrow> string) \<Rightarrow> bool \<Rightarrow> loop_locals \<Rightarrow> settlement" where
  "settlement_of fr cancelled l =
     (case lo_error l of
        Some f \<Rightarrow> \<lparr>st_outcome = Failed, st_text = '''', st_error = Some (take 300 (safe_exception_description f)),
                   st_errors = []\<rparr>
      | None \<Rightarrow>
          (case lo_failure l of
             Some s \<Rightarrow> \<lparr>st_outcome = Failed, st_text = '''', st_error = Some (take 300 s), st_errors = []\<rparr>
           | None \<Rightarrow>
               (case lo_result l of
                  Some d \<Rightarrow>
                    let tx = dgetd d ''text'' PNone; es = map (\<lambda>v. take 300 (py_str fr v)) (take 8 (error_items (dgetd d ''errors'' PNone)))
                    in if truthy (dgetd d ''failed'' PNone) then
                         \<lparr>st_outcome = Failed, st_text = (if truthy tx then py_str fr tx else ''''),
                          st_error = Some (case es of e # _ \<Rightarrow> e | [] \<Rightarrow> ''turn processing failed''), st_errors = es\<rparr>
                       else \<lparr>st_outcome = Normal, st_text = (if truthy tx then py_str fr tx else ''''),
                             st_error = None, st_errors = es\<rparr>
                | None \<Rightarrow>
                    if cancelled then \<lparr>st_outcome = Normal, st_text = '''', st_error = None, st_errors = []\<rparr>
                    else \<lparr>st_outcome = Failed, st_text = '''', st_error = Some ''turn ended without a result'',
                          st_errors = []\<rparr>)))"

text \<open>The settlement reaches the one receipt of the turn's control block; an uncorrelated turn has none.\<close>

definition settle_correlated_after_turn ::
  "(rat \<Rightarrow> string) \<Rightarrow> nat option \<Rightarrow> loop_locals \<Rightarrow> agent \<Rightarrow> (exc + bool) \<times> agent" where
  "settle_correlated_after_turn fr who l ag =
     (case who of
        None \<Rightarrow> (Inr False, ag)
      | Some i \<Rightarrow>
          let st = settlement_of fr (ct_cancel_requested (ag_store ag ! i)) l
          in settle_turn i (st_outcome st) (st_text st) (st_error st) (st_errors st) (ag_latch ag) ag)"

section \<open>Merging queued requests\<close>

definition TEXT_MSG_TYPES :: "string list" where
  "TEXT_MSG_TYPES = [MSG_REQUEST, MSG_USER_INPUT]"

text \<open>\<open>text_of\<close> is \<^verbatim>\<open>str\<close> of a content that is no text; \<open>redo\<close> the message id of a relaunched turn in flight. Drained
  messages of other types go back into the emptied inbox in their order.\<close>

definition concat_queued_messages ::
  "(msg_content \<Rightarrow> string) \<Rightarrow> string \<Rightarrow> rat \<Rightarrow> string option \<Rightarrow> message \<Rightarrow> message list \<Rightarrow> message \<times> message list" where
  "concat_queued_messages text_of hex now redo m inbox =
     (if m_type m \<notin> set TEXT_MSG_TYPES then (m, inbox)
      else
        let extra = filter (\<lambda>q. m_type q \<in> set TEXT_MSG_TYPES) inbox;
            held = filter (\<lambda>q. m_type q \<notin> set TEXT_MSG_TYPES) inbox
        in if extra = [] then (m, held)
           else
             let everything = m # extra;
                 parts = map (\<lambda>q. case m_content q of Text_Content s \<Rightarrow> s | v \<Rightarrow> text_of v) everything;
                 merged = make_message hex now MSG_REQUEST (m_sender m) (Text_Content (join_str [CHR 0x0A, CHR 0x0A] parts)) None
             in (case redo of
                   Some rid \<Rightarrow> if rid \<noteq> [] \<and> rid \<in> set (map m_id everything) then (merged\<lparr>m_id := rid\<rparr>, held) else (merged, held)
                 | None \<Rightarrow> (merged, held)))"

datatype route = To_Request | To_Wake | Dropped

text \<open>\<^verbatim>\<open>_handle_message\<close>: a legacy or internal message needs the origin policy's admission first.\<close>

definition handle_message_route :: "message \<Rightarrow> agent \<Rightarrow> route \<times> agent" where
  "handle_message_route m ag =
     (let go = (if m_type m \<in> {MSG_REQUEST, MSG_USER_INPUT, MSG_CORRELATED_TURN} then To_Request
                else if m_type m = MSG_TC_WAKE then To_Wake else Dropped) in
      if m_type m \<in> set MESSAGE_TYPES - {MSG_CORRELATED_TURN} then
        (case admit_turn_origin Internal_Event ag of
           (Inl _, ag1) \<Rightarrow> (Dropped, ag1)
         | (Inr _, ag1) \<Rightarrow> (go, ag1))
      else (go, ag))"

end
