(* ===== verification/AED_Laws.thy ===== *)
theory AED_Laws
  imports AED_Loop Chat_Laws
begin

text \<open>
  Laws of the recovery loop: it always ends within its budgets, a failure is only tried again when that is safe
  and something has changed, the turn engine is re-entered with a conversation whose calls are answered, and
  the turn's settlement tells the last thing that happened.
\<close>

section \<open>Effects of the operations\<close>

named_theorems aed_ops

lemma run_ops [simp]:
  "rn_fx (emit e r) = rn_fx r @ [e]"
  "rn_core (emit e r) = rn_core r"
  "rn_fx (on_core g r) = rn_fx r"
  "rn_core (on_core g r) = g (rn_core r)"
  "rn_fx (log_event n d r) = rn_fx r @ [Fx_Logged n d]"
  "rn_core (log_event n d r) = rn_core r"
  "rn_fx (report_api_error f k b r) = rn_fx r @ [Fx_Reported f k b]"
  "rn_core (report_api_error f k b r) = rn_core r"
  "rn_fx (set_state s w r) = rn_fx r @ [Fx_Published s w]"
  "rn_core (set_state s w r) = (rn_core r)\<lparr>co_state := s\<rparr>"
  by (simp_all add: emit_def on_core_def log_event_def report_api_error_def set_state_def)

lemma fold_logs [simp]:
  "rn_fx (fold (\<lambda>(n, d). log_event n d) es r) = rn_fx r @ map (\<lambda>(n, d). Fx_Logged n d) es"
  "rn_core (fold (\<lambda>(n, d). log_event n d) es r) = rn_core r"
  by (induction es arbitrary: r) auto

fun is_handled :: "effect \<Rightarrow> bool" where
  "is_handled (Fx_Handled m c o') = True"
| "is_handled _ = False"

fun is_waited :: "effect \<Rightarrow> bool" where
  "is_waited (Fx_Waited b) = True"
| "is_waited _ = False"

fun is_slept :: "effect \<Rightarrow> bool" where
  "is_slept (Fx_Slept b) = True"
| "is_slept _ = False"

fun is_rebuilt :: "effect \<Rightarrow> bool" where
  "is_rebuilt Fx_Rebuilt = True"
| "is_rebuilt _ = False"

fun is_origin_notice :: "effect \<Rightarrow> bool" where
  "is_origin_notice Fx_Notified_Origin = True"
| "is_origin_notice _ = False"

definition times :: "(effect \<Rightarrow> bool) \<Rightarrow> effect list \<Rightarrow> nat" where
  "times p es = List.length (filter p es)"

lemma times_simps [simp]:
  "times p [] = 0"
  "times p (e # es) = (if p e then Suc (times p es) else times p es)"
  "times p (es @ fs) = times p es + times p fs"
  by (simp_all add: times_def)

lemma times_logs [simp]: "(\<And>n d. \<not> p (Fx_Logged n d)) \<Longrightarrow> times p (map (\<lambda>(n, d). Fx_Logged n d) ls) = 0"
  by (auto simp: times_def filter_empty_conv)

text \<open>The waits, the pauses and the compaction passes among a list of effects.\<close>

fun fx_waits :: "effect list \<Rightarrow> rat list" where
  "fx_waits [] = []"
| "fx_waits (Fx_Waited b # es) = b # fx_waits es"
| "fx_waits (_ # es) = fx_waits es"

fun fx_pauses :: "effect list \<Rightarrow> rat list" where
  "fx_pauses [] = []"
| "fx_pauses (Fx_Slept b # es) = b # fx_pauses es"
| "fx_pauses (_ # es) = fx_pauses es"

fun fx_passes :: "effect list \<Rightarrow> compaction_stats list" where
  "fx_passes [] = []"
| "fx_passes (Fx_Compacted s # es) = s # fx_passes es"
| "fx_passes (_ # es) = fx_passes es"

lemma fx_waits_append [simp]: "fx_waits (es @ fs) = fx_waits es @ fx_waits fs"
  by (induction es rule: fx_waits.induct) simp_all

lemma fx_pauses_append [simp]: "fx_pauses (es @ fs) = fx_pauses es @ fx_pauses fs"
  by (induction es rule: fx_pauses.induct) simp_all

lemma fx_passes_append [simp]: "fx_passes (es @ fs) = fx_passes es @ fx_passes fs"
  by (induction es rule: fx_passes.induct) simp_all

lemma fx_logs [simp]:
  "fx_waits (map (\<lambda>(n, d). Fx_Logged n d) ls) = []"
  "fx_pauses (map (\<lambda>(n, d). Fx_Logged n d) ls) = []"
  "fx_passes (map (\<lambda>(n, d). Fx_Logged n d) ls) = []"
  by (induction ls) auto

section \<open>The conversation\<close>

definition settled :: "'x core \<Rightarrow> bool" where
  "settled k \<longleftrightarrow> (case co_chat k of None \<Rightarrow> True | Some c \<Rightarrow> \<not> has_pending_tool_calls c)"

definition sound :: "'x core \<Rightarrow> bool" where
  "sound k \<longleftrightarrow> (case co_chat k of None \<Rightarrow> True | Some c \<Rightarrow> wire_ok c)"

lemma settled_frame [simp]:
  "settled (k\<lparr>co_state := s\<rparr>) = settled k" "sound (k\<lparr>co_state := s\<rparr>) = sound k"
  by (simp_all add: settled_def sound_def)

lemma close_settles:
  assumes "close_pending_tool_calls fr now reason a b lk c = (Inr u, c')"
  shows "\<not> has_pending_tool_calls c'"
  using assms
  by (auto simp: close_pending_tool_calls_def has_pending_tool_calls_def tail_pending_def has_calls_def
      append_entry_def new_entry_def Let_def split: if_splits sum.splits)

text \<open>What \<open>close_calls\<close> adds to a run: it answers what was open and touches nothing else.\<close>

definition frame :: "(effect list \<Rightarrow> bool) \<Rightarrow> 'x run \<Rightarrow> 'x run \<Rightarrow> bool" where
  "frame p r r' \<longleftrightarrow> (\<exists>seg. rn_fx r' = rn_fx r @ seg \<and> p seg) \<and>
     (sound (rn_core r) \<longrightarrow> sound (rn_core r')) \<and> (settled (rn_core r) \<longrightarrow> settled (rn_core r'))"

definition silent :: "effect list \<Rightarrow> bool" where
  "silent seg \<longleftrightarrow> fx_waits seg = [] \<and> fx_pauses seg = [] \<and> times is_rebuilt seg = 0 \<and> times is_handled seg = 0 \<and>
     times is_origin_notice seg = 0"

lemma frameE:
  assumes "frame p r r'"
  obtains seg where "rn_fx r' = rn_fx r @ seg" "p seg" "sound (rn_core r) \<Longrightarrow> sound (rn_core r')"
    "settled (rn_core r) \<Longrightarrow> settled (rn_core r')"
  using assms by (auto simp: frame_def)

lemma close_calls_frame:
  assumes "close_calls env reason r = Inr r1"
  shows "frame (\<lambda>seg. silent seg \<and> fx_passes seg = []) r r1" "settled (rn_core r1)"
    "co_chat (rn_core r1) = None \<longleftrightarrow> co_chat (rn_core r) = None"
proof -
  show "settled (rn_core r1)" "co_chat (rn_core r1) = None \<longleftrightarrow> co_chat (rn_core r) = None"
    using assms
    by (auto simp: close_calls_def settled_def close_settles split: option.splits prod.splits sum.splits)
  show "frame (\<lambda>seg. silent seg \<and> fx_passes seg = []) r r1"
  proof (cases "co_chat (rn_core r)")
    case None
    with assms show ?thesis by (simp add: close_calls_def frame_def silent_def)
  next
    case (Some c)
    with assms obtain u c' where c': "close_pending_tool_calls (se_float (ae_spill env)) (ae_now env) reason True False None c = (Inr u, c')"
      and r1: "r1 = emit (Fx_Closed reason) (on_core (\<lambda>k. k\<lparr>co_chat := Some c'\<rparr>) r)"
      by (auto simp: close_calls_def split: prod.splits sum.splits)
    show ?thesis
      using wire_close [of c "se_float (ae_spill env)" "ae_now env" reason True False None] close_settles [OF c'] Some
      by (auto simp: frame_def silent_def r1 c' sound_def settled_def)
  qed
qed

lemma compaction_keeps_shape:
  assumes "compact_oversized_history env n wd c w = (c', ps)"
  shows "wire_ok c' = wire_ok c" "has_pending_tool_calls c' = has_pending_tool_calls c"
proof -
  have "map shape (entries c') = map shape (entries c)"
    using compaction_es(2) [OF assms]
    by (induction rule: list_all2_induct) (auto dest: compacted_entry_shape)
  from well_paired_shape [OF this] tail_pending_shape [OF this]
  show "wire_ok c' = wire_ok c" "has_pending_tool_calls c' = has_pending_tool_calls c"
    by (simp_all add: wire_ok_def has_pending_tool_calls_def)
qed

lemma compact_frame:
  assumes "compact_before_retry env source r = (st, r1)"
  shows "frame (\<lambda>seg. silent seg \<and> fx_passes seg = (case st of None \<Rightarrow> [] | Some s \<Rightarrow> [s])) r r1"
    "settled (rn_core r1) = settled (rn_core r)" "st = None \<longleftrightarrow> co_chat (rn_core r) = None"
    "co_chat (rn_core r1) = None \<longleftrightarrow> co_chat (rn_core r) = None"
proof -
  have "frame (\<lambda>seg. silent seg \<and> fx_passes seg = (case st of None \<Rightarrow> [] | Some s \<Rightarrow> [s])) r r1 \<and>
    settled (rn_core r1) = settled (rn_core r) \<and> (st = None \<longleftrightarrow> co_chat (rn_core r) = None) \<and>
    (co_chat (rn_core r1) = None \<longleftrightarrow> co_chat (rn_core r) = None)"
  proof (cases "co_chat (rn_core r)")
    case None
    with assms show ?thesis by (simp add: compact_before_retry_def frame_def silent_def)
  next
    case (Some c)
    obtain c' s es w where c: "compact_oversized_history (ae_spill env) RETROACTIVE_MAX_CHARS (ae_workdir env) c
      (co_world (rn_core r)) = (c', s, es, w)" by (metis prod_cases4)
    note keeps = compaction_keeps_shape [OF c]
    let ?tail = "[Fx_Compacted s, Fx_Logged ''aed_history_compacted'' ((''source'', PStr source) # stats_log_fields s)]
      @ (if 0 < cs_compacted s then [Fx_Saved ''retroactive_compaction''] else [])"
    have fx: "rn_fx r1 = rn_fx r @ (map (\<lambda>(n, d). Fx_Logged n d) es @ ?tail)"
      and core: "rn_core r1 = (rn_core r)\<lparr>co_chat := Some c', co_world := w\<rparr>" and st: "st = Some s"
      using assms unfolding compact_before_retry_def Some c Let_def option.case prod.case
      by (simp_all split: if_splits) auto
    have "silent (map (\<lambda>(n, d). Fx_Logged n d) es @ ?tail)" "fx_passes (map (\<lambda>(n, d). Fx_Logged n d) es @ ?tail) = [s]"
      by (simp_all add: silent_def)
    then show ?thesis using fx keeps unfolding frame_def by (auto simp: core st Some settled_def sound_def)
  qed
  then show "frame (\<lambda>seg. silent seg \<and> fx_passes seg = (case st of None \<Rightarrow> [] | Some s \<Rightarrow> [s])) r r1"
    "settled (rn_core r1) = settled (rn_core r)" "st = None \<longleftrightarrow> co_chat (rn_core r) = None"
    "co_chat (rn_core r1) = None \<longleftrightarrow> co_chat (rn_core r) = None" by blast+
qed

section \<open>One failure\<close>

text \<open>A failure the loop may answer by running the turn again.\<close>

definition replay_safe :: "failure \<Rightarrow> bool" where
  "replay_safe f \<longleftrightarrow> llm_replay_terminal_flags f = (False, False) \<and> \<not> isinstance f ''NoCandidateError'' \<and>
     \<not> isinstance f ''WorkerStillRunningError''"

definition rate_limited :: "failure \<Rightarrow> bool" where
  "rate_limited f \<longleftrightarrow> \<not> is_over_window_error f \<and> is_rate_limit_error f"

definition transient :: "failure \<Rightarrow> bool" where
  "transient f \<longleftrightarrow> \<not> is_over_window_error f \<and> \<not> is_rate_limit_error f \<and> is_transient_provider_error f"

text \<open>What happened between a failure and the retry it led to.\<close>

definition waited_out :: "failure \<Rightarrow> effect list \<Rightarrow> bool" where
  "waited_out f seg \<longleftrightarrow> rate_limited f \<and> fx_pauses seg = [] \<and> fx_passes seg = [] \<and> times is_rebuilt seg = 0 \<and>
     (\<exists>b. fx_waits seg = [b] \<and> 1 \<le> b \<and> b \<le> 60)"

definition paused :: "failure \<Rightarrow> effect list \<Rightarrow> bool" where
  "paused f seg \<longleftrightarrow> transient f \<and> fx_waits seg = [] \<and> times is_rebuilt seg = 0 \<and>
     (\<exists>b. fx_pauses seg = [b] \<and> 1 \<le> b \<and> b \<le> 8)"

definition reworked :: "failure \<Rightarrow> effect list \<Rightarrow> bool" where
  "reworked f seg \<longleftrightarrow> \<not> rate_limited f \<and> fx_waits seg = [] \<and> fx_pauses seg = [] \<and> times is_rebuilt seg \<le> 1 \<and>
     (is_over_window_error f \<longrightarrow> (\<forall>s\<in>set (fx_passes seg). cs_compacted s \<noteq> 0)) \<and>
     (is_client_error f \<longrightarrow> (is_over_window_error f \<or> (\<exists>s. fx_passes seg = [s] \<and> cs_compacted s \<noteq> 0)))"

definition justified :: "failure \<Rightarrow> effect list \<Rightarrow> bool" where
  "justified f seg \<longleftrightarrow> replay_safe f \<and> (waited_out f seg \<or> paused f seg \<or> reworked f seg)"

text \<open>The counters a retry is charged to.\<close>

definition attempts_left :: "'x aed_env \<Rightarrow> nat \<Rightarrow> nat" where
  "attempts_left env n = nat (ae_max_attempts env) - Suc n"

definition charged :: "'x aed_env \<Rightarrow> loop_locals \<Rightarrow> effect list \<Rightarrow> loop_locals \<Rightarrow> bool" where
  "charged env l seg l' \<longleftrightarrow>
     (lo_rate l < 3 \<and> lo_rate l' = Suc (lo_rate l) \<and> lo_transient l' = lo_transient l \<and> lo_aed l' = lo_aed l \<and>
      length (fx_waits seg) = 1 \<and> fx_pauses seg = [] \<and> times is_rebuilt seg = 0) \<or>
     (lo_transient l < 3 \<and> lo_transient l' = Suc (lo_transient l) \<and> lo_rate l' = lo_rate l \<and> lo_aed l' = lo_aed l \<and>
      fx_waits seg = [] \<and> length (fx_pauses seg) = 1 \<and> times is_rebuilt seg = 0) \<or>
     (0 < attempts_left env (lo_aed l) \<and> lo_aed l' = Suc (lo_aed l) \<and> lo_rate l' = lo_rate l \<and>
      lo_transient l' = lo_transient l \<and> fx_waits seg = [] \<and> fx_pauses seg = [] \<and> times is_rebuilt seg \<le> 1)"

definition rebuild_keeps :: "'x aed_env \<Rightarrow> bool" where
  "rebuild_keeps env \<longleftrightarrow> (\<forall>c w e c' w'. ae_rebuild env c w = (e, c', w') \<longrightarrow> wire_ok c \<longrightarrow> \<not> has_pending_tool_calls c \<longrightarrow>
     wire_ok c' \<and> \<not> has_pending_tool_calls c')"

definition retried :: "'x aed_env \<Rightarrow> (effect list \<Rightarrow> bool) \<Rightarrow> loop_locals \<Rightarrow> 'x run \<Rightarrow> loop_locals \<Rightarrow> 'x run \<Rightarrow> bool" where
  "retried env p l r l' r' \<longleftrightarrow> (\<exists>seg. rn_fx r' = rn_fx r @ seg \<and> p seg \<and> charged env l seg l' \<and>
     times is_handled seg = 0 \<and> times is_origin_notice seg = 0) \<and>
     lo_error l' = lo_error l \<and> lo_result l' = lo_result l \<and> lo_failure l' = lo_failure l \<and>
     (rebuild_keeps env \<longrightarrow> sound (rn_core r) \<longrightarrow> sound (rn_core r') \<and> settled (rn_core r'))"

definition ended :: "'x aed_env \<Rightarrow> loop_locals \<Rightarrow> 'x run \<Rightarrow> 'x run \<Rightarrow> bool" where
  "ended env l r r' \<longleftrightarrow> (\<exists>seg. rn_fx r' = rn_fx r @ seg \<and> times is_handled seg = 0 \<and> times is_origin_notice seg \<le> 1 \<and>
     fx_pauses seg = [] \<and> length (fx_waits seg) \<le> 3 - lo_rate l \<and> times is_rebuilt seg \<le> attempts_left env (lo_aed l))"

text \<open>Effects that come before such a step, here the log of what kind of failure it is, do not matter.\<close>

lemma retried_before:
  assumes "retried env p l r l' r'" "rn_fx r = rn_fx r0 @ pre" "rn_core r = rn_core r0"
    "silent pre" "\<And>seg. p seg \<Longrightarrow> q (pre @ seg)"
  shows "retried env q l r0 l' r'"
proof -
  from assms(1) obtain seg where seg: "rn_fx r' = rn_fx r @ seg" "p seg" "charged env l seg l'"
    "times is_handled seg = 0" "times is_origin_notice seg = 0" by (auto simp: retried_def)
  then have "rn_fx r' = rn_fx r0 @ (pre @ seg)" "q (pre @ seg)" "charged env l (pre @ seg) l'"
    "times is_handled (pre @ seg) = 0" "times is_origin_notice (pre @ seg) = 0"
    using assms(2,4,5) by (auto simp: silent_def charged_def)
  with assms(1,3) show ?thesis unfolding retried_def by metis
qed

lemma ended_before:
  assumes "ended env l r r'" "rn_fx r = rn_fx r0 @ pre" "silent pre"
  shows "ended env l r0 r'"
proof -
  from assms(1) obtain seg where seg: "rn_fx r' = rn_fx r @ seg" "times is_handled seg = 0" "times is_origin_notice seg \<le> 1"
    "fx_pauses seg = []" "length (fx_waits seg) \<le> 3 - lo_rate l" "times is_rebuilt seg \<le> attempts_left env (lo_aed l)"
    by (auto simp: ended_def)
  with assms(2,3) show ?thesis unfolding ended_def by (intro exI [of _ "pre @ seg"]) (auto simp: silent_def)
qed

lemma backoff_range: "1 \<le> rate_limit_backoff s n \<and> rate_limit_backoff s n \<le> 60"
proof -
  have "(1::rat) \<le> 2 ^ (n - 1)" by simp
  then have "(1::rat) \<le> 5 * 2 ^ (n - 1)" by linarith
  then show ?thesis
    by (auto simp: rate_limit_backoff_def RATE_LIMIT_BACKOFF_MAX_S_def RATE_LIMIT_BACKOFF_START_S_def split: option.splits)
qed

fun stepped :: "'x aed_env \<Rightarrow> (effect list \<Rightarrow> bool) \<Rightarrow> loop_locals \<Rightarrow> 'x run \<Rightarrow> 'x loop_step \<Rightarrow> bool" where
  "stepped env p l r (Again l' r') = retried env p l r l' r'"
| "stepped env p l r (Leave l' r') \<longleftrightarrow> ended env l r r' \<and> lo_error l' = lo_error l \<and> lo_result l' = lo_result l \<and>
     lo_failure l' = lo_failure l"
| "stepped env p l r (Escape e r') = ended env l r r'"

lemma stepped_before:
  assumes "stepped env p l r s" "rn_fx r = rn_fx r0 @ pre" "rn_core r = rn_core r0" "silent pre"
    "\<And>seg. p seg \<Longrightarrow> q (pre @ seg)"
  shows "stepped env q l r0 s"
proof (cases s)
  case (Again l' r')
  with assms(1) have "retried env p l r l' r'" by simp
  from retried_before [where p = p and q = q, OF this assms(2-5)] show ?thesis by (simp add: Again)
qed (use assms(1) ended_before [OF _ assms(2,4)] in simp_all)

lemma ended_refl: "ended env l r r"
  by (simp add: ended_def)

lemma ended_fx:
  assumes "rn_fx r' = rn_fx r @ seg" "times is_handled seg = 0" "times is_origin_notice seg \<le> 1"
    "fx_pauses seg = []" "fx_waits seg = []" "times is_rebuilt seg = 0"
  shows "ended env l r r'"
  using assms by (auto simp: ended_def)

lemma rate_limit_stepped:
  assumes "rate_limited f"
  shows "stepped env (waited_out f) l r (rate_limit_branch env f l r)"
proof (cases "lo_rate l < RATE_LIMIT_RETRY_LIMIT")
  case True
  show ?thesis
  proof (cases "rate_limit_retry_after_seconds (se_float (ae_spill env)) (ae_http_date env) f")
    case (Inl e)
    with True show ?thesis by (simp add: rate_limit_branch_def Let_def ended_refl)
  next
    case (Inr after)
    define b where "b = rate_limit_backoff after (lo_rate l + 1)"
    show ?thesis
    proof (cases "close_calls env (''rate_limit_retry: '' @ take 200 (safe_exception_description f)) r")
      case (Inl e)
      with True Inr show ?thesis by (simp add: rate_limit_branch_def Let_def ended_refl)
    next
      case close: (Inr r1)
      from close_calls_frame(1) [OF close] obtain seg where seg: "rn_fx r1 = rn_fx r @ seg" "silent seg"
        "fx_passes seg = []" "sound (rn_core r) \<Longrightarrow> sound (rn_core r1)" by (auto elim: frameE)
      note settled = close_calls_frame(2) [OF close]
      obtain d where step: "rate_limit_branch env f l r =
        (let r2 = emit (Fx_Waited b) (report_api_error f (Some (lo_rate l + 1)) False (log_event ''aed_rate_limit_retry'' d r1)) in
         if ae_shutdown_wait env b (rn_core r2) then Leave (l\<lparr>lo_rate := lo_rate l + 1\<rparr>) r2
         else Again (l\<lparr>lo_rate := lo_rate l + 1, lo_msg := prepare_aed_retry_message env (safe_exception_description f)\<rparr>) r2)"
        using True Inr close by (simp add: rate_limit_branch_def Let_def b_def)
      let ?seg = "seg @ [Fx_Logged ''aed_rate_limit_retry'' d, Fx_Reported f (Some (lo_rate l + 1)) False, Fx_Waited b]"
      have "waited_out f ?seg" "times is_handled ?seg = 0" "times is_origin_notice ?seg = 0"
        using assms seg(2,3) backoff_range [of after "lo_rate l + 1"] by (simp_all add: waited_out_def silent_def b_def)
      moreover have "length (fx_waits ?seg) = 1" "fx_pauses ?seg = []" "times is_rebuilt ?seg = 0"
        using seg(2) by (simp_all add: silent_def)
      ultimately show ?thesis
        using True seg(1,4) settled unfolding step Let_def RATE_LIMIT_RETRY_LIMIT_def
        by (auto simp: retried_def ended_def charged_def intro!: exI [of _ ?seg])
    qed
  qed
next
  case False
  then show ?thesis
    by (auto simp: rate_limit_branch_def Let_def go_asleep_def intro!: ended_fx)
qed

lemma transient_stepped:
  assumes "transient f" "lo_transient l < TRANSIENT_AED_RETRY_LIMIT"
  shows "stepped env (paused f) l r (transient_retry env f l r)"
proof (cases "close_calls env (''transient_retry: '' @ take 200 (safe_exception_description f)) r")
  case (Inl e)
  then show ?thesis by (simp add: transient_retry_def Let_def ended_refl)
next
  case close: (Inr r1)
  obtain st r2 where comp: "compact_before_retry env ''aed_transient'' r1 = (st, r2)" by fastforce
  define b where "b = min (2 ^ lo_transient l) (8::rat)"
  have b: "1 \<le> b" "b \<le> 8" by (simp_all add: b_def)
  from close_calls_frame(1) [OF close] obtain seg where seg: "rn_fx r1 = rn_fx r @ seg" "silent seg"
    "fx_passes seg = []" "sound (rn_core r) \<Longrightarrow> sound (rn_core r1)" by (auto elim: frameE)
  from compact_frame(1) [OF comp] obtain seg2 where seg2: "rn_fx r2 = rn_fx r1 @ seg2" "silent seg2"
    "sound (rn_core r1) \<Longrightarrow> sound (rn_core r2)" by (auto elim: frameE)
  have settled: "settled (rn_core r2)" using close_calls_frame(2) [OF close] compact_frame(2) [OF comp] by simp
  obtain d where step: "transient_retry env f l r =
    Again (l\<lparr>lo_transient := lo_transient l + 1, lo_msg := prepare_aed_retry_message env (safe_exception_description f)\<rparr>)
      (emit (Fx_Slept b) (report_api_error f (Some (lo_transient l + 1)) False (log_event ''aed_transient_retry'' d r2)))"
    using close comp by (simp add: transient_retry_def Let_def b_def)
  let ?seg = "seg @ seg2 @ [Fx_Logged ''aed_transient_retry'' d, Fx_Reported f (Some (lo_transient l + 1)) False, Fx_Slept b]"
  have "paused f ?seg" "times is_handled ?seg = 0" "times is_origin_notice ?seg = 0" "fx_waits ?seg = []"
    "length (fx_pauses ?seg) = 1" "times is_rebuilt ?seg = 0"
    using assms(1) seg(2) seg2(2) b by (simp_all add: paused_def silent_def)
  then show ?thesis
    using assms(2) seg(1,4) seg2(1,3) settled unfolding step TRANSIENT_AED_RETRY_LIMIT_def
    by (auto simp: retried_def charged_def intro!: exI [of _ ?seg])
qed

lemma begin_attempt_frame:
  "frame (\<lambda>seg. silent seg \<and> fx_passes seg = []) r (begin_attempt env f n r)"
  "settled (rn_core (begin_attempt env f n r)) = settled (rn_core r)"
  by (auto simp: begin_attempt_def Let_def frame_def silent_def settled_def)

lemma go_asleep_stepped:
  assumes "rn_fx r' = rn_fx r @ seg" "times is_handled seg = 0" "times is_origin_notice seg \<le> 1"
    "fx_pauses seg = []" "fx_waits seg = []" "times is_rebuilt seg = 0"
    "lo_error l' = lo_error l" "lo_result l' = lo_result l" "lo_failure l' = lo_failure l"
  shows "stepped env p l r (go_asleep l' r')"
  using assms by (auto simp: go_asleep_def intro!: ended_fx)

lemma exhausted_stepped:
  assumes "rn_fx r1 = rn_fx r @ seg" "silent seg"
  shows "stepped env p l r (exhausted_exit env f (l\<lparr>lo_aed := n\<rparr>) r1)"
  using assms unfolding exhausted_exit_def Let_def
  by (cases "\<not> co_fallback_attempted (rn_core r1) \<and> ae_can_fallback env (rn_core r1)")
    (auto intro!: go_asleep_stepped simp: silent_def)

lemma rebuild_stepped:
  assumes r1: "rn_fx r1 = rn_fx r @ seg" "silent seg"
    and core: "sound (rn_core r) \<Longrightarrow> sound (rn_core r1)" "settled (rn_core r1)"
    and left: "0 < attempts_left env (lo_aed l)"
    and ok: "\<And>tail. fx_waits tail = [] \<Longrightarrow> fx_pauses tail = [] \<Longrightarrow> fx_passes tail = [] \<Longrightarrow> times is_rebuilt tail \<le> 1 \<Longrightarrow> p (seg @ tail)"
  shows "stepped env p l r (rebuild_and_retry env f (l\<lparr>lo_aed := Suc (lo_aed l)\<rparr>) r1)"
proof (cases "co_chat (rn_core r1)")
  case None
  let ?tail = "[Fx_Published ACTIVE (''AED recovery attempt '' @ nat_str (Suc (lo_aed l)))]"
  have "p (seg @ ?tail)" by (rule ok) simp_all
  with r1 None left show ?thesis
    by (auto simp: rebuild_and_retry_def Let_def retried_def charged_def silent_def sound_def settled_def
        intro!: exI [of _ "seg @ ?tail"])
next
  case (Some c)
  obtain bad c' w where rb: "ae_rebuild env c (co_world (rn_core r1)) = (bad, c', w)" by (metis prod_cases3)
  show ?thesis
  proof (cases bad)
    case None
    let ?tail = "[Fx_Rebuilt, Fx_Published ACTIVE (''AED recovery attempt '' @ nat_str (Suc (lo_aed l)))]"
    have p: "p (seg @ ?tail)" by (rule ok) simp_all
    have keeps: "wire_ok c' \<and> \<not> has_pending_tool_calls c'" if "rebuild_keeps env" "sound (rn_core r)"
      using that rb core Some unfolding rebuild_keeps_def sound_def settled_def by fastforce
    show ?thesis using r1 Some rb None left p keeps
      by (auto simp: rebuild_and_retry_def Let_def retried_def charged_def silent_def sound_def settled_def
          intro!: exI [of _ "seg @ ?tail"])
  next
    case bad: (Some e)
    show ?thesis using r1 Some rb bad left
      by (auto simp: rebuild_and_retry_def Let_def ended_def silent_def intro!: exI [of _ "seg @ [Fx_Rebuilt]"])
  qed
qed

lemma aed_stepped:
  assumes not_limited: "\<not> rate_limited f"
  shows "stepped env (reworked f) l r (aed_branch env (is_over_window_error f) f l r)"
proof -
  let ?over = "is_over_window_error f" and ?l1 = "l\<lparr>lo_aed := Suc (lo_aed l)\<rparr>"
  let ?reason = "if safe_exception_description f \<noteq> [] then safe_exception_description f else ''aed_recovery''"
  show ?thesis
  proof (cases "close_calls env ?reason r")
    case (Inl e)
    then show ?thesis by (simp add: aed_branch_def Let_def ended_refl)
  next
    case close: (Inr r1)
    define r2 where "r2 = begin_attempt env f (Suc (lo_aed l)) r1"
    obtain st r3 where comp: "compact_before_retry env (if ?over then ''aed_over_window'' else ''aed_deterministic'') r2 = (st, r3)"
      by fastforce
    from close_calls_frame(1) [OF close] obtain s1 where s1: "rn_fx r1 = rn_fx r @ s1" "silent s1" "fx_passes s1 = []"
      "sound (rn_core r) \<Longrightarrow> sound (rn_core r1)" by (auto elim: frameE)
    from begin_attempt_frame(1) [of r1 env f "Suc (lo_aed l)"] obtain s2 where
      s2: "rn_fx r2 = rn_fx r1 @ s2" "silent s2" "fx_passes s2 = []" "sound (rn_core r1) \<Longrightarrow> sound (rn_core r2)"
      unfolding r2_def by (auto elim: frameE)
    from compact_frame(1) [OF comp] obtain s3 where s3: "rn_fx r3 = rn_fx r2 @ s3" "silent s3"
      "fx_passes s3 = (case st of None \<Rightarrow> [] | Some s \<Rightarrow> [s])" "sound (rn_core r2) \<Longrightarrow> sound (rn_core r3)"
      by (auto elim: frameE)
    have settled: "settled (rn_core r3)"
      using close_calls_frame(2) [OF close] compact_frame(2) [OF comp] by (simp add: r2_def begin_attempt_frame(2))
    have fx2: "rn_fx r2 = rn_fx r @ (s1 @ s2)" "silent (s1 @ s2)"
      and fx3: "rn_fx r3 = rn_fx r @ (s1 @ s2 @ s3)" "silent (s1 @ s2 @ s3)"
      using s1 s2 s3 by (simp_all add: silent_def)
    show ?thesis
    proof (cases "ae_max_attempts env \<le> int (Suc (lo_aed l))")
      case True
      have "aed_branch env ?over f l r = exhausted_exit env f ?l1 r2"
        using close True by (simp add: aed_branch_def Let_def r2_def)
      with exhausted_stepped [OF fx2] show ?thesis by simp
    next
      case more: False
      then have left: "0 < attempts_left env (lo_aed l)" by (simp add: attempts_left_def)
      show ?thesis
      proof (cases "\<not> ?over \<and> is_client_error f \<and> (case st of None \<Rightarrow> True | Some s \<Rightarrow> cs_compacted s = 0)")
        case True
        then have "aed_branch env ?over f l r = client_noop_exit f ?l1 r3"
          using close more comp unfolding aed_branch_def Let_def r2_def by simp
        then show ?thesis
          using fx3 by (auto simp: client_noop_exit_def silent_def intro!: go_asleep_stepped)
      next
        case live: False
        show ?thesis
        proof (cases "\<exists>s. st = Some s \<and> ?over \<and> cs_compacted s = 0")
          case True
          then obtain s where s: "st = Some s" "?over" "cs_compacted s = 0" by blast
          then have "aed_branch env ?over f l r = zero_progress_exit env f s ?l1 r3"
            using close more comp unfolding aed_branch_def Let_def r2_def by simp
          then show ?thesis
            using fx3 by (auto simp: zero_progress_exit_def Let_def silent_def intro!: go_asleep_stepped)
        next
          case False
          then have step: "aed_branch env ?over f l r = rebuild_and_retry env f ?l1 r3"
            using close more comp live unfolding aed_branch_def Let_def r2_def by (auto split: option.splits)
          have "reworked f ((s1 @ s2 @ s3) @ tail)"
            if "fx_waits tail = []" "fx_pauses tail = []" "fx_passes tail = []" "times is_rebuilt tail \<le> 1" for tail
            using that not_limited live False s1(2,3) s2(2,3) s3(2,3)
            by (auto simp: reworked_def silent_def split: option.splits)
          from rebuild_stepped [where p = "reworked f" and f = f, OF fx3 _ settled left this] s1(4) s2(4) s3(4) show ?thesis
            unfolding step by blast
        qed
      qed
    qed
  qed
qed

lemma on_failure_stepped: "stepped env (justified f) l r (on_failure env f l r)"
proof (cases "replay_safe f")
  case False
  then show ?thesis
    unfolding on_failure_def replay_safe_def Let_def no_candidate_exit_def partial_stream_exit_def no_aed_retry_exit_def
      worker_hang_exit_def
    by (auto intro!: go_asleep_stepped ended_fx split: prod.splits)
next
  case True
  let ?over = "is_over_window_error f" and ?err = "safe_exception_description f"
  define r1 where "r1 = (if ?over then log_event ''aed_over_window_detected''
    [(''error'', PStr (take 300 ?err)), (''exception'', PStr (f_type f))] r else r)"
  define r2 where "r2 = log_event ''aed_transient_exhausted''
    [(''attempts'', PInt (int (lo_transient l))), (''error'', PStr (take 300 ?err))] r1"
  obtain pre where pre: "rn_fx r1 = rn_fx r @ pre" "rn_core r1 = rn_core r" "silent pre" "fx_passes pre = []"
    by (cases ?over) (auto simp: r1_def silent_def)
  obtain pre2 where pre2: "rn_fx r2 = rn_fx r @ pre2" "rn_core r2 = rn_core r" "silent pre2" "fx_passes pre2 = []"
    using pre by (auto simp: r2_def silent_def)
  have same: "waited_out f (p @ seg) = waited_out f seg" "paused f (p @ seg) = paused f seg"
    "reworked f (p @ seg) = reworked f seg" if "silent p" "fx_passes p = []" for p seg
    using that by (simp_all add: waited_out_def paused_def reworked_def silent_def)
  have step: "on_failure env f l r =
    (if rate_limited f then rate_limit_branch env f l r1
     else if transient f then
       (if lo_transient l < TRANSIENT_AED_RETRY_LIMIT then transient_retry env f l r1 else aed_branch env ?over f l r2)
     else aed_branch env ?over f l r1)"
    using True unfolding on_failure_def replay_safe_def rate_limited_def transient_def Let_def r1_def r2_def
    by (cases ?over; simp)
  show ?thesis
  proof (cases "rate_limited f")
    case limited: True
    have "stepped env (justified f) l r (rate_limit_branch env f l r1)"
      by (rule stepped_before [OF rate_limit_stepped [OF limited] pre(1-3)])
        (simp add: justified_def True same pre)
    with limited show ?thesis by (simp add: step)
  next
    case unlimited: False
    have aed: "stepped env (justified f) l r (aed_branch env ?over f l r1)"
      by (rule stepped_before [OF aed_stepped [OF unlimited] pre(1-3)]) (simp add: justified_def True same pre)
    have aed2: "stepped env (justified f) l r (aed_branch env ?over f l r2)"
      by (rule stepped_before [OF aed_stepped [OF unlimited] pre2(1-3)]) (simp add: justified_def True same pre2)
    have "stepped env (justified f) l r (transient_retry env f l r1)"
      if "transient f" "lo_transient l < TRANSIENT_AED_RETRY_LIMIT"
      by (rule stepped_before [OF transient_stepped [OF that] pre(1-3)]) (simp add: justified_def True same pre)
    with unlimited aed aed2 show ?thesis by (simp add: step)
  qed
qed

section \<open>The loop\<close>

fun fx_of :: "'x loop_step \<Rightarrow> effect list" where
  "fx_of (Again l r) = rn_fx r"
| "fx_of (Leave l r) = rn_fx r"
| "fx_of (Escape e r) = rn_fx r"

fun leaves :: "'x loop_step \<Rightarrow> bool" where
  "leaves (Again l r) = False"
| "leaves _ = True"

definition engine_call :: "'x aed_env \<Rightarrow> loop_locals \<Rightarrow> 'x run \<Rightarrow> 'x run" where
  "engine_call env l r =
     emit (Fx_Handled (lo_msg l) (co_chat (rn_core r)) (fst (ae_handle env (lo_msg l) (rn_core r))))
       (on_core (\<lambda>_. snd (ae_handle env (lo_msg l) (rn_core r))) r)"

lemma aed_step_cases [case_names cancelled poisoned answered failed]:
  assumes "aed_step env l r = s"
  obtains "s = Leave l r"
  | "s = poisoned_exit l r"
  | answer seg l' r' where "fst (ae_handle env (lo_msg l) (rn_core r)) = Inr answer" "s = Leave l' r'"
      "rn_fx r' = rn_fx (engine_call env l r) @ seg" "seg = [] \<or> seg = [Fx_Recovered]"
      "l' = l\<lparr>lo_result := answer, lo_error := None, lo_transient := 0, lo_rate := 0\<rparr>"
  | f where "fst (ae_handle env (lo_msg l) (rn_core r)) = Inl f"
      "s = on_failure env f (l\<lparr>lo_error := Some f\<rparr>) (engine_call env l r)"
proof -
  consider "ae_cancelled env (rn_core r)" | "\<not> ae_cancelled env (rn_core r)" "co_poisoned (rn_core r)"
    | f c where "\<not> ae_cancelled env (rn_core r)" "\<not> co_poisoned (rn_core r)" "ae_handle env (lo_msg l) (rn_core r) = (Inl f, c)"
    | a c where "\<not> ae_cancelled env (rn_core r)" "\<not> co_poisoned (rn_core r)" "ae_handle env (lo_msg l) (rn_core r) = (Inr a, c)"
    by (metis sum.exhaust surj_pair)
  then show thesis
  proof cases
    case (4 a c)
    let ?again = "lo_aed l \<noteq> 0 \<or> lo_transient l \<noteq> 0 \<or> lo_rate l \<noteq> 0"
    let ?l = "l\<lparr>lo_result := a, lo_error := None, lo_transient := 0, lo_rate := 0\<rparr>"
      and ?r = "if ?again then emit Fx_Recovered (engine_call env l r) else engine_call env l r"
    from 4 assms have s: "s = Leave ?l ?r"
      unfolding aed_step_def engine_call_def Let_def by (cases ?again) auto
    have "rn_fx ?r = rn_fx (engine_call env l r) @ (if ?again then [Fx_Recovered] else [])" by (cases ?again) simp_all
    from that(3) [OF _ s this] 4 show ?thesis by simp
  qed (use assms that in \<open>auto simp: aed_step_def Let_def engine_call_def\<close>)
qed

lemma aed_step_again:
  assumes "aed_step env l r = Again l' r'"
  obtains f where "fst (ae_handle env (lo_msg l) (rn_core r)) = Inl f"
    "retried env (justified f) (l\<lparr>lo_error := Some f\<rparr>) (engine_call env l r) l' r'"
  using assms
proof (cases rule: aed_step_cases [OF assms])
  case (4 f)
  with that on_failure_stepped [of env f "l\<lparr>lo_error := Some f\<rparr>" "engine_call env l r"] show ?thesis
    by (metis stepped.simps(1))
qed (auto simp: poisoned_exit_def go_asleep_def Let_def)

lemma aed_loop_rule:
  assumes "P l r"
    and keep: "\<And>l r l' r'. P l r \<Longrightarrow> aed_step env l r = Again l' r' \<Longrightarrow> P l' r'"
    and stop: "\<And>l r. P l r \<Longrightarrow> leaves (aed_step env l r) \<Longrightarrow> Q (aed_step env l r)"
  shows "\<exists>s. aed_loop env l r = Some s \<and> leaves s \<and> Q s"
  using assms(1)
proof (induction "(3 - lo_rate l) + (3 - lo_transient l) + attempts_left env (lo_aed l)" arbitrary: l r rule: less_induct)
  case less
  show ?case
  proof (cases "aed_step env l r")
    case (Again l' r')
    then obtain f where "retried env (justified f) (l\<lparr>lo_error := Some f\<rparr>) (engine_call env l r) l' r'"
      by (auto elim: aed_step_again)
    then obtain seg where "charged env (l\<lparr>lo_error := Some f\<rparr>) seg l'" by (auto simp: retried_def)
    then have "(3 - lo_rate l') + (3 - lo_transient l') + attempts_left env (lo_aed l')
      < (3 - lo_rate l) + (3 - lo_transient l) + attempts_left env (lo_aed l)"
      by (auto simp: charged_def attempts_left_def)
    from less.hyps [OF this keep [OF less.prems Again]] Again show ?thesis by (subst aed_loop.simps) simp
  next
    case (Leave l' r')
    with stop [OF less.prems] show ?thesis by (subst aed_loop.simps) simp
  next
    case (Escape e r')
    with stop [OF less.prems] show ?thesis by (subst aed_loop.simps) simp
  qed
qed

text \<open>The calls of the turn engine: what each ended in and the effects that followed it.\<close>

fun tries :: "effect list \<Rightarrow> ((failure + dict option) \<times> effect list) list" where
  "tries [] = []"
| "tries (Fx_Handled m c x # es) = (x, takeWhile (\<lambda>e. \<not> is_handled e) es) # tries es"
| "tries (_ # es) = tries es"

fun entered :: "effect list \<Rightarrow> chat option list" where
  "entered [] = []"
| "entered (Fx_Handled m c x # es) = c # entered es"
| "entered (_ # es) = entered es"

lemma no_call: "times is_handled seg = 0 \<Longrightarrow> tries seg = [] \<and> entered seg = [] \<and> takeWhile (\<lambda>e. \<not> is_handled e) seg = seg"
  by (induction seg rule: tries.induct) (auto split: if_splits)

lemma tries_snoc:
  "times is_handled seg = 0 \<Longrightarrow> tries (es @ Fx_Handled m c x # seg) = tries es @ [(x, seg)]"
proof (induction es rule: tries.induct)
  case (2 m' c' x' es)
  then show ?case by (cases "\<exists>e\<in>set es. is_handled e") (auto simp: takeWhile_append takeWhile_eq_all_conv [THEN iffD2])
qed (simp_all add: no_call)

lemma tries_empty: "tries es = [] \<longleftrightarrow> (\<forall>e\<in>set es. \<not> is_handled e)"
  by (induction es rule: tries.induct) simp_all

lemma tries_quiet:
  assumes "times is_handled seg = 0"
  shows "butlast (tries (es @ seg)) = butlast (tries es) \<and> map fst (tries (es @ seg)) = map fst (tries es)"
proof (induction es rule: tries.induct)
  case (2 m c x es)
  show ?case
  proof (cases "tries es = []")
    case True
    with 2 have "tries (es @ seg) = []" by simp
    with True show ?thesis by simp
  next
    case False
    with 2 have "tries (es @ seg) \<noteq> []" by (metis map_is_Nil_conv)
    moreover from False obtain e where "e \<in> set es" "is_handled e" by (auto simp: tries_empty)
    ultimately show ?thesis using 2 False by (simp add: takeWhile_append1)
  qed
qed (use no_call [OF assms] in simp_all)

lemma entered_append [simp]: "entered (es @ fs) = entered es @ entered fs"
  by (induction es rule: entered.induct) simp_all

lemma engine_call_simps [simp]:
  "rn_fx (engine_call env l r) =
     rn_fx r @ [Fx_Handled (lo_msg l) (co_chat (rn_core r)) (fst (ae_handle env (lo_msg l) (rn_core r)))]"
  "rn_core (engine_call env l r) = snd (ae_handle env (lo_msg l) (rn_core r))"
  by (simp_all add: engine_call_def)

text \<open>The three ways a pass through the loop adds to the trace when it does not go round again.\<close>

lemma aed_step_leaves:
  assumes "leaves (aed_step env l r)"
  obtains seg where "fx_of (aed_step env l r) = rn_fx r @ seg" "times is_handled seg = 0" "fx_waits seg = []"
      "fx_pauses seg = []" "times is_rebuilt seg = 0" "times is_origin_notice seg = 0"
  | seg where "fx_of (aed_step env l r) = rn_fx (engine_call env l r) @ seg" "times is_handled seg = 0"
      "fx_pauses seg = []" "length (fx_waits seg) \<le> 3 - lo_rate l" "times is_rebuilt seg \<le> attempts_left env (lo_aed l)"
      "times is_origin_notice seg \<le> 1"
proof (cases rule: aed_step_cases [OF refl, of env l r])
  case 1
  then show ?thesis by (intro that(1) [of "[]"]) simp_all
next
  case 2
  then show ?thesis
    by (intro that(1) [of "[Fx_Logged ''turn_skipped_poisoned_interface'' [(''message_type'', PStr (m_type (lo_msg l)))],
          Fx_Refresh ''run_loop_poison_guard'']"]) (simp_all add: poisoned_exit_def go_asleep_def)
next
  case (3 a seg l' r')
  then show ?thesis by (intro that(2) [of seg]) auto
next
  case (4 f)
  have "ended env (l\<lparr>lo_error := Some f\<rparr>) (engine_call env l r) r'"
    if "aed_step env l r = Leave l' r' \<or> aed_step env l r = Escape e r'" for l' r' e
    using that on_failure_stepped [of env f "l\<lparr>lo_error := Some f\<rparr>" "engine_call env l r"] 4(2) by auto
  then obtain seg where "fx_of (aed_step env l r) = rn_fx (engine_call env l r) @ seg" "times is_handled seg = 0"
      "fx_pauses seg = []" "length (fx_waits seg) \<le> 3 - lo_rate l" "times is_rebuilt seg \<le> attempts_left env (lo_aed l)"
      "times is_origin_notice seg \<le> 1"
    using assms by (cases "aed_step env l r") (fastforce simp: ended_def)+
  then show ?thesis by (rule that(2))
qed

section \<open>Properties\<close>

definition fresh_run :: "'x core \<Rightarrow> 'x run" where
  "fresh_run k = \<lparr>rn_core = k, rn_fx = []\<rparr>"

definition budgets :: "'x aed_env \<Rightarrow> loop_locals \<Rightarrow> effect list \<Rightarrow> bool" where
  "budgets env l es \<longleftrightarrow> times is_handled es = lo_rate l + lo_transient l + lo_aed l \<and> length (fx_waits es) = lo_rate l \<and>
     length (fx_pauses es) = lo_transient l \<and> times is_rebuilt es \<le> lo_aed l \<and> times is_origin_notice es = 0 \<and>
     lo_rate l \<le> 3 \<and> lo_transient l \<le> 3 \<and> lo_aed l + attempts_left env (lo_aed l) = attempts_left env 0"

lemma attempts_left_Suc: "0 < attempts_left env n \<Longrightarrow> Suc (attempts_left env (Suc n)) = attempts_left env n"
  by (simp add: attempts_left_def)

lemma budgets_again:
  assumes "budgets env l (rn_fx r)" "aed_step env l r = Again l' r'"
  shows "budgets env l' (rn_fx r')"
proof -
  from aed_step_again [OF assms(2)] obtain f where
    "retried env (justified f) (l\<lparr>lo_error := Some f\<rparr>) (engine_call env l r) l' r'" by blast
  then obtain seg where "rn_fx r' = rn_fx (engine_call env l r) @ seg" "charged env (l\<lparr>lo_error := Some f\<rparr>) seg l'"
    "times is_handled seg = 0" "times is_origin_notice seg = 0"
    by (auto simp: retried_def)
  with assms(1) attempts_left_Suc [of env "lo_aed l"] show ?thesis
    by (auto simp: budgets_def charged_def)
qed

text \<open>C8: the recovery of a turn always comes to an end, whatever the turn engine does and however often it
  fails. The loop returns, and within one turn it calls the engine at most \<open>6 + max 1 max_attempts\<close> times: three
  rate-limit waits, three pauses for transient failures, and one call for each deterministic attempt. The
  session is rebuilt fewer times than there are attempts, and the person who is waiting gets at most one
  failure notice.\<close>

theorem aed_loop_bounded:
  "\<exists>s. aed_loop env (init_locals m) (fresh_run k) = Some s \<and> leaves s \<and>
     times is_handled (fx_of s) \<le> 6 + max 1 (nat (ae_max_attempts env)) \<and>
     length (fx_waits (fx_of s)) \<le> 3 \<and> length (fx_pauses (fx_of s)) \<le> 3 \<and>
     times is_rebuilt (fx_of s) \<le> nat (ae_max_attempts env) - 1 \<and> times is_origin_notice (fx_of s) \<le> 1"
proof (rule aed_loop_rule [where P = "\<lambda>l r. budgets env l (rn_fx r)"])
  show "budgets env (init_locals m) (rn_fx (fresh_run k))"
    by (simp add: budgets_def init_locals_def fresh_run_def)
next
  fix l :: loop_locals and r l' r'
  assume "budgets env l (rn_fx r)" "aed_step env l r = Again l' r'"
  then show "budgets env l' (rn_fx r')" by (rule budgets_again)
next
  fix l :: loop_locals and r
  assume b: "budgets env l (rn_fx r)" and "leaves (aed_step env l r)"
  from b have left: "attempts_left env (lo_aed l) \<le> attempts_left env 0 - lo_aed l" "lo_aed l \<le> attempts_left env 0"
    by (auto simp: budgets_def)
  show "times is_handled (fx_of (aed_step env l r)) \<le> 6 + max 1 (nat (ae_max_attempts env)) \<and>
     length (fx_waits (fx_of (aed_step env l r))) \<le> 3 \<and> length (fx_pauses (fx_of (aed_step env l r))) \<le> 3 \<and>
     times is_rebuilt (fx_of (aed_step env l r)) \<le> nat (ae_max_attempts env) - 1 \<and>
     times is_origin_notice (fx_of (aed_step env l r)) \<le> 1"
    using aed_step_leaves [OF \<open>leaves (aed_step env l r)\<close>] by cases (use b left in \<open>auto simp: budgets_def attempts_left_def\<close>)
qed

definition tried_ok :: "(failure + dict option) \<times> effect list \<Rightarrow> bool" where
  "tried_ok t \<longleftrightarrow> (\<exists>f. fst t = Inl f \<and> justified f (snd t))"

lemma tried_again:
  assumes "\<forall>t\<in>set (tries (rn_fx r)). tried_ok t" "aed_step env l r = Again l' r'"
  shows "\<forall>t\<in>set (tries (rn_fx r')). tried_ok t"
proof -
  from aed_step_again [OF assms(2)] obtain f where f: "fst (ae_handle env (lo_msg l) (rn_core r)) = Inl f"
    "retried env (justified f) (l\<lparr>lo_error := Some f\<rparr>) (engine_call env l r) l' r'" by blast
  then obtain seg where "rn_fx r' = rn_fx (engine_call env l r) @ seg" "justified f seg" "times is_handled seg = 0"
    by (auto simp: retried_def)
  with assms(1) f(1) show ?thesis by (auto simp: tries_snoc tried_ok_def)
qed


text \<open>What the settlement of a turn may rely on: the last call's end decides the local result and error.\<close>

definition tells_last :: "loop_locals \<Rightarrow> effect list \<Rightarrow> bool" where
  "tells_last l es \<longleftrightarrow>
     (if tries es = [] then lo_result l = None \<and> lo_error l = None
      else (case fst (last (tries es)) of
              Inl f \<Rightarrow> lo_error l = Some f
            | Inr answer \<Rightarrow> lo_error l = None \<and> lo_result l = answer \<and> lo_failure l = None))"

lemma last_try_quiet:
  assumes "times is_handled seg = 0"
  shows "tries (es @ seg) = [] \<longleftrightarrow> tries es = []"
    "tries es \<noteq> [] \<Longrightarrow> fst (last (tries (es @ seg))) = fst (last (tries es))"
proof -
  have "map fst (tries (es @ seg)) = map fst (tries es)" using tries_quiet [OF assms] by blast
  then show "tries (es @ seg) = [] \<longleftrightarrow> tries es = []"
    "tries es \<noteq> [] \<Longrightarrow> fst (last (tries (es @ seg))) = fst (last (tries es))"
    by (metis map_is_Nil_conv, metis last_map map_is_Nil_conv)
qed

definition failing :: "loop_locals \<Rightarrow> effect list \<Rightarrow> bool" where
  "failing l es \<longleftrightarrow> tells_last l es \<and> lo_result l = None \<and> lo_failure l = None \<and> (\<forall>t\<in>set (tries es). \<exists>f. fst t = Inl f)"

lemma failing_again:
  assumes "failing l (rn_fx r)" "aed_step env l r = Again l' r'"
  shows "failing l' (rn_fx r')"
proof -
  from aed_step_again [OF assms(2)] obtain f where f: "fst (ae_handle env (lo_msg l) (rn_core r)) = Inl f"
    "retried env (justified f) (l\<lparr>lo_error := Some f\<rparr>) (engine_call env l r) l' r'" by blast
  then obtain seg where "rn_fx r' = rn_fx (engine_call env l r) @ seg" "times is_handled seg = 0"
    "lo_error l' = Some f" "lo_result l' = lo_result l" "lo_failure l' = lo_failure l"
    by (auto simp: retried_def)
  with assms(1) f(1) show ?thesis by (auto simp: failing_def tells_last_def tries_snoc)
qed

lemma leave_tells_last:
  assumes "failing l (rn_fx r)" "aed_step env l r = Leave l' r'"
  shows "tells_last l' (rn_fx r')"
  using assms(2)
proof (cases rule: aed_step_cases [OF assms(2)])
  case 1
  with assms(1) show ?thesis by (simp add: failing_def)
next
  case 2
  let ?seg = "[Fx_Logged ''turn_skipped_poisoned_interface'' [(''message_type'', PStr (m_type (lo_msg l)))],
    Fx_Refresh ''run_loop_poison_guard'']"
  from 2 have r': "rn_fx r' = rn_fx r @ ?seg" and l': "lo_error l' = lo_error l" "lo_result l' = lo_result l"
    by (auto simp: poisoned_exit_def go_asleep_def Let_def)
  have quiet: "times is_handled ?seg = 0" by simp
  show ?thesis
  proof (cases "tries (rn_fx r) = []")
    case True
    with assms(1) last_try_quiet(1) [OF quiet, of "rn_fx r"] show ?thesis
      by (simp add: tells_last_def failing_def l' r')
  next
    case False
    then have "last (tries (rn_fx r)) \<in> set (tries (rn_fx r))" by simp
    with assms(1) obtain f where "fst (last (tries (rn_fx r))) = Inl f" unfolding failing_def by blast
    with False assms(1) last_try_quiet [OF quiet, of "rn_fx r"] show ?thesis
      by (simp add: tells_last_def failing_def l' r')
  qed
next
  case (3 a seg l2 r2)
  then have "times is_handled seg = 0" by auto
  with 3 assms(1) show ?thesis by (auto simp: tells_last_def tries_snoc failing_def)
next
  case (4 f)
  with on_failure_stepped [of env f "l\<lparr>lo_error := Some f\<rparr>" "engine_call env l r"]
  have "stepped env (justified f) (l\<lparr>lo_error := Some f\<rparr>) (engine_call env l r) (Leave l' r')" by metis
  then have "ended env (l\<lparr>lo_error := Some f\<rparr>) (engine_call env l r) r'" "lo_error l' = Some f" by auto
  then obtain seg where "rn_fx r' = rn_fx (engine_call env l r) @ seg" "times is_handled seg = 0"
    by (auto simp: ended_def)
  with 4(1) \<open>lo_error l' = Some f\<close> show ?thesis by (simp add: tells_last_def tries_snoc)
qed

lemma loop_tells_last:
  assumes "aed_loop env (init_locals m) (fresh_run k) = Some (Leave l r)"
  shows "tells_last l (rn_fx r)"
proof -
  have "\<exists>s. aed_loop env (init_locals m) (fresh_run k) = Some s \<and> leaves s \<and>
    (case s of Leave l' r' \<Rightarrow> tells_last l' (rn_fx r') | _ \<Rightarrow> True)"
  proof (rule aed_loop_rule [where P = "\<lambda>l r. failing l (rn_fx r)"])
    show "failing (init_locals m) (rn_fx (fresh_run k))"
      by (simp add: failing_def tells_last_def init_locals_def fresh_run_def)
  qed (erule (1) failing_again, auto split: loop_step.splits intro: leave_tells_last)
  with assms show ?thesis by simp
qed

text \<open>C24: the caller of a correlated turn is told the truth about it. When the recovery loop has let go of the
  turn and nobody has cancelled it, the receipt is a success exactly when the last call of the turn engine
  returned a result that does not declare itself failed; when the last call failed, the receipt is a failure
  that carries the first 300 characters of that failure's description. Earlier failures that were recovered from do not show.\<close>

theorem turn_receipt_truthful:
  assumes "aed_loop env (init_locals m) (fresh_run k) = Some (Leave l r)"
    and "i < List.length (ag_store ag)" "\<not> ct_claimed (ag_store ag ! i)" "ct_future (ag_store ag ! i) = None"
    and "\<not> ct_cancel_requested (ag_store ag ! i)" "\<not> ag_latch ag"
  shows "\<exists>ag' rc. settle_correlated_after_turn fr (Some i) l ag = (Inr True, ag') \<and>
     ct_future (ag_store ag' ! i) = Some rc \<and>
     (tu_outcome rc = Normal \<longleftrightarrow> tries (rn_fx r) \<noteq> [] \<and>
        (\<exists>d. fst (last (tries (rn_fx r))) = Inr (Some d) \<and> \<not> truthy (dgetd d ''failed'' PNone))) \<and>
     (\<forall>f. tries (rn_fx r) \<noteq> [] \<longrightarrow> fst (last (tries (rn_fx r))) = Inl f \<longrightarrow>
        tu_outcome rc = Failed \<and> tu_error rc = Some (take 300 (safe_exception_description f)))"
proof -
  define st where "st = settlement_of fr False l"
  define rc where "rc = \<lparr>tu_correlation_id = ct_correlation_id (ag_store ag ! i), tu_outcome = st_outcome st,
    tu_text = st_text st, tu_error = st_error st, tu_errors = st_errors st\<rparr>"
  have told: "tells_last l (rn_fx r)" by (rule loop_tells_last [OF assms(1)])
  have "\<exists>ag'. settle_correlated_after_turn fr (Some i) l ag = (Inr True, ag') \<and> ct_future (ag_store ag' ! i) = Some rc"
    using assms(2-6)
    by (auto simp: settle_correlated_after_turn_def Let_def settle_turn_def settle_claim_def receipt_def publish_def
        upd_control_def pop_control_def st_def rc_def)
  moreover have "st_outcome st = Normal \<longleftrightarrow> tries (rn_fx r) \<noteq> [] \<and>
     (\<exists>d. fst (last (tries (rn_fx r))) = Inr (Some d) \<and> \<not> truthy (dgetd d ''failed'' PNone))"
    using told by (auto simp: st_def settlement_of_def Let_def tells_last_def split: option.splits sum.splits if_splits)
  moreover have "st_outcome st = Failed \<and> st_error st = Some (take 300 (safe_exception_description f))"
    if "tries (rn_fx r) \<noteq> []" "fst (last (tries (rn_fx r))) = Inl f" for f
    using told that by (simp add: st_def settlement_of_def tells_last_def)
  ultimately show ?thesis by (auto simp: rc_def)
qed

definition engine_keeps :: "'x aed_env \<Rightarrow> bool" where
  "engine_keeps env \<longleftrightarrow> (\<forall>m k. sound k \<longrightarrow> sound (snd (ae_handle env m k)))"

definition chats_ok :: "chat option list \<Rightarrow> bool" where
  "chats_ok cs \<longleftrightarrow> (\<forall>c. Some c \<in> set cs \<longrightarrow> wire_ok c) \<and> (\<forall>c. Some c \<in> set (tl cs) \<longrightarrow> \<not> has_pending_tool_calls c)"

lemma entered_again:
  assumes "rebuild_keeps env" "engine_keeps env"
    and "sound (rn_core r) \<and> chats_ok (entered (rn_fx r)) \<and> (entered (rn_fx r) \<noteq> [] \<longrightarrow> settled (rn_core r))"
    and "aed_step env l r = Again l' r'"
  shows "sound (rn_core r') \<and> chats_ok (entered (rn_fx r')) \<and> (entered (rn_fx r') \<noteq> [] \<longrightarrow> settled (rn_core r'))"
proof -
  from aed_step_again [OF assms(4)] obtain f where
    f: "retried env (justified f) (l\<lparr>lo_error := Some f\<rparr>) (engine_call env l r) l' r'" by blast
  have "sound (rn_core (engine_call env l r))" using assms(2,3) by (simp add: engine_keeps_def)
  with f assms(1) have core: "sound (rn_core r')" "settled (rn_core r')" by (simp_all add: retried_def)
  from f obtain seg where seg: "rn_fx r' = rn_fx (engine_call env l r) @ seg" "times is_handled seg = 0"
    by (auto simp: retried_def)
  have "entered (rn_fx r') = entered (rn_fx r) @ [co_chat (rn_core r)]"
    using no_call [OF seg(2)] by (simp add: seg(1))
  with assms(3) core show ?thesis
    by (cases "entered (rn_fx r)") (auto simp: chats_ok_def sound_def settled_def split: option.splits)
qed

lemma recovery_settled:
  assumes "rebuild_keeps env" "engine_keeps env" "sound k"
  shows "\<exists>s. aed_loop env (init_locals m) (fresh_run k) = Some s \<and> leaves s \<and> chats_ok (entered (fx_of s))"
proof (rule aed_loop_rule [where P = "\<lambda>l r. sound (rn_core r) \<and> chats_ok (entered (rn_fx r)) \<and>
    (entered (rn_fx r) \<noteq> [] \<longrightarrow> settled (rn_core r))"])
  show "sound (rn_core (fresh_run k)) \<and> chats_ok (entered (rn_fx (fresh_run k))) \<and>
    (entered (rn_fx (fresh_run k)) \<noteq> [] \<longrightarrow> settled (rn_core (fresh_run k)))"
    using assms(3) by (simp add: fresh_run_def chats_ok_def)
next
  fix l :: loop_locals and r
  assume ok: "sound (rn_core r) \<and> chats_ok (entered (rn_fx r)) \<and> (entered (rn_fx r) \<noteq> [] \<longrightarrow> settled (rn_core r))"
    and "leaves (aed_step env l r)"
  from aed_step_leaves [OF this(2)] show "chats_ok (entered (fx_of (aed_step env l r)))"
  proof cases
    case (1 seg)
    with ok no_call [OF 1(2)] show ?thesis by simp
  next
    case (2 seg)
    with ok no_call [OF 2(2)] show ?thesis
      by (cases "entered (rn_fx r)") (auto simp: chats_ok_def sound_def settled_def split: option.splits)
  qed
qed (rule entered_again [OF assms(1,2)])


section \<open>A turn that times out once\<close>

text \<open>The first call leaves a tool call open and times out; the second answers.\<close>

definition demo_timeout :: failure where
  "demo_timeout = \<lparr>f_classes = [''APITimeoutError''], f_str = Some ''timed out'', f_repr = None, f_attrs = [],
     f_response = None, f_replay = None, f_writable = True, f_trim_stats = None\<rparr>"

definition demo_open_chat :: chat where
  "demo_open_chat = add_assistant_message 2 [ToolCallBlock \<lparr>tc_id = ''t1'', tc_name = ''read'', tc_args = []\<rparr>]
     [] None None [] (snd (add_user_message 1 ''go'' init_chat))"

definition demo_engine :: "message \<Rightarrow> nat core \<Rightarrow> (failure + dict option) \<times> nat core" where
  "demo_engine m k =
     (if co_world k = 0 then (Inl demo_timeout, k\<lparr>co_chat := Some demo_open_chat, co_world := 1\<rparr>)
      else (Inr (Some [(''text'', PStr ''done'')]), k))"

definition demo_env :: "nat aed_env" where
  "demo_env = \<lparr>ae_handle = demo_engine, ae_cancelled = (\<lambda>_. False), ae_shutdown_wait = (\<lambda>_ _. False),
     ae_rebuild = (\<lambda>c w. (None, c, w)), ae_spill = sample_env, ae_workdir = None, ae_http_date = (\<lambda>_. None),
     ae_diagnostics = (\<lambda>_. []), ae_can_fallback = (\<lambda>_. False), ae_max_attempts = 3, ae_revive = id,
     ae_hex = ''0123456789abcdef'', ae_now = 9\<rparr>"

definition demo_core :: "nat core" where
  "demo_core = \<lparr>co_chat = None, co_state = ACTIVE, co_asleep = False, co_poisoned = False,
     co_fallback_attempted = False, co_world = 0\<rparr>"

definition demo_message :: message where
  "demo_message = make_message ''00'' 1 MSG_REQUEST ''user'' (Text_Content ''go'') None"

text \<open>One evaluation gives everything the applications below need.\<close>

definition demo_answered :: "nat loop_step option \<Rightarrow> bool" where
  "demo_answered x = (case x of
     Some (Leave l r) \<Rightarrow>
       List.length (tries (rn_fx r)) = 2 \<and> List.length (entered (rn_fx r)) = 2 \<and>
       (case fst (last (tries (rn_fx r))) of Inr (Some d) \<Rightarrow> \<not> truthy (dgetd d ''failed'' PNone) | _ \<Rightarrow> False)
   | _ \<Rightarrow> False)"

lemma demo_run: "demo_answered (aed_loop demo_env (init_locals demo_message) (fresh_run demo_core))"
  by code_simp

lemma demo_loop:
  obtains l r d where "aed_loop demo_env (init_locals demo_message) (fresh_run demo_core) = Some (Leave l r)"
    "List.length (tries (rn_fx r)) = 2" "List.length (entered (rn_fx r)) = 2"
    "fst (last (tries (rn_fx r))) = Inr (Some d)" "\<not> truthy (dgetd d ''failed'' PNone)"
  using demo_run unfolding demo_answered_def by (auto split: option.splits loop_step.splits sum.splits)



definition demo_agent :: agent where
  "demo_agent = (init_agent None False)\<lparr>ag_store := [\<lparr>ct_correlation_id = ''c1'', ct_content = ''go'', ct_sender = ''user'',
     ct_origin = Legacy, ct_workspace = None, ct_observer = None, ct_broker = None, ct_cancel_requested = False,
     ct_future = None, ct_cancellable = True, ct_claimed = False\<rparr>]\<rparr>"

lemma turn_receipt_truthful_witness:
  "\<exists>l r ag' rc. aed_loop demo_env (init_locals demo_message) (fresh_run demo_core) = Some (Leave l r) \<and>
     settle_correlated_after_turn (\<lambda>_. '''') (Some 0) l demo_agent = (Inr True, ag') \<and>
     ct_future (ag_store ag' ! 0) = Some rc \<and> tu_outcome rc = Normal"
proof -
  obtain l r d where lr: "aed_loop demo_env (init_locals demo_message) (fresh_run demo_core) = Some (Leave l r)"
    "List.length (tries (rn_fx r)) = 2" "fst (last (tries (rn_fx r))) = Inr (Some d)"
    "\<not> truthy (dgetd d ''failed'' PNone)" by (rule demo_loop)
  have "tries (rn_fx r) \<noteq> []" using lr(2) by auto
  with lr turn_receipt_truthful [OF lr(1), of 0 demo_agent "\<lambda>_. ''''"] show ?thesis
    by (auto simp: demo_agent_def init_agent_def)
qed

text \<open>A finding about four of the exits: they set the asleep latch without publishing a state, so the state
  published by the attempt (STUCK) is the one the sleeping agent shows.\<close>

lemma asleep_exits_keep_stuck:
  assumes "s \<in> {client_noop_exit f l r, zero_progress_exit env f st l r, no_aed_retry_exit f l r, no_candidate_exit env f l r}"
    and "s = Leave l' r'"
  shows "lo_sleep_state l' = ASLEEP \<and> co_asleep (rn_core r') \<and> co_state (rn_core (finish_turn l' r')) = co_state (rn_core r)"
  using assms
  by (auto simp: client_noop_exit_def zero_progress_exit_def no_aed_retry_exit_def no_candidate_exit_def go_asleep_def
      finish_turn_def Let_def)

text \<open>Merging queued requests takes every queued text once, in order, and leaves the other messages queued.\<close>

lemma concat_keeps_messages:
  assumes "concat_queued_messages text_of hex now redo m inbox = (m', inbox')" "m_type m \<in> set TEXT_MSG_TYPES"
  shows "inbox' = filter (\<lambda>q. m_type q \<notin> set TEXT_MSG_TYPES) inbox"
  using assms by (auto simp: concat_queued_messages_def Let_def split: option.splits if_splits)

end
