(* ===== verification/Turn_Engine_Wire.thy ===== *)
theory Turn_Engine_Wire
  imports Turn_Engine_Laws AED_Laws
begin

text \<open>
  What a turn leaves on the wire: with a provider that never rejects a request for its length and whose replies are
  well formed, the conversation stays well paired through a whole request, and a request that is answered leaves
  no tool call open. The turn engine is then run inside the error recovery loop.
\<close>

section \<open>The provider session\<close>

text \<open>The tail of a conversation as the engine meets a response: its calls are open, and no placeholder carries their ids.\<close>

definition awaits :: "chat \<Rightarrow> string set \<Rightarrow> bool" where
  "awaits c ids \<longleftrightarrow>
     has_pending_tool_calls c \<and> answers_ids (last (entries c)) ids \<and>
     (\<forall>i\<in>ids. \<forall>e\<in>set (entries c). \<not> holds_placeholder i e)"

definition ready :: "chat \<Rightarrow> string list \<Rightarrow> bool" where
  "ready c ids \<longleftrightarrow> wire_ok c \<and> (if ids = [] then \<not> has_pending_tool_calls c else awaits c (set ids))"

text \<open>A provider that refuses nothing for its length, and answers with text, thoughts and calls under new ids.\<close>

definition plain_provider :: "'w adapter \<Rightarrow> bool" where
  "plain_provider ad \<longleftrightarrow>
     (\<forall>c w f. fst (adapter_call ad c w) = Inl f \<longrightarrow> \<not> anthropic_overflow f \<and> f_trim_stats f = None) \<and>
     (\<forall>c w rp. fst (sa_create ad c w) = Inr rp \<longrightarrow> results_of (rp_blocks rp) = [] \<and>
        (\<forall>t\<in>set (calls_of (rp_blocks rp)). \<forall>e\<in>set (entries c). \<not> holds_placeholder (tc_id t) e))"

text \<open>A system prompt that was waiting is the one thing a call may add.\<close>

definition flushed :: "chat \<Rightarrow> chat \<Rightarrow> bool" where
  "flushed c c1 \<longleftrightarrow> entries c1 = entries c \<or> (\<exists>s. entries c1 = entries c @ [s] \<and> e_role s = System)"

lemma flush_flushed: "flushed c (snd (flush_pending_system now c))"
  by (auto simp: flushed_def flush_pending_system_def append_system_def new_entry_def Let_def split: option.splits sum.splits prod.splits)

lemma flushed_settled: "flushed c c1 \<Longrightarrow> \<not> has_pending_tool_calls c \<Longrightarrow> \<not> has_pending_tool_calls c1"
  by (auto simp: flushed_def has_pending_tool_calls_def tail_pending_def has_calls_def)

lemma call_settled:
  assumes "wire_ok c"
  obtains r c1 w1 where "adapter_call ad c w = (r, c1, w1)" "wire_ok c1" "flushed c c1"
    "\<And>rp. r = Inr rp \<Longrightarrow> \<exists>w. fst (sa_create ad c1 w) = Inr rp"
proof -
  obtain r c1 w1 where call: "adapter_call ad c w = (r, c1, w1)" by (metis prod_cases3)
  obtain q d where fl: "flush_pending_system (sa_now ad) c = (q, d)" by fastforce
  have "wire_ok d" using wire_flush [OF assms, of "sa_now ad"] fl by simp
  then have pair: "pair_entries (entries d) = entries d" by (simp add: wire_ok_def pair_entries_well_paired)
  have "entries c1 = entries d"
    using call pair by (cases q) (auto simp: adapter_call_def enforce_tool_pairing_def fl split: prod.splits)
  moreover have "\<exists>w. fst (sa_create ad c1 w) = Inr rp" if "r = Inr rp" for rp
    using call that by (cases q) (auto simp: adapter_call_def enforce_tool_pairing_def fl intro: exI [of _ w] split: prod.splits)
  moreover have "wire_ok c1" using call_wire [OF assms, of ad w] call by simp
  moreover have "flushed c d" using flush_flushed [of c "sa_now ad"] fl by simp
  ultimately have "wire_ok c1" "flushed c c1" "\<And>rp. r = Inr rp \<Longrightarrow> \<exists>w. fst (sa_create ad c1 w) = Inr rp"
    by (auto simp: flushed_def)
  with that call show thesis by blast
qed

lemma plain_recovery:
  assumes "plain_provider ad" "wire_ok c"
  obtains f c1 w1 where "run_with_overflow_recovery anthropic_overflow (adapter_call ad) c w = Some (Inl f, c1, w1)"
      "wire_ok c1" "flushed c c1" "f_trim_stats f = None"
  | rp c1 w1 where "run_with_overflow_recovery anthropic_overflow (adapter_call ad) c w = Some (Inr (rp, 0, 0), c1, w1)"
      "wire_ok c1" "flushed c c1" "results_of (rp_blocks rp) = []"
      "\<forall>t\<in>set (calls_of (rp_blocks rp)). \<forall>e\<in>set (entries c1). \<not> holds_placeholder (tc_id t) e"
proof -
  obtain r c1 w1 where call: "adapter_call ad c w = (r, c1, w1)" "wire_ok c1" "flushed c c1"
    "\<And>rp. r = Inr rp \<Longrightarrow> \<exists>w. fst (sa_create ad c1 w) = Inr rp" using call_settled [OF assms(2)] by metis
  show thesis
  proof (cases r)
    case (Inl f)
    with call(1) assms(1) have f: "\<not> anthropic_overflow f" "f_trim_stats f = None"
      unfolding plain_provider_def by (metis fst_conv)+
    with Inl call(1) have "run_with_overflow_recovery anthropic_overflow (adapter_call ad) c w = Some (Inl f, c1, w1)"
      unfolding run_with_overflow_recovery_def by (subst overflow_loop.simps) simp
    with call f that(1) show thesis by blast
  next
    case (Inr rp)
    with call(1) have "run_with_overflow_recovery anthropic_overflow (adapter_call ad) c w = Some (Inr (rp, 0, 0), c1, w1)"
      unfolding run_with_overflow_recovery_def by (subst overflow_loop.simps) simp
    moreover from call(4) [OF Inr] assms(1) have "results_of (rp_blocks rp) = []"
      "\<forall>t\<in>set (calls_of (rp_blocks rp)). \<forall>e\<in>set (entries c1). \<not> holds_placeholder (tc_id t) e"
      unfolding plain_provider_def by metis+
    ultimately show thesis using call that(2) by blast
  qed
qed

lemma reply_ready:
  assumes "wire_ok c" "\<not> has_pending_tool_calls c" "results_of (rp_blocks rp) = []"
    "\<forall>t\<in>set (calls_of (rp_blocks rp)). \<forall>e\<in>set (entries c). \<not> holds_placeholder (tc_id t) e"
  shows "ready (record_reply ad rp c) (map tc_id (calls_of (rp_blocks rp)))"
proof (cases "rp_blocks rp = []")
  case True
  with assms show ?thesis by (simp add: ready_def record_reply_def)
next
  case False
  let ?c = "record_reply ad rp c"
  obtain e where e: "entries ?c = entries c @ [e]" "e_role e = Assistant" "e_content e = rp_blocks rp"
    using False by (simp add: record_reply_def add_assistant_message_def)
  have "opens e" using e assms(3) False by (simp add: opens_def has_calls_iff)
  then have w: "wire_ok ?c" using assms e by (simp add: wire_ok_def has_pending_tool_calls_def well_paired_append)
  have p: "has_pending_tool_calls ?c \<longleftrightarrow> calls_of (rp_blocks rp) \<noteq> []"
    using e by (simp add: has_pending_tool_calls_def tail_pending_def has_calls_iff)
  have "\<not> holds_placeholder i e" for i using e by (simp add: holds_placeholder_def)
  with w p e assms(4) show ?thesis by (auto simp: ready_def awaits_def answers_ids_def)
qed

lemma drop_users_answered:
  assumes "tail_pending es" "is_user u" "entries c = es @ [u]"
  shows "entries (snd (drop_trailing is_user c)) = es"
proof -
  obtain pre a where "es = pre @ [a]" "has_calls a" using assms(1) butlast_last_cases [of es] by (auto simp: tail_pending_def)
  with assms(2,3) show ?thesis by (simp add: drop_trailing_def is_user_def has_calls_def)
qed

lemma drop_users_system:
  assumes "e_role s = System" "entries c = es @ [s]"
  shows "entries (snd (drop_trailing is_user c)) = entries c"
  using assms by (simp add: drop_trailing_def is_user_def)

lemma awaits_results:
  assumes "wire_ok c" "awaits c (set (map tr_id rs))" "rs \<noteq> []"
  shows "add_tool_results now rs c =
      (Some (length (entries c)), append_entry now User (map ToolResultBlock rs) [] id (c\<lparr>entries := entries c\<rparr>))"
    "wire_ok (snd (add_tool_results now rs c))" "\<not> has_pending_tool_calls (snd (add_tool_results now rs c))"
proof -
  have "place_results rs (entries c) None = (entries c, rs, None)"
    using assms(2) by (intro place_fresh) (auto simp: awaits_def)
  then show eq: "add_tool_results now rs c =
      (Some (length (entries c)), append_entry now User (map ToolResultBlock rs) [] id (c\<lparr>entries := entries c\<rparr>))"
    using assms(3) by (simp add: add_tool_results_def)
  have "wire_ok (append_entry now User (map ToolResultBlock rs) [] id c)"
    by (rule wire_answer) (use assms in \<open>simp_all add: awaits_def\<close>)
  with eq show "wire_ok (snd (add_tool_results now rs c))" by simp
  show "\<not> has_pending_tool_calls (snd (add_tool_results now rs c))"
    using eq by (simp add: has_pending_tool_calls_def tail_pending_def has_calls_def)
qed

text \<open>A send of the results the tail is waiting for: a reply leaves the conversation ready for it, a failure still waiting or answered.\<close>

lemma send_results:
  assumes "plain_provider ad" "sa_hook ad = (\<lambda>c. c)" "wire_ok c" "awaits c (set (map tr_id rs))" "rs \<noteq> []"
    and send: "adapter_send ad (Tool_Results rs) c w = Some (r, c', w')"
  shows "case r of Inr rp \<Rightarrow> ready c' (map tc_id (calls_of (rp_blocks rp)))
    | Inl f \<Rightarrow> wire_ok c' \<and> (has_pending_tool_calls c' \<longrightarrow> awaits c' (set (map tr_id rs)))"
proof -
  define c1 where "c1 = snd (add_tool_results (sa_now ad) rs c)"
  note answered = awaits_results [OF assms(3-5), of "sa_now ad"]
  have c1: "wire_ok c1" "\<not> has_pending_tool_calls c1" using answered(2,3) by (simp_all add: c1_def)
  obtain u where u: "entries c1 = entries c @ [u]" "is_user u" using answered(1) by (simp add: c1_def is_user_def)
  have staged: "stage_message (sa_now ad) (Tool_Results rs) c = (Inr (), c1)" by (simp add: stage_message_def c1_def)
  show ?thesis
  proof (rule plain_recovery [OF assms(1) c1(1), of w])
    fix f c2 w2
    assume run: "run_with_overflow_recovery anthropic_overflow (adapter_call ad) c1 w = Some (Inl f, c2, w2)"
      and c2: "wire_ok c2" "flushed c1 c2" "f_trim_stats f = None"
    have r: "r = Inl f" "c' = snd (drop_trailing is_user c2)"
      using send staged run assms(2) c2(3)
      by (auto simp: adapter_send_def inject_overflow_notice_after_error_def Let_def)
    have "wire_ok c'" using r(2) c2(1) prefix_drop_trailing [of is_user c2] well_paired_prefix by (auto simp: wire_ok_def)
    moreover have "entries c' = entries c \<or> \<not> has_pending_tool_calls c'"
    proof (cases "entries c2 = entries c1")
      case True
      have "tail_pending (entries c)" using assms(4) by (simp add: awaits_def has_pending_tool_calls_def)
      from drop_users_answered [OF this u(2)] True u(1) r(2) show ?thesis by simp
    next
      case False
      with c2(2) obtain s where s: "entries c2 = entries c1 @ [s]" "e_role s = System" by (auto simp: flushed_def)
      from drop_users_system [OF s(2,1)] s r(2) show ?thesis
        by (simp add: has_pending_tool_calls_def tail_pending_def has_calls_def)
    qed
    ultimately show ?thesis using r(1) assms(4) by (auto simp: awaits_def has_pending_tool_calls_def)
  next
    fix rp c2 w2
    assume run: "run_with_overflow_recovery anthropic_overflow (adapter_call ad) c1 w = Some (Inr (rp, 0, 0), c2, w2)"
      and c2: "wire_ok c2" "flushed c1 c2" "results_of (rp_blocks rp) = []"
        "\<forall>t\<in>set (calls_of (rp_blocks rp)). \<forall>e\<in>set (entries c2). \<not> holds_placeholder (tc_id t) e"
    have "r = Inr rp" "c' = record_reply ad rp c2" using send staged run assms(2) by (auto simp: adapter_send_def Let_def)
    with reply_ready [OF c2(1) flushed_settled [OF c2(2) c1(2)] c2(3,4)] show ?thesis by simp
  qed
qed

lemma send_text:
  assumes "plain_provider ad" "sa_hook ad = (\<lambda>c. c)" "wire_ok c"
    and send: "adapter_send ad (User_Text t) c w = Some (r, c', w')"
  shows "case r of Inr rp \<Rightarrow> ready c' (map tc_id (calls_of (rp_blocks rp))) | Inl f \<Rightarrow> wire_ok c'"
proof (cases "has_pending_tool_calls c")
  case True
  with send assms(3) show ?thesis by (auto simp: adapter_send_def stage_message_def add_user_message_def)
next
  case False
  define c1 where "c1 = append_entry (sa_now ad) User [TextBlock t] [] id c"
  have staged: "stage_message (sa_now ad) (User_Text t) c = (Inr (), c1)"
    using False by (simp add: stage_message_def add_user_message_def c1_def)
  have c1: "wire_ok c1" "\<not> has_pending_tool_calls c1"
    unfolding c1_def using assms(3) False
    by (auto intro: wire_append simp: opens_def has_pending_tool_calls_def tail_pending_def has_calls_def)
  show ?thesis
  proof (rule plain_recovery [OF assms(1) c1(1), of w])
    fix f c2 w2
    assume "run_with_overflow_recovery anthropic_overflow (adapter_call ad) c1 w = Some (Inl f, c2, w2)"
      and c2: "wire_ok c2" "flushed c1 c2" "f_trim_stats f = None"
    with send staged assms(2) have "r = Inl f" "c' = snd (drop_trailing is_user c2)"
      by (auto simp: adapter_send_def inject_overflow_notice_after_error_def Let_def)
    with c2(1) prefix_drop_trailing [of is_user c2] well_paired_prefix show ?thesis by (auto simp: wire_ok_def)
  next
    fix rp c2 w2
    assume run: "run_with_overflow_recovery anthropic_overflow (adapter_call ad) c1 w = Some (Inr (rp, 0, 0), c2, w2)"
      and c2: "wire_ok c2" "flushed c1 c2" "results_of (rp_blocks rp) = []"
        "\<forall>t\<in>set (calls_of (rp_blocks rp)). \<forall>e\<in>set (entries c2). \<not> holds_placeholder (tc_id t) e"
    have "r = Inr rp" "c' = record_reply ad rp c2" using send staged run assms(2) by (auto simp: adapter_send_def Let_def)
    with reply_ready [OF c2(1) flushed_settled [OF c2(2) c1(2)] c2(3,4)] show ?thesis by simp
  qed
qed

section \<open>The laws of a turn's surroundings\<close>

text \<open>
  The result constructor keeps the id of a call; no hook intercepts a batch; the stamps on a batch keep its results;
  a batch that answers nothing was cancelled, and the cancellation is still set after the stamps; draining the
  inbox keeps the conversation well paired.
\<close>

definition lawful :: "'x turn_env \<Rightarrow> bool" where
  "lawful te \<longleftrightarrow>
     follows te \<and> plain_provider (te_adapter te) \<and> sa_hook (te_adapter te) = (\<lambda>c. c) \<and>
     (\<forall>n v i w. tr_id (fst (fst (xe_make (te_exec te) n v (Some i) w))) = i) \<and>
     (\<forall>api tcs ex rs i t ex'. te_run te api tcs ex = ((rs, i, t), ex') \<longrightarrow> \<not> i \<and>
        (tcs \<noteq> [] \<and> rs = [] \<longrightarrow> xe_cancelled (te_exec te) (snd (te_decorate te tcs rs (ex_world ex'))))) \<and>
     (\<forall>tcs rs w. map tr_id (fst (te_decorate te tcs rs w)) = map tr_id rs) \<and>
     (\<forall>c w. wire_ok c \<longrightarrow> wire_ok (fst (te_drain te c w)))"

lemma lawfulD:
  assumes "lawful te"
  shows "follows te" "plain_provider (te_adapter te)" "sa_hook (te_adapter te) = (\<lambda>c. c)"
    "tr_id (fst (fst (xe_make (te_exec te) n v (Some i) w))) = i"
    "te_run te api tcs ex = ((rs, b, t), ex') \<Longrightarrow> \<not> b"
    "te_run te api tcs ex = (([], b, t), ex') \<Longrightarrow> tcs \<noteq> [] \<Longrightarrow>
       xe_cancelled (te_exec te) (snd (te_decorate te tcs [] (ex_world ex')))"
    "map tr_id (fst (te_decorate te tcs rs w)) = map tr_id rs"
    "wire_ok c \<Longrightarrow> wire_ok (fst (te_drain te c w))"
  using assms unfolding lawful_def by blast+

definition call_ids_of :: "llm_response \<Rightarrow> string list" where
  "call_ids_of resp = map (the \<circ> cr_id) (re_calls resp)"

definition on_wire :: "chat \<Rightarrow> llm_response \<Rightarrow> bool" where
  "on_wire c resp \<longleftrightarrow> (\<forall>tc\<in>set (re_calls resp). cr_id tc \<noteq> None) \<and> ready c (call_ids_of resp)"

lemma parsed_on_wire: "ready c (map tc_id (calls_of (rp_blocks rp))) \<Longrightarrow> on_wire c (parse_response rp)"
  by (simp add: on_wire_def call_ids_of_def parse_response_def to_request_def comp_def)

lemma refresh_frame:
  "wire_ok c \<Longrightarrow> wire_ok (refresh_system te w c)"
  "has_pending_tool_calls c \<Longrightarrow> entries (refresh_system te w c) = entries c"
  by (simp_all add: refresh_system_def wire_add_system Let_def split_beta)
    (simp add: add_system_def has_pending_tool_calls_def Let_def split: if_splits)

lemma refresh_awaits: "awaits c ids \<Longrightarrow> awaits (refresh_system te w c) ids"
  using refresh_frame(2) [of c te w] by (auto simp: awaits_def has_pending_tool_calls_def)

lemma refresh_settled: "\<not> has_pending_tool_calls c \<Longrightarrow> \<not> has_pending_tool_calls (refresh_system te w c)"
  by (auto simp: refresh_system_def add_system_def append_system_def has_pending_tool_calls_def tail_pending_def has_calls_def
      Let_def split_beta)

lemma send_request_chat:
  assumes "send_request te m en = Some (r, en1)"
  obtains q where "adapter_send (te_adapter te) m (refresh_system te (en_world en) (en_chat en)) (en_world en) =
      Some (q, en_chat en1, en_world en1)" "r = (case q of Inl f \<Rightarrow> Inl f | Inr rp \<Rightarrow> Inr (parse_response rp))"
  using assms by (auto simp: send_request_def Let_def split: option.splits prod.splits)

lemma send_request_results:
  assumes "lawful te" "wire_ok (en_chat en)" "awaits (en_chat en) (set (map tr_id rs))" "rs \<noteq> []"
    "send_request te (Tool_Results rs) en = Some (r, en1)"
  shows "case r of Inr resp \<Rightarrow> on_wire (en_chat en1) resp
    | Inl f \<Rightarrow> wire_ok (en_chat en1) \<and> (has_pending_tool_calls (en_chat en1) \<longrightarrow> awaits (en_chat en1) (set (map tr_id rs)))"
proof -
  obtain q where send: "adapter_send (te_adapter te) (Tool_Results rs) (refresh_system te (en_world en) (en_chat en)) (en_world en) =
      Some (q, en_chat en1, en_world en1)" "r = (case q of Inl f \<Rightarrow> Inl f | Inr rp \<Rightarrow> Inr (parse_response rp))"
    using send_request_chat [OF assms(5)] .
  from send_results [OF lawfulD(2,3) [OF assms(1)] refresh_frame(1) [OF assms(2)] refresh_awaits [OF assms(3)] assms(4) send(1)]
    send(2) show ?thesis by (auto split: sum.splits intro: parsed_on_wire)
qed

lemma send_request_text:
  assumes "lawful te" "wire_ok (en_chat en)" "send_request te (User_Text t) en = Some (r, en1)"
  shows "case r of Inr resp \<Rightarrow> on_wire (en_chat en1) resp | Inl f \<Rightarrow> wire_ok (en_chat en1)"
proof -
  obtain q where send: "adapter_send (te_adapter te) (User_Text t) (refresh_system te (en_world en) (en_chat en)) (en_world en) =
      Some (q, en_chat en1, en_world en1)" "r = (case q of Inl f \<Rightarrow> Inl f | Inr rp \<Rightarrow> Inr (parse_response rp))"
    using send_request_chat [OF assms(3)] .
  from send_text [OF lawfulD(2,3) [OF assms(1)] refresh_frame(1) [OF assms(2)] send(1)]
    send(2) show ?thesis by (auto split: sum.splits intro: parsed_on_wire)
qed

section \<open>A batch on the wire\<close>

lemma advise_first_ids: "advise_first i rs = Inr rs1 \<Longrightarrow> map tr_id rs1 = map tr_id rs"
proof (induction rs arbitrary: rs1)
  case (Cons r rs)
  then show ?case
    by (auto simp: advise_duplicate_def ebind_def split: if_splits sum.splits py.splits)
qed simp

lemma check_send_ids: "check_send te tc rs t = (Inr rs1, t1) \<Longrightarrow> map tr_id rs1 = map tr_id rs"
  by (auto simp: check_send_def Let_def advise_first_ids split: if_splits sum.splits bool.splits option.splits prod.splits)

lemma check_external_ids: "check_external_send te tcs rs t = (Inr rs1, t1) \<Longrightarrow> map tr_id rs1 = map tr_id rs"
proof (induction tcs arbitrary: rs t)
  case (Cons tc tcs)
  obtain q t2 where q: "check_send te tc rs t = (q, t2)" by fastforce
  with Cons.prems obtain rs2 where "q = Inr rs2" by (cases q) simp_all
  with q Cons.prems Cons.IH check_send_ids [of te tc rs t rs2 t2] show ?case by simp
qed simp

lemma answered_id:
  assumes "lawful te" "answers_call (te_exec te) tc m" "cr_id tc = Some i"
  shows "tr_id m = i"
proof -
  obtain v w where "tr_id m = tr_id (fst (fst (xe_make (te_exec te) (cr_name tc) v (cr_id tc) w)))"
    using assms(2) by (auto simp: answers_call_def Let_def)
  with lawfulD(4) [OF assms(1)] assms(3) show ?thesis by simp
qed

text \<open>A batch answers its calls in order, or was cancelled.\<close>

lemma batch_ids:
  assumes "lawful te" "run_batch te resp en = ((rs, i, t), en1)" "re_calls resp \<noteq> []"
    and "\<forall>tc\<in>set (re_calls resp). cr_id tc \<noteq> None"
  shows "\<not> i" "en_chat en1 = en_chat en" "map tr_id rs = call_ids_of resp \<or> rs = [] \<and> cancelled te en1"
proof -
  let ?tcs = "re_calls resp"
  obtain rs0 ex w where run: "te_run te (re_api resp) ?tcs (counted ?tcs en) = ((rs0, i, t), ex)"
    and dec: "te_decorate te ?tcs rs0 (ex_world ex) = (rs, w)"
    and en1: "en_exec en1 = ex\<lparr>ex_guard := clear_progress_notice (ex_guard ex), ex_world := w\<rparr>" "en_chat en1 = en_chat en"
    using assms(2) by (rule run_batchE)
  show "\<not> i" "en_chat en1 = en_chat en" using lawfulD(5) [OF assms(1) run] en1 by simp_all
  have ids: "map tr_id rs = map tr_id rs0" using lawfulD(7) [OF assms(1), of ?tcs rs0 "ex_world ex"] dec by simp
  have "execute (te_exec te) (re_api resp) ?tcs (counted ?tcs en) ((rs0, i, t), ex)"
    using lawfulD(1) [OF assms(1)] run by (metis follows_def)
  from execute_answers [OF this \<open>\<not> i\<close>] show "map tr_id rs = call_ids_of resp \<or> rs = [] \<and> cancelled te en1"
  proof (elim disjE conjE)
    assume all: "list_all2 (answers_call (te_exec te)) ?tcs rs0"
    have "map tr_id rs0 = map (the \<circ> cr_id) ?tcs"
    proof (rule nth_equalityI)
      show "length (map tr_id rs0) = length (map (the \<circ> cr_id) ?tcs)" using all by (simp add: list_all2_lengthD)
    next
      fix k assume "k < length (map tr_id rs0)"
      moreover from this all have "answers_call (te_exec te) (?tcs ! k) (rs0 ! k)" "k < length ?tcs"
        by (simp_all add: list_all2_nthD2 list_all2_lengthD)
      moreover from this(2) assms(4) obtain j where "cr_id (?tcs ! k) = Some j" using nth_mem by blast
      ultimately show "map tr_id rs0 ! k = map (the \<circ> cr_id) ?tcs ! k" using answered_id [OF assms(1)] by simp
    qed
    then show ?thesis using ids by (simp add: call_ids_of_def)
  next
    assume "rs0 = []"
    with lawfulD(6) [OF assms(1) run [unfolded \<open>rs0 = []\<close>] assms(3)] dec en1 ids show ?thesis by (simp add: cancelled_def)
  qed
qed

section \<open>A pass keeps the wire\<close>

lemma save_chat: "save_history te en = (f, en1) \<Longrightarrow> en_chat en1 = en_chat en"
  by (metis snd_conv save_frame(2))

lemma settle_chat [simp]: "en_chat (settle_facts en) = en_chat en"
  by (simp add: settle_facts_def)

definition settles :: "(failure + dict) \<Rightarrow> 'x engine \<Rightarrow> bool" where
  "settles out en \<longleftrightarrow> wire_ok (en_chat en) \<and> (has_pending_tool_calls (en_chat en) \<longrightarrow> (\<exists>f. out = Inl f))"

lemma commit_settles:
  assumes "wire_ok (en_chat en)" "awaits (en_chat en) (set (map tr_id rs))" "rs \<noteq> []"
  shows "wire_ok (en_chat (commit_results te rs en))" "\<not> has_pending_tool_calls (en_chat (commit_results te rs en))"
  using awaits_results [OF assms, of "te_now te"] assms(3) by (simp_all add: commit_results_def)

lemma commit_cancelled: "cancelled te (commit_results te rs en) = cancelled te en"
  by (simp add: commit_results_def cancelled_def settle_facts_def)

lemma close_after_poll_settled: "\<not> has_pending_tool_calls (en_chat en) \<Longrightarrow> close_after_poll te en = en"
  by (simp add: close_after_poll_def)

lemma poll_exit_settles:
  assumes "wire_ok (en_chat en)" "awaits (en_chat en) (set (map tr_id rs))" "rs \<noteq> []" "poll_exit te rs parts en = (out, en1)"
  shows "settles out en1"
proof -
  obtain f en2 where save: "save_history te (commit_results te rs en) = (f, en2)" by fastforce
  note c = commit_settles [OF assms(1-3), of te] save_chat [OF save]
  then have "en_chat en1 = en_chat en2"
    using assms(3,4) save by (auto simp: poll_exit_def Let_def close_after_poll_settled split: option.splits)
  with c show ?thesis by (simp add: settles_def)
qed

lemma guarded_settles:
  assumes "wire_ok (en_chat en)" "guarded_non_dispatch te tcs reason d parts en = (out, en1)"
  shows "settles out en1"
proof (cases "has_pending_tool_calls (en_chat en)")
  case False
  with assms show ?thesis by (auto simp: guarded_non_dispatch_def Let_def settles_def)
next
  case True
  obtain q c where close: "close_pending_tool_calls (env_float (te_exec te)) (te_now te) (reason @ '': '' @ d) False True None (en_chat en) = (q, c)"
    by fastforce
  obtain f en2 where save: "save_history te (ef (Ef_Closed reason) (with_chat c en)) = (f, en2)" by fastforce
  have w: "wire_ok c" using wire_close [OF assms(1), of "env_float (te_exec te)" "te_now te" "reason @ '': '' @ d" False True None] close
    by simp
  show ?thesis
  proof (cases q)
    case (Inl e)
    with assms(2) True close w show ?thesis by (auto simp: guarded_non_dispatch_def Let_def settles_def)
  next
    case (Inr u)
    have "\<not> has_pending_tool_calls c" using close_settles close Inr by blast
    moreover have "en_chat en1 = c"
      using assms(2) True close save Inr save_chat [OF save] by (auto simp: guarded_non_dispatch_def Let_def split: option.splits)
    ultimately show ?thesis using w by (simp add: settles_def)
  qed
qed

text \<open>After a failed continuation the results are on the wire: kept, or committed again.\<close>

lemma continuation_failed_settles:
  assumes "wire_ok (en_chat en)" "has_pending_tool_calls (en_chat en) \<longrightarrow> awaits (en_chat en) (set (map tr_id rs))" "rs \<noteq> []"
    "continuation_failed te rs f en = (g, en1)"
  shows "wire_ok (en_chat en1) \<and> \<not> has_pending_tool_calls (en_chat en1)"
proof (cases "has_pending_tool_calls (en_chat en)")
  case False
  with assms(1,3,4) show ?thesis by (auto simp: continuation_failed_def restore_tool_results_def)
next
  case True
  let ?c = "snd (add_tool_results (te_now te) rs (en_chat en))"
  obtain h en2 where save: "save_history te (settle_facts (ef Ef_Restored (with_chat ?c en))) = (h, en2)" by fastforce
  from assms(3,4) True save have "en_chat en1 = en_chat en2"
    by (auto simp: continuation_failed_def restore_tool_results_def split: option.splits)
  moreover have "en_chat en2 = ?c" using save_chat [OF save] by simp
  ultimately show ?thesis using awaits_results [OF assms(1) _ assms(3), of "te_now te"] assms(2) True by simp
qed

lemma continue_wire:
  assumes "lawful te" "wire_ok (en_chat en)" "awaits (en_chat en) (set (map tr_id rs))" "rs \<noteq> []"
    and "continue_with te resp parts rs en = Some p"
  shows "case p of Done out en1 \<Rightarrow> settles out en1 | Next resp2 en1 \<Rightarrow> on_wire (en_chat en1) resp2"
proof -
  obtain r t where ext: "check_external_send te (re_calls resp) rs (en_tracker en) = (r, t)" by fastforce
  show ?thesis
  proof (cases r)
    case (Inl e)
    with ext assms(2,5) show ?thesis by (auto simp: continue_with_def settles_def)
  next
    case (Inr rs1)
    have ids: "map tr_id rs1 = map tr_id rs" using check_external_ids ext Inr by blast
    with assms(3,4) have rs1: "awaits (en_chat en) (set (map tr_id rs1))" "rs1 \<noteq> []" by auto
    obtain stop t1 where poll: "check_poll_backoff te rs1 (re_calls resp) False t = (stop, t1)" by fastforce
    let ?en = "en\<lparr>en_tracker := t1\<rparr>"
    obtain r1 en1 where send: "send_request te (Tool_Results rs1) ?en = Some (r1, en1)"
      by (rule send_request_returns [of te "Tool_Results rs1" ?en])
    have sent: "case r1 of Inr resp \<Rightarrow> on_wire (en_chat en1) resp
      | Inl f \<Rightarrow> wire_ok (en_chat en1) \<and> (has_pending_tool_calls (en_chat en1) \<longrightarrow> awaits (en_chat en1) (set (map tr_id rs1)))"
      using send_request_results [OF assms(1) _ _ rs1(2) send] assms(2) rs1(1) by simp
    consider (raised) e where "stop = Inl e" | (idle) "stop = Inr True" | (go) "stop = Inr False" by (cases stop) auto
    then show ?thesis
    proof cases
      case raised
      with ext Inr poll assms(2,5) show ?thesis by (auto simp: continue_with_def settles_def)
    next
      case idle
      obtain out en2 where exit: "poll_exit te rs1 parts ?en = (out, en2)" by fastforce
      with idle ext Inr poll assms(5) have "p = Done out en2" by (simp add: continue_with_def)
      with poll_exit_settles [OF _ _ rs1(2) exit] assms(2) rs1(1) show ?thesis by simp
    next
      case go
      show ?thesis
      proof (cases r1)
        case (Inl f)
        obtain g en2 where failed: "continuation_failed te rs1 f en1 = (g, en2)" by fastforce
        with go ext Inr poll send Inl assms(5) have "p = Done (Inl g) en2" by (simp add: continue_with_def)
        with continuation_failed_settles [OF _ _ rs1(2) failed] sent Inl show ?thesis by (simp add: settles_def)
      next
        case again: (Inr resp2)
        obtain f en2 where save: "save_history te (settle_facts en1) = (f, en2)" by fastforce
        have "en_chat en2 = en_chat en1" using save_chat [OF save] by simp
        with go ext Inr poll send again save assms(5) sent show ?thesis
          by (cases f) (auto simp: continue_with_def settles_def on_wire_def ready_def)
      qed
    qed
  qed
qed

text \<open>What a request leaves behind: open calls only after a failure or a cancellation.\<close>

definition ends_well :: "'x turn_env \<Rightarrow> (failure + dict) \<Rightarrow> 'x engine \<Rightarrow> bool" where
  "ends_well te out en \<longleftrightarrow> wire_ok (en_chat en) \<and>
     (has_pending_tool_calls (en_chat en) \<longrightarrow> (\<exists>f. out = Inl f) \<or> cancelled te en)"

lemma settles_ends_well: "settles out en \<Longrightarrow> ends_well te out en"
  by (auto simp: settles_def ends_well_def)

lemma pass_wire:
  assumes "lawful te" "on_wire (en_chat en) resp" "process_pass te ledger b parts resp en = Some p"
  shows "case p of Done out en1 \<Rightarrow> ends_well te out en1 | Next resp2 en1 \<Rightarrow> on_wire (en_chat en1) resp2"
proof -
  let ?tcs = "re_calls resp"
  have wire: "wire_ok (en_chat en)" using assms(2) by (simp add: on_wire_def ready_def)
  have none: "\<not> has_pending_tool_calls (en_chat en)" if "?tcs = []"
    using assms(2) that by (simp add: on_wire_def ready_def call_ids_of_def)
  have guarded: "ends_well te out en1" if "guarded_non_dispatch te ?tcs reason d parts en = (out, en1)" for reason d out en1
    by (rule settles_ends_well [OF guarded_settles [OF wire that]])
  obtain rs i t en1 where batch: "run_batch te resp en = ((rs, i, t), en1)" by (metis prod.exhaust)
  show ?thesis
  proof (cases "is_all_empty_response resp \<or> ?tcs = [] \<or> cancelled te en \<or> check_limit (en_guard en) (int (length ?tcs)) \<noteq> None
      \<or> check_invalid_tool_limit (en_guard en) \<noteq> None")
    case True
    then show ?thesis using assms(3) wire none guarded
      by (auto simp: process_pass_def Let_def ends_well_def is_all_empty_response_def split: if_splits option.splits prod.splits)
  next
    case False
    then have tcs: "?tcs \<noteq> []" by simp
    then have waits: "awaits (en_chat en) (set (call_ids_of resp))"
      using assms(2) by (simp add: on_wire_def ready_def call_ids_of_def)
    note ran = batch_ids [OF assms(1) batch tcs assms(2) [unfolded on_wire_def, THEN conjunct1]]
    show ?thesis
    proof (cases "cancelled te en1")
      case True
      let ?en = "commit_results te rs en1"
      have p: "p = Done (Inr (handler_result [] False [])) ?en"
        using assms(3) False batch True ran(1) by (simp add: process_pass_def Let_def)
      have "wire_ok (en_chat ?en)"
      proof (cases "rs = []")
        case True
        with ran(2) wire show ?thesis by (simp add: commit_results_def)
      next
        case rs: False
        with ran waits show ?thesis using commit_settles(1) [OF _ _ rs, of en1 te] wire by simp
      qed
      with p True show ?thesis by (simp add: ends_well_def commit_cancelled)
    next
      case go: False
      with ran have ids: "map tr_id rs = call_ids_of resp" by blast
      with tcs have "rs \<noteq> []" by (auto simp: call_ids_of_def)
      have "continue_with te resp parts rs en1 = Some p"
        using assms(3) False batch go ran(1) by (simp add: process_pass_def Let_def)
      from continue_wire [OF assms(1) _ _ \<open>rs \<noteq> []\<close> this] ran(2) ids waits wire show ?thesis
        by (cases p) (auto intro: settles_ends_well)
    qed
  qed
qed

lemma loop_wire:
  assumes "lawful te"
  shows "on_wire (en_chat en) resp \<Longrightarrow> process_loop te ledger b parts resp en = Some (out, en') \<Longrightarrow> ends_well te out en'"
proof (induction "budget en" arbitrary: b parts resp en rule: less_induct)
  case less
  let ?parts = "parts @ (if re_text resp = [] then [] else [re_text resp])"
  obtain p where p: "process_pass te ledger b ?parts resp en = Some p" "in_budget en p"
    using pass_spent [OF lawfulD(1) [OF assms]] by blast
  note wire = pass_wire [OF assms less.prems(1) p(1)]
  show ?case
  proof (cases p)
    case (Done out1 en1)
    with p(1) less.prems(2) wire show ?thesis by (subst (asm) process_loop.simps) simp
  next
    case (Next resp2 en1)
    with p(2) have "budget en1 < budget en" by (simp add: in_budget_def)
    moreover have "process_loop te ledger True ?parts resp2 en1 = Some (out, en')"
      using p(1) Next less.prems(2) by (subst (asm) process_loop.simps) simp
    ultimately show ?thesis using less.hyps wire Next by simp
  qed
qed

lemma request_wire:
  assumes "lawful te" "wire_ok (en_chat en)"
    and "handle_request te en = Some (out, en')"
  shows "ends_well te out en'"
proof -
  obtain c w where drain: "te_drain te (en_chat en) (en_world en) = (c, w)" by fastforce
  define en2 where "en2 = (with_world w (with_chat c en))\<lparr>en_exec := fresh_executor (en_exec (with_world w (with_chat c en)))\<rparr>"
  define en3 where "en3 = with_world (te_housekeeping te (en_world en2)) en2"
  let ?m = "User_Text (te_content te (en_world en2))"
  have c: "wire_ok c" using lawfulD(8) [OF assms(1,2), of "en_world en"] drain by simp
  have chat: "en_chat en3 = c" by (simp add: en3_def en2_def)
  obtain r en4 where send: "send_request te ?m en3 = Some (r, en4)" by (rule send_request_returns [of te ?m en3])
  have req: "handle_request te en = (case r of Inl f \<Rightarrow> Some (Inl f, en4)
      | Inr resp \<Rightarrow> (case save_history te (settle_facts en4) of
          (Some f, en5) \<Rightarrow> Some (Inl f, en5) | (None, en5) \<Rightarrow> process_response te ''main'' resp en5))"
    using send by (simp add: handle_request_def drain Let_def en2_def en3_def split: sum.split)
  have sent: "case r of Inr resp \<Rightarrow> on_wire (en_chat en4) resp | Inl f \<Rightarrow> wire_ok (en_chat en4)"
    using send_request_text [OF assms(1) _ send] chat c by simp
  show ?thesis
  proof (cases r)
    case (Inl f)
    with req assms(3) sent show ?thesis by (auto simp: ends_well_def)
  next
    case (Inr resp)
    obtain f en5 where save: "save_history te (settle_facts en4) = (f, en5)" by fastforce
    have en5: "en_chat en5 = en_chat en4" using save_chat [OF save] by simp
    show ?thesis
    proof (cases f)
      case (Some g)
      with req Inr save assms(3) sent en5 show ?thesis by (auto simp: ends_well_def on_wire_def ready_def)
    next
      case None
      with req Inr save assms(3) have "process_loop te ''main'' False [] resp (en5\<lparr>en_exec := (en_exec en5)\<lparr>ex_errors := []\<rparr>\<rparr>) =
        Some (out, en')" by (simp add: process_response_def)
      from loop_wire [OF assms(1) _ this] sent Inr en5 show ?thesis by simp
    qed
  qed
qed


section \<open>The engine inside the recovery loop\<close>

text \<open>
  \<^verbatim>\<open>_handle_request\<close> as the recovery loop calls it: a poisoned interface is not used, and a session without a
  conversation starts one. \<open>te\<close> gives the surroundings of a request for its message.
\<close>

definition engine_handle ::
  "(message \<Rightarrow> 'x turn_env) \<Rightarrow> message \<Rightarrow> 'x engine core \<Rightarrow> (failure + dict option) \<times> 'x engine core" where
  "engine_handle te m k =
     (if co_poisoned k then
        (Inr (Some (handler_result [] True [''agent interface is unavailable''])),
         k\<lparr>co_world := ef (Ef_Logged ''request_skipped_poisoned_interface'' []) (co_world k)\<rparr>)
      else
        (case handle_request (te m)
            (with_chat (case co_chat k of None \<Rightarrow> init_chat | Some c \<Rightarrow> c) (co_world k)) of
           None \<Rightarrow> (Inr None, k)
         | Some (out, en) \<Rightarrow>
             ((case out of Inl f \<Rightarrow> Inl f | Inr d \<Rightarrow> Inr (Some d)),
              k\<lparr>co_chat := Some (en_chat en), co_world := en\<rparr>)))"

lemma engine_handle_keeps:
  assumes "\<And>m. lawful (te m)" "ae_handle env = engine_handle te"
  shows "engine_keeps env"
proof -
  have "sound (snd (engine_handle te m k))" if k: "sound k" for m and k
  proof -
    let ?en = "with_chat (case co_chat k of None \<Rightarrow> init_chat | Some c \<Rightarrow> c) (co_world k)"
    have "wire_ok init_chat" by (simp add: wire_ok_def init_chat_def)
    then have w: "wire_ok (en_chat ?en)" using k by (simp add: sound_def split: option.splits)
    show ?thesis
    proof (cases "handle_request (te m) ?en")
      case None
      with k show ?thesis by (simp add: engine_handle_def sound_def)
    next
      case (Some x)
      obtain out en where x: "x = (out, en)" by fastforce
      with request_wire [OF assms(1) w, of m out en] Some k show ?thesis
        by (simp add: engine_handle_def sound_def ends_well_def)
    qed
  qed
  with assms(2) show ?thesis by (simp add: engine_keeps_def)
qed


section \<open>Instances\<close>

lemma raising_single:
  assumes "\<And>tc w. \<exists>e. fst (fst (xe_dispatch env tc w)) = Inl e"
  shows "\<not> fst (snd (fst (execute_single env tc st)))"
proof -
  have "\<not> (\<exists>raw. fst (fst (xe_dispatch env c w)) = Inr raw)" for c w using assms [of c w] by auto
  then show ?thesis
    by (auto simp: execute_single_def Let_def split_beta fail_dispatch_def split: sum.split)
qed

lemma raising_sequential:
  assumes "\<And>tc w. \<exists>e. fst (fst (xe_dispatch env tc w)) = Inl e"
  shows "\<not> fst (snd (fst (execute_sequential env acc tcs st)))"
  using raising_single [OF assms] by (induction tcs arbitrary: acc st) (simp_all add: Let_def split_beta)

lemma block_text_error: "block_text b = Inl e \<Longrightarrow> \<exists>s. e = AttributeError s"
  by (cases b) auto

lemma flush_error: "fst (flush_pending_system now c) = Inl e \<Longrightarrow> \<exists>s. e = AttributeError s"
  by (auto simp: flush_pending_system_def Let_def ebind_def split: option.splits sum.splits list.splits if_splits
      dest: block_text_error)

lemma placeholder_result: "list_ex (is_placeholder i) bs \<Longrightarrow> results_of bs \<noteq> []"
proof (induction bs)
  case (Cons b bs)
  then show ?case by (cases b) auto
qed simp

lemma demo_provider: "plain_provider demo_adapter"
proof -
  have "\<not> anthropic_overflow f \<and> f_trim_stats f = None" if "fst (adapter_call demo_adapter c w) = Inl f" for c w f
  proof -
    obtain q d where fl: "flush_pending_system 0 c = (q, d)" by fastforce
    with that obtain e where "fst (flush_pending_system 0 c) = Inl e" "f = kernel_failure e"
      by (cases q) (simp_all add: adapter_call_def enforce_tool_pairing_def demo_adapter_def fl)
    moreover from flush_error [OF this(1)] obtain s where "e = AttributeError s" ..
    ultimately show ?thesis by (simp add: anthropic_overflow_def kernel_failure_def isinstance_def)
  qed
  moreover have "results_of (rp_blocks rp) = [] \<and> (\<forall>t\<in>set (calls_of (rp_blocks rp)). \<forall>e\<in>set (entries c). \<not> holds_placeholder (tc_id t) e)"
    if "fst (sa_create demo_adapter c w) = Inr rp" for c w rp
  proof -
    have "rp = demo_reply c" using that by (simp add: demo_adapter_def)
    moreover have "\<not> holds_placeholder i e" if "results_of (e_content e) = []" for i e
      using that placeholder_result by (auto simp: holds_placeholder_def)
    ultimately show ?thesis by (auto simp: demo_reply_def list_ex_iff)
  qed
  ultimately show ?thesis by (simp add: plain_provider_def)
qed

lemma demo_lawful: "lawful demo_turn"
proof -
  let ?xe = "sample_exec_env\<lparr>xe_parallel_safe := []\<rparr>"
  have xe: "te_exec demo_turn = ?xe" "te_run demo_turn = run_sequential ?xe" by (simp_all add: demo_turn_def Let_def)
  have seq: "\<not> fst (snd (fst (execute_sequential ?xe acc tcs st)))" for acc tcs st
    by (rule raising_sequential) (simp add: sample_exec_env_def)
  have "\<not> i \<and> (tcs \<noteq> [] \<longrightarrow> rs \<noteq> [])" if run: "run_sequential ?xe api tcs ex = ((rs, i, t), ex')" for api tcs ex rs i t ex'
  proof -
    obtain st1 where r: "execute_sequential ?xe [] tcs (ex\<lparr>ex_api_call_id := api\<rparr>) = ((rs, i, t), st1)"
      using run by (auto simp: run_sequential_def split: prod.splits)
    then have "\<not> i" using seq [of "[]" tcs "ex\<lparr>ex_api_call_id := api\<rparr>"] by simp
    moreover have "\<not> xe_cancelled ?xe w" for w by (simp add: sample_exec_env_def)
    ultimately show ?thesis using sequential_answers [OF r] by auto
  qed
  then have run: "\<not> i \<and> (tcs \<noteq> [] \<and> rs = [] \<longrightarrow> P)" if "te_run demo_turn api tcs ex = ((rs, i, t), ex')" for api tcs ex rs i t ex' P
    using that xe(2) by metis
  have "sa_hook (te_adapter demo_turn) = (\<lambda>c. c)" "te_adapter demo_turn = demo_adapter"
    "te_decorate demo_turn = (\<lambda>_ rs w. (rs, w))" "te_drain demo_turn = (\<lambda>c w. (c, w))"
    by (simp_all add: demo_turn_def Let_def demo_adapter_def)
  moreover have "tr_id (fst (fst (xe_make ?xe n v (Some i) w))) = i" for n v i w
    by (simp add: sample_exec_env_def nonempty_or_def)
  moreover have "\<forall>api tcs ex rs i t ex'. te_run demo_turn api tcs ex = ((rs, i, t), ex') \<longrightarrow> \<not> i \<and>
      (tcs \<noteq> [] \<and> rs = [] \<longrightarrow> xe_cancelled ?xe (snd (te_decorate demo_turn tcs rs (ex_world ex'))))"
    by (intro allI impI) (rule run)
  ultimately show ?thesis
    unfolding lawful_def xe(1) using demo_follows demo_provider by (simp, blast)
qed


definition demo_disk :: "'x spill_env" where
  "demo_disk = \<lparr>se_float = (\<lambda>_. ''0.0''), se_stamp = (\<lambda>_. ''now''), se_iso = (\<lambda>_. ''now''), se_hex = (\<lambda>_ w. (''00'', w)),
     se_write = (\<lambda>_ _ w. (None, w)), se_resolve = (\<lambda>_. ''p''), se_redact = id\<rparr>"

definition demo_recovery :: "nat engine aed_env" where
  "demo_recovery = \<lparr>ae_handle = engine_handle (\<lambda>_. demo_turn), ae_cancelled = (\<lambda>_. False), ae_shutdown_wait = (\<lambda>_ _. False),
     ae_rebuild = (\<lambda>c w. (None, c, w)), ae_spill = demo_disk, ae_workdir = None, ae_http_date = (\<lambda>_. None),
     ae_diagnostics = (\<lambda>_. []), ae_can_fallback = (\<lambda>_. False), ae_max_attempts = 3, ae_revive = id,
     ae_hex = ''0123456789abcdef'', ae_now = 9\<rparr>"

definition demo_idle :: "nat engine core" where
  "demo_idle = \<lparr>co_chat = Some init_chat, co_state = ACTIVE, co_asleep = False, co_poisoned = False,
     co_fallback_attempted = False, co_world = demo_agent_engine\<rparr>"


end
