(* ===== verification/Send_Rollback.thy ===== *)
theory Send_Rollback
  imports Turn_Engine_Wire TC_Inbox
begin

text \<open>
  What the rollback of a failed send takes back. The session reverts the entry it staged by dropping every
  trailing user entry, which is more or less than that entry when the inbox was drained into the conversation in
  between, or when the conversation already ended with answered tool calls.
\<close>

text \<open>The hook in front of the request, with one pair waiting in the inbox.\<close>

definition draining_hook :: "rat \<Rightarrow> tc_item \<Rightarrow> (string \<times> string) list \<Rightarrow> chat \<Rightarrow> chat" where
  "draining_hook now x tracker c = fst (snd (snd (drain_into_chat now [x] c tracker)))"

lemma draining_hook_entries:
  assumes "\<not> has_pending_tool_calls c" "\<not> it_replace x" "\<forall>e\<in>set (entries c). \<not> holds_placeholder (tr_id (it_result x)) e"
  obtains a u where "entries (draining_hook now x tracker c) = entries c @ [a, u]" "e_role a = Assistant"
    "e_content a = [ToolCallBlock (it_call x)]" "e_role u = User" "e_content u = [ToolResultBlock (it_result x)]"
    "pending_system (draining_hook now x tracker c) = pending_system c"
proof -
  let ?c1 = "chat_add_call now (it_call x) c"
  have c1: "entries ?c1 = entries c @ [(new_entry (next_id c) Assistant [ToolCallBlock (it_call x)] now [])
      \<lparr>e_model := None, e_provider := None, e_usage := []\<rparr>]" "pending_system ?c1 = pending_system c"
    by (simp_all add: chat_add_call_def add_assistant_message_def)
  have "place_results [it_result x] (entries ?c1) None = (entries ?c1, [it_result x], None)"
    using assms(3) c1 by (intro place_fresh) (auto simp: holds_placeholder_def)
  then have "draining_hook now x tracker c = append_entry now User [ToolResultBlock (it_result x)] [] id (?c1\<lparr>entries := entries ?c1\<rparr>)"
    using assms(1,2) by (simp add: draining_hook_def drain_into_chat_def drain_into_def tc_drain_def splice_item_def
        chat_add_result_def add_tool_results_def Let_def)
  with c1 that show thesis by simp
qed

text \<open>C27: A drained pair spoils the rollback of a failed continuation. While a batch's results are on their way to
  the provider, the hook splices a queued pair in behind them; when the request then fails, dropping the
  trailing user entries takes the pair's own result, not the batch's. The pair's call is now the open one, so the
  turn commits the batch's results again behind it: they are in the conversation twice, the second time as the
  answer to a call they do not belong to, and the conversation is no longer well paired.\<close>

theorem drained_pair_spoils_rollback:
  assumes wire: "wire_ok c" "awaits c (set (map tr_id rs))" "rs \<noteq> []" "pending_system c = None"
    and real: "\<forall>r\<in>set rs. \<not> tr_synthesized r"
    and item: "\<not> it_replace x" "tr_id (it_result x) = tc_id (it_call x)" "tc_id (it_call x) \<notin> set (map tr_id rs)"
      "\<forall>e\<in>set (entries c). \<not> holds_placeholder (tc_id (it_call x)) e"
    and hook: "sa_hook ad = draining_hook now x tracker"
    and fails: "\<forall>c w. \<exists>f. fst (sa_create ad c w) = Inl f \<and> \<not> anthropic_overflow f \<and> f_trim_stats f = None"
    and send: "adapter_send ad (Tool_Results rs) c w = Some (q, c', w')"
  shows "\<exists>c'' u a u'. restore_tool_results now rs (Some c') = (True, Some c'') \<and> entries c'' = entries c @ [u, a, u'] \<and>
    results_of (e_content u) = rs \<and> calls_of (e_content a) = [it_call x] \<and> results_of (e_content u') = rs \<and> \<not> wire_ok c''"
proof -
  define c1 where "c1 = snd (add_tool_results (sa_now ad) rs c)"
  note answered = awaits_results [OF wire(1-3), of "sa_now ad"]
  obtain u where u: "entries c1 = entries c @ [u]" "is_user u" "e_content u = map ToolResultBlock rs" "pending_system c1 = None"
    using answered(1) wire(4) by (simp add: c1_def is_user_def)
  have c1: "wire_ok c1" "\<not> has_pending_tool_calls c1" using answered(2,3) by (simp_all add: c1_def)
  have other: "\<not> holds_placeholder i u" for i using u(3) real by (auto simp: holds_placeholder_def list_ex_iff)
  define c2 where "c2 = draining_hook now x tracker c1"
  obtain a v where c2: "entries c2 = entries c1 @ [a, v]" "e_role a = Assistant" "e_content a = [ToolCallBlock (it_call x)]"
      "e_role v = User" "e_content v = [ToolResultBlock (it_result x)]" "pending_system c2 = None"
    using draining_hook_entries [OF c1(2) item(1), of now tracker] item(2,4) u other unfolding c2_def by (metis Un_iff insert_iff list.set set_append empty_iff)
  have av: "has_calls a" "opens a" "answers a v"
    using c2 item(2) by (auto simp: has_calls_iff opens_def answers_def is_result_entry_def results_only_def answers_ids_def)
  have "well_paired (entries c2)"
    using c1 av by (simp add: c2(1) wire_ok_def has_pending_tool_calls_def well_paired_append)
  then have w2: "wire_ok c2" by (simp add: wire_ok_def)
  obtain f where f: "fst (adapter_call ad c2 w) = Inl f" "\<not> anthropic_overflow f" "f_trim_stats f = None"
    using call_same(2) [OF w2 c2(6), of ad w] fails by metis
  obtain w2 where call: "adapter_call ad c2 w = (Inl f, c2, w2)"
    using f(1) call_same(1) [OF w2 c2(6), of ad w] by (metis prod.collapse)
  have "run_with_overflow_recovery anthropic_overflow (adapter_call ad) c2 w = Some (Inl f, c2, w2)"
    unfolding run_with_overflow_recovery_def by (subst overflow_loop.simps) (simp add: call f)
  then have c': "c' = snd (drop_trailing is_user c2)"
    using send hook f(3) by (auto simp: adapter_send_def stage_message_def c1_def [symmetric] c2_def [symmetric] Let_def
        inject_overflow_notice_after_error_def)
  have e': "entries c' = entries c @ [u, a]" using drop_users_answered [of "entries c @ [u, a]" v c2] c2 u(1) av(1)
    by (simp add: c' is_user_def tail_pending_def)
  have pend: "has_pending_tool_calls c'" using e' av(1) by (simp add: has_pending_tool_calls_def tail_pending_def)
  have "\<forall>r\<in>set rs. \<forall>e\<in>set (entries c'). \<not> holds_placeholder (tr_id r) e"
    using wire(2) other c2(2) e' by (auto simp: awaits_def holds_placeholder_def)
  from place_fresh [OF this] have add: "add_tool_results now rs c' =
      (Some (length (entries c')), append_entry now User (map ToolResultBlock rs) [] id (c'\<lparr>entries := entries c'\<rparr>))"
    using wire(3) by (simp add: add_tool_results_def)
  define c'' where "c'' = snd (add_tool_results now rs c')"
  obtain u' where u': "entries c'' = entries c @ [u, a, u']" "e_role u' = User" "e_content u' = map ToolResultBlock rs"
    using add e' by (simp add: c''_def)
  have "\<not> answers a u'"
    using answers_map [OF u'(2,3) wire(3), of a] c2(3) item(3) by (auto simp: answers_ids_def)
  moreover have "tail_pending (entries c @ [u, a])" using av(1) by (simp add: tail_pending_def)
  moreover have "well_paired (entries c @ [u, a])" using w2 c2(1) u(1) well_paired_prefix_append [of "entries c @ [u, a]" "[v]"]
    by (simp add: wire_ok_def)
  ultimately have "\<not> wire_ok c''"
    using well_paired_answer [of "entries c @ [u, a]" u'] u'(1) by (simp add: wire_ok_def)
  moreover have "restore_tool_results now rs (Some c') = (True, Some c'')"
    using wire(3) pend by (simp add: restore_tool_results_def c''_def)
  ultimately show ?thesis using u(3) c2(3) u' by (intro exI [of _ c''] exI [of _ u] exI [of _ a] exI [of _ u']) simp
qed

text \<open>A failed request takes back more than it brought. When the conversation ends with answered tool calls (the
  last turn was cancelled after its tools, went idle, or failed and had its results restored) and the next
  request fails, the rollback drops the answers together with the request's text: the tool calls that had been
  answered are open again.\<close>

theorem failed_request_reopens_calls:
  assumes "wire_ok c" "entries c = pre @ [a, u]" "has_calls a" "is_user u" "pending_system c = None"
    and "sa_hook ad = (\<lambda>c. c)"
    and fails: "\<forall>c w. \<exists>f. fst (sa_create ad c w) = Inl f \<and> \<not> anthropic_overflow f \<and> f_trim_stats f = None"
    and send: "adapter_send ad (User_Text t) c w = Some (q, c', w')"
  shows "entries c' = pre @ [a] \<and> has_pending_tool_calls c'"
proof -
  define c1 where "c1 = append_entry (sa_now ad) User [TextBlock t] [] id c"
  have settled: "\<not> has_pending_tool_calls c" using assms(2,4)
    by (simp add: has_pending_tool_calls_def tail_pending_def has_calls_def is_user_def)
  then have staged: "stage_message (sa_now ad) (User_Text t) c = (Inr (), c1)"
    by (simp add: stage_message_def add_user_message_def c1_def)
  have w1: "wire_ok c1" unfolding c1_def using assms(1) settled by (auto intro: wire_append simp: opens_def has_calls_def)
  have p1: "pending_system c1 = None" using assms(5) by (simp add: c1_def)
  obtain f where f: "fst (adapter_call ad c1 w) = Inl f" "\<not> anthropic_overflow f" "f_trim_stats f = None"
    using call_same(2) [OF w1 p1, of ad w] fails by metis
  obtain w2 where call: "adapter_call ad c1 w = (Inl f, c1, w2)"
    using f(1) call_same(1) [OF w1 p1, of ad w] by (metis prod.collapse)
  have "run_with_overflow_recovery anthropic_overflow (adapter_call ad) c1 w = Some (Inl f, c1, w2)"
    unfolding run_with_overflow_recovery_def by (subst overflow_loop.simps) (simp add: call f)
  then have "c' = snd (drop_trailing is_user c1)"
    using send assms(6) f(3) staged by (auto simp: adapter_send_def Let_def inject_overflow_notice_after_error_def)
  then show ?thesis using assms(2-4)
    by (simp add: drop_trailing_def c1_def is_user_def has_calls_def has_pending_tool_calls_def tail_pending_def)
qed

section \<open>Instances\<close>

definition failing :: "nat adapter" where
  "failing = \<lparr>sa_hook = (\<lambda>c. c), sa_create = (\<lambda>c w. (Inl demo_timeout, w)), sa_model = ''m'', sa_now = 0\<rparr>"

definition waiting_pair :: tc_item where
  "waiting_pair = \<lparr>it_call = \<lparr>tc_id = ''n1'', tc_name = ''system'', tc_args = []\<rparr>,
     it_result = \<lparr>tr_id = ''n1'', tr_name = ''system'', tr_content = PStr ''mail'', tr_metadata = [], tr_synthesized = True,
       tr_agent_pending = None\<rparr>, it_source = ''mail'', it_enqueued_at = 0, it_coalesce = False, it_replace = False\<rparr>"

lemma demo_timeout_plain: "\<not> anthropic_overflow demo_timeout \<and> f_trim_stats demo_timeout = None"
  by (simp add: anthropic_overflow_def demo_timeout_def isinstance_def)

lemma sample_awaits: "awaits sample_before (set (map tr_id [Overflow_Recovery.sample_result]))" "pending_system sample_before = None"
  using sample_wire(3)
  by (simp_all add: awaits_def sample_before_def init_chat_def sample_entry_def new_entry_def Overflow_Recovery.sample_call_def
      Overflow_Recovery.sample_result_def answers_ids_def holds_placeholder_def)

lemma drained_pair_spoils_rollback_witness:
  "\<exists>q c' w' c'' u a u'. adapter_send (failing\<lparr>sa_hook := draining_hook 0 waiting_pair []\<rparr>)
       (Tool_Results [Overflow_Recovery.sample_result]) sample_before 0 = Some (q, c', w') \<and>
     restore_tool_results 0 [Overflow_Recovery.sample_result] (Some c') = (True, Some c'') \<and>
     entries c'' = entries sample_before @ [u, a, u'] \<and> \<not> wire_ok c''"
proof -
  let ?ad = "failing\<lparr>sa_hook := draining_hook 0 waiting_pair []\<rparr>"
  obtain q c' w' where send: "adapter_send ?ad (Tool_Results [Overflow_Recovery.sample_result]) sample_before 0 = Some (q, c', w')"
    using adapter_send_returns [of ?ad "Tool_Results [Overflow_Recovery.sample_result]" sample_before 0] by (metis not_None_eq prod_cases3)
  have "\<exists>c'' u a u'. restore_tool_results 0 [Overflow_Recovery.sample_result] (Some c') = (True, Some c'') \<and>
    entries c'' = entries sample_before @ [u, a, u'] \<and> results_of (e_content u) = [Overflow_Recovery.sample_result] \<and>
    calls_of (e_content a) = [it_call waiting_pair] \<and> results_of (e_content u') = [Overflow_Recovery.sample_result] \<and> \<not> wire_ok c''"
    by (rule drained_pair_spoils_rollback [OF sample_wire(1) sample_awaits(1) _ sample_awaits(2) _ _ _ _ _ _ _ send])
      (simp_all add: Overflow_Recovery.sample_result_def waiting_pair_def sample_before_def init_chat_def sample_entry_def
        new_entry_def holds_placeholder_def failing_def demo_timeout_plain)
  with send show ?thesis by blast
qed

lemma failed_request_reopens_calls_witness:
  "\<exists>q c' w'. adapter_send failing (User_Text ''go on'') sample_sent 0 = Some (q, c', w') \<and>
     entries c' = entries sample_before \<and> has_pending_tool_calls c'"
proof -
  obtain q c' w' where send: "adapter_send failing (User_Text ''go on'') sample_sent 0 = Some (q, c', w')"
    using adapter_send_returns [of failing "User_Text ''go on''" sample_sent 0] by (metis not_None_eq prod_cases3)
  have add: "add_tool_results 0 [Overflow_Recovery.sample_result] sample_before =
      (Some (length (entries sample_before)), append_entry 0 User (map ToolResultBlock [Overflow_Recovery.sample_result]) [] id
        (sample_before\<lparr>entries := entries sample_before\<rparr>))"
    by (rule awaits_results(1) [OF sample_wire(1) sample_awaits(1)]) simp
  obtain u where u: "entries sample_sent = [sample_entry 0 User [TextBlock ''hello''], sample_entry 1 Assistant [TextBlock ''hi'']]
      @ [sample_entry 2 Assistant [ToolCallBlock Overflow_Recovery.sample_call], u]" "is_user u"
    using add by (simp add: sample_sent_def is_user_def) (simp add: sample_before_def)
  have "entries c' = [sample_entry 0 User [TextBlock ''hello''], sample_entry 1 Assistant [TextBlock ''hi'']]
      @ [sample_entry 2 Assistant [ToolCallBlock Overflow_Recovery.sample_call]] \<and> has_pending_tool_calls c'"
    by (rule failed_request_reopens_calls [OF sample_wire(2) u(1) _ u(2) _ _ _ send])
      (use add sample_awaits(2) in \<open>simp_all add: sample_sent_def failing_def demo_timeout_plain has_calls_def sample_entry_def new_entry_def\<close>)
  with send show ?thesis by (simp add: sample_before_def)
qed

text \<open>
  A list where the action of a channel tool is expected ends the turn with a \<^verbatim>\<open>TypeError\<close> after the whole batch has
  run: the conversation is as it was before, so the calls are open and none of the results is in it.
\<close>

lemma unhashable_action_drops_batch:
  assumes "re_calls resp = tc # tcs" "cr_name tc \<in> set SEND_TOOLS" "dgetd (cr_args tc) ''action'' (PStr []) = PList xs"
  shows "continue_with te resp parts rs en = Some (Done (Inl (kernel_failure (TypeError ''unhashable type: list''))) en)"
proof -
  have "check_external_send te (tc # tcs) rs t = (Inl (TypeError ''unhashable type: list''), t)" for t
    using assms(2,3) by (simp add: check_send_def in_names_def)
  with assms(1) show ?thesis by (simp add: continue_with_def)
qed

end
