(* ===== verification/Result_Recovery.thy ===== *)
theory Result_Recovery
  imports Result_Artifacts Chat_Properties
begin

text \<open>
  Recovery of tool results from the event log (\<^verbatim>\<open>kernel/tool_result_recovery.py\<close>): the bounded reader that
  walks \<^verbatim>\<open>logs/events.jsonl\<close> from its end in chunks, the strict match of an event with a pending call, and
  the lookup that the healing of pending calls asks first (\<^verbatim>\<open>kernel/base_agent/__init__.py\<close>).

  A bs is a list of bytes. Decoding a line (with the \<^verbatim>\<open>strip\<close> after it) and \<^verbatim>\<open>json.loads\<close> are arguments.
\<close>

definition DEFAULT_MAX_SCAN_BYTES :: nat where "DEFAULT_MAX_SCAN_BYTES = 4 * 1024 * 1024"

definition DEFAULT_MAX_SCAN_EVENTS :: nat where "DEFAULT_MAX_SCAN_EVENTS = 10000"

definition REVERSE_READ_CHUNK :: nat where "REVERSE_READ_CHUNK = 64 * 1024"

section \<open>Reading from the end\<close>

text \<open>The size of the next read, and its lines together with what is carried over from the read before.\<close>

definition read_size :: "nat \<Rightarrow> nat \<Rightarrow> nat \<Rightarrow> nat \<Rightarrow> nat" where
  "read_size chunk budget pos scanned = min chunk (min pos (budget - scanned))"

definition chunk_lines :: "string \<Rightarrow> nat \<Rightarrow> nat \<Rightarrow> string \<Rightarrow> string list" where
  "chunk_lines bs pos n carry = split_char (CHR 0x0A) (take n (drop (pos - n) bs) @ carry)"

text \<open>
  \<^verbatim>\<open>_iter_jsonl_lines_reverse\<close>: the raw lines in the order they are yielded, each with the bytes read so far.
  \<open>carry\<close> is the beginning of a line whose rest was in the chunk before.
\<close>

function lines_back :: "nat \<Rightarrow> nat \<Rightarrow> string \<Rightarrow> nat \<Rightarrow> nat \<Rightarrow> string \<Rightarrow> (string \<times> nat) list" where
  "lines_back chunk budget bs pos scanned carry =
     (let n = read_size chunk budget pos scanned; parts = chunk_lines bs pos n carry in
      if n = 0 then []
      else if n < pos then
        map (\<lambda>l. (l, scanned + n)) (filter (\<lambda>l. l \<noteq> []) (rev (tl parts)))
        @ lines_back chunk budget bs (pos - n) (scanned + n) (hd parts)
      else map (\<lambda>l. (l, scanned + n)) (filter (\<lambda>l. l \<noteq> []) (rev parts)))"
  by pat_completeness auto
termination
  by (relation "measure (\<lambda>(chunk, budget, bs, pos, scanned, carry). pos)") simp_all

declare lines_back.simps [simp del]

text \<open>What the reader is to yield: the lines of the last \<open>budget\<close> bytes, newest first, without a first line cut off.\<close>

definition tail_lines :: "nat \<Rightarrow> string \<Rightarrow> string list" where
  "tail_lines budget bs =
     filter (\<lambda>l. l \<noteq> []) (rev (if length bs \<le> budget then split_char (CHR 0x0A) bs
       else tl (split_char (CHR 0x0A) (last_n budget bs))))"

lemma split_char_append:
  "split_char c (xs @ ys) =
     butlast (split_char c xs) @ [last (split_char c xs) @ hd (split_char c ys)] @ tl (split_char c ys)"
proof (induction xs)
  case Nil
  then show ?case using split_char_nonempty [of c ys] by simp
next
  case (Cons x xs)
  obtain l ls where l: "split_char c xs = l # ls" using split_char_nonempty [of c xs] by (metis neq_Nil_conv)
  then show ?case using Cons by (cases ls) auto
qed

text \<open>The lines of a text whose first line is replaced by its split with more text in front.\<close>

lemma split_char_front:
  "split_char c (xs @ ys) = split_char c (xs @ hd (split_char c ys)) @ tl (split_char c ys)"
proof -
  have "c \<notin> set (hd (split_char c ys))" by (simp add: hd_split_char before_char_not_in)
  then have "split_char c (hd (split_char c ys)) = [hd (split_char c ys)]" for ys
    by (simp add: hd_split_char) (induction ys, auto simp: before_char_def)
  then show ?thesis by (subst (1 2) split_char_append) simp
qed

definition whole_lines :: "string \<Rightarrow> nat \<Rightarrow> string list" where
  "whole_lines bs pos = filter (\<lambda>l. l \<noteq> []) (rev (tl (split_char (CHR 0x0A) (drop pos bs))))"

lemma chunk_lines_split:
  assumes "n \<le> pos" "pos \<le> length bs"
  shows "split_char (CHR 0x0A) (drop (pos - n) bs) =
    chunk_lines bs pos n (hd (split_char (CHR 0x0A) (drop pos bs))) @ tl (split_char (CHR 0x0A) (drop pos bs))"
proof -
  have "drop (pos - n) bs = take n (drop (pos - n) bs) @ drop pos bs"
    using assms by (metis append_take_drop_id drop_drop le_add_diff_inverse)
  then show ?thesis using split_char_front by (metis chunk_lines_def)
qed

lemma lines_back_rest:
  assumes "0 < chunk"
  shows "0 < pos \<Longrightarrow> pos \<le> length bs \<Longrightarrow> length bs - pos \<le> budget \<Longrightarrow>
    whole_lines bs pos @ map fst (lines_back chunk budget bs pos (length bs - pos) (hd (split_char (CHR 0x0A) (drop pos bs)))) =
    tail_lines budget bs"
proof (induction pos rule: less_induct)
  case (less pos)
  let ?scanned = "length bs - pos" and ?carry = "hd (split_char (CHR 0x0A) (drop pos bs))"
  let ?n = "read_size chunk budget pos ?scanned"
  let ?parts = "chunk_lines bs pos ?n ?carry"
  have ne: "?parts \<noteq> []" by (simp add: chunk_lines_def split_char_nonempty)
  consider (stop) "?n = 0" | (more) "0 < ?n" "?n < pos" | (last) "0 < ?n" "?n = pos"
    unfolding read_size_def by linarith
  then show ?case
  proof cases
    case stop
    then have "budget = ?scanned" using assms less.prems by (auto simp: read_size_def)
    then have "\<not> length bs \<le> budget" "last_n budget bs = drop pos bs" using less.prems by (auto simp: last_n_def)
    with stop show ?thesis by (subst lines_back.simps) (simp add: tail_lines_def whole_lines_def Let_def)
  next
    case more
    have split: "split_char (CHR 0x0A) (drop (pos - ?n) bs) = ?parts @ tl (split_char (CHR 0x0A) (drop pos bs))"
      by (rule chunk_lines_split) (use more less.prems in auto)
    have "pos - ?n < pos" "0 < pos - ?n" "pos - ?n \<le> length bs" "length bs - (pos - ?n) \<le> budget"
      using more less.prems by (auto simp: read_size_def)
    note IH = less.IH [OF this]
    have "whole_lines bs (pos - ?n) = whole_lines bs pos @ filter (\<lambda>l. l \<noteq> []) (rev (tl ?parts))"
      using ne by (simp add: whole_lines_def split)
    moreover have "length bs - (pos - ?n) = ?scanned + ?n" using more less.prems by simp
    moreover have "hd (split_char (CHR 0x0A) (drop (pos - ?n) bs)) = hd ?parts" using ne by (simp add: split)
    ultimately have "whole_lines bs pos @ filter (\<lambda>l. l \<noteq> []) (rev (tl ?parts))
        @ map fst (lines_back chunk budget bs (pos - ?n) (?scanned + ?n) (hd ?parts)) = tail_lines budget bs"
      using IH by simp
    with more show ?thesis by (subst lines_back.simps) (simp add: Let_def comp_def)
  next
    case last
    have split: "split_char (CHR 0x0A) bs = ?parts @ tl (split_char (CHR 0x0A) (drop pos bs))"
      using chunk_lines_split [where n = ?n and pos = pos and bs = bs] last less.prems by simp
    have "length bs \<le> budget" using last less.prems by (auto simp: read_size_def)
    then have "tail_lines budget bs = whole_lines bs pos @ filter (\<lambda>l. l \<noteq> []) (rev ?parts)"
      by (simp add: tail_lines_def whole_lines_def split)
    with last show ?thesis by (subst lines_back.simps) (simp add: Let_def comp_def)
  qed
qed

text \<open>Walking the log in chunks of any size yields the lines of its last bytes.\<close>

lemma chunked_reader_exact:
  assumes "0 < chunk"
  shows "map fst (lines_back chunk budget bs (length bs) 0 []) = tail_lines budget bs"
proof (cases "bs = []")
  case True
  then show ?thesis by (subst lines_back.simps) (simp add: read_size_def tail_lines_def)
next
  case False
  then show ?thesis using lines_back_rest [OF assms, where pos = "length bs" and bs = bs and budget = budget] by (simp add: whole_lines_def)
qed

section \<open>Matching an event\<close>

text \<open>What a line of the log tells: the result, and what a synthetic recovery record adds.\<close>

record recovered_event =
  rv_result :: py
  rv_ts :: py
  rv_tool_name :: py
  rv_metadata :: dict
  rv_synthesized :: bool
  rv_redacted :: bool

text \<open>The event fields; a lookalike of the synthetic record without its provenance keeps the defaults.\<close>

definition event_extension :: "dict \<Rightarrow> recovered_event \<Rightarrow> recovered_event" where
  "event_extension e r =
     (if dget e ''origin'' = Some (PStr ''kernel_notification_sync'') \<and> dget e ''tool_name'' = Some (PStr ''notification'')
      then r\<lparr>rv_metadata := (case dget e ''result_metadata'' of Some (PDict d) \<Rightarrow> d | _ \<Rightarrow> []),
             rv_synthesized := dget e ''synthesized'' = Some (PBool True),
             rv_redacted := dget e ''redacted'' = Some (PBool True)\<rparr>
      else r)"

definition match_event :: "(string \<Rightarrow> py option) \<Rightarrow> string \<Rightarrow> string \<Rightarrow> string \<Rightarrow> recovered_event option" where
  "match_event loads i name line =
     (if \<not> sublist i line \<or> \<not> sublist ''tool_result'' line then None
      else
        (case loads line of
           Some (PDict e) \<Rightarrow>
             if dgetd e ''type'' (dgetd e ''event'' PNone) \<noteq> PStr ''tool_result'' then None
             else if dget e ''tool_call_id'' \<noteq> Some (PStr i) then None
             else if dgetd e ''tool_name'' PNone \<noteq> PNone \<and> dget e ''tool_name'' \<noteq> Some (PStr name) then None
             else
               (case dget e ''result'' of
                  None \<Rightarrow> None
                | Some v \<Rightarrow> Some (event_extension e
                    \<lparr>rv_result = v, rv_ts = dgetd e ''ts'' PNone, rv_tool_name = dgetd e ''tool_name'' PNone,
                     rv_metadata = [], rv_synthesized = False, rv_redacted = False\<rparr>))
         | _ \<Rightarrow> None))"

text \<open>
  \<^verbatim>\<open>_find_latest_tool_result_event\<close>: the first match with the events and bytes scanned by then; \<open>max_events\<close> of 0
  is no bound. A line that does not decode is skipped by the reader and counts for nothing.
\<close>

fun scan_events ::
  "(string \<Rightarrow> string option) \<Rightarrow> (string \<Rightarrow> py option) \<Rightarrow> string \<Rightarrow> string \<Rightarrow> nat \<Rightarrow> nat \<Rightarrow> (string \<times> nat) list \<Rightarrow>
   (recovered_event \<times> nat \<times> nat) option"
where
  "scan_events decode loads i name max_events k [] = None"
| "scan_events decode loads i name max_events k ((raw, bytes) # ls) =
     (case decode raw of
        None \<Rightarrow> scan_events decode loads i name max_events k ls
      | Some line \<Rightarrow>
          if 0 < max_events \<and> max_events \<le> k then None
          else
            (case match_event loads i name line of
               Some r \<Rightarrow> Some (r, k + 1, bytes)
             | None \<Rightarrow> scan_events decode loads i name max_events (k + 1) ls))"

definition find_latest_tool_result_event ::
  "(string \<Rightarrow> string option) \<Rightarrow> (string \<Rightarrow> py option) \<Rightarrow> nat \<Rightarrow> nat \<Rightarrow> string \<Rightarrow> string \<Rightarrow> string option \<Rightarrow>
   (recovered_event \<times> nat \<times> nat) option" where
  "find_latest_tool_result_event decode loads max_bytes max_events i name content =
     (case content of
        None \<Rightarrow> None
      | Some bytes \<Rightarrow>
          if i = [] then None
          else scan_events decode loads i name max_events 0
            (lines_back REVERSE_READ_CHUNK max_bytes bytes (length bytes) 0 []))"

section \<open>Recovering a result\<close>

datatype replay_log = Replay_Failed string | Replay_Miss | Replayed bool

definition recovery_request :: "path option \<Rightarrow> string \<Rightarrow> string \<Rightarrow> spill_request" where
  "recovery_request wd i name =
     \<lparr>sr_max_chars = PREVENTIVE_MAX_CHARS, sr_tool_name = Some name, sr_tool_call_id = Some i, sr_working_dir = wd,
      sr_source = ''recovered_from_events''\<rparr>"

text \<open>\<^verbatim>\<open>recover_tool_result_block_from_events\<close>; \<open>source\<close> is the log, absent or unreadable. The log lines' fields are left out.\<close>

definition recover_tool_result ::
  "'w spill_env \<Rightarrow> path option \<Rightarrow> (string \<Rightarrow> string option) \<Rightarrow> (string \<Rightarrow> py option) \<Rightarrow> exc + string option \<Rightarrow>
   string \<Rightarrow> string \<Rightarrow> 'w \<Rightarrow> tool_result option \<times> replay_log \<times> 'w" where
  "recover_tool_result env wd decode loads source i name w =
     (case source of
        Inl e \<Rightarrow> (None, Replay_Failed ''scan'', w)
      | Inr content \<Rightarrow>
          (case find_latest_tool_result_event decode loads DEFAULT_MAX_SCAN_BYTES DEFAULT_MAX_SCAN_EVENTS i name content of
             None \<Rightarrow> (None, Replay_Miss, w)
           | Some (r, _, _) \<Rightarrow>
               (case spill_oversized_result env (recovery_request wd i name) (rv_result r) w of
                  (capped, w1) \<Rightarrow>
                    (Some \<lparr>tr_id = i, tr_name = name,
                       tr_content = (case capped of None \<Rightarrow> rv_result r | Some m \<Rightarrow> PDict m),
                       tr_metadata = (if rv_redacted r then dput ''redacted'' (PBool True) (rv_metadata r) else rv_metadata r),
                       tr_synthesized = rv_synthesized r, tr_agent_pending = None\<rparr>, Replayed (capped \<noteq> None), w1))))"

text \<open>\<^verbatim>\<open>_recover_pending_tool_result\<close>: the block, and whether the committed notification fingerprints are reset.\<close>

definition recover_pending_tool_result where
  "recover_pending_tool_result env wd decode loads source t w =
     (case recover_tool_result env wd decode loads source (tc_id t) (tc_name t) w of
        (block, _, w1) \<Rightarrow>
          (block, (case block of None \<Rightarrow> False
             | Some r \<Rightarrow> tr_synthesized r \<and> dget (tr_metadata r) ''redacted'' = Some (PBool True)), w1))"

text \<open>The lookup as the conversation holds it; the disk between two lookups is the same.\<close>

definition event_log_lookup ::
  "'w spill_env \<Rightarrow> path option \<Rightarrow> (string \<Rightarrow> string option) \<Rightarrow> (string \<Rightarrow> py option) \<Rightarrow> exc + string option \<Rightarrow> 'w \<Rightarrow> recovery" where
  "event_log_lookup env wd decode loads source w t = Inr (fst (recover_pending_tool_result env wd decode loads source t w))"

section \<open>The newest event in the window\<close>

definition scan_window :: "(string \<Rightarrow> string option) \<Rightarrow> nat \<Rightarrow> nat \<Rightarrow> string \<Rightarrow> string list" where
  "scan_window decode max_bytes max_events bs =
     (let ls = List.map_filter decode (tail_lines max_bytes bs) in if max_events = 0 then ls else take max_events ls)"

definition newest_event ::
  "(string \<Rightarrow> string option) \<Rightarrow> (string \<Rightarrow> py option) \<Rightarrow> nat \<Rightarrow> nat \<Rightarrow> string \<Rightarrow> string \<Rightarrow> string \<Rightarrow> recovered_event option" where
  "newest_event decode loads max_bytes max_events i name bs =
     (case List.map_filter (match_event loads i name) (scan_window decode max_bytes max_events bs) of [] \<Rightarrow> None | r # _ \<Rightarrow> Some r)"

lemma scan_events_newest:
  "map_option fst (scan_events decode loads i name m k ls) =
     (case List.map_filter (match_event loads i name)
        (let xs = List.map_filter decode (map fst ls) in if m = 0 then xs else take (m - k) xs) of [] \<Rightarrow> None | r # _ \<Rightarrow> Some r)"
proof (induction ls arbitrary: k)
  case Nil
  then show ?case by (simp add: map_filter_simps)
next
  case (Cons l ls)
  obtain raw n where l: "l = (raw, n)" by fastforce
  show ?case
  proof (cases "decode raw")
    case None
    with Cons [of k] show ?thesis by (simp add: l map_filter_simps)
  next
    case (Some line)
    show ?thesis
    proof (cases "0 < m \<and> m \<le> k")
      case True
      with Some show ?thesis by (simp add: l map_filter_simps)
    next
      case False
      then have "m \<noteq> 0 \<Longrightarrow> m - k = Suc (m - Suc k)" by auto
      with Some False Cons [of "k + 1"] show ?thesis
        by (cases "match_event loads i name line") (auto simp: l map_filter_simps Let_def)
    qed
  qed
qed

lemma find_latest_newest:
  assumes "i \<noteq> []"
  shows "map_option fst (find_latest_tool_result_event decode loads max_bytes max_events i name (Some bs)) =
    newest_event decode loads max_bytes max_events i name bs"
  using assms chunked_reader_exact [of REVERSE_READ_CHUNK max_bytes bs]
  by (simp add: find_latest_tool_result_event_def scan_events_newest newest_event_def scan_window_def REVERSE_READ_CHUNK_def Let_def)

text \<open>C18: The bounded scan for a result is a search for the newest event. Whatever the chunk boundaries, the walk from
  the end of the log finds exactly the newest \<^verbatim>\<open>tool_result\<close> event of the call among the lines of the last bytes
  (4 MiB) and the last events (10000) it may read, and finds nothing only if there is none.\<close>

theorem recovery_finds_newest:
  assumes "i \<noteq> []"
  shows "map_option fst (find_latest_tool_result_event decode loads max_bytes max_events i name (Some bs)) =
    newest_event decode loads max_bytes max_events i name bs"
  by (rule find_latest_newest [OF assms])

text \<open>What healing a call from the log gives: the result of its newest event where there is one, else the placeholder.\<close>

definition healed_from ::
  "(string \<Rightarrow> string option) \<Rightarrow> (string \<Rightarrow> py option) \<Rightarrow> (rat \<Rightarrow> string) \<Rightarrow> string \<Rightarrow> tool_call \<Rightarrow> tool_result \<Rightarrow> bool" where
  "healed_from decode loads fr bs t r \<longleftrightarrow> tr_id r = tc_id t \<and> tr_name r = tc_name t \<and>
     (case newest_event decode loads DEFAULT_MAX_SCAN_BYTES DEFAULT_MAX_SCAN_EVENTS (tc_id t) (tc_name t) bs of
        None \<Rightarrow> tr_synthesized r
      | Some e \<Rightarrow> tr_synthesized r = rv_synthesized e \<and>
          (serialized_len fr (rv_result e) \<le> PREVENTIVE_MAX_CHARS \<longrightarrow> tr_content r = rv_result e))"

lemma lookup_newest:
  assumes "tc_id t \<noteq> []"
  shows "case newest_event decode loads DEFAULT_MAX_SCAN_BYTES DEFAULT_MAX_SCAN_EVENTS (tc_id t) (tc_name t) bs of
      None \<Rightarrow> event_log_lookup env wd decode loads (Inr (Some bs)) w t = Inr None
    | Some e \<Rightarrow> \<exists>r. event_log_lookup env wd decode loads (Inr (Some bs)) w t = Inr (Some r) \<and> tr_id r = tc_id t \<and>
        tr_name r = tc_name t \<and> tr_synthesized r = rv_synthesized e \<and>
        (serialized_len (se_float env) (rv_result e) \<le> PREVENTIVE_MAX_CHARS \<longrightarrow> tr_content r = rv_result e)"
proof -
  let ?find = "find_latest_tool_result_event decode loads DEFAULT_MAX_SCAN_BYTES DEFAULT_MAX_SCAN_EVENTS (tc_id t) (tc_name t) (Some bs)"
  note eq = find_latest_newest [OF assms, where decode = decode and loads = loads and name = "tc_name t" and bs = bs
    and max_bytes = DEFAULT_MAX_SCAN_BYTES and max_events = DEFAULT_MAX_SCAN_EVENTS]
  show ?thesis
  proof (cases ?find)
    case None
    then show ?thesis using eq
      by (simp add: event_log_lookup_def recover_pending_tool_result_def recover_tool_result_def)
  next
    case (Some x)
    obtain e n k where x: "x = (e, n, k)" by (metis prod_cases3)
    obtain capped w1 where spill: "spill_oversized_result env (recovery_request wd (tc_id t) (tc_name t)) (rv_result e) w = (capped, w1)"
      by fastforce
    have "serialized_len (se_float env) (rv_result e) \<le> PREVENTIVE_MAX_CHARS \<Longrightarrow> capped = None"
      using spill_None_iff [of env "recovery_request wd (tc_id t) (tc_name t)" "rv_result e" w] spill
      by (simp add: recovery_request_def)
    with Some x spill eq [symmetric] show ?thesis
      by (auto simp: event_log_lookup_def recover_pending_tool_result_def recover_tool_result_def)
  qed
qed

lemma close_one_healed:
  assumes "tc_id t \<noteq> []" "\<not> (tcd \<and> tnd)"
    and "close_one fr (Some (event_log_lookup env wd decode loads (Inr (Some bs)) w)) reason tcd tnd t = Inr r"
  shows "healed_from decode loads (se_float env) bs t r"
proof -
  let ?e = "newest_event decode loads DEFAULT_MAX_SCAN_BYTES DEFAULT_MAX_SCAN_EVENTS (tc_id t) (tc_name t) bs"
  note found = lookup_newest [OF assms(1), where decode = decode and loads = loads and bs = bs and env = env and wd = wd and w = w]
  obtain q where "close_one fr (Some (event_log_lookup env wd decode loads (Inr (Some bs)) w)) reason tcd tnd t = Inr q"
    "tr_id q = tc_id t" "tr_name q = tc_name t"
    "tr_synthesized q \<or> event_log_lookup env wd decode loads (Inr (Some bs)) w t = Inr (Some q)"
    using close_one_total [OF assms(2), of fr "Some (event_log_lookup env wd decode loads (Inr (Some bs)) w)" reason t] by auto
  with assms(3) have r: "tr_id r = tc_id t" "tr_name r = tc_name t"
    "tr_synthesized r \<or> event_log_lookup env wd decode loads (Inr (Some bs)) w t = Inr (Some r)" by simp_all
  show ?thesis
  proof (cases ?e)
    case None
    with found r show ?thesis by (simp add: healed_from_def)
  next
    case (Some e)
    with found obtain s where s: "event_log_lookup env wd decode loads (Inr (Some bs)) w t = Inr (Some s)" "tr_id s = tc_id t"
      "tr_name s = tc_name t" "tr_synthesized s = rv_synthesized e"
      "serialized_len (se_float env) (rv_result e) \<le> PREVENTIVE_MAX_CHARS \<longrightarrow> tr_content s = rv_result e" by auto
    with assms(3) have "r = s" by (simp add: close_one_def)
    with s Some r show ?thesis by (simp add: healed_from_def)
  qed
qed

text \<open>C10: Healing brings the real results back. When pending calls are closed with the event log behind the
  conversation, every call whose result was logged (within the scanned window) gets that result, the newest one,
  as it was logged unless it is too large for the conversation; only the others get the notice that they were
  cut off. Afterwards no call is pending and the conversation is well paired.\<close>

theorem heal_restores_logged_results:
  assumes "wire_ok c" "has_pending_tool_calls c" "\<not> (tcd \<and> tnd)"
    and ids: "\<forall>t\<in>set (calls_of (e_content (last (entries c)))). tc_id t \<noteq> []"
    and lookup: "recovery_lookup c = Some (event_log_lookup env wd decode loads (Inr (Some bs)) w)"
  shows "\<exists>c' rs. close_pending_tool_calls fr now reason tcd tnd None c = (Inr (), c') \<and> wire_ok c' \<and>
    \<not> has_pending_tool_calls c' \<and> e_content (last (entries c')) = map ToolResultBlock rs \<and>
    list_all2 (healed_from decode loads (se_float env) bs) (calls_of (e_content (last (entries c)))) rs"
proof -
  let ?lk = "Some (event_log_lookup env wd decode loads (Inr (Some bs)) w)"
  let ?ts = "calls_of (e_content (last (entries c)))"
  obtain rs where rs: "emap (close_one fr ?lk reason tcd tnd) ?ts = Inr rs"
    using emap_total [of ?ts "close_one fr ?lk reason tcd tnd"] close_one_total [OF assms(3)] by blast
  have closed: "close_pending_tool_calls fr now reason tcd tnd None c = (Inr (), append_entry now User (map ToolResultBlock rs) [] id c)"
    using assms(2) rs lookup by (simp add: close_pending_tool_calls_def)
  have "list_all2 (healed_from decode loads (se_float env) bs) ?ts rs"
  proof (rule list_all2_all_nthI)
    show "length ?ts = length rs" using emap_list_all2 [OF rs] by (rule list_all2_lengthD)
  next
    fix n assume n: "n < length ?ts"
    with emap_list_all2 [OF rs] have "close_one fr ?lk reason tcd tnd (?ts ! n) = Inr (rs ! n)" by (rule list_all2_nthD)
    moreover have "tc_id (?ts ! n) \<noteq> []" using ids n nth_mem by blast
    ultimately show "healed_from decode loads (se_float env) bs (?ts ! n) (rs ! n)" by (intro close_one_healed [OF _ assms(3)])
  qed
  moreover have "wire_ok (append_entry now User (map ToolResultBlock rs) [] id c)"
    using wire_close [OF assms(1), of fr now reason tcd tnd None] closed by simp
  ultimately show ?thesis using closed by (auto simp: has_pending_tool_calls_def tail_pending_def has_calls_def)
qed

section \<open>Instances\<close>

text \<open>Two lines of a log, the second cut off; a parser that knows the first.\<close>

definition sample_line :: string where
  "sample_line = ''tool_result t1''"

definition sample_loads :: "string \<Rightarrow> py option" where
  "sample_loads s =
     (if s = sample_line then Some (PDict [(''type'', PStr ''tool_result''), (''tool_call_id'', PStr ''t1''),
        (''tool_name'', PStr ''read''), (''result'', PStr ''data'')]) else None)"

definition sample_log :: string where
  "sample_log = sample_line @ nl @ ''tool_result t1 {''"

lemma sample_newest:
  "newest_event Some sample_loads DEFAULT_MAX_SCAN_BYTES DEFAULT_MAX_SCAN_EVENTS ''t1'' ''read'' sample_log =
   Some \<lparr>rv_result = PStr ''data'', rv_ts = PNone, rv_tool_name = PStr ''read'', rv_metadata = [], rv_synthesized = False,
     rv_redacted = False\<rparr>"
proof -
  have "tail_lines DEFAULT_MAX_SCAN_BYTES sample_log = [''tool_result t1 {'', sample_line]"
    by (simp add: tail_lines_def sample_log_def sample_line_def nl_def DEFAULT_MAX_SCAN_BYTES_def)
  moreover have "match_event sample_loads ''t1'' ''read'' sample_line \<noteq> None" "match_event sample_loads ''t1'' ''read'' ''tool_result t1 {'' = None"
    by (simp_all add: match_event_def sample_loads_def sample_line_def dgetd_def sublist_code)
  ultimately show ?thesis
    by (auto simp: newest_event_def scan_window_def map_filter_simps DEFAULT_MAX_SCAN_EVENTS_def match_event_def sample_loads_def
        sample_line_def dgetd_def event_extension_def sublist_code Let_def)
qed

lemma recovery_finds_newest_witness:
  "map_option fst (find_latest_tool_result_event Some sample_loads DEFAULT_MAX_SCAN_BYTES DEFAULT_MAX_SCAN_EVENTS ''t1'' ''read''
     (Some sample_log)) =
   Some \<lparr>rv_result = PStr ''data'', rv_ts = PNone, rv_tool_name = PStr ''read'', rv_metadata = [], rv_synthesized = False,
     rv_redacted = False\<rparr>"
proof -
  have "''t1'' \<noteq> ([] :: string)" by simp
  from recovery_finds_newest [OF this] show ?thesis using sample_newest by metis
qed

lemma heal_restores_logged_results_witness:
  "\<exists>c' rs. close_pending_tool_calls (\<lambda>_. ''0.0'') 0 ''heal'' False False None
      (sample_asked\<lparr>recovery_lookup := Some (event_log_lookup sample_env (Some [''w'']) Some sample_loads (Inr (Some sample_log)) 0)\<rparr>)
      = (Inr (), c') \<and> wire_ok c' \<and> \<not> has_pending_tool_calls c' \<and> e_content (last (entries c')) = map ToolResultBlock rs"
proof -
  let ?c = "sample_asked\<lparr>recovery_lookup := Some (event_log_lookup sample_env (Some [''w'']) Some sample_loads (Inr (Some sample_log)) 0)\<rparr>"
  have "wire_ok ?c" "has_pending_tool_calls ?c" "\<forall>t\<in>set (calls_of (e_content (last (entries ?c)))). tc_id t \<noteq> []"
    "recovery_lookup ?c = Some (event_log_lookup sample_env (Some [''w'']) Some sample_loads (Inr (Some sample_log)) 0)"
    by (simp_all add: wire_ok_def has_pending_tool_calls_def sample_asked_entries sample_call_def opens_def tail_pending_def
        has_calls_def)
  from heal_restores_logged_results [OF this(1,2) _ this(3,4), of False False "\<lambda>_. ''0.0''" 0 "''heal''"] show ?thesis by blast
qed

end
