(* ===== verification/Context_Summarize.thy ===== *)
theory Context_Summarize
  imports Result_Summary Chat_Properties
begin

text \<open>
  Agent-authored summaries of earlier tool results (\<^verbatim>\<open>tools/system/summarize.py\<close>): the engine behind the
  \<^verbatim>\<open>summarize\<close> and \<^verbatim>\<open>rebuild\<close> actions. A summary replaces the content of a result block in the conversation by
  a marker that is pending until a rebuild of the provider context applies it.

  The history file, the reminders, the context gauges and the provider's rebuild hook are arguments; what the
  code logs is left out.
\<close>

section \<open>Markers\<close>

definition SUMMARIZE_MARKER :: string where
  "SUMMARIZE_MARKER = ''lingtai_agent_summarized_result''"

definition SUMMARY_STATUS_PENDING :: string where "SUMMARY_STATUS_PENDING = ''pending''"

definition SUMMARY_STATUS_DONE :: string where "SUMMARY_STATUS_DONE = ''done''"

definition is_already_summarized :: "py \<Rightarrow> bool" where
  "is_already_summarized v =
     (case v of PDict d \<Rightarrow> dget d ''artifact'' = Some (PStr SUMMARIZE_MARKER) | _ \<Rightarrow> False)"

fun marker_of :: "block \<Rightarrow> dict list" where
  "marker_of (ToolResultBlock r) = (case tr_content r of PDict d \<Rightarrow> if is_already_summarized (PDict d) then [d] else [] | _ \<Rightarrow> [])"
| "marker_of _ = []"

text \<open>\<^verbatim>\<open>_iter_summarize_marker_blocks\<close>, as the contents it yields.\<close>

definition marker_blocks :: "chat \<Rightarrow> dict list" where
  "marker_blocks c = concat (map (\<lambda>e. concat (map marker_of (e_content e))) (filter (\<lambda>e. e_role e = User) (entries c)))"

definition is_pending_marker :: "dict \<Rightarrow> bool" where
  "is_pending_marker d \<longleftrightarrow> dget d ''status'' = Some (PStr SUMMARY_STATUS_PENDING)"

definition finish_marker :: "py \<Rightarrow> py" where
  "finish_marker v =
     (case v of
        PDict d \<Rightarrow> if is_already_summarized v \<and> is_pending_marker d then PDict (dput ''status'' (PStr SUMMARY_STATUS_DONE) d) else v
      | _ \<Rightarrow> v)"

fun finish_block :: "block \<Rightarrow> block" where
  "finish_block (ToolResultBlock r) = ToolResultBlock (r\<lparr>tr_content := finish_marker (tr_content r)\<rparr>)"
| "finish_block b = b"

definition flipped_id :: "dict \<Rightarrow> string list" where
  "flipped_id d =
     (if is_pending_marker d then (case dget d ''tool_call_id'' of Some (PStr s) \<Rightarrow> if s = [] then [] else [s] | _ \<Rightarrow> []) else [])"

definition mark_pending_summaries_done :: "chat \<Rightarrow> string list \<times> chat" where
  "mark_pending_summaries_done c =
     (concat (map flipped_id (marker_blocks c)),
      c\<lparr>entries := map (\<lambda>e. if e_role e = User then e\<lparr>e_content := map finish_block (e_content e)\<rparr> else e) (entries c)\<rparr>)"

text \<open>\<^verbatim>\<open>_find_tool_result_block\<close>: the positions of the entry and of the block.\<close>

fun has_id :: "string \<Rightarrow> block \<Rightarrow> bool" where
  "has_id i (ToolResultBlock r) = (tr_id r = i)"
| "has_id i _ = False"

definition holds_result :: "string \<Rightarrow> chat_entry \<Rightarrow> bool" where
  "holds_result i e \<longleftrightarrow> e_role e = User \<and> list_ex (has_id i) (e_content e)"

definition find_tool_result_block :: "string \<Rightarrow> chat \<Rightarrow> (nat \<times> nat \<times> tool_result) option" where
  "find_tool_result_block i c =
     (case find_index (holds_result i) (entries c) of
        None \<Rightarrow> None
      | Some n \<Rightarrow>
          (case find_index (has_id i) (e_content (entries c ! n)) of
             None \<Rightarrow> None
           | Some k \<Rightarrow> (case e_content (entries c ! n) ! k of ToolResultBlock r \<Rightarrow> Some (n, k, r) | _ \<Rightarrow> None)))"

definition put_content :: "nat \<Rightarrow> nat \<Rightarrow> tool_result \<Rightarrow> py \<Rightarrow> chat \<Rightarrow> chat" where
  "put_content n k r v c =
     c\<lparr>entries := (entries c)[n := (entries c ! n)\<lparr>e_content := (e_content (entries c ! n))[k := ToolResultBlock (r\<lparr>tr_content := v\<rparr>)]\<rparr>]\<rparr>"

section \<open>Flags and totals\<close>

definition truthy_flag :: "py \<Rightarrow> bool" where
  "truthy_flag v =
     (case v of
        PBool b \<Rightarrow> b
      | PStr s \<Rightarrow> lower (strip s) \<in> set [''1'', ''true'', ''yes'', ''on'']
      | _ \<Rightarrow> False)"

definition CHARS_PER_TOKEN_ESTIMATE :: int where "CHARS_PER_TOKEN_ESTIMATE = 4"

text \<open>\<^verbatim>\<open>int(value or 0)\<close>; \<open>parse\<close> is \<^verbatim>\<open>int\<close> on a text.\<close>

definition int_or_zero :: "(string \<Rightarrow> int option) \<Rightarrow> py \<Rightarrow> int option" where
  "int_or_zero parse v =
     (if \<not> truthy v then Some 0
      else
        (case v of
           PInt n \<Rightarrow> Some n
         | PBool b \<Rightarrow> Some 1
         | PFloat q \<Rightarrow> Some (if q < 0 then - \<lfloor>- q\<rfloor> else \<lfloor>q\<rfloor>)
         | PStr s \<Rightarrow> parse s
         | _ \<Rightarrow> None))"

record summary_totals =
  su_count :: int
  su_original :: int
  su_summary :: int

text \<open>One marker: an unreadable summary length leaves the original's already added.\<close>

definition add_totals :: "(string \<Rightarrow> int option) \<Rightarrow> dict \<Rightarrow> summary_totals \<Rightarrow> summary_totals" where
  "add_totals parse d t =
     (case int_or_zero parse (dgetd d ''original_visible_chars'' (PInt 0)) of
        None \<Rightarrow> t
      | Some a \<Rightarrow>
          let t1 = t\<lparr>su_original := su_original t + a\<rparr>
          in (case int_or_zero parse (dgetd d ''summary_chars'' (PInt 0)) of
                None \<Rightarrow> t1
              | Some b \<Rightarrow> t1\<lparr>su_summary := su_summary t1 + b, su_count := su_count t1 + 1\<rparr>))"

definition summary_totals_over_pending :: "(string \<Rightarrow> int option) \<Rightarrow> chat \<Rightarrow> summary_totals" where
  "summary_totals_over_pending parse c =
     fold (add_totals parse) (filter is_pending_marker (marker_blocks c)) \<lparr>su_count = 0, su_original = 0, su_summary = 0\<rparr>"

definition net_chars :: "summary_totals \<Rightarrow> int" where
  "net_chars t = su_original t - su_summary t"

definition est_tokens :: "summary_totals \<Rightarrow> int" where
  "est_tokens t = net_chars t div CHARS_PER_TOKEN_ESTIMATE"

definition totals_dict :: "summary_totals \<Rightarrow> py" where
  "totals_dict t = PDict [(''pending_summaries'', PInt (su_count t)), (''pending_original_chars'', PInt (su_original t)),
     (''pending_summary_chars'', PInt (su_summary t)), (''net_chars'', PInt (net_chars t)), (''est_tokens'', PInt (est_tokens t))]"

section \<open>Comments\<close>

record snapshot =
  sn_usage :: "rat option"
  sn_tokens :: "int option"
  sn_window :: "int option"

definition snapshot_dict :: "snapshot \<Rightarrow> py" where
  "snapshot_dict s =
     PDict [(''usage'', case sn_usage s of None \<Rightarrow> PNone | Some q \<Rightarrow> PFloat q),
       (''tokens'', case sn_tokens s of None \<Rightarrow> PNone | Some n \<Rightarrow> PInt n),
       (''window'', case sn_window s of None \<Rightarrow> PNone | Some n \<Rightarrow> PInt n)]"

text \<open>\<open>f2\<close> renders a number with two decimals.\<close>

definition summary_context_line :: "(rat \<Rightarrow> string) \<Rightarrow> snapshot \<Rightarrow> string" where
  "summary_context_line f2 s =
     (case sn_usage s of
        None \<Rightarrow> []
      | Some u \<Rightarrow>
          (case (sn_tokens s, sn_window s) of
             (Some t, Some w) \<Rightarrow>
               if t \<noteq> 0 \<and> w \<noteq> 0 then ''Current context: '' @ f2 u @ '' ('' @ int_str t @ ''/'' @ int_str w @ '' tokens). ''
               else ''Current context: '' @ f2 u @ ''. ''
           | _ \<Rightarrow> ''Current context: '' @ f2 u @ ''. ''))"

definition pending_totals_line :: "summary_totals \<Rightarrow> bool \<Rightarrow> string" where
  "pending_totals_line t applied =
     (if su_count t \<le> 0 then []
      else if applied then
        ''Applied pending summaries: '' @ int_str (su_original t) @ '' visible chars replaced with '' @ int_str (su_summary t)
        @ '' summary chars, a reduction of '' @ int_str (net_chars t) @ '' chars (~'' @ int_str (est_tokens t)
        @ '' tokens, rough estimate). ''
      else
        ''Pending summaries would replace '' @ int_str (su_original t) @ '' visible chars with '' @ int_str (su_summary t)
        @ '' summary chars after rebuild, an estimated reduction of '' @ int_str (net_chars t) @ '' chars (~''
        @ int_str (est_tokens t) @ '' tokens, rough estimate). '')"

definition build_rebuild_reconstruction :: "(rat \<Rightarrow> string) \<Rightarrow> snapshot \<Rightarrow> summary_totals \<Rightarrow> bool \<Rightarrow> string" where
  "build_rebuild_reconstruction f2 s t requested =
     (if \<not> requested then
        ''Rebuild requested, but this chat backend has no explicit rebuild hook (or continuation is disabled), so there ''
        @ ''may be no provider-context action to take. '' @ ''Any recorded summaries stay pending'' @ ''; the runtime forces a rebuild ''
        @ ''at the 1.0 hard context boundary regardless. See meta_guidance, substrate, and summarize-manual.''
      else
        summary_context_line f2 s @ ''Rebuild successful: the pending summaries have been applied to the provider-context rebuild ''
        @ ''path (their markers are now marked done) and will take effect on the next model request. Context figures shown ''
        @ ''on this result, including the '' @ backquote @ ''context'' @ backquote
        @ '' snapshot and _meta.agent_meta.agent_state.token_usage.session.context_usage, belong to the provider ''
        @ ''round that requested this rebuild. Post-rebuild context usage does not exist yet; it first becomes observable ''
        @ ''on the next provider round. '' @ pending_totals_line t True
        @ ''After that round, inspect _meta.agent_meta.agent_state.token_usage.session.context_usage and the ''
        @ ''reconstruction metadata to decide whether context recovered. If it remains above the 0.75 recovery target, ''
        @ ''tend durable stores and molt rather than repeating rebuild. Be tactical with token efficiency ''
        @ em_dash @ '' do not loop rebuild/summarize. See meta_guidance, substrate, and summarize-manual.'')"

definition rebuild_call :: string where
  "rebuild_call = ''context(action='' @ str_repr ''rebuild'' @ '', input={}, reasoning='' @ str_repr ''...'' @ '')''"

definition build_summarize_only_reconstruction :: "(rat \<Rightarrow> string) \<Rightarrow> snapshot \<Rightarrow> summary_totals \<Rightarrow> string" where
  "build_summarize_only_reconstruction f2 s t =
     ''Summary recorded in runtime history (status: pending). This does NOT itself rebuild the active provider context: ''
     @ ''it may still contain the old raw result until the pending summaries are applied. ''
     @ summary_context_line f2 s @ pending_totals_line t False
     @ (if 0 < su_count t then
          ''Two ways to apply the pending summaries: let the runtime force a rebuild at the 1.0 hard context boundary ''
          @ ''(it applies pending summaries then), OR make one tactical '' @ rebuild_call @ '' call proactively ''
          @ em_dash @ '' that applies what is already pending, no new items needed '' @ em_dash
          @ '' preferably when context is high (>=0.85 / the runtime rebuild hint) or a fresh context is worth the ''
          @ ''cache-miss cost. Proactive is better: the 1.0 forced path is the emergency boundary. ''
        else
          ''There is no pending summarized history right now, so the 1.0 forced rebuild would have no summaries to ''
          @ ''apply and give no compaction benefit: summarize more digested results to create pending compaction, or molt. '')
     @ ''Be tactical with token efficiency: do not loop rebuild/summarize. If rebuild cannot recover below the 0.75 ''
     @ ''recovery target, tend durable stores and molt. See meta_guidance, substrate, and summarize-manual.''"

section \<open>The engine\<close>

text \<open>
  What the engine is given: the renderings, the clock, the write of the history, the reminders it clears, the gauges,
  and the two hooks of the session, which may touch the conversation they share: what it does when history was
  summarized, and its rebuild hook (\<open>None\<close> where the session has none), called with or without a reason.
\<close>

record 'w summarizer =
  sm_float :: "rat \<Rightarrow> string"
  sm_two_decimals :: "rat \<Rightarrow> string"
  sm_parse_int :: "string \<Rightarrow> int option"
  sm_now :: string
  sm_threshold :: py
  sm_save :: "chat \<Rightarrow> 'w \<Rightarrow> 'w"
  sm_summarized :: "string list \<Rightarrow> chat \<Rightarrow> 'w \<Rightarrow> chat \<times> 'w"
  sm_clear :: "string list \<Rightarrow> 'w \<Rightarrow> (exc + string list) \<times> 'w"
  sm_workdir :: bool
  sm_snapshot :: "chat \<Rightarrow> 'w \<Rightarrow> snapshot"
  sm_hook :: "(string option \<Rightarrow> chat \<Rightarrow> 'w \<Rightarrow> (exc + py) \<times> chat \<times> 'w) option"

text \<open>\<^verbatim>\<open>_request_rebuild\<close>: a hook that does not take the reason is called without it, and may raise then.\<close>

definition request_rebuild :: "'w summarizer \<Rightarrow> string \<Rightarrow> chat \<Rightarrow> 'w \<Rightarrow> (exc + bool) \<times> chat \<times> 'w" where
  "request_rebuild env reason c w =
     (case sm_hook env of
        None \<Rightarrow> (Inr False, c, w)
      | Some hook \<Rightarrow>
          (case hook (Some reason) c w of
             (Inr v, s) \<Rightarrow> (Inr (truthy v), s)
           | (Inl (TypeError m), (c1, w1)) \<Rightarrow>
               (case hook None c1 w1 of (Inr v, s) \<Rightarrow> (Inr (truthy v), s) | (Inl e, s) \<Rightarrow> (Inl e, s))
           | (Inl e, s) \<Rightarrow> (Inr False, s)))"

definition strings :: "string list \<Rightarrow> py" where
  "strings xs = PList (map PStr xs)"

text \<open>
  The batch is applied: its totals are read, its markers flipped, then the rebuild is asked for. The value is
  the totals, the flipped ids and the answer.
\<close>

definition apply_pending ::
  "'w summarizer \<Rightarrow> chat \<Rightarrow> 'w \<Rightarrow> (summary_totals \<times> string list \<times> snapshot \<times> (exc + bool)) \<times> chat \<times> 'w" where
  "apply_pending env c w =
     (let t = summary_totals_over_pending (sm_parse_int env) c;
          (ids, c1) = mark_pending_summaries_done c;
          s = sm_snapshot env c1 w;
          (r, c2, w1) = request_rebuild env ''summarize_rebuild_only'' c1 w
      in ((t, ids, s, r), c2, w1))"

definition pure_rebuild_result :: "'w summarizer \<Rightarrow> chat option \<Rightarrow> 'w \<Rightarrow> (exc + dict) \<times> chat option \<times> 'w" where
  "pure_rebuild_result env chat w =
     (case chat of
        None \<Rightarrow>
          (Inr [(''status'', PStr ''error''), (''reason'', PStr ''no_chat_session''),
             (''message'', PStr (''No active chat session '' @ em_dash @ '' cannot request a context rebuild.'')),
             (''notification_threshold_chars'', sm_threshold env)], chat, w)
      | Some c \<Rightarrow>
          (case apply_pending env c w of
             ((t, ids, s, Inl e), c1, w1) \<Rightarrow> (Inl e, Some c1, w1)
           | ((t, ids, s, Inr requested), c1, w1) \<Rightarrow>
               (Inr [(''status'', PStr ''ok''), (''mode'', PStr ''rebuild''), (''summarized'', PInt 0), (''failed'', PInt 0),
                  (''items'', PList []), (''cleared_reminders'', PList []), (''rebuild_requested'', PBool requested),
                  (''applied_summary_totals'', totals_dict t), (''marked_done'', strings ids), (''context'', snapshot_dict s),
                  (''notification_threshold_chars'', sm_threshold env),
                  (''reconstruction'', PStr (build_rebuild_reconstruction (sm_two_decimals env) s t requested))], Some c1, w1)))"

definition item_error :: "string \<Rightarrow> (string \<times> py) list \<Rightarrow> string \<Rightarrow> dict" where
  "item_error reason extra message =
     [(''status'', PStr ''error''), (''reason'', PStr reason)] @ extra @ [(''message'', PStr message)]"

definition summary_retrieval_hint :: "string \<Rightarrow> string" where
  "summary_retrieval_hint i =
     ''This is your own agent-authored summary of the original tool result. ''
     @ ''The summary is NOT canonical '' @ em_dash @ '' it reflects your understanding at the time of summarization and ''
     @ ''may be incomplete or inaccurate. To retrieve the full original, grep events.jsonl by tool_call_id:'' @ nl
     @ ''  grep '' @ [squote] @ i @ [squote] @ '' <workdir>/logs/events.jsonl'' @ nl
     @ ''  # or use: lingtai-agent log query (see sqlite-log-query manual)''"

definition replacement :: "string \<Rightarrow> string \<Rightarrow> string \<Rightarrow> string \<Rightarrow> int \<Rightarrow> py" where
  "replacement i name summary now shown =
     PDict [(''artifact'', PStr SUMMARIZE_MARKER), (''tool_call_id'', PStr i), (''tool_name'', PStr name),
       (''agent_summary'', PStr summary), (''summarized_at'', PStr now), (''summary_chars'', PInt (int (length summary))),
       (''original_visible_chars'', PInt shown), (''status'', PStr SUMMARY_STATUS_PENDING),
       (''retrieval_hint'', PStr (summary_retrieval_hint i))]"

text \<open>One item: its result, the conversation after it, and the id it summarized.\<close>

definition summarize_item :: "'w summarizer \<Rightarrow> py \<Rightarrow> chat option \<Rightarrow> (dict \<times> string option) \<times> chat option" where
  "summarize_item env item chat =
     (case item of
        PDict d \<Rightarrow>
          (case dgetd d ''tool_call_id'' PNone of
             PStr i \<Rightarrow>
               if i = [] then ((item_error ''missing_tool_call_id'' [] (''Item is missing '' @ str_repr ''tool_call_id'' @ ''.''), None), chat)
               else
                 (case dgetd d ''summary'' PNone of
                    PStr summary \<Rightarrow>
                      (case chat of
                         None \<Rightarrow> ((item_error ''no_chat_session'' [(''tool_call_id'', PStr i)]
                                    (''No active chat session '' @ em_dash @ '' cannot mutate history.''), None), chat)
                       | Some c \<Rightarrow>
                           (case find_tool_result_block i c of
                              None \<Rightarrow> ((item_error ''not_found'' [(''tool_call_id'', PStr i)]
                                (''No main-agent tool-result block found for tool_call_id='' @ str_repr i
                                 @ ''. Daemon results, unknown ids, and ids from previous sessions cannot be summarized.''), None), chat)
                            | Some (n, k, r) \<Rightarrow>
                                if is_already_summarized (tr_content r) then
                                  ((item_error ''already_summarized'' [(''tool_call_id'', PStr i)]
                                    (''tool_call_id='' @ str_repr i @ '' has already been summarized. Re-summarization is blocked for now to ''
                                     @ ''preserve idempotency; keep the existing summary or retrieve the original from logs/events.''), None), chat)
                                else
                                  let shown = formal_tool_result_visible_len (sm_float env) (tr_content r)
                                  in (([(''status'', PStr ''ok''), (''tool_call_id'', PStr i), (''tool_name'', PStr (tr_name r)),
                                        (''summary_chars'', PInt (int (length summary))), (''original_visible_chars'', PInt shown)], Some i),
                                      Some (put_content n k r (replacement i (tr_name r) summary (sm_now env) shown) c))))
                  | _ \<Rightarrow> ((item_error ''missing_summary'' [(''tool_call_id'', PStr i)]
                            (''Item is missing '' @ str_repr ''summary'' @ '' (must be a string).''), None), chat))
           | _ \<Rightarrow> ((item_error ''missing_tool_call_id'' [] (''Item is missing '' @ str_repr ''tool_call_id'' @ ''.''), None), chat))
      | _ \<Rightarrow> (([(''status'', PStr ''error''), (''reason'', PStr ''invalid_item''),
                (''message'', PStr (''Each item must be a dict with '' @ str_repr ''tool_call_id'' @ '' and '' @ str_repr ''summary'' @ ''.'')),
                (''item'', PStr (take 200 (py_repr (sm_float env) item)))], None), chat))"

fun summarize_items :: "'w summarizer \<Rightarrow> py list \<Rightarrow> chat option \<Rightarrow> (dict list \<times> string list) \<times> chat option" where
  "summarize_items env [] chat = (([], []), chat)"
| "summarize_items env (x # xs) chat =
     (case summarize_item env x chat of
        ((r, i), chat1) \<Rightarrow>
          (case summarize_items env xs chat1 of
             ((rs, is), chat2) \<Rightarrow> ((r # rs, (case i of None \<Rightarrow> [] | Some j \<Rightarrow> [j]) @ is), chat2)))"

text \<open>After the items: the history is saved and the session told, and the reminders of what was summarized are cleared.\<close>

definition store_batch :: "'w summarizer \<Rightarrow> string list \<Rightarrow> chat option \<Rightarrow> 'w \<Rightarrow> string list \<times> chat option \<times> 'w" where
  "store_batch env ids chat w =
     (let (chat1, w1) =
            (case chat of
               Some c \<Rightarrow> if ids = [] then (chat, w) else (case sm_summarized env ids c (sm_save env c w) of (c1, v) \<Rightarrow> (Some c1, v))
             | None \<Rightarrow> (None, w))
      in if ids \<noteq> [] \<and> sm_workdir env then
           (case sm_clear env ids w1 of (Inr xs, v) \<Rightarrow> (xs, chat1, v) | (Inl _, v) \<Rightarrow> ([], chat1, v))
         else ([], chat1, w1))"

definition batch_base :: "py \<Rightarrow> nat \<Rightarrow> dict list \<Rightarrow> string list \<Rightarrow> string list \<Rightarrow> dict" where
  "batch_base threshold n ds ids cleared =
     (let done = int (length ids); failed = int n - done
      in [(''status'', PStr (if failed = 0 then ''ok'' else if 0 < done then ''partial'' else ''error'')),
          (''summarized'', PInt done), (''failed'', PInt failed), (''items'', PList (map PDict ds)),
          (''cleared_reminders'', strings cleared), (''notification_threshold_chars'', threshold)])"

text \<open>What the report of a batch that summarized something goes on to say, and the rebuild it asks for.\<close>

definition comment_batch :: "'w summarizer \<Rightarrow> bool \<Rightarrow> dict \<Rightarrow> chat \<Rightarrow> 'w \<Rightarrow> (exc + dict) \<times> chat option \<times> 'w" where
  "comment_batch env rebuild base c w =
     (let s = sm_snapshot env c w
      in if rebuild then
           (case apply_pending env c w of
              ((t, flipped, _, Inl e), c1, w1) \<Rightarrow> (Inl e, Some c1, w1)
            | ((t, flipped, _, Inr requested), c1, w1) \<Rightarrow>
                (Inr (base @ [(''context'', snapshot_dict s), (''mode'', PStr ''rebuild''),
                   (''rebuild_requested'', PBool requested), (''applied_summary_totals'', totals_dict t),
                   (''marked_done'', strings flipped),
                   (''reconstruction'', PStr (build_rebuild_reconstruction (sm_two_decimals env) s t requested))]), Some c1, w1))
         else
           let t = summary_totals_over_pending (sm_parse_int env) c
           in (Inr (base @ [(''context'', snapshot_dict s), (''mode'', PStr ''summarize''),
                 (''pending_summary_totals'', totals_dict t),
                 (''reconstruction'', PStr (build_summarize_only_reconstruction (sm_two_decimals env) s t))]), Some c, w))"

text \<open>\<^verbatim>\<open>_summarize\<close>. Nothing is summarized without a session.\<close>

definition summarize :: "'w summarizer \<Rightarrow> dict \<Rightarrow> chat option \<Rightarrow> 'w \<Rightarrow> (exc + dict) \<times> chat option \<times> 'w" where
  "summarize env args chat w =
     (let rebuild = truthy_flag (dgetd args ''rebuild'' PNone);
          items = (case dgetd args ''items'' PNone of PList xs \<Rightarrow> xs | _ \<Rightarrow> [])
      in
      if dgetd args ''notification_threshold_chars'' PNone \<noteq> PNone then
        (Inr [(''status'', PStr ''error''), (''reason'', PStr ''runtime_threshold_change_not_supported''),
           (''message'', PStr (''The summarize notification threshold cannot be changed at runtime. ''
             @ ''It is configured via manifest.summarize_notification_threshold in init.json and takes effect after ''
             @ ''system(action='' @ str_repr ''refresh'' @ ''). To handle pending large-result notifications without changing the ''
             @ ''threshold: summarize/digest all pending large-result cases in one deliberate batch using context(action=''
             @ str_repr ''summarize'' @ '', input={'' @ str_repr ''items'' @ '': [...]}, reasoning='' @ str_repr ''...''
             @ ''), or tolerate the repeated reminders until you update the persistent config and refresh.'')),
           (''notification_threshold_chars'', sm_threshold env)], chat, w)
      else if rebuild \<and> items = [] then pure_rebuild_result env chat w
      else if items = [] then
        (Inr [(''status'', PStr ''error''), (''reason'', PStr ''missing_items''),
           (''message'', PStr (''context(action='' @ str_repr ''summarize'' @ '') requires a non-empty '' @ str_repr ''items''
             @ '' list, each with '' @ str_repr ''tool_call_id'' @ '' and '' @ str_repr ''summary''
             @ ''. To rebuild provider context using already-pending summaries without recording new ones, call context(action=''
             @ str_repr ''rebuild'' @ '') with no items.'')),
           (''notification_threshold_chars'', sm_threshold env)], chat, w)
      else
        (case summarize_items env items chat of
           ((ds, ids), chat1) \<Rightarrow>
             (case store_batch env ids chat1 w of
                (cleared, chat2, w1) \<Rightarrow>
                  let base = batch_base (sm_threshold env) (length items) ds ids cleared
                  in (case chat2 of
                        Some c \<Rightarrow> if ids = [] then (Inr base, chat2, w1) else comment_batch env rebuild base c w1
                      | None \<Rightarrow> (Inr base, chat2, w1)))))"

section \<open>The conversation under summaries\<close>

text \<open>
  A block before and after: untouched, a result replaced by a summary that names it and its length, or a summary
  that was pending and is done.
\<close>

definition summarizes :: "(rat \<Rightarrow> string) \<Rightarrow> tool_result \<Rightarrow> dict \<Rightarrow> bool" where
  "summarizes sf r d \<longleftrightarrow>
     is_already_summarized (PDict d) \<and> dget d ''tool_call_id'' = Some (PStr (tr_id r)) \<and>
     dget d ''tool_name'' = Some (PStr (tr_name r)) \<and>
     dget d ''original_visible_chars'' = Some (PInt (formal_tool_result_visible_len sf (tr_content r))) \<and>
     dget d ''status'' \<in> {Some (PStr SUMMARY_STATUS_PENDING), Some (PStr SUMMARY_STATUS_DONE)}"

definition retold :: "(rat \<Rightarrow> string) \<Rightarrow> tool_result \<Rightarrow> py \<Rightarrow> bool" where
  "retold sf r v \<longleftrightarrow>
     v = tr_content r \<or>
     (if is_already_summarized (tr_content r) then v = finish_marker (tr_content r)
      else \<exists>d. v = PDict d \<and> summarizes sf r d)"

fun retold_block :: "(rat \<Rightarrow> string) \<Rightarrow> block \<Rightarrow> block \<Rightarrow> bool" where
  "retold_block sf (ToolResultBlock r) b \<longleftrightarrow> (\<exists>v. b = ToolResultBlock (r\<lparr>tr_content := v\<rparr>) \<and> retold sf r v)"
| "retold_block sf a b \<longleftrightarrow> b = a"

definition retold_entry :: "(rat \<Rightarrow> string) \<Rightarrow> chat_entry \<Rightarrow> chat_entry \<Rightarrow> bool" where
  "retold_entry sf e f \<longleftrightarrow> f = e\<lparr>e_content := e_content f\<rparr> \<and> list_all2 (retold_block sf) (e_content e) (e_content f)"

definition retold_chat :: "(rat \<Rightarrow> string) \<Rightarrow> chat \<Rightarrow> chat \<Rightarrow> bool" where
  "retold_chat sf c d \<longleftrightarrow> d = c\<lparr>entries := entries d\<rparr> \<and> list_all2 (retold_entry sf) (entries c) (entries d)"

lemma finish_marker_summarized [simp]: "is_already_summarized (finish_marker v) = is_already_summarized v"
  by (auto simp: finish_marker_def is_already_summarized_def split: py.splits)

lemma finish_marker_twice [simp]: "finish_marker (finish_marker v) = finish_marker v"
  by (auto simp: finish_marker_def is_already_summarized_def is_pending_marker_def SUMMARY_STATUS_DONE_def
      SUMMARY_STATUS_PENDING_def split: py.splits)

lemma retold_refl [simp]: "retold sf r (tr_content r)" by (simp add: retold_def)

lemma retold_finish: "retold sf r v \<Longrightarrow> retold sf r (finish_marker v)"
  by (auto simp: retold_def summarizes_def finish_marker_def is_already_summarized_def SUMMARY_STATUS_PENDING_def
      SUMMARY_STATUS_DONE_def split: if_splits py.splits)

lemma retold_unsummarized:
  "retold sf r v \<Longrightarrow> \<not> is_already_summarized v \<Longrightarrow> v = tr_content r \<and> \<not> is_already_summarized (tr_content r)"
  by (auto simp: retold_def summarizes_def split: if_splits)

lemma retold_block_refl [simp]: "retold_block sf b b"
proof (cases b)
  case (ToolResultBlock r)
  then show ?thesis by (auto intro: exI [of _ "tr_content r"])
qed auto

lemma retold_entry_refl [simp]: "retold_entry sf e e"
  by (simp add: retold_entry_def list_all2_refl)

lemma retold_chat_refl [simp]: "retold_chat sf c c"
  by (simp add: retold_chat_def list_all2_refl)

lemma retold_block_finish: "retold_block sf a b \<Longrightarrow> retold_block sf a (finish_block b)"
  by (cases a) (auto intro: retold_finish)

lemma retold_entryI:
  "list_all2 (retold_block sf) (e_content e) bs \<Longrightarrow> retold_entry sf e (e\<lparr>e_content := bs\<rparr>)"
  by (auto simp: retold_entry_def)

lemma retold_entryE:
  assumes "retold_entry sf e f"
  obtains bs where "f = e\<lparr>e_content := bs\<rparr>" "list_all2 (retold_block sf) (e_content e) bs"
  using assms by (auto simp: retold_entry_def)

lemma retold_chatI:
  "list_all2 (retold_entry sf) (entries c) es \<Longrightarrow> retold_chat sf c (c\<lparr>entries := es\<rparr>)"
  by (auto simp: retold_chat_def)

lemma retold_chatE:
  assumes "retold_chat sf c d"
  obtains es where "d = c\<lparr>entries := es\<rparr>" "list_all2 (retold_entry sf) (entries c) es"
  using assms by (auto simp: retold_chat_def)

lemma retold_entry_finish:
  assumes "retold_entry sf e f"
  shows "retold_entry sf e (f\<lparr>e_content := map finish_block (e_content f)\<rparr>)"
proof -
  from assms obtain bs where f: "f = e\<lparr>e_content := bs\<rparr>" "list_all2 (retold_block sf) (e_content e) bs"
    by (rule retold_entryE)
  then have "list_all2 (retold_block sf) (e_content e) (map finish_block bs)"
    by (auto simp: list_all2_map2 intro: list_all2_mono retold_block_finish)
  from retold_entryI [OF this] show ?thesis by (simp add: f(1))
qed

lemma retold_mark:
  assumes "retold_chat sf c0 c" and "mark_pending_summaries_done c = (ids, c')"
  shows "retold_chat sf c0 c'"
proof -
  let ?mark = "\<lambda>e. if e_role e = User then e\<lparr>e_content := map finish_block (e_content e)\<rparr> else e"
  from assms(1) obtain es where c: "c = c0\<lparr>entries := es\<rparr>" "list_all2 (retold_entry sf) (entries c0) es"
    by (rule retold_chatE)
  then have "list_all2 (retold_entry sf) (entries c0) (map ?mark es)"
    by (auto simp: list_all2_map2 intro: list_all2_mono retold_entry_finish)
  from retold_chatI [OF this] assms(2) show ?thesis by (auto simp: mark_pending_summaries_done_def c(1))
qed

lemma retold_put:
  assumes "retold_chat sf c0 c" and "find_tool_result_block i c = Some (n, k, r)"
    and "\<not> is_already_summarized (tr_content r)"
    and "v = replacement i (tr_name r) summary now (formal_tool_result_visible_len sf (tr_content r))"
  shows "retold_chat sf c0 (put_content n k r v c)"
proof -
  from assms(1) obtain es where c: "c = c0\<lparr>entries := es\<rparr>" and es: "list_all2 (retold_entry sf) (entries c0) es"
    by (rule retold_chatE)
  from assms(2) have n: "n < length es" and k: "k < length (e_content (es ! n))"
    and r: "e_content (es ! n) ! k = ToolResultBlock r" "tr_id r = i"
    by (auto simp: find_tool_result_block_def c split: option.splits block.splits dest!: find_index_SomeD)
  define e where "e = entries c0 ! n"
  from es n have "retold_entry sf e (es ! n)" by (simp add: e_def list_all2_nthD2)
  then obtain bs where f: "es ! n = e\<lparr>e_content := bs\<rparr>" and bs: "list_all2 (retold_block sf) (e_content e) bs"
    by (rule retold_entryE)
  from bs k have "retold_block sf (e_content e ! k) (bs ! k)" by (simp add: f list_all2_nthD2)
  with r obtain r0 where r0: "e_content e ! k = ToolResultBlock r0" "r = r0\<lparr>tr_content := tr_content r\<rparr>"
    "retold sf r0 (tr_content r)"
    by (cases "e_content e ! k") (auto simp: f)
  from retold_unsummarized [OF r0(3) assms(3)] have same: "r = r0" and raw: "\<not> is_already_summarized (tr_content r0)"
    using r0(2) by auto
  have "retold sf r0 v"
    using raw r(2) by (simp add: retold_def assms(4) replacement_def summarizes_def is_already_summarized_def same)
  then have "retold_block sf (e_content e ! k) (ToolResultBlock (r\<lparr>tr_content := v\<rparr>))"
    by (auto simp: r0(1) same)
  with bs have "list_all2 (retold_block sf) (e_content e) (bs[k := ToolResultBlock (r\<lparr>tr_content := v\<rparr>)])"
    by (metis list_all2_update_cong list_update_id)
  from retold_entryI [OF this]
  have "retold_entry sf (entries c0 ! n) ((es ! n)\<lparr>e_content := (e_content (es ! n))[k := ToolResultBlock (r\<lparr>tr_content := v\<rparr>)]\<rparr>)"
    by (simp add: f e_def)
  with es have "list_all2 (retold_entry sf) (entries c0)
    (es[n := (es ! n)\<lparr>e_content := (e_content (es ! n))[k := ToolResultBlock (r\<lparr>tr_content := v\<rparr>)]\<rparr>])"
    by (metis list_all2_update_cong list_update_id)
  from retold_chatI [OF this] show ?thesis by (simp add: put_content_def c)
qed

lemma block_shape:
  assumes "list_all2 (retold_block sf) as bs"
  shows "calls_of bs = calls_of as \<and> map tr_id (results_of bs) = map tr_id (results_of as) \<and> list_all is_result bs = list_all is_result as"
  using assms
proof (induction rule: list_all2_induct)
  case (Cons a as b bs)
  then show ?case by (cases a) auto
qed simp

lemma retold_entry_shape: "retold_entry sf e f \<Longrightarrow> shape f = shape e"
  by (erule retold_entryE) (auto simp: shape_def results_only_def dest: block_shape)

lemma retold_keeps_wire:
  assumes "retold_chat sf c d"
  shows "wire_ok d = wire_ok c" "has_pending_tool_calls d = has_pending_tool_calls c"
proof -
  have "map shape (entries d) = map shape (entries c)"
  proof -
    from assms have "list_all2 (retold_entry sf) (entries c) (entries d)" by (auto simp: retold_chat_def)
    then show ?thesis by (induction rule: list_all2_induct) (simp_all add: retold_entry_shape)
  qed
  from well_paired_shape [OF this] tail_pending_shape [OF this]
  show "wire_ok d = wire_ok c" "has_pending_tool_calls d = has_pending_tool_calls c"
    by (simp_all add: wire_ok_def has_pending_tool_calls_def)
qed

section \<open>What an item and a batch do\<close>

text \<open>The dictionary an item answers with.\<close>

definition item_ok :: "dict \<Rightarrow> bool" where
  "item_ok d \<longleftrightarrow> dget d ''status'' = Some (PStr ''ok'') \<and>
     (\<exists>i name s n. dget d ''tool_call_id'' = Some (PStr i) \<and> i \<noteq> [] \<and> dget d ''tool_name'' = Some (PStr name) \<and>
        dget d ''summary_chars'' = Some (PInt s) \<and> 0 \<le> s \<and> dget d ''original_visible_chars'' = Some (PInt n))"

definition item_refused :: "dict \<Rightarrow> bool" where
  "item_refused d \<longleftrightarrow> dget d ''status'' = Some (PStr ''error'') \<and>
     (\<exists>m. dget d ''message'' = Some (PStr m)) \<and>
     dget d ''reason'' \<in> (Some \<circ> PStr) ` {''invalid_item'', ''missing_tool_call_id'', ''missing_summary'', ''no_chat_session'',
       ''not_found'', ''already_summarized''}"

lemma item_not_both: "item_ok d \<Longrightarrow> \<not> item_refused d"
  by (auto simp: item_ok_def item_refused_def)

lemma item_error_refused:
  "reason \<in> {''missing_tool_call_id'', ''missing_summary'', ''no_chat_session'', ''not_found'', ''already_summarized''} \<Longrightarrow>
   extra = [] \<or> (\<exists>v. extra = [(''tool_call_id'', v)]) \<Longrightarrow> item_refused (item_error reason extra m)"
  by (auto simp: item_refused_def item_error_def)

lemma item_ok_report:
  "i \<noteq> [] \<Longrightarrow> 0 \<le> s \<Longrightarrow>
   item_ok [(''status'', PStr ''ok''), (''tool_call_id'', PStr i), (''tool_name'', PStr name), (''summary_chars'', PInt s),
     (''original_visible_chars'', PInt n)]"
  by (simp add: item_ok_def)

lemma invalid_item_refused:
  "item_refused [(''status'', PStr ''error''), (''reason'', PStr ''invalid_item''), (''message'', PStr m), (''item'', PStr s)]"
  by (simp add: item_refused_def)

lemma summarize_item_typed:
  assumes "summarize_item env x chat = ((d, i), chat')"
  shows "(case i of None \<Rightarrow> item_refused d \<and> chat' = chat | Some j \<Rightarrow> item_ok d)" "chat' = None \<longleftrightarrow> chat = None"
  using assms
  by (auto simp: summarize_item_def Let_def item_error_refused item_ok_report invalid_item_refused
      split: py.splits if_splits option.splits prod.splits)

lemma summarize_item_retold:
  assumes "retold_chat (sm_float env) c0 c" and "summarize_item env x (Some c) = ((d, i), chat')"
  obtains c' where "chat' = Some c'" "retold_chat (sm_float env) c0 c'"
  using assms retold_put [OF assms(1)]
  by (auto simp: summarize_item_def Let_def split: py.splits if_splits option.splits prod.splits)

lemma summarize_items_typed:
  assumes "summarize_items env xs chat = ((ds, ids), chat')"
  shows "length ds = length xs" "\<forall>d\<in>set ds. item_ok d \<or> item_refused d"
    "length ids = length (filter item_ok ds)" "chat' = None \<longleftrightarrow> chat = None" "ids = [] \<Longrightarrow> chat' = chat"
proof -
  have "length ds = length xs \<and> (\<forall>d\<in>set ds. item_ok d \<or> item_refused d) \<and> length ids = length (filter item_ok ds)
    \<and> (chat' = None \<longleftrightarrow> chat = None) \<and> (ids = [] \<longrightarrow> chat' = chat)"
    using assms
  proof (induction xs arbitrary: chat ds ids)
    case (Cons x xs)
    from Cons.prems obtain d i c1 es js where
      one: "summarize_item env x chat = ((d, i), c1)" and
      rest: "summarize_items env xs c1 = ((es, js), chat')" and
      eq: "ds = d # es" "ids = (case i of None \<Rightarrow> [] | Some j \<Rightarrow> [j]) @ js"
      by (auto split: prod.splits)
    from Cons.IH [OF rest] summarize_item_typed [OF one] show ?case
      by (auto simp: eq dest: item_not_both split: option.splits)
  qed simp
  then show "length ds = length xs" "\<forall>d\<in>set ds. item_ok d \<or> item_refused d"
    "length ids = length (filter item_ok ds)" "chat' = None \<longleftrightarrow> chat = None" "ids = [] \<Longrightarrow> chat' = chat"
    by auto
qed

lemma summarize_items_without_chat: "\<exists>ds. summarize_items env xs None = ((ds, []), None)"
proof (induction xs)
  case (Cons x xs)
  have "\<exists>d. summarize_item env x None = ((d, None), None)"
    by (auto simp: summarize_item_def split: py.split)
  with Cons show ?case by auto
qed simp

lemma summarize_items_retold:
  assumes "retold_chat (sm_float env) c0 c" and "summarize_items env xs (Some c) = ((ds, ids), chat')"
  obtains c' where "chat' = Some c'" "retold_chat (sm_float env) c0 c'"
proof -
  have "\<exists>c'. chat' = Some c' \<and> retold_chat (sm_float env) c0 c'"
    using assms
  proof (induction xs arbitrary: c ds ids)
    case (Cons x xs)
    from Cons.prems(2) obtain d i c1 es js where
      one: "summarize_item env x (Some c) = ((d, i), c1)" and
      rest: "summarize_items env xs c1 = ((es, js), chat')"
      by (auto split: prod.splits)
    from summarize_item_retold [OF Cons.prems(1) one] obtain c' where "c1 = Some c'" "retold_chat (sm_float env) c0 c'" .
    with Cons.IH rest show ?case by blast
  qed auto
  with that show ?thesis by blast
qed

section \<open>What the action answers\<close>

text \<open>A refusal of the whole call, and the report of a batch of \<open>n\<close> items.\<close>

definition call_refused :: "dict \<Rightarrow> bool" where
  "call_refused d \<longleftrightarrow> dget d ''status'' = Some (PStr ''error'') \<and> dget d ''summarized'' = None \<and>
     (\<exists>m. dget d ''message'' = Some (PStr m)) \<and>
     dget d ''reason'' \<in> (Some \<circ> PStr) ` {''runtime_threshold_change_not_supported'', ''missing_items'', ''no_chat_session''}"

definition batch_report :: "nat \<Rightarrow> dict \<Rightarrow> bool" where
  "batch_report n d \<longleftrightarrow>
     (\<exists>xs. length xs = n \<and> dget d ''items'' = Some (PList (map PDict xs)) \<and>
        (\<forall>x\<in>set xs. item_ok x \<or> item_refused x) \<and>
        dget d ''summarized'' = Some (PInt (int (length (filter item_ok xs)))) \<and>
        dget d ''failed'' = Some (PInt (int (length (filter item_refused xs)))) \<and>
        dget d ''status'' = Some (PStr (if list_all item_ok xs then ''ok'' else if list_ex item_ok xs then ''partial'' else ''error'')))
     \<and> (\<exists>ids. dget d ''cleared_reminders'' = Some (strings ids))"

text \<open>The keys of a report that recorded or applied something.\<close>

definition rebuild_keys :: "dict \<Rightarrow> bool" where
  "rebuild_keys d \<longleftrightarrow> dget d ''mode'' = Some (PStr ''rebuild'') \<and> (\<exists>b. dget d ''rebuild_requested'' = Some (PBool b)) \<and>
     (\<exists>t. dget d ''applied_summary_totals'' = Some (totals_dict t)) \<and> (\<exists>ids. dget d ''marked_done'' = Some (strings ids))"

definition summarize_keys :: "dict \<Rightarrow> bool" where
  "summarize_keys d \<longleftrightarrow> dget d ''mode'' = Some (PStr ''summarize'') \<and>
     (\<exists>t. dget d ''pending_summary_totals'' = Some (totals_dict t))"

definition given_items :: "dict \<Rightarrow> py list" where
  "given_items args = (case dgetd args ''items'' PNone of PList xs \<Rightarrow> xs | _ \<Rightarrow> [])"

definition wants_rebuild :: "dict \<Rightarrow> bool" where
  "wants_rebuild args \<longleftrightarrow> truthy_flag (dgetd args ''rebuild'' PNone)"

lemma count_refused:
  "\<forall>x\<in>set xs. item_ok x \<or> item_refused x \<Longrightarrow> length (filter item_refused xs) = length xs - length (filter item_ok xs)"
proof -
  assume "\<forall>x\<in>set xs. item_ok x \<or> item_refused x"
  then have "filter item_refused xs = filter (\<lambda>x. \<not> item_ok x) xs"
    by (intro filter_cong) (auto dest: item_not_both)
  then show ?thesis using sum_length_filter_compl [of item_ok xs] by simp
qed

lemma all_counted: "length (filter p xs) = length xs \<longleftrightarrow> list_all p xs"
  by (metis filter_True length_filter_less less_irrefl list_all_iff)

lemma some_counted: "0 < length (filter p xs) \<longleftrightarrow> list_ex p xs"
  by (simp add: list_ex_iff filter_empty_conv)

lemma base_report:
  assumes "summarize_items env xs chat = ((ds, ids), chat')"
  shows "batch_report (length xs) (batch_base th (length xs) ds ids cleared)"
proof -
  note typed = summarize_items_typed [OF assms(1)]
  have le: "length (filter item_ok ds) \<le> length ds" by simp
  have f: "int (length xs) - int (length ids) = int (length (filter item_refused ds))"
    using count_refused [OF typed(2)] le typed(1,3) by simp
  have "int (length xs) - int (length ids) = 0 \<longleftrightarrow> list_all item_ok ds"
    using le typed(1,3) all_counted [of item_ok ds] by linarith
  moreover have "0 < int (length ids) \<longleftrightarrow> list_ex item_ok ds"
    using typed(3) some_counted [of item_ok ds] by simp
  ultimately show ?thesis
    using typed(1,2,3) f by (auto simp: batch_report_def batch_base_def Let_def intro!: exI [of _ ds])
qed

lemma dget_append_first: "dget d k = Some v \<Longrightarrow> dget (d @ d') k = Some v"
  by (simp add: map_add_def)

lemma batch_report_append: "batch_report n d \<Longrightarrow> batch_report n (d @ d')"
  unfolding batch_report_def by (elim exE conjE) (intro conjI exI; (assumption | rule dget_append_first, assumption))

lemma batch_base_dget:
  "k \<notin> {''status'', ''summarized'', ''failed'', ''items'', ''cleared_reminders'', ''notification_threshold_chars''} \<Longrightarrow>
   dget (batch_base th n ds ids cleared) k = None"
  by (simp add: batch_base_def Let_def)

lemma pure_rebuild_cases:
  assumes "pure_rebuild_result env chat w = (r, chat', w')"
  shows "(case r of Inl e \<Rightarrow> chat \<noteq> None | Inr d \<Rightarrow> if chat = None then call_refused d else batch_report 0 d \<and> rebuild_keys d)"
    "chat' = None \<longleftrightarrow> chat = None"
  using assms
  by (fastforce simp: pure_rebuild_result_def call_refused_def batch_report_def rebuild_keys_def strings_def
      split: option.splits prod.splits sum.splits)+

lemma batch_base_plain:
  "base = batch_base th n ds ids cleared \<Longrightarrow>
   k \<in> {''mode'', ''rebuild_requested'', ''applied_summary_totals'', ''marked_done'', ''pending_summary_totals''} \<Longrightarrow>
   dget base k = None"
  by (auto simp: batch_base_dget)

lemma rebuild_keys_append:
  "dget base ''mode'' = None \<Longrightarrow> dget base ''rebuild_requested'' = None \<Longrightarrow> dget base ''applied_summary_totals'' = None \<Longrightarrow>
   dget base ''marked_done'' = None \<Longrightarrow>
   rebuild_keys (base @ [(''context'', s), (''mode'', PStr ''rebuild''), (''rebuild_requested'', PBool b),
     (''applied_summary_totals'', totals_dict t), (''marked_done'', strings ids), (''reconstruction'', m)])"
  by (simp add: rebuild_keys_def map_add_def) blast

lemma summarize_keys_append:
  "dget base ''mode'' = None \<Longrightarrow> dget base ''pending_summary_totals'' = None \<Longrightarrow>
   summarize_keys (base @ [(''context'', s), (''mode'', PStr ''summarize''), (''pending_summary_totals'', totals_dict t),
     (''reconstruction'', m)])"
  by (simp add: summarize_keys_def map_add_def) blast

lemma comment_batch_cases:
  assumes "batch_report n base" "\<And>k. k \<in> {''mode'', ''rebuild_requested'', ''applied_summary_totals'', ''marked_done'',
      ''pending_summary_totals''} \<Longrightarrow> dget base k = None"
    and "comment_batch env rebuild base c w = (r, chat', w')"
  shows "case r of Inl e \<Rightarrow> rebuild | Inr d \<Rightarrow> batch_report n d \<and> (if rebuild then rebuild_keys d else summarize_keys d)"
proof -
  note keys = rebuild_keys_append [OF assms(2,2,2,2)] summarize_keys_append [OF assms(2,2)] batch_report_append [OF assms(1)]
  show ?thesis
    using assms(3) by (auto simp: comment_batch_def Let_def keys split: if_splits prod.splits sum.splits)
qed

lemma threshold_refused:
  "call_refused [(''status'', PStr ''error''), (''reason'', PStr ''runtime_threshold_change_not_supported''),
     (''message'', PStr m), (''notification_threshold_chars'', th)]"
  by (simp add: call_refused_def)

lemma missing_items_refused:
  "call_refused [(''status'', PStr ''error''), (''reason'', PStr ''missing_items''), (''message'', PStr m),
     (''notification_threshold_chars'', th)]"
  by (simp add: call_refused_def)

lemmas summarize_guards = summarize_def given_items_def [symmetric] wants_rebuild_def [symmetric] Let_def

text \<open>A call with items, as its stages.\<close>

lemma summarize_batch:
  assumes "dgetd args ''notification_threshold_chars'' PNone = PNone" "given_items args \<noteq> []"
  obtains ds ids chat1 cleared chat2 w1 base where
    "summarize_items env (given_items args) chat = ((ds, ids), chat1)" "store_batch env ids chat1 w = (cleared, chat2, w1)"
    "base = batch_base (sm_threshold env) (length (given_items args)) ds ids cleared"
    "batch_report (length (given_items args)) base" "dget base ''summarized'' = Some (PInt (int (length ids)))"
    "summarize env args chat w =
       (case chat2 of
          Some c \<Rightarrow> if ids = [] then (Inr base, chat2, w1) else comment_batch env (wants_rebuild args) base c w1
        | None \<Rightarrow> (Inr base, chat2, w1))"
proof -
  obtain ds ids chat1 where items: "summarize_items env (given_items args) chat = ((ds, ids), chat1)" by (metis prod.exhaust)
  obtain cleared chat2 w1 where stored: "store_batch env ids chat1 w = (cleared, chat2, w1)" by (metis prod.exhaust)
  show ?thesis
  proof (rule that [OF items stored refl base_report [OF items]])
    show "dget (batch_base (sm_threshold env) (length (given_items args)) ds ids cleared) ''summarized'' = Some (PInt (int (length ids)))"
      by (simp add: batch_base_def Let_def)
    show "summarize env args chat w =
      (case chat2 of
         Some c \<Rightarrow> if ids = [] then (Inr (batch_base (sm_threshold env) (length (given_items args)) ds ids cleared), chat2, w1)
           else comment_batch env (wants_rebuild args) (batch_base (sm_threshold env) (length (given_items args)) ds ids cleared) c w1
       | None \<Rightarrow> (Inr (batch_base (sm_threshold env) (length (given_items args)) ds ids cleared), chat2, w1))"
      using assms items stored by (simp add: summarize_guards)
  qed
qed

lemma store_batch_none: "store_batch env ids chat w = (cleared, chat2, w1) \<Longrightarrow> chat2 = None \<longleftrightarrow> chat = None"
  by (auto simp: store_batch_def Let_def split: option.splits prod.splits sum.splits if_splits)

section \<open>Sessions whose hooks only retell\<close>

text \<open>What the engine needs of the session so that the conversation stays what it was but for its summaries.\<close>

locale tame_session =
  fixes env :: "'w summarizer"
  assumes told: "retold_chat sf c0 c \<Longrightarrow> retold_chat sf c0 (fst (sm_summarized env ids c w))"
    and asked: "sm_hook env = Some hook \<Longrightarrow> retold_chat sf c0 c \<Longrightarrow> retold_chat sf c0 (fst (snd (hook reason c w)))"
begin

lemma requested:
  assumes "retold_chat sf c0 c" "request_rebuild env reason c w = (r, c1, w1)"
  shows "retold_chat sf c0 c1"
proof (cases "sm_hook env")
  case None
  with assms show ?thesis by (simp add: request_rebuild_def)
next
  case (Some hook)
  note one = asked [OF Some assms(1), of "Some reason" w] and two = asked [OF Some, of sf c0 _ None]
  show ?thesis
    using assms(2) one two
    by (auto simp: request_rebuild_def Some split: sum.splits exc.splits prod.splits) (metis fst_conv snd_conv)+
qed

lemma applied:
  assumes "retold_chat sf c0 c" "apply_pending env c w = (r, c1, w1)"
  shows "retold_chat sf c0 c1"
  using assms requested retold_mark [OF assms(1)] by (fastforce simp: apply_pending_def Let_def split: prod.splits)

lemma pure:
  assumes "pure_rebuild_result env (Some c) w = (r, chat', w')"
  obtains c' where "chat' = Some c'" "retold_chat sf c c'"
proof -
  obtain t fl s q c1 w1 where a: "apply_pending env c w = ((t, fl, s, q), c1, w1)" by (metis prod.exhaust)
  with assms have "chat' = Some c1" by (auto simp: pure_rebuild_result_def split: sum.splits)
  with applied [OF retold_chat_refl a] that show ?thesis by blast
qed

lemma stored:
  assumes "retold_chat sf c0 c" "store_batch env ids (Some c) w = (cleared, chat', w')"
  obtains c' where "chat' = Some c'" "retold_chat sf c0 c'"
  using assms(2) told [OF assms(1), of ids] assms(1)
  by (auto simp: store_batch_def Let_def split: prod.splits sum.splits if_splits) (metis fst_conv that)+

lemma commented:
  assumes "retold_chat sf c0 c" "comment_batch env rebuild base c w = (r, chat', w')"
  obtains c' where "chat' = Some c'" "retold_chat sf c0 c'"
proof (cases rebuild)
  case True
  obtain t fl s q c1 w1 where a: "apply_pending env c w = ((t, fl, s, q), c1, w1)" by (metis prod.exhaust)
  with assms(2) True have "chat' = Some c1" by (auto simp: comment_batch_def Let_def split: sum.splits)
  with applied [OF assms(1) a] that show ?thesis by blast
next
  case False
  with assms that show ?thesis by (auto simp: comment_batch_def Let_def)
qed

lemma summarized:
  assumes s: "summarize env args (Some c) w = (r, chat', w')"
  obtains c' where "chat' = Some c'" "retold_chat (sm_float env) c c'"
proof (cases "dgetd args ''notification_threshold_chars'' PNone = PNone \<and> given_items args \<noteq> []")
  case False
  have "(\<exists>q v. pure_rebuild_result env (Some c) w = (q, chat', v)) \<or> chat' = Some c"
    using s False by (auto simp: summarize_guards split: if_splits)
  with pure [of c w] that show ?thesis by (metis retold_chat_refl)
next
  case True
  then have guards: "dgetd args ''notification_threshold_chars'' PNone = PNone" "given_items args \<noteq> []" by simp_all
  obtain ds ids chat1 cleared chat2 w1 base where
    items: "summarize_items env (given_items args) (Some c) = ((ds, ids), chat1)" and
    st: "store_batch env ids chat1 w = (cleared, chat2, w1)" and
    rest: "summarize env args (Some c) w =
     (case chat2 of
        Some c \<Rightarrow> if ids = [] then (Inr base, chat2, w1) else comment_batch env (wants_rebuild args) base c w1
      | None \<Rightarrow> (Inr base, chat2, w1))"
    by (rule summarize_batch [OF guards, of env "Some c" w])
  from summarize_items_retold [OF retold_chat_refl items] obtain c1 where
    c1: "chat1 = Some c1" "retold_chat (sm_float env) c c1" .
  from stored [OF c1(2) st [unfolded c1(1)]] obtain c2 where
    c2: "chat2 = Some c2" "retold_chat (sm_float env) c c2" .
  show ?thesis
  proof (cases "ids = []")
    case True
    with c2 rest s that show ?thesis by auto
  next
    case False
    with rest s c2(1) have "comment_batch env (wants_rebuild args) base c2 w1 = (r, chat', w')" by simp
    from commented [OF c2(2) this] that show ?thesis by blast
  qed
qed

end

lemma summarize_no_chat:
  assumes "summarize env args None w = (r, chat', w')"
  shows "chat' = None"
proof (cases "dgetd args ''notification_threshold_chars'' PNone = PNone \<and> given_items args \<noteq> []")
  case False
  then show ?thesis
    using assms pure_rebuild_cases(2) [of env None w r chat' w'] by (auto simp: summarize_guards split: if_splits)
next
  case True
  then have guards: "dgetd args ''notification_threshold_chars'' PNone = PNone" "given_items args \<noteq> []" by simp_all
  obtain ds ids chat1 cleared chat2 w1 base where
    items: "summarize_items env (given_items args) None = ((ds, ids), chat1)" and
    st: "store_batch env ids chat1 w = (cleared, chat2, w1)" and
    rest: "summarize env args None w =
     (case chat2 of
        Some c \<Rightarrow> if ids = [] then (Inr base, chat2, w1) else comment_batch env (wants_rebuild args) base c w1
      | None \<Rightarrow> (Inr base, chat2, w1))"
    by (rule summarize_batch [OF guards, of env None w])
  from summarize_items_typed(4) [OF items] store_batch_none [OF st] rest assms show ?thesis by simp
qed

text \<open>
  The hooks every session has from \<^verbatim>\<open>ChatSession\<close>: nothing on a summary, and no to a rebuild.
\<close>

definition base_on_history_summarized :: "string list \<Rightarrow> chat \<Rightarrow> 'w \<Rightarrow> chat \<times> 'w" where
  "base_on_history_summarized ids c w = (c, w)"

definition base_request_history_rebuild :: "string option \<Rightarrow> chat \<Rightarrow> 'w \<Rightarrow> (exc + py) \<times> chat \<times> 'w" where
  "base_request_history_rebuild reason c w = (Inr (PBool False), c, w)"

definition base_session :: "'w summarizer \<Rightarrow> 'w summarizer" where
  "base_session env = env\<lparr>sm_summarized := base_on_history_summarized, sm_hook := Some base_request_history_rebuild\<rparr>"

interpretation base_chat: tame_session "base_session env" for env
  by unfold_locales (auto simp: base_session_def base_on_history_summarized_def base_request_history_rebuild_def)

text \<open>C12: on a session whose hooks only retell, whatever a call of the action is given, it does nothing else to the
  conversation than this: a tool result that is not yet a summary may become a pending summary (or a done one, after a
  rebuild) that carries the result's id and name and the visible length of what it replaces, and a summary may go
  from pending to done; no summary is overwritten, and entries, roles, calls, ids and the order stay. So the wire stays
  paired, and calls are open after it iff they were open before it. With no session there is none after it.\<close>

theorem summaries_keep_conversation:
  assumes "tame_session env"
  shows "case summarize env args chat w of
     (r, chat', w') \<Rightarrow>
       (case chat of
          None \<Rightarrow> chat' = None
        | Some c \<Rightarrow> \<exists>c'. chat' = Some c' \<and> retold_chat (sm_float env) c c' \<and> wire_ok c' = wire_ok c \<and>
            has_pending_tool_calls c' = has_pending_tool_calls c)"
proof -
  obtain r chat' w' where s: "summarize env args chat w = (r, chat', w')" by (metis prod.exhaust)
  show ?thesis
  proof (cases chat)
    case None
    with summarize_no_chat s show ?thesis by auto
  next
    case (Some c)
    from tame_session.summarized [OF assms s [unfolded Some]] obtain c' where
      "chat' = Some c'" "retold_chat (sm_float env) c c'" .
    then show ?thesis using s by (simp add: Some retold_keeps_wire)
  qed
qed

text \<open>C13: what the action answers is typed. A call is refused with a reason and a message, exactly when it tries to change the
  threshold, or gives no items and asks for no rebuild or has no session to rebuild. Otherwise the report has one
  dictionary per given item, each either a summary recorded (with its call id, the tool's name and both lengths) or an
  error of one of the six kinds; the two counts are those of the items, and the status is ok, partial or error as all, some or
  none were recorded. When something was recorded, or pending summaries were applied, the keys of that mode are there
  with their types. The call itself raises only while asking for a rebuild.\<close>

theorem summarize_answers_typed:
  "case summarize env args chat w of
     (Inl e, _) \<Rightarrow> wants_rebuild args
   | (Inr d, _) \<Rightarrow>
       (if dgetd args ''notification_threshold_chars'' PNone \<noteq> PNone then call_refused d
        else if given_items args = [] then
          (if wants_rebuild args \<and> chat \<noteq> None then batch_report 0 d \<and> rebuild_keys d else call_refused d)
        else batch_report (length (given_items args)) d \<and>
          (dget d ''summarized'' = Some (PInt 0) \<or> (if wants_rebuild args then rebuild_keys d else summarize_keys d)))"
proof (cases "dgetd args ''notification_threshold_chars'' PNone = PNone \<and> given_items args \<noteq> []")
  case False
  obtain r chat' w' where p: "pure_rebuild_result env chat w = (r, chat', w')" by (metis prod.exhaust)
  from False pure_rebuild_cases(1) [OF p] show ?thesis
    by (auto simp: summarize_guards p threshold_refused missing_items_refused split: sum.splits if_splits)
next
  case True
  then have guards: "dgetd args ''notification_threshold_chars'' PNone = PNone" "given_items args \<noteq> []" by simp_all
  obtain ds ids chat1 cleared chat2 w1 base where
    items: "summarize_items env (given_items args) chat = ((ds, ids), chat1)" and
    st: "store_batch env ids chat1 w = (cleared, chat2, w1)" and
    base: "base = batch_base (sm_threshold env) (length (given_items args)) ds ids cleared"
      "batch_report (length (given_items args)) base" "dget base ''summarized'' = Some (PInt (int (length ids)))" and
    rest: "summarize env args chat w =
     (case chat2 of
        Some c \<Rightarrow> if ids = [] then (Inr base, chat2, w1) else comment_batch env (wants_rebuild args) base c w1
      | None \<Rightarrow> (Inr base, chat2, w1))"
    by (rule summarize_batch [OF guards, of env chat w])
  show ?thesis
  proof (cases "chat2 = None \<or> ids = []")
    case True
    have "ids = []"
      using True summarize_items_without_chat [of env "given_items args"] summarize_items_typed(4) [OF items]
        store_batch_none [OF st] items by auto
    with True rest base(2,3) guards show ?thesis by (auto split: option.splits)
  next
    case False
    then obtain c where c: "chat2 = Some c" by auto
    obtain r chat' w' where q: "comment_batch env (wants_rebuild args) base c w1 = (r, chat', w')" by (metis prod.exhaust)
    from comment_batch_cases [OF base(2) batch_base_plain [OF base(1)] q] False c rest q guards
    show ?thesis by (auto split: sum.splits)
  qed
qed

section \<open>A rebuild that is declined\<close>

lemma marked_block_settled: "m \<in> set (marker_of (finish_block b)) \<Longrightarrow> \<not> is_pending_marker m"
  by (cases b) (auto simp: finish_marker_def is_pending_marker_def is_already_summarized_def SUMMARY_STATUS_PENDING_def
      SUMMARY_STATUS_DONE_def split: py.splits if_splits)

lemma marked_settled:
  assumes "mark_pending_summaries_done c = (ids, c')" "m \<in> set (marker_blocks c')"
  shows "\<not> is_pending_marker m"
proof
  assume "is_pending_marker m"
  with assms show False
    using marked_block_settled [of m] by (auto simp: mark_pending_summaries_done_def marker_blocks_def split: if_splits)
qed

lemma refused_comment: "sublist ''Any recorded summaries stay pending'' (build_rebuild_reconstruction f2 s t False)"
proof -
  have "\<exists>b e. build_rebuild_reconstruction f2 s t False = b @ ''Any recorded summaries stay pending'' @ e"
    unfolding build_rebuild_reconstruction_def by (simp only: not_False_eq_True if_True) (metis append_assoc)
  then show ?thesis by (simp add: sublist_def)
qed

text \<open>The session has no hook, or one that answers no or fails, and leaves the conversation alone.\<close>

definition declines :: "'w summarizer \<Rightarrow> bool" where
  "declines env \<longleftrightarrow> (\<forall>c w. \<exists>w'. request_rebuild env ''summarize_rebuild_only'' c w = (Inr False, c, w'))"

text \<open>C29: a rebuild that is declined still spends the summaries. On a session whose rebuild hook is missing or declines, a rebuild
  with no items answers ok and not requested, with a comment that says the recorded summaries stay pending; but
  the conversation it leaves has no pending summary, so that the totals of every later call count none and the
  ids that were pending have been reported as done.\<close>

theorem declined_rebuild_spends_summaries:
  assumes "declines env" "wants_rebuild args" "given_items args = []"
    and "dgetd args ''notification_threshold_chars'' PNone = PNone"
  shows "\<exists>d c' w'. summarize env args (Some c) w = (Inr d, Some c', w') \<and>
     dget d ''status'' = Some (PStr ''ok'') \<and> dget d ''rebuild_requested'' = Some (PBool False) \<and>
     dget d ''marked_done'' = Some (strings (concat (map flipped_id (marker_blocks c)))) \<and>
     (\<exists>m. dget d ''reconstruction'' = Some (PStr m) \<and> sublist ''Any recorded summaries stay pending'' m) \<and>
     filter is_pending_marker (marker_blocks c') = [] \<and>
     su_count (summary_totals_over_pending parse c') = 0"
proof -
  obtain ids c' where mark: "mark_pending_summaries_done c = (ids, c')" by fastforce
  then have ids: "ids = concat (map flipped_id (marker_blocks c))" by (simp add: mark_pending_summaries_done_def)
  from assms(1) obtain w' where req: "request_rebuild env ''summarize_rebuild_only'' c' w = (Inr False, c', w')"
    unfolding declines_def by blast
  have none: "filter is_pending_marker (marker_blocks c') = []"
    using marked_settled [OF mark] by (simp add: filter_empty_conv)
  show ?thesis
    using assms(2,3,4) refused_comment none
    by (simp add: summarize_guards pure_rebuild_result_def apply_pending_def mark req ids summary_totals_over_pending_def)
qed

definition sample_told :: chat where
  "sample_told = init_chat\<lparr>entries := [new_entry 0 User [ToolResultBlock ((sample_result ''a'' ''done'' False)\<lparr>tr_content :=
     PDict [(''artifact'', PStr SUMMARIZE_MARKER), (''tool_call_id'', PStr ''a''), (''status'', PStr SUMMARY_STATUS_PENDING)]\<rparr>)] 3 []]\<rparr>"

definition sample_summarizer :: "unit summarizer" where
  "sample_summarizer = \<lparr>sm_float = (\<lambda>_. []), sm_two_decimals = (\<lambda>_. []), sm_parse_int = (\<lambda>_. None), sm_now = ''2026'',
     sm_threshold = PInt 3000, sm_save = (\<lambda>c w. w), sm_summarized = (\<lambda>ids c w. (c, w)), sm_clear = (\<lambda>ids w. (Inr [], w)),
     sm_workdir = False, sm_snapshot = (\<lambda>c w. \<lparr>sn_usage = None, sn_tokens = None, sn_window = None\<rparr>), sm_hook = None\<rparr>"

theorem declined_rebuild_spends_summaries_witness:
  "(\<exists>d c' w'. summarize sample_summarizer [(''rebuild'', PBool True)] (Some sample_told) () = (Inr d, Some c', w') \<and>
     dget d ''marked_done'' = Some (strings [''a'']) \<and> filter is_pending_marker (marker_blocks c') = []) \<and>
   length (filter is_pending_marker (marker_blocks sample_told)) = 1"
proof -
  have hyps: "declines sample_summarizer" "wants_rebuild [(''rebuild'', PBool True)]" "given_items [(''rebuild'', PBool True)] = []"
    "dgetd [(''rebuild'', PBool True)] ''notification_threshold_chars'' PNone = PNone"
    by (simp_all add: declines_def request_rebuild_def sample_summarizer_def wants_rebuild_def given_items_def truthy_flag_def dgetd_def)
  have told: "concat (map flipped_id (marker_blocks sample_told)) = [''a'']"
    "length (filter is_pending_marker (marker_blocks sample_told)) = 1"
    by (simp_all add: sample_told_def marker_blocks_def new_entry_def is_already_summarized_def flipped_id_def
        is_pending_marker_def)
  show ?thesis
    using declined_rebuild_spends_summaries [OF hyps, where c = sample_told and w = "()" and parse = "\<lambda>_. None"] told by (simp only:) blast
qed

definition sample_args :: dict where
  "sample_args = [(''items'', PList [PDict [(''tool_call_id'', PStr ''a''), (''summary'', PStr ''short'')]])]"

theorem summaries_keep_conversation_witness:
  "\<exists>r c'. summarize (base_session sample_summarizer) sample_args (Some sample_answered) () = (r, Some c', ()) \<and>
     retold_chat (sm_float (base_session sample_summarizer)) sample_answered c' \<and> wire_ok c' = wire_ok sample_answered"
  using summaries_keep_conversation [OF base_chat.tame_session_axioms, where env1 = sample_summarizer and args = sample_args and
      chat = "Some sample_answered" and w = "()"]
  by (auto split: prod.splits)

end
