(* ===== verification/Codex_Boundary.thy ===== *)
theory Codex_Boundary
  imports Context_Summarize
begin

text \<open>
  The hard context boundary of a Codex session (\<^verbatim>\<open>llm/openai/adapter.py\<close>, \<^verbatim>\<open>CodexResponsesSession\<close>): when the session
  throws the remote continuation away and replays the local history, by force once usage reaches the whole window, on request, or after a
  number of turns; the one-shot latch of the forced rebuild; the warning when it did not help; and the
  hooks by which the summaries of \<^verbatim>\<open>Context_Summarize\<close> reach the session.

  The account callback is what it was called with, the context window and the environment's turn limit are arguments. What the
  session holds of the wire (transport, cached request and response, frozen outputs) is there as far as a reset clears it.
\<close>

section \<open>The session\<close>

definition FORCED_REBUILD_RATIO :: rat where "FORCED_REBUILD_RATIO = 1"

definition RECOVERY_TARGET :: rat where "RECOVERY_TARGET = 3 / 4"

record delay_context =
  dl_tokens :: "int option"
  dl_window :: "int option"
  dl_threshold :: "int option"
  dl_usage :: "rat option"

record codex =
  cx_input :: "int option"
  cx_continuation :: bool
  cx_fired :: bool
  cx_awaiting :: bool
  cx_pending_ids :: "string set"
  cx_last_context :: "delay_context option"
  cx_release :: "string option"
  cx_event :: "dict option"
  cx_explicit :: bool
  cx_limit :: int
  cx_turns :: int
  cx_reason :: "string option"
  cx_account :: bool
  cx_redraws :: "string list"
  cx_compacted :: "py list option"
  cx_compacted_at :: int
  cx_transport :: bool
  cx_baseline :: "py list option"
  cx_last_request :: "dict option"
  cx_last_response :: "dict option"
  cx_turn_state :: "string option"
  cx_frozen :: dict

definition init_codex :: "bool \<Rightarrow> int \<Rightarrow> codex" where
  "init_codex explicit limit =
     \<lparr>cx_input = None, cx_continuation = True, cx_fired = False, cx_awaiting = False, cx_pending_ids = {},
      cx_last_context = None, cx_release = None, cx_event = None, cx_explicit = explicit, cx_limit = limit, cx_turns = 0,
      cx_reason = None, cx_account = False, cx_redraws = [], cx_compacted = None, cx_compacted_at = 0, cx_transport = False,
      cx_baseline = None, cx_last_request = None, cx_last_response = None, cx_turn_state = None, cx_frozen = []\<rparr>"

text \<open>\<^verbatim>\<open>_summarize_delay_context\<close>; the window is \<open>None\<close> where reading it raises.\<close>

definition summarize_delay_context :: "int option \<Rightarrow> codex \<Rightarrow> delay_context" where
  "summarize_delay_context window s =
     (let tokens = (case cx_input s of Some n \<Rightarrow> if n = 0 then None else Some n | None \<Rightarrow> None)
      in \<lparr>dl_tokens = tokens, dl_window = window,
          dl_threshold = (case window of Some n \<Rightarrow> if 0 < n then Some \<lfloor>of_int n * FORCED_REBUILD_RATIO\<rfloor> else None | None \<Rightarrow> None),
          dl_usage = (case (tokens, window) of
                        (Some t, Some n) \<Rightarrow> if 0 < n then Some (of_int t / of_int n) else None
                      | _ \<Rightarrow> None)\<rparr>)"

abbreviation usage_of :: "int option \<Rightarrow> codex \<Rightarrow> rat option" where
  "usage_of window s \<equiv> dl_usage (summarize_delay_context window s)"

definition opt_py :: "('a \<Rightarrow> py) \<Rightarrow> 'a option \<Rightarrow> py" where
  "opt_py f v = (case v of None \<Rightarrow> PNone | Some a \<Rightarrow> f a)"

definition record_reconstruction_event :: "int option \<Rightarrow> string \<Rightarrow> codex \<Rightarrow> codex" where
  "record_reconstruction_event window reason s =
     (let d = summarize_delay_context window s;
          kind = (if reason = ''summarize_rebuild_only'' then ''summarize_rebuild_only_reconstruction''
                  else ''delayed_summarize_reconstruction'')
      in s\<lparr>cx_event := Some [(''type'', PStr kind), (''reason'', PStr kind), (''trigger_threshold'', PFloat FORCED_REBUILD_RATIO),
           (''recovery_target'', PFloat RECOVERY_TARGET), (''context_window'', opt_py PInt (dl_window d)),
           (''before'', PDict [(''context_tokens'', opt_py PInt (dl_tokens d)), (''usage'', opt_py PFloat (dl_usage d))])]\<rparr>)"

definition take_pending_reconstruction_event :: "codex \<Rightarrow> dict option \<times> codex" where
  "take_pending_reconstruction_event s = (cx_event s, s\<lparr>cx_event := None\<rparr>)"

definition applies_summaries :: "string \<Rightarrow> bool" where
  "applies_summaries reason \<longleftrightarrow> reason \<in> {''summarize_delayed'', ''summarize_rebuild_only''}"

text \<open>\<^verbatim>\<open>_reset_ws_epoch\<close>, on the session and the conversation it holds.\<close>

definition reset_ws_epoch :: "int option \<Rightarrow> string \<Rightarrow> codex \<Rightarrow> chat \<Rightarrow> codex \<times> chat" where
  "reset_ws_epoch window reason s c =
     (let s1 = (if applies_summaries reason then
                  record_reconstruction_event window reason (s\<lparr>cx_account := True, cx_redraws := cx_redraws s @ [reason]\<rparr>)
                else s);
          c1 = (if applies_summaries reason then snd (mark_pending_summaries_done c) else c);
          s2 = s1\<lparr>cx_compacted := None, cx_compacted_at := 0, cx_transport := False, cx_last_request := None,
                  cx_last_response := None, cx_turn_state := None, cx_baseline := None, cx_frozen := [], cx_turns := 0,
                  cx_reason := Some reason\<rparr>;
          s3 = (if applies_summaries reason then s2\<lparr>cx_release := Some reason\<rparr> else s2)
      in (s3\<lparr>cx_pending_ids := {}\<rparr>, c1))"

text \<open>\<^verbatim>\<open>_fire_boundary_forced_rebuild\<close>: whether this call rebuilt.\<close>

definition fire_boundary_forced_rebuild :: "int option \<Rightarrow> codex \<Rightarrow> chat \<Rightarrow> bool \<times> codex \<times> chat" where
  "fire_boundary_forced_rebuild window s c =
     (if cx_fired s then (False, s, c)
      else (True, reset_ws_epoch window ''summarize_delayed'' (s\<lparr>cx_fired := True, cx_awaiting := True\<rparr>) c))"

definition observe_provider_usage_for_boundary :: "int option \<Rightarrow> codex \<Rightarrow> codex" where
  "observe_provider_usage_for_boundary window s =
     (case usage_of window s of
        None \<Rightarrow> s
      | Some u \<Rightarrow> if u < FORCED_REBUILD_RATIO then s\<lparr>cx_fired := False, cx_awaiting := False\<rparr> else s\<lparr>cx_awaiting := False\<rparr>)"

definition context_overflow_status :: "int option \<Rightarrow> codex \<Rightarrow> rat option" where
  "context_overflow_status window s =
     (if \<not> cx_fired s \<or> cx_awaiting s then None
      else (case usage_of window s of None \<Rightarrow> None | Some u \<Rightarrow> if u \<le> FORCED_REBUILD_RATIO then None else Some u))"

text \<open>\<^verbatim>\<open>_maybe_force_rebuild_at_boundary\<close>: whether the boundary is reached, and whether this call rebuilt.\<close>

definition maybe_force_rebuild_at_boundary :: "int option \<Rightarrow> codex \<Rightarrow> chat \<Rightarrow> (bool \<times> bool) \<times> codex \<times> chat" where
  "maybe_force_rebuild_at_boundary window s c =
     (let s1 = s\<lparr>cx_last_context := Some (summarize_delay_context window s)\<rparr>
      in (case usage_of window s of
            None \<Rightarrow> ((False, False), s1, c)
          | Some u \<Rightarrow>
              if u < FORCED_REBUILD_RATIO then ((False, False), s1, c)
              else (case fire_boundary_forced_rebuild window s1 c of (b, r) \<Rightarrow> ((True, b), r))))"

definition refresh_ws_epoch_reset_turn_limit :: "int \<Rightarrow> codex \<Rightarrow> codex" where
  "refresh_ws_epoch_reset_turn_limit n s = (if cx_explicit s then s else s\<lparr>cx_limit := n\<rparr>)"

definition maybe_reset_ws_epoch :: "int option \<Rightarrow> int \<Rightarrow> codex \<Rightarrow> chat \<Rightarrow> bool \<times> codex \<times> chat" where
  "maybe_reset_ws_epoch window n s c =
     (case maybe_force_rebuild_at_boundary window (refresh_ws_epoch_reset_turn_limit n s) c of
        ((reached, forced), s1, c1) \<Rightarrow>
          if reached then (forced, s1, c1)
          else if cx_limit s1 \<le> 0 \<or> cx_turns s1 < cx_limit s1 then (False, s1, c1)
          else (False, reset_ws_epoch window ''turn_count'' s1 c1))"

definition on_history_summarized :: "int option \<Rightarrow> string list \<Rightarrow> codex \<Rightarrow> chat \<Rightarrow> bool \<times> codex \<times> chat" where
  "on_history_summarized window ids s c =
     (if ids = [] \<or> \<not> cx_continuation s then (False, s, c)
      else
        let s1 = s\<lparr>cx_pending_ids := cx_pending_ids s \<union> set ids, cx_last_context := Some (summarize_delay_context window s),
                   cx_release := None\<rparr>
        in (case usage_of window s of
              None \<Rightarrow> (False, s1, c)
            | Some u \<Rightarrow> if FORCED_REBUILD_RATIO \<le> u then fire_boundary_forced_rebuild window s1 c else (False, s1, c)))"

definition request_history_rebuild :: "int option \<Rightarrow> string \<Rightarrow> codex \<Rightarrow> chat \<Rightarrow> bool \<times> codex \<times> chat" where
  "request_history_rebuild window reason s c =
     (if \<not> cx_continuation s then (False, s, c)
      else (True, reset_ws_epoch window reason
              (s\<lparr>cx_last_context := Some (summarize_delay_context window s), cx_release := Some reason\<rparr>) c))"

text \<open>A successful response: its input tokens, the latch, and whether it counts as a turn of the epoch.\<close>

definition note_response :: "int option \<Rightarrow> int \<Rightarrow> bool \<Rightarrow> codex \<Rightarrow> codex" where
  "note_response window n recorded s =
     (let s1 = observe_provider_usage_for_boundary window (s\<lparr>cx_input := if 0 < n then Some n else None\<rparr>)
      in if cx_continuation s1 \<and> recorded then s1\<lparr>cx_turns := cx_turns s1 + 1\<rparr> else s1)"

section \<open>Runs of a session\<close>

text \<open>
  What happens to a session: a request is prepared, a response arrives, the agent summarizes or asks for a rebuild,
  the transport is reset for a reason of its own, or the event is taken. The trace has the forced rebuilds and
  the usages observed.
\<close>

datatype session_event =
    Request int
  | Response int bool
  | Summarized "string list"
  | Rebuild string
  | Technical string
  | Take

datatype boundary_event = Forced | Observed "rat option"

definition forced_trace :: "bool \<Rightarrow> boundary_event list" where
  "forced_trace b = (if b then [Forced] else [])"

fun session_step :: "int option \<Rightarrow> session_event \<Rightarrow> codex \<times> chat \<Rightarrow> (codex \<times> chat) \<times> boundary_event list" where
  "session_step window (Request n) (s, c) =
     (if cx_continuation s then (case maybe_reset_ws_epoch window n s c of (b, r) \<Rightarrow> (r, forced_trace b)) else ((s, c), []))"
| "session_step window (Response n recorded) (s, c) =
     ((note_response window n recorded s, c), [Observed (usage_of window (s\<lparr>cx_input := if 0 < n then Some n else None\<rparr>))])"
| "session_step window (Summarized ids) (s, c) = (case on_history_summarized window ids s c of (b, r) \<Rightarrow> (r, forced_trace b))"
| "session_step window (Rebuild reason) (s, c) = (case request_history_rebuild window reason s c of (b, r) \<Rightarrow> (r, []))"
| "session_step window (Technical reason) (s, c) = (reset_ws_epoch window reason s c, [])"
| "session_step window Take (s, c) = ((snd (take_pending_reconstruction_event s), c), [])"

fun session_run :: "int option \<Rightarrow> session_event list \<Rightarrow> codex \<times> chat \<Rightarrow> (codex \<times> chat) \<times> boundary_event list" where
  "session_run window [] r = (r, [])"
| "session_run window (e # es) r =
     (case session_step window e r of (r1, t) \<Rightarrow> (case session_run window es r1 of (r2, t') \<Rightarrow> (r2, t @ t')))"

section \<open>The latch follows the trace\<close>

fun relieves :: "boundary_event \<Rightarrow> bool" where
  "relieves (Observed (Some u)) = (u < FORCED_REBUILD_RATIO)"
| "relieves _ = False"

text \<open>The latch, the open verification and the last usage after a boundary event, and when such an event may come.\<close>

type_synonym latch = "bool \<times> bool \<times> rat option"

fun latch_step :: "boundary_event \<Rightarrow> latch \<Rightarrow> latch" where
  "latch_step Forced (f, a, u) = (True, True, u)"
| "latch_step (Observed None) (f, a, u) = (f, a, None)"
| "latch_step (Observed (Some v)) (f, a, u) = (if v < FORCED_REBUILD_RATIO then (False, False, Some v) else (f, False, Some v))"

fun once :: "boundary_event list \<Rightarrow> latch \<Rightarrow> bool" where
  "once [] l = True"
| "once (e # t) l \<longleftrightarrow> (e = Forced \<longrightarrow> \<not> fst l) \<and> once t (latch_step e l)"

definition latch_of :: "int option \<Rightarrow> codex \<Rightarrow> latch" where
  "latch_of window s = (cx_fired s, cx_awaiting s, usage_of window s)"

lemma usage_frame [simp]:
  "summarize_delay_context w (s\<lparr>cx_fired := b\<rparr>) = summarize_delay_context w s"
  "summarize_delay_context w (s\<lparr>cx_awaiting := b\<rparr>) = summarize_delay_context w s"
  "summarize_delay_context w (s\<lparr>cx_last_context := d\<rparr>) = summarize_delay_context w s"
  "summarize_delay_context w (s\<lparr>cx_limit := n\<rparr>) = summarize_delay_context w s"
  "summarize_delay_context w (s\<lparr>cx_turns := n\<rparr>) = summarize_delay_context w s"
  "summarize_delay_context w (s\<lparr>cx_pending_ids := ids\<rparr>) = summarize_delay_context w s"
  "summarize_delay_context w (s\<lparr>cx_release := r\<rparr>) = summarize_delay_context w s"
  "summarize_delay_context w (s\<lparr>cx_event := ev\<rparr>) = summarize_delay_context w s"
  by (simp_all add: summarize_delay_context_def)

lemma reset_latch: "reset_ws_epoch w reason s c = (s', c') \<Longrightarrow> latch_of w s' = latch_of w s"
  by (cases "applies_summaries reason")
    (auto simp: reset_ws_epoch_def Let_def latch_of_def record_reconstruction_event_def summarize_delay_context_def)

lemma fire_latch:
  assumes "fire_boundary_forced_rebuild w s c = (b, s', c')"
  shows "b \<longleftrightarrow> \<not> cx_fired s" "latch_of w s' = (if b then latch_step Forced (latch_of w s) else latch_of w s)"
proof -
  show "b \<longleftrightarrow> \<not> cx_fired s" using assms by (auto simp: fire_boundary_forced_rebuild_def split: if_splits)
  show "latch_of w s' = (if b then latch_step Forced (latch_of w s) else latch_of w s)"
  proof (cases "cx_fired s")
    case True
    with assms show ?thesis by (auto simp: fire_boundary_forced_rebuild_def)
  next
    case False
    with assms have b: "b" and r: "reset_ws_epoch w ''summarize_delayed'' (s\<lparr>cx_fired := True, cx_awaiting := True\<rparr>) c = (s', c')"
      by (auto simp: fire_boundary_forced_rebuild_def)
    from reset_latch [OF r] b show ?thesis by (simp add: latch_of_def)
  qed
qed

lemma forced_step:
  assumes "fire_boundary_forced_rebuild w s c = (b, s', c')"
  shows "latch_of w s' = fold latch_step (forced_trace b) (latch_of w s) \<and> once (forced_trace b) (latch_of w s)"
  using fire_latch [OF assms] by (auto simp: forced_trace_def latch_of_def)

lemma session_step_latch:
  assumes "session_step w e (s, c) = ((s', c'), t)"
  shows "latch_of w s' = fold latch_step t (latch_of w s) \<and> once t (latch_of w s)"
proof (cases e)
  case (Request n)
  define s1 where "s1 = (refresh_ws_epoch_reset_turn_limit n s)\<lparr>cx_last_context := Some (summarize_delay_context w s)\<rparr>"
  have l1: "latch_of w s1 = latch_of w s" "usage_of w (refresh_ws_epoch_reset_turn_limit n s) = usage_of w s"
    "summarize_delay_context w (refresh_ws_epoch_reset_turn_limit n s) = summarize_delay_context w s"
    by (auto simp: s1_def latch_of_def refresh_ws_epoch_reset_turn_limit_def)
  show ?thesis
    using assms forced_step [of w s1 c] reset_latch [of w _ s1 c] l1
    by (auto simp: Request maybe_reset_ws_epoch_def maybe_force_rebuild_at_boundary_def Let_def s1_def [symmetric]
        forced_trace_def split: if_splits option.splits prod.splits)
next
  case (Response n recorded)
  then show ?thesis
    using assms
    by (cases "usage_of w (s\<lparr>cx_input := if 0 < n then Some n else None\<rparr>)")
      (auto simp: note_response_def observe_provider_usage_for_boundary_def Let_def latch_of_def split: if_splits)
next
  case (Summarized ids)
  define s1 where "s1 = s\<lparr>cx_pending_ids := cx_pending_ids s \<union> set ids, cx_last_context := Some (summarize_delay_context w s),
                   cx_release := None\<rparr>"
  have l1: "latch_of w s1 = latch_of w s" by (simp add: s1_def latch_of_def)
  show ?thesis
    using assms forced_step [of w s1 c] l1
    by (auto simp: Summarized on_history_summarized_def Let_def s1_def [symmetric] forced_trace_def
        split: if_splits option.splits prod.splits)
next
  case (Rebuild reason)
  define s1 where "s1 = s\<lparr>cx_last_context := Some (summarize_delay_context w s), cx_release := Some reason\<rparr>"
  have l1: "latch_of w s1 = latch_of w s" by (simp add: s1_def latch_of_def)
  show ?thesis
    using assms reset_latch [of w reason s1 c] l1
    by (auto simp: Rebuild request_history_rebuild_def s1_def [symmetric] split: if_splits prod.splits)
next
  case (Technical reason)
  with assms show ?thesis using reset_latch [of w reason s c] by auto
next
  case Take
  with assms show ?thesis by (auto simp: take_pending_reconstruction_event_def latch_of_def)
qed

lemma once_append [simp]: "once (t @ t') l \<longleftrightarrow> once t l \<and> once t' (fold latch_step t l)"
  by (induction t arbitrary: l) auto

lemma session_run_latch:
  "session_run w es (s, c) = ((s', c'), t) \<Longrightarrow>
   latch_of w s' = fold latch_step t (latch_of w s) \<and> once t (latch_of w s)"
proof (induction es arbitrary: s c t)
  case (Cons e es)
  from Cons.prems obtain s1 c1 t1 t2 where
    st: "session_step w e (s, c) = ((s1, c1), t1)" and rn: "session_run w es (s1, c1) = ((s', c'), t2)" and t: "t = t1 @ t2"
    by (auto split: prod.splits)
  from session_step_latch [OF st] Cons.IH [OF rn] t show ?case by simp
qed simp

lemma fold_latch_fired:
  "fst (fold latch_step t l) \<longleftrightarrow> (\<exists>xs ys. t = xs @ Forced # ys \<and> \<not> list_ex relieves ys) \<or> fst l \<and> \<not> list_ex relieves t"
proof (induction t arbitrary: l)
  case (Cons e t)
  have split: "(\<exists>xs ys. e # t = xs @ Forced # ys \<and> \<not> list_ex relieves ys) \<longleftrightarrow>
    e = Forced \<and> \<not> list_ex relieves t \<or> (\<exists>xs ys. t = xs @ Forced # ys \<and> \<not> list_ex relieves ys)"
    by (auto simp: Cons_eq_append_conv)
  obtain f a u where l: "l = (f, a, u)" by (metis prod.exhaust)
  have "fst (latch_step e l) \<longleftrightarrow> e = Forced \<or> f \<and> \<not> relieves e"
    by (cases "(e, l)" rule: latch_step.cases) (auto simp: l)
  with Cons.IH [of "latch_step e l"] show ?case
    unfolding split by (cases e) (auto simp: l)
qed simp

lemma once_between:
  assumes "once (xs @ Forced # ys @ Forced # zs) l"
  shows "list_ex relieves ys"
proof (rule ccontr)
  let ?l = "latch_step Forced (fold latch_step xs l)"
  assume "\<not> list_ex relieves ys"
  moreover have "fst ?l" by (cases "fold latch_step xs l") simp
  ultimately have "fst (fold latch_step ys ?l)" by (simp add: fold_latch_fired)
  with assms show False by simp
qed

text \<open>C14: one forced rebuild per episode. Along any run of a session, from any state, with requests, responses, summaries,
  explicit rebuilds and resets of the transport in any order, between two forced rebuilds of the provider context the
  provider has reported a usage strictly below the whole window.\<close>

theorem one_forced_rebuild_per_episode:
  assumes "session_run w es (s, c) = ((s', c'), xs @ Forced # ys @ Forced # zs)"
  shows "\<exists>u. Observed (Some u) \<in> set ys \<and> u < FORCED_REBUILD_RATIO"
proof -
  from session_run_latch [OF assms] have "list_ex relieves ys" by (blast intro: once_between)
  then obtain e where e: "e \<in> set ys" "relieves e" by (auto simp: list_ex_iff)
  then obtain u where "e = Observed (Some u)" "u < FORCED_REBUILD_RATIO"
    by (cases e rule: relieves.cases) auto
  with e show ?thesis by blast
qed

definition sample_episode :: "session_event list" where
  "sample_episode = [Response 120 True, Request 0, Request 0, Response 110 True, Request 0, Response 40 True, Response 100 True,
     Summarized [''a''], Request 0]"

lemma sample_episode_run:
  "snd (session_run (Some 100) sample_episode (init_codex False 0, init_chat)) =
     [Observed (Some (6 / 5)), Forced, Observed (Some (11 / 10)), Observed (Some (2 / 5)), Observed (Some 1), Forced]"
  by code_simp

theorem one_forced_rebuild_per_episode_witness:
  "\<exists>u. Observed (Some u) \<in> set [Observed (Some (11 / 10)), Observed (Some (2 / 5)), Observed (Some 1)] \<and> u < FORCED_REBUILD_RATIO"
proof -
  obtain s' c' t where run: "session_run (Some 100) sample_episode (init_codex False 0, init_chat) = ((s', c'), t)"
    by (metis prod.exhaust)
  with sample_episode_run have
    "t = [Observed (Some (6 / 5))] @ Forced # [Observed (Some (11 / 10)), Observed (Some (2 / 5)), Observed (Some 1)] @ Forced # []"
    by simp
  from one_forced_rebuild_per_episode [OF run [unfolded this]] show ?thesis .
qed

text \<open>C15: the overflow warning is exact. After any run of a fresh session its status reports a usage exactly when the last thing
  the trace has is the observation of that usage, it is strictly above the whole window, and a forced rebuild came before it
  with no usage below the window in between: so never before the forced rebuild has been answered, never at the
  boundary itself, and for as long as it failed to help.\<close>

theorem overflow_warning_exact:
  "case session_run w es (init_codex explicit limit, c) of
     ((s, _), t) \<Rightarrow>
       context_overflow_status w s = Some u \<longleftrightarrow>
         (\<exists>xs ys. t = xs @ Forced # ys @ [Observed (Some u)] \<and> FORCED_REBUILD_RATIO < u \<and> \<not> list_ex relieves ys)"
proof -
  obtain s c' t where run: "session_run w es (init_codex explicit limit, c) = ((s, c'), t)" by (metis prod.exhaust)
  have start: "latch_of w (init_codex explicit limit) = (False, False, None)"
    by (simp add: latch_of_def init_codex_def summarize_delay_context_def)
  from session_run_latch [OF run] have l: "latch_of w s = fold latch_step t (False, False, None)" by (simp add: start)
  have status: "context_overflow_status w s = Some u \<longleftrightarrow>
      (case fold latch_step t (False, False, None) of (f, a, v) \<Rightarrow> f \<and> \<not> a \<and> v = Some u \<and> FORCED_REBUILD_RATIO < u)"
    unfolding l [symmetric] by (auto simp: latch_of_def context_overflow_status_def split: option.splits)
  have "context_overflow_status w s = Some u \<longleftrightarrow>
    (\<exists>xs ys. t = xs @ Forced # ys @ [Observed (Some u)] \<and> FORCED_REBUILD_RATIO < u \<and> \<not> list_ex relieves ys)"
    unfolding status
  proof (cases t rule: rev_cases)
    case (snoc t' e)
    obtain f a v where m: "fold latch_step t' (False, False, None) = (f, a, v)" by (metis prod.exhaust)
    with fold_latch_fired [of t' "(False, False, None)"] have
      f: "f \<longleftrightarrow> (\<exists>xs ys. t' = xs @ Forced # ys \<and> \<not> list_ex relieves ys)" by simp
    have shape: "(\<exists>xs ys. t = xs @ Forced # ys @ [Observed (Some u)] \<and> FORCED_REBUILD_RATIO < u \<and> \<not> list_ex relieves ys) \<longleftrightarrow>
      e = Observed (Some u) \<and> FORCED_REBUILD_RATIO < u \<and> f"
      unfolding snoc f by (metis append1_eq_conv append_assoc append_Cons)
    show "(case fold latch_step t (False, False, None) of (f, a, v) \<Rightarrow> f \<and> \<not> a \<and> v = Some u \<and> FORCED_REBUILD_RATIO < u) \<longleftrightarrow>
      (\<exists>xs ys. t = xs @ Forced # ys @ [Observed (Some u)] \<and> FORCED_REBUILD_RATIO < u \<and> \<not> list_ex relieves ys)"
      unfolding shape by (cases "(e, (f, a, v))" rule: latch_step.cases) (auto simp: snoc m)
  qed simp
  with run show ?thesis by simp
qed

section \<open>Summaries on a Codex session\<close>

text \<open>
  A summarizer whose session is this one: its two hooks act on the session, which is the first part of the world, and on the
  conversation the session shares with the agent.
\<close>

definition codex_summarized :: "int option \<Rightarrow> string list \<Rightarrow> chat \<Rightarrow> codex \<times> 'v \<Rightarrow> chat \<times> codex \<times> 'v" where
  "codex_summarized window ids c w = (case on_history_summarized window ids (fst w) c of (_, s, c') \<Rightarrow> (c', s, snd w))"

definition codex_rebuild :: "int option \<Rightarrow> string option \<Rightarrow> chat \<Rightarrow> codex \<times> 'v \<Rightarrow> (exc + py) \<times> chat \<times> codex \<times> 'v" where
  "codex_rebuild window reason c w =
     (case request_history_rebuild window (case reason of None \<Rightarrow> ''summarize_rebuild_only'' | Some r \<Rightarrow> r) (fst w) c of
        (b, s, c') \<Rightarrow> (Inr (PBool b), c', s, snd w))"

definition codex_session :: "int option \<Rightarrow> (codex \<times> 'v) summarizer \<Rightarrow> (codex \<times> 'v) summarizer" where
  "codex_session window env = env\<lparr>sm_summarized := codex_summarized window, sm_hook := Some (codex_rebuild window)\<rparr>"

lemma reset_retold:
  "retold_chat sf c0 c \<Longrightarrow> reset_ws_epoch window reason s c = (s', c') \<Longrightarrow> retold_chat sf c0 c'"
  by (cases "applies_summaries reason") (auto simp: reset_ws_epoch_def Let_def intro: retold_mark [OF _ prod.collapse [symmetric]])

lemma fire_retold:
  "retold_chat sf c0 c \<Longrightarrow> fire_boundary_forced_rebuild window s c = (b, s', c') \<Longrightarrow> retold_chat sf c0 c'"
  by (auto simp: fire_boundary_forced_rebuild_def split: if_splits dest: reset_retold)

lemma on_history_summarized_retold:
  "retold_chat sf c0 c \<Longrightarrow> on_history_summarized window ids s c = (b, s', c') \<Longrightarrow> retold_chat sf c0 c'"
  by (auto simp: on_history_summarized_def Let_def split: if_splits option.splits dest: fire_retold)

lemma request_history_rebuild_retold:
  "retold_chat sf c0 c \<Longrightarrow> request_history_rebuild window reason s c = (b, s', c') \<Longrightarrow> retold_chat sf c0 c'"
  by (auto simp: request_history_rebuild_def split: if_splits dest: reset_retold)

interpretation codex_chat: tame_session "codex_session window env" for window env
proof unfold_locales
  fix sf c0 c ids w
  assume "retold_chat sf c0 c"
  then show "retold_chat sf c0 (fst (sm_summarized (codex_session window env) ids c w))"
    by (auto simp: codex_session_def codex_summarized_def split: prod.splits dest: on_history_summarized_retold)
next
  fix sf c0 c hook reason w
  assume "sm_hook (codex_session window env) = Some hook" "retold_chat sf c0 c"
  then show "retold_chat sf c0 (fst (snd (hook reason c w)))"
    by (auto simp: codex_session_def codex_rebuild_def split: prod.splits dest: request_history_rebuild_retold)
qed

lemma reset_settles:
  "applies_summaries reason \<Longrightarrow> reset_ws_epoch window reason s c = (s', c') \<Longrightarrow> filter is_pending_marker (marker_blocks c') = []"
  using marked_settled [OF prod.collapse [symmetric]] by (auto simp: reset_ws_epoch_def Let_def filter_empty_conv)

lemma boundary_settles:
  assumes "cx_continuation s" "\<not> cx_fired s" "usage_of window s = Some u" "FORCED_REBUILD_RATIO \<le> u" "ids \<noteq> []"
    and "on_history_summarized window ids s c = (b, s', c')"
  shows "b \<and> cx_fired s' \<and> filter is_pending_marker (marker_blocks c') = []"
proof -
  define s1 where "s1 = s\<lparr>cx_pending_ids := cx_pending_ids s \<union> set ids, cx_last_context := Some (summarize_delay_context window s),
    cx_release := None\<rparr>"
  have "\<not> cx_fired s1" using assms(2) by (simp add: s1_def)
  with assms have b: "b" and r: "reset_ws_epoch window ''summarize_delayed'' (s1\<lparr>cx_fired := True, cx_awaiting := True\<rparr>) c = (s', c')"
    by (auto simp: on_history_summarized_def Let_def s1_def [symmetric] fire_boundary_forced_rebuild_def)
  have "cx_fired s'" using reset_latch [OF r] by (simp add: latch_of_def)
  with b reset_settles [OF _ r] show ?thesis by (simp add: applies_summaries_def)
qed

lemma snapshot_totals_none:
  "filter is_pending_marker (marker_blocks c) = [] \<Longrightarrow>
   summary_totals_over_pending parse c = \<lparr>su_count = 0, su_original = 0, su_summary = 0\<rparr>"
  by (simp add: summary_totals_over_pending_def)

text \<open>The history file and the reminders leave the session alone.\<close>

definition session_quiet :: "(codex \<times> 'v) summarizer \<Rightarrow> bool" where
  "session_quiet env \<longleftrightarrow> (\<forall>c w. fst (sm_save env c w) = fst w) \<and> (\<forall>ids w. fst (snd (sm_clear env ids w)) = fst w)"

lemma store_batch_codex:
  assumes "session_quiet env" "ids \<noteq> []"
    and "store_batch (codex_session window env) ids (Some c) w = (cleared, chat', w')"
  obtains b c' where "on_history_summarized window ids (fst w) c = (b, fst w', c')" "chat' = Some c'"
proof -
  obtain b s1 c1 where h: "on_history_summarized window ids (fst w) c = (b, s1, c1)" by (metis prod.exhaust)
  have save: "fst (sm_save env c w) = fst w" and clear: "\<And>v. fst (snd (sm_clear env ids v)) = fst v"
    using assms(1) unfolding session_quiet_def by blast+
  have "chat' = Some c1 \<and> fst w' = s1"
    using assms(2,3) clear [of "(s1, snd (sm_save env c w))"]
    by (auto simp: store_batch_def codex_session_def codex_summarized_def Let_def save h split: prod.splits sum.splits if_splits)
  with h that show ?thesis by blast
qed

lemma recorded_comment:
  "prefix ''Summary recorded in runtime history (status: pending). This does NOT itself rebuild the active provider context: ''
     (build_summarize_only_reconstruction f2 s t)"
  unfolding build_summarize_only_reconstruction_def by (rule prefixI) (rule refl)

text \<open>C16: a summary at the boundary is applied at once. When a Codex session's usage is at or above the whole window and its shot
  is not used, a call that summarizes something without asking for a rebuild has the provider context rebuilt: the shot is used and no
  pending summary is left. Its report nevertheless has the mode of a call that only records, counts no pending summary
  and says that the summary is pending and that no rebuild comes from it.\<close>

theorem boundary_summary_applied_at_once:
  assumes "session_quiet env" "cx_continuation (fst w)" "\<not> cx_fired (fst w)"
    and "usage_of window (fst w) = Some u" "FORCED_REBUILD_RATIO \<le> u"
    and "dgetd args ''notification_threshold_chars'' PNone = PNone" "given_items args \<noteq> []" "\<not> wants_rebuild args"
    and s: "summarize (codex_session window env) args (Some c) w = (Inr d, Some c', w')" "dget d ''summarized'' \<noteq> Some (PInt 0)"
  shows "cx_fired (fst w') \<and> filter is_pending_marker (marker_blocks c') = [] \<and>
     dget d ''mode'' = Some (PStr ''summarize'') \<and>
     dget d ''pending_summary_totals'' = Some (totals_dict \<lparr>su_count = 0, su_original = 0, su_summary = 0\<rparr>) \<and>
     (\<exists>m. dget d ''reconstruction'' = Some (PStr m) \<and>
        prefix ''Summary recorded in runtime history (status: pending). This does NOT itself rebuild the active provider context: '' m)"
proof -
  let ?env = "codex_session window env"
  obtain ds ids chat1 cleared chat2 w1 base where
    items: "summarize_items ?env (given_items args) (Some c) = ((ds, ids), chat1)" and
    st: "store_batch ?env ids chat1 w = (cleared, chat2, w1)" and
    base: "base = batch_base (sm_threshold ?env) (length (given_items args)) ds ids cleared"
      "dget base ''summarized'' = Some (PInt (int (length ids)))" and
    rest: "summarize ?env args (Some c) w =
     (case chat2 of
        Some c \<Rightarrow> if ids = [] then (Inr base, chat2, w1) else comment_batch ?env (wants_rebuild args) base c w1
      | None \<Rightarrow> (Inr base, chat2, w1))"
    by (rule summarize_batch [OF assms(6,7), of ?env "Some c" w])
  from summarize_items_retold [OF retold_chat_refl items] obtain c1 where c1: "chat1 = Some c1" .
  have ids: "ids \<noteq> []"
    using rest s base(2) by (auto split: option.splits)
  obtain b c2 where h: "on_history_summarized window ids (fst w) c1 = (b, fst w1, c2)" "chat2 = Some c2"
    by (rule store_batch_codex [OF assms(1) ids st [unfolded c1]])
  note settled = boundary_settles [OF assms(2-5) ids h(1)]
  have "comment_batch ?env False base c2 w1 = (Inr d, Some c', w')" using rest s(1) ids h(2) assms(8) by simp
  then have d: "c' = c2" "w' = w1" "d = base @ [(''context'', snapshot_dict (sm_snapshot ?env c2 w1)), (''mode'', PStr ''summarize''),
      (''pending_summary_totals'', totals_dict (summary_totals_over_pending (sm_parse_int ?env) c2)),
      (''reconstruction'', PStr (build_summarize_only_reconstruction (sm_two_decimals ?env) (sm_snapshot ?env c2 w1)
         (summary_totals_over_pending (sm_parse_int ?env) c2)))]"
    by (auto simp: comment_batch_def Let_def)
  have new: "dget base ''mode'' = None" "dget base ''pending_summary_totals'' = None" "dget base ''reconstruction'' = None"
    by (simp_all add: base(1) batch_base_dget)
  show ?thesis
    using settled new recorded_comment
    by (simp add: d(1,2) d(3) map_add_def snapshot_totals_none)
qed

definition sample_codex :: codex where
  "sample_codex = (init_codex False 0)\<lparr>cx_input := Some 120\<rparr>"

definition codex_summarizer :: "(codex \<times> unit) summarizer" where
  "codex_summarizer = \<lparr>sm_float = (\<lambda>_. []), sm_two_decimals = (\<lambda>_. []), sm_parse_int = (\<lambda>_. None), sm_now = ''2026'',
     sm_threshold = PInt 3000, sm_save = (\<lambda>c w. w), sm_summarized = (\<lambda>ids c w. (c, w)), sm_clear = (\<lambda>ids w. (Inr [], w)),
     sm_workdir = False, sm_snapshot = (\<lambda>c w. \<lparr>sn_usage = None, sn_tokens = None, sn_window = None\<rparr>), sm_hook = None\<rparr>"

lemma sample_boundary_call:
  "case summarize (codex_session (Some 100) codex_summarizer) sample_args (Some sample_answered) (sample_codex, ()) of
     (Inr d, Some c', w') \<Rightarrow> dget d ''summarized'' = Some (PInt 1) | _ \<Rightarrow> False"
  by code_simp

theorem boundary_summary_applied_at_once_witness:
  "\<exists>d c' w'. summarize (codex_session (Some 100) codex_summarizer) sample_args (Some sample_answered) (sample_codex, ()) =
       (Inr d, Some c', w') \<and> cx_fired (fst w') \<and> filter is_pending_marker (marker_blocks c') = []"
proof -
  obtain d c' w' where call: "summarize (codex_session (Some 100) codex_summarizer) sample_args (Some sample_answered) (sample_codex, ())
      = (Inr d, Some c', w')" and some: "dget d ''summarized'' = Some (PInt 1)"
  proof -
    obtain r chat' w' where q: "summarize (codex_session (Some 100) codex_summarizer) sample_args (Some sample_answered)
      (sample_codex, ()) = (r, chat', w')" by (metis prod.exhaust)
    from sample_boundary_call [unfolded q] q that show thesis by (cases r; cases chat') simp_all
  qed
  have hyps: "session_quiet codex_summarizer" "cx_continuation (fst (sample_codex, ()))" "\<not> cx_fired (fst (sample_codex, ()))"
    "usage_of (Some 100) (fst (sample_codex, ())) = Some (120 / 100)" "FORCED_REBUILD_RATIO \<le> 120 / 100"
    "dgetd sample_args ''notification_threshold_chars'' PNone = PNone" "given_items sample_args \<noteq> []" "\<not> wants_rebuild sample_args"
    by (simp_all add: session_quiet_def codex_summarizer_def sample_codex_def init_codex_def summarize_delay_context_def
        FORCED_REBUILD_RATIO_def sample_args_def dgetd_def given_items_def wants_rebuild_def truthy_flag_def)
  have "dget d ''summarized'' \<noteq> Some (PInt 0)" by (simp add: some)
  from boundary_summary_applied_at_once [OF hyps call this] call show ?thesis by blast
qed

end
