(* ===== verification/Context_Pressure.thy ===== *)
theory Context_Pressure
  imports Codex_Boundary
begin

text \<open>
  The reminder of a full context (\<^verbatim>\<open>kernel/reminders/context_pressure.py\<close>): the streak of provider rounds with
  a high usage, the warning it carries, the annotations of a rebuild, and the descriptors of what was emitted.

  Rendering a number and reading one from text are arguments (\<open>f0\<close> and \<open>f1\<close> render with no and one decimal), as is the
  digest of a text.
\<close>

section \<open>Numbers as the code reads them\<close>

text \<open>\<^verbatim>\<open>float(value)\<close>, \<open>None\<close> where it raises.\<close>

definition safe_float :: "(string \<Rightarrow> rat option) \<Rightarrow> py \<Rightarrow> rat option" where
  "safe_float parse v =
     (case v of
        PInt n \<Rightarrow> Some (of_int n)
      | PBool b \<Rightarrow> Some (if b then 1 else 0)
      | PFloat q \<Rightarrow> Some q
      | PStr s \<Rightarrow> parse s
      | _ \<Rightarrow> None)"

definition unknown_amount :: string where "unknown_amount = ''an unknown amount''"

definition near_integer :: "rat \<Rightarrow> bool" where
  "near_integer q \<longleftrightarrow> (let d = q - of_int \<lfloor>q\<rfloor> in d < 1 / 20 \<or> 1 - d < 1 / 20)"

definition format_ratio_percent :: "(rat \<Rightarrow> string) \<Rightarrow> (rat \<Rightarrow> string) \<Rightarrow> rat option \<Rightarrow> string" where
  "format_ratio_percent f0 f1 v =
     (case v of
        None \<Rightarrow> unknown_amount
      | Some q \<Rightarrow>
          let pct = q * 100
          in if pct < 0 then unknown_amount
             else if near_integer pct then f0 pct @ ''%''
             else f1 pct @ ''%'')"

section \<open>The state machine\<close>

definition HIGH_RATIO :: rat where "HIGH_RATIO = 17 / 20"

definition WARN_AFTER_ROUNDS :: int where "WARN_AFTER_ROUNDS = 3"

datatype transition = T_Initial | T_High_Round | T_Warning_Active | T_Relieved | T_Duplicate | T_Unknown_Usage

fun transition_text :: "transition \<Rightarrow> string" where
  "transition_text T_Initial = ''initial''"
| "transition_text T_High_Round = ''high_round''"
| "transition_text T_Warning_Active = ''warning_active''"
| "transition_text T_Relieved = ''relieved''"
| "transition_text T_Duplicate = ''duplicate_round''"
| "transition_text T_Unknown_Usage = ''unknown_usage''"

record pressure =
  pr_ratio :: rat
  pr_warn_after :: int
  pr_target :: rat
  pr_streak :: int
  pr_last_round :: "int option"
  pr_last_usage :: "rat option"
  pr_reason :: transition

definition init_pressure :: pressure where
  "init_pressure = \<lparr>pr_ratio = HIGH_RATIO, pr_warn_after = WARN_AFTER_ROUNDS, pr_target = RECOVERY_TARGET, pr_streak = 0,
     pr_last_round = None, pr_last_usage = None, pr_reason = T_Initial\<rparr>"

definition pressure_active :: "pressure \<Rightarrow> bool" where
  "pressure_active p \<longleftrightarrow> pr_warn_after p \<le> pr_streak p"

definition note_round :: "(string \<Rightarrow> rat option) \<Rightarrow> py \<Rightarrow> int \<Rightarrow> pressure \<Rightarrow> pressure" where
  "note_round parse usage i p =
     (if pr_last_round p = Some i then p\<lparr>pr_reason := T_Duplicate\<rparr>
      else
        (case safe_float parse usage of
           None \<Rightarrow> p\<lparr>pr_reason := T_Unknown_Usage\<rparr>
         | Some u \<Rightarrow>
             if u < 0 then p\<lparr>pr_reason := T_Unknown_Usage\<rparr>
             else
               let q = p\<lparr>pr_last_round := Some i, pr_last_usage := Some u\<rparr>
               in if pr_ratio p \<le> u then
                    let q1 = q\<lparr>pr_streak := pr_streak q + 1\<rparr>
                    in q1\<lparr>pr_reason := if pressure_active q1 then T_Warning_Active else T_High_Round\<rparr>
                  else q\<lparr>pr_streak := 0, pr_reason := T_Relieved\<rparr>))"

definition to_debug_dict :: "pressure \<Rightarrow> dict" where
  "to_debug_dict p =
     [(''reconstruction_ratio'', PFloat (pr_ratio p)), (''warn_after_rounds'', PInt (pr_warn_after p)),
      (''recovery_target'', PFloat (pr_target p)), (''streak'', PInt (pr_streak p)), (''active'', PBool (pressure_active p)),
      (''last_round_id'', opt_py PInt (pr_last_round p)), (''last_usage'', opt_py PFloat (pr_last_usage p)),
      (''last_transition_reason'', PStr (transition_text (pr_reason p)))]"

section \<open>Renderings\<close>

definition render_current_molt_context :: "(rat \<Rightarrow> string) \<Rightarrow> (rat \<Rightarrow> string) \<Rightarrow> (string \<Rightarrow> rat option) \<Rightarrow> int \<Rightarrow> py \<Rightarrow> rat \<Rightarrow> string" where
  "render_current_molt_context f0 f1 parse streak usage target =
     (let used = (case safe_float parse usage of None \<Rightarrow> -1 | Some q \<Rightarrow> q)
      in ''Context has stayed high across '' @ int_str streak @ '' consecutive fresh model calls (currently ''
         @ format_ratio_percent f0 f1 (Some used) @ '' of the context window). This is a context-pressure reminder, not an ''
         @ ''immediate command: when continuing, batch tool results you have already digested before summarizing. Repeated ''
         @ ''summarize calls while context stays above 85% substantially hurt token efficiency; if you only need a fresh ''
         @ ''provider context, use one rebuild-only summarize call instead. The recovery target is ''
         @ format_ratio_percent f0 f1 (Some target) @ '', but if a batched summarize/reconstruction pass still leaves context ''
         @ ''above 85%, stop repeating summarize, tend durable stores, and molt deliberately. See context-manual.'')"

definition current_molt_context :: "(rat \<Rightarrow> string) \<Rightarrow> (rat \<Rightarrow> string) \<Rightarrow> (string \<Rightarrow> rat option) \<Rightarrow> py \<Rightarrow> pressure \<Rightarrow> string option" where
  "current_molt_context f0 f1 parse usage p =
     (if pressure_active p then Some (render_current_molt_context f0 f1 parse (pr_streak p) usage (pr_target p)) else None)"

definition render_reconstruction_molt :: "(rat \<Rightarrow> string) \<Rightarrow> (rat \<Rightarrow> string) \<Rightarrow> rat \<Rightarrow> rat \<Rightarrow> rat \<Rightarrow> string option" where
  "render_reconstruction_molt f0 f1 after target ratio =
     (if after < target then None
      else if ratio \<le> after then
        Some (''The runtime already rebuilt the provider context after summarization, but the rebuilt context is still at ''
          @ format_ratio_percent f0 f1 (Some after) @ '' of the context window, above the 85% high-context threshold. Repeated small ''
          @ ''summarize calls while context stays above 85% substantially hurt token efficiency; use at most one rebuild-only ''
          @ ''summarize call, then stop repeating summarize, tend durable stores, and molt deliberately. See context-manual.'')
      else
        Some (''The runtime already rebuilt the provider context after summarization, but the rebuilt context is still at ''
          @ format_ratio_percent f0 f1 (Some after) @ '' of the context window, at or above the ''
          @ format_ratio_percent f0 f1 (Some target) @ '' recovery target. If more digested tool results can be summarized, do ''
          @ ''that as one batch; otherwise tend durable stores and molt deliberately. See context-manual.''))"

definition annotate_reconstruction :: "(rat \<Rightarrow> string) \<Rightarrow> (rat \<Rightarrow> string) \<Rightarrow> rat \<Rightarrow> rat option \<Rightarrow> pressure \<Rightarrow> string option" where
  "annotate_reconstruction f0 f1 after target p =
     render_reconstruction_molt f0 f1 after (case target of None \<Rightarrow> pr_target p | Some t \<Rightarrow> t) (pr_ratio p)"

text \<open>\<^verbatim>\<open>str(int(value))\<close>; \<open>parse_int\<close> is \<^verbatim>\<open>int\<close> on a text.\<close>

definition format_tokens :: "(string \<Rightarrow> int option) \<Rightarrow> py \<Rightarrow> string" where
  "format_tokens parse_int v =
     (case v of
        PInt n \<Rightarrow> int_str n
      | PBool b \<Rightarrow> int_str (if b then 1 else 0)
      | PFloat q \<Rightarrow> int_str (if q < 0 then - \<lfloor>- q\<rfloor> else \<lfloor>q\<rfloor>)
      | PStr s \<Rightarrow> (case parse_int s of None \<Rightarrow> ''unknown'' | Some n \<Rightarrow> int_str n)
      | _ \<Rightarrow> ''unknown'')"

definition render_forced_rebuild_warning ::
  "(rat \<Rightarrow> string) \<Rightarrow> (rat \<Rightarrow> string) \<Rightarrow> (string \<Rightarrow> rat option) \<Rightarrow> (string \<Rightarrow> int option) \<Rightarrow> py \<Rightarrow> py \<Rightarrow> py \<Rightarrow> py \<Rightarrow> py \<Rightarrow> py \<Rightarrow> py \<Rightarrow> string" where
  "render_forced_rebuild_warning f0 f1 parse parse_int before_tokens before_usage after_tokens after_usage trigger high target =
     (let pct = (\<lambda>v. format_ratio_percent f0 f1 (safe_float parse v));
          side = (\<lambda>t u. format_tokens parse_int t @ '' tokens ('' @ pct u @ '')'')
      in ''Forced provider-context rebuild applied at the '' @ pct trigger @ '' hard context boundary. Context changed from ''
         @ side before_tokens before_usage @ '' before to '' @ side after_tokens after_usage @ '' after. Reaching the full-context ''
         @ ''boundary means waiting until context was full was not ideal '' @ em_dash @ '' when context is high, prefer a proactive ''
         @ ''context(action='' @ str_repr ''rebuild'' @ '') at the '' @ pct high @ '' rebuild hint instead of letting the emergency ''
         @ ''boundary force it. If the rebuilt context is still above the '' @ pct target @ '' recovery target, tend durable ''
         @ ''stores and molt. See meta_guidance, substrate, and procedures.'')"

definition render_forced_rebuild_failed_warning :: "(rat \<Rightarrow> string) \<Rightarrow> rat \<Rightarrow> string" where
  "render_forced_rebuild_failed_warning f1 usage =
     ''100% context Forced Rebuild Failed to Bring Usage Below 100%. Context overflowed!! ('' @ f1 (usage * 100)
     @ '' %) Molt IMMEDIATELY!!''"

section \<open>Descriptors of what was emitted\<close>

definition CURRENT_MOLT_EVENT :: string where "CURRENT_MOLT_EVENT = ''context_pressure_current_molt_reminder_emitted''"

definition RECONSTRUCTION_MOLT_EVENT :: string where
  "RECONSTRUCTION_MOLT_EVENT = ''context_pressure_reconstruction_molt_reminder_emitted''"

definition CURRENT_MOLT_TARGET_PATH :: string where "CURRENT_MOLT_TARGET_PATH = ''_meta.agent_meta.agent_state.context.molt''"

definition RECONSTRUCTION_MOLT_TARGET_PATH :: string where
  "RECONSTRUCTION_MOLT_TARGET_PATH = ''_meta.agent_meta.agent_state.events.reconstruction.molt''"

definition current_molt_emission_descriptor ::
  "(string \<Rightarrow> string) \<Rightarrow> (string \<Rightarrow> rat option) \<Rightarrow> pressure \<Rightarrow> py \<Rightarrow> string \<Rightarrow> dict" where
  "current_molt_emission_descriptor sha parse p usage message =
     [(''event_name'', PStr CURRENT_MOLT_EVENT),
      (''payload'', PDict [(''target_path'', PStr CURRENT_MOLT_TARGET_PATH), (''message_hash'', PStr (take 12 (sha message))),
         (''threshold_high'', PFloat (pr_ratio p)), (''recovery_target'', PFloat (pr_target p)),
         (''usage'', opt_py PFloat (safe_float parse usage)), (''streak'', PInt (pr_streak p)),
         (''last_round_id'', opt_py PInt (pr_last_round p)), (''transition_reason'', PStr (transition_text (pr_reason p)))])]"

definition sub_dict :: "dict \<Rightarrow> string \<Rightarrow> dict" where
  "sub_dict d k = (case dget d k of Some (PDict e) \<Rightarrow> e | _ \<Rightarrow> [])"

definition reconstruction_molt_emission_descriptor :: "(string \<Rightarrow> string) \<Rightarrow> (string \<Rightarrow> rat option) \<Rightarrow> py \<Rightarrow> string \<Rightarrow> dict" where
  "reconstruction_molt_emission_descriptor sha parse event message =
     (let d = (case event of PDict d \<Rightarrow> d | _ \<Rightarrow> []);
          num = (\<lambda>e k. safe_float parse (dgetd e k PNone));
          trigger = (case num d ''trigger_threshold'' of None \<Rightarrow> FORCED_REBUILD_RATIO | Some q \<Rightarrow> q);
          high = (case num d ''threshold_high'' of
                    Some q \<Rightarrow> q | None \<Rightarrow> (case num d ''high_context_threshold'' of Some q \<Rightarrow> q | None \<Rightarrow> HIGH_RATIO));
          target = (case num d ''recovery_target'' of None \<Rightarrow> RECOVERY_TARGET | Some q \<Rightarrow> q);
          after = sub_dict d ''after''
      in [(''event_name'', PStr RECONSTRUCTION_MOLT_EVENT),
          (''payload'', PDict [(''target_path'', PStr RECONSTRUCTION_MOLT_TARGET_PATH), (''message_hash'', PStr (take 12 (sha message))),
             (''trigger_threshold'', PFloat trigger), (''threshold_high'', PFloat high), (''recovery_target'', PFloat target),
             (''before_usage'', opt_py PFloat (num (sub_dict d ''before'') ''usage'')),
             (''after_usage'', opt_py PFloat (num after ''usage'')), (''after_source'', dgetd after ''source'' PNone),
             (''branch'', opt_py (\<lambda>q. PStr (if high \<le> q then ''still_high'' else ''above_recovery'')) (num after ''usage''))])])"

section \<open>The streak against the rounds\<close>

text \<open>The usages of the fresh rounds: known, not negative, and not of the round last counted.\<close>

fun fresh_usages :: "(string \<Rightarrow> rat option) \<Rightarrow> int option \<Rightarrow> (py \<times> int) list \<Rightarrow> rat list" where
  "fresh_usages parse l [] = []"
| "fresh_usages parse l ((v, i) # xs) =
     (if l = Some i then fresh_usages parse l xs
      else
        (case safe_float parse v of
           None \<Rightarrow> fresh_usages parse l xs
         | Some u \<Rightarrow> if u < 0 then fresh_usages parse l xs else u # fresh_usages parse (Some i) xs))"

definition note_rounds :: "(string \<Rightarrow> rat option) \<Rightarrow> (py \<times> int) list \<Rightarrow> pressure \<Rightarrow> pressure" where
  "note_rounds parse xs p = fold (\<lambda>(v, i). note_round parse v i) xs p"

definition streak_step :: "rat \<Rightarrow> rat \<Rightarrow> int \<Rightarrow> int" where
  "streak_step ratio u n = (if ratio \<le> u then n + 1 else 0)"

lemma note_round_frame [simp]:
  "pr_ratio (note_round parse v i p) = pr_ratio p" "pr_warn_after (note_round parse v i p) = pr_warn_after p"
  "pr_target (note_round parse v i p) = pr_target p"
  by (auto simp: note_round_def Let_def split: option.split)

lemma note_rounds_frame:
  "pr_ratio (note_rounds parse xs p) = pr_ratio p \<and> pr_warn_after (note_rounds parse xs p) = pr_warn_after p"
  unfolding note_rounds_def by (induction xs arbitrary: p) auto

lemma note_rounds_streak:
  "pr_streak (note_rounds parse xs p) = fold (streak_step (pr_ratio p)) (fresh_usages parse (pr_last_round p) xs) (pr_streak p)"
proof (induction xs arbitrary: p)
  case (Cons x xs)
  obtain v i where x: "x = (v, i)" by fastforce
  have "pr_streak (note_rounds parse (x # xs) p) = pr_streak (note_rounds parse xs (note_round parse v i p))"
    by (simp add: note_rounds_def x)
  also have "\<dots> = fold (streak_step (pr_ratio p)) (fresh_usages parse (pr_last_round (note_round parse v i p)) xs)
    (pr_streak (note_round parse v i p))" by (simp add: Cons.IH)
  also have "\<dots> = fold (streak_step (pr_ratio p)) (fresh_usages parse (pr_last_round p) (x # xs)) (pr_streak p)"
    by (auto simp: note_round_def x Let_def streak_step_def split: option.split)
  finally show ?case .
qed (simp add: note_rounds_def)

lemma streak_trailing: "fold (streak_step r) us 0 = int (length (takeWhile (\<lambda>u. r \<le> u) (rev us)))"
  by (induction us rule: rev_induct) (auto simp: streak_step_def)

lemma take_within_prefix: "n \<le> length (takeWhile p xs) \<longleftrightarrow> n \<le> length xs \<and> list_all p (take n xs)"
proof (induction xs arbitrary: n)
  case (Cons x xs)
  then show ?case by (cases n) auto
qed simp

lemma trailing_window:
  "n \<le> length (takeWhile p (rev us)) \<longleftrightarrow> n \<le> length us \<and> list_all p (drop (length us - n) us)"
  by (auto simp: take_within_prefix take_rev list_all_iff)

text \<open>C17: the reminder is exact. However often rounds are observed, from a fresh state the streak is the number of fresh
  rounds at the end that were all at or above the high ratio, where a round is fresh when its usage is known, is not
  negative and has not just been counted under the same id; and the reminder is shown exactly when the last three
  fresh rounds were. So a repeated or unreadable observation neither advances nor resets it, and one relieved round
  clears it.\<close>

theorem pressure_reminder_exact:
  "pr_streak (note_rounds parse xs init_pressure) =
     int (length (takeWhile (\<lambda>u. HIGH_RATIO \<le> u) (rev (fresh_usages parse None xs)))) \<and>
   (current_molt_context f0 f1 parse usage (note_rounds parse xs init_pressure) \<noteq> None \<longleftrightarrow>
     3 \<le> length (fresh_usages parse None xs) \<and>
     list_all (\<lambda>u. HIGH_RATIO \<le> u) (drop (length (fresh_usages parse None xs) - 3) (fresh_usages parse None xs)))"
proof -
  let ?us = "fresh_usages parse None xs" and ?p = "note_rounds parse xs init_pressure"
  have s: "pr_streak ?p = int (length (takeWhile (\<lambda>u. HIGH_RATIO \<le> u) (rev ?us)))"
    using note_rounds_streak [of parse xs init_pressure] by (simp add: init_pressure_def streak_trailing)
  have "current_molt_context f0 f1 parse usage ?p \<noteq> None \<longleftrightarrow> 3 \<le> length (takeWhile (\<lambda>u. HIGH_RATIO \<le> u) (rev ?us))"
    using note_rounds_frame [of parse xs init_pressure]
    by (simp add: current_molt_context_def pressure_active_def s) (simp add: init_pressure_def WARN_AFTER_ROUNDS_def)
  with s trailing_window [of 3] show ?thesis by simp
qed

end
