(* ===== verification/Wire_Converters.thy ===== *)
theory Wire_Converters
  imports Chat_Properties
begin

text \<open>
  From the canonical conversation to the providers' message lists (\<^verbatim>\<open>llm/interface_converters.py\<close>): the runtime
  envelope of a result's metadata, its projection into the result and back, and the converters to the Anthropic, OpenAI Chat,
  OpenAI Responses and Gemini formats.

  \<open>dumps\<close> and \<open>loads\<close> stand for \<^verbatim>\<open>json\<close>. Copies are not distinguished from what they copy. Values are JSON values,
  so a mapping is a dictionary with texts for keys.
\<close>

section \<open>The runtime envelope\<close>

definition HISTORICAL_ROOTS :: "string list" where
  "HISTORICAL_ROOTS = [''tool_meta'', ''agent_meta'', ''notifications'', ''notification_persistent'', ''guidance'',
     ''notification_guidance'']"

definition AGENT_AXIS :: "string list" where
  "AGENT_AXIS = [''agent_meta'', ''notifications'', ''notification_persistent'', ''guidance'', ''notification_guidance'']"

definition dict_at :: "dict \<Rightarrow> string \<Rightarrow> dict" where
  "dict_at d k = (case dget d k of Some (PDict e) \<Rightarrow> e | _ \<Rightarrow> [])"

definition dict_setdefault :: "string \<Rightarrow> py \<Rightarrow> dict \<Rightarrow> dict" where
  "dict_setdefault k v d = (if dhas d k then d else dput k v d)"

text \<open>\<^verbatim>\<open>state.setdefault(key, d.pop(key))\<close> for the keys that \<open>d\<close> has.\<close>

fun move_keys :: "string list \<Rightarrow> dict \<times> dict \<Rightarrow> dict \<times> dict" where
  "move_keys [] p = p"
| "move_keys (k # ks) (d, s) =
     (case dget d k of None \<Rightarrow> move_keys ks (d, s) | Some v \<Rightarrow> move_keys ks (dpop k d, dict_setdefault k v s))"

definition move_reconstruction :: "dict \<Rightarrow> dict \<Rightarrow> exc + dict \<times> dict" where
  "move_reconstruction d s =
     (case dget d ''reconstruction'' of
        None \<Rightarrow> Inr (d, s)
      | Some v \<Rightarrow>
          (case dget s ''events'' of
             None \<Rightarrow> Inr (dpop ''reconstruction'' d, dput ''events'' (PDict [(''reconstruction'', v)]) s)
           | Some (PDict e) \<Rightarrow> Inr (dpop ''reconstruction'' d, dput ''events'' (PDict (dput ''reconstruction'' v e)) s)
           | Some _ \<Rightarrow> Inl (TypeError ''item assignment'')))"

text \<open>One axis of the agent's part: what the raw envelope has under two keys moves below it, unless a daemon has no such axis.\<close>

definition fill_axis :: "bool \<Rightarrow> string \<Rightarrow> (string \<times> string) list \<Rightarrow> dict \<Rightarrow> dict \<Rightarrow> dict" where
  "fill_axis local axis moves raw agent =
     (if local \<and> \<not> (dhas agent axis \<or> list_ex (\<lambda>(k, _). dhas raw k) moves) then dpop axis agent
      else dput axis (PDict (fold (\<lambda>(k, to) n. case dget raw k of None \<Rightarrow> n | Some v \<Rightarrow> dict_setdefault to v n) moves
             (dict_at agent axis))) agent)"

definition INSTRUCTION :: string where
  "INSTRUCTION = ''Only the latest agent_meta in conversation is current; older ones are historical traces.''"

definition NOTIFICATION_MOVES :: "(string \<times> string) list" where
  "NOTIFICATION_MOVES = [(''notifications'', ''attention''), (''notification_persistent'', ''persistent'')]"

definition GUIDANCE_MOVES :: "(string \<times> string) list" where
  "GUIDANCE_MOVES = [(''guidance'', ''persistent''), (''notification_guidance'', ''transient'')]"

definition normalize_agent :: "dict \<Rightarrow> dict \<Rightarrow> dict \<Rightarrow> dict" where
  "normalize_agent raw agent s =
     (let agent1 = dict_setdefault ''instruction'' (PStr INSTRUCTION) (dput ''agent_state'' (PDict s) agent);
          local = (case dget s ''daemon'' of Some (PDict _) \<Rightarrow> True | _ \<Rightarrow> False)
      in fill_axis local ''guidance'' GUIDANCE_MOVES raw (fill_axis local ''notifications'' NOTIFICATION_MOVES raw agent1))"

definition TOOL_STATE_KEYS :: "string list" where "TOOL_STATE_KEYS = [''current_time'', ''token_usage'', ''context'']"

definition AGENT_STATE_KEYS :: "string list" where
  "AGENT_STATE_KEYS = [''current_tool_result_chars'', ''adapter_comment'', ''active_turn_tool_calls'']"

definition normalize_runtime_envelope :: "py \<Rightarrow> exc + dict option" where
  "normalize_runtime_envelope raw =
     (case raw of
        PDict d \<Rightarrow>
          if \<not> list_ex (dhas d) HISTORICAL_ROOTS then Inr None
          else
            let agent0 = dict_at d ''agent_meta'';
                (tool1, s1) = move_keys TOOL_STATE_KEYS (dict_at d ''tool_meta'', dict_at agent0 ''agent_state'');
                (agent1, s2) = move_keys AGENT_STATE_KEYS (agent0, s1)
            in ebind (move_reconstruction tool1 s2) (\<lambda>(tool2, s3).
                 if agent0 = [] \<and> \<not> list_ex (dhas d) AGENT_AXIS then Inr (Some [(''tool_meta'', PDict tool2)])
                 else Inr (Some [(''tool_meta'', PDict tool2), (''agent_meta'', PDict (normalize_agent d agent1 s3))]))
      | _ \<Rightarrow> Inr None)"

section \<open>Projection of a result\<close>

definition project_tool_result :: "tool_result \<Rightarrow> exc + py" where
  "project_tool_result r =
     (if tr_metadata r = [] then Inr (tr_content r)
      else
        (case tr_content r of
           PDict d \<Rightarrow>
             ebind (normalize_runtime_envelope (dgetd d ''_meta'' PNone)) (\<lambda>_.
               ebind (normalize_runtime_envelope (PDict (tr_metadata r))) (\<lambda>e.
                 let env = (case e of None \<Rightarrow> [] | Some m \<Rightarrow> m)
                 in if dhas d ''_meta'' then Inr (PDict [(''result'', tr_content r), (''_meta'', PDict env)])
                    else Inr (PDict (dput ''_meta'' (PDict env) d))))
         | _ \<Rightarrow>
             ebind (normalize_runtime_envelope (PDict (tr_metadata r))) (\<lambda>e.
               Inr (PDict [(''result'', tr_content r), (''_meta'', case e of None \<Rightarrow> PNone | Some m \<Rightarrow> PDict m)]))))"

definition restore_body :: "py \<Rightarrow> dict \<Rightarrow> exc + py \<times> dict" where
  "restore_body v d =
     ebind (normalize_runtime_envelope (dgetd d ''_meta'' PNone)) (\<lambda>e.
       case e of
         None \<Rightarrow> Inr (v, [])
       | Some m \<Rightarrow>
           let body = dpop ''_meta'' d
           in if set (dkeys body) = {''result''} then Inr (dgetd body ''result'' PNone, m) else Inr (PDict body, m))"

definition has_meta :: "py \<Rightarrow> bool" where
  "has_meta v = (case v of PDict d \<Rightarrow> (case dget d ''_meta'' of Some (PDict _) \<Rightarrow> True | _ \<Rightarrow> False) | _ \<Rightarrow> False)"

definition restore_projected_result :: "(string \<Rightarrow> py option) \<Rightarrow> py \<Rightarrow> exc + py \<times> dict" where
  "restore_projected_result loads v =
     (case v of
        PDict d \<Rightarrow> if has_meta v then restore_body v d else Inr (v, [])
      | PStr s \<Rightarrow> (case loads s of Some (PDict d) \<Rightarrow> if has_meta (PDict d) then restore_body v d else Inr (v, []) | _ \<Rightarrow> Inr (v, []))
      | _ \<Rightarrow> Inr (v, []))"

definition result_text :: "(py \<Rightarrow> string) \<Rightarrow> tool_result \<Rightarrow> exc + string" where
  "result_text dumps r = ebind (project_tool_result r) (\<lambda>v. Inr (case v of PStr s \<Rightarrow> s | _ \<Rightarrow> dumps v))"

section \<open>Anthropic messages\<close>

definition thinking_signature :: "dict \<Rightarrow> exc + py" where
  "thinking_signature pd =
     (case dget pd ''anthropic'' of
        None \<Rightarrow> Inr PNone
      | Some (PDict a) \<Rightarrow> Inr (dgetd a ''signature'' PNone)
      | Some _ \<Rightarrow> Inl (AttributeError ''get''))"

fun to_anthropic_block :: "(py \<Rightarrow> string) \<Rightarrow> block \<Rightarrow> exc + dict" where
  "to_anthropic_block dumps (TextBlock t) = Inr [(''type'', PStr ''text''), (''text'', PStr t)]"
| "to_anthropic_block dumps (ToolCallBlock c) =
     Inr [(''type'', PStr ''tool_use''), (''id'', PStr (tc_id c)), (''name'', PStr (tc_name c)), (''input'', PDict (tc_args c))]"
| "to_anthropic_block dumps (ToolResultBlock r) =
     ebind (result_text dumps r) (\<lambda>t.
       Inr [(''type'', PStr ''tool_result''), (''tool_use_id'', PStr (tr_id r)), (''content'', PStr t)])"
| "to_anthropic_block dumps (ThinkingBlock t pd) =
     ebind (thinking_signature pd) (\<lambda>sig.
       Inr ([(''type'', PStr ''thinking''), (''thinking'', PStr t)] @ (if truthy sig then [(''signature'', sig)] else [])))"

definition role_message :: "string \<Rightarrow> py \<Rightarrow> dict" where
  "role_message role content = [(''role'', PStr role), (''content'', content)]"

definition block_list :: "(block \<Rightarrow> exc + dict) \<Rightarrow> block list \<Rightarrow> exc + py" where
  "block_list f bs = ebind (emap f bs) (\<lambda>ds. Inr (PList (map PDict ds)))"

definition to_anthropic_entry :: "(py \<Rightarrow> string) \<Rightarrow> chat_entry \<Rightarrow> exc + dict" where
  "to_anthropic_entry dumps e =
     (if e_role e = Assistant then ebind (block_list (to_anthropic_block dumps) (e_content e)) (\<lambda>v. Inr (role_message ''assistant'' v))
      else
        (case e_content e of
           [TextBlock t] \<Rightarrow> Inr (role_message ''user'' (PStr t))
         | bs \<Rightarrow> ebind (block_list (to_anthropic_block dumps) bs) (\<lambda>v. Inr (role_message ''user'' v))))"

definition to_anthropic :: "(py \<Rightarrow> string) \<Rightarrow> chat \<Rightarrow> exc + dict list" where
  "to_anthropic dumps c = emap (to_anthropic_entry dumps) (filter (\<lambda>e. e_role e \<noteq> System) (entries c))"

section \<open>OpenAI Chat messages\<close>

text \<open>\<open>show\<close> is \<^verbatim>\<open>str\<close> of a block.\<close>

fun to_openai_block :: "(block \<Rightarrow> string) \<Rightarrow> block \<Rightarrow> dict" where
  "to_openai_block show (TextBlock t) = [(''type'', PStr ''text''), (''text'', PStr t)]"
| "to_openai_block show b = [(''type'', PStr ''text''), (''text'', PStr (show b))]"

definition openai_call :: "(py \<Rightarrow> string) \<Rightarrow> tool_call \<Rightarrow> dict" where
  "openai_call dumps c =
     [(''id'', PStr (tc_id c)), (''type'', PStr ''function''),
      (''function'', PDict [(''name'', PStr (tc_name c)), (''arguments'', PStr (dumps (PDict (tc_args c))))])]"

definition texts_of :: "block list \<Rightarrow> string list" where
  "texts_of bs = List.map_filter (\<lambda>b. case b of TextBlock t \<Rightarrow> Some t | _ \<Rightarrow> None) bs"

definition thoughts_of :: "block list \<Rightarrow> string list" where
  "thoughts_of bs = List.map_filter (\<lambda>b. case b of ThinkingBlock t _ \<Rightarrow> if t = [] then None else Some t | _ \<Rightarrow> None) bs"

definition openai_assistant :: "(py \<Rightarrow> string) \<Rightarrow> block list \<Rightarrow> dict" where
  "openai_assistant dumps bs =
     [(''role'', PStr ''assistant'')]
     @ (if texts_of bs = [] then [] else [(''content'', PStr (join_str nl (texts_of bs)))])
     @ (if calls_of bs = [] then [] else [(''tool_calls'', PList (map (PDict \<circ> openai_call dumps) (calls_of bs)))])
     @ (if texts_of bs = [] \<and> calls_of bs = [] then [(''content'', PStr [])] else [])
     @ (if thoughts_of bs = [] then [] else [(''reasoning_content'', PStr (join_str nl (thoughts_of bs)))])"

definition tool_message :: "(py \<Rightarrow> string) \<Rightarrow> tool_result \<Rightarrow> exc + dict" where
  "tool_message dumps r =
     ebind (result_text dumps r) (\<lambda>t.
       Inr [(''role'', PStr ''tool''), (''tool_call_id'', PStr (tr_id r)), (''content'', PStr t)])"

definition starts_with_result :: "block list \<Rightarrow> bool" where
  "starts_with_result bs \<longleftrightarrow> bs \<noteq> [] \<and> is_result (hd bs)"

definition to_openai_entry :: "(block \<Rightarrow> string) \<Rightarrow> (py \<Rightarrow> string) \<Rightarrow> chat_entry \<Rightarrow> exc + dict list" where
  "to_openai_entry show dumps e =
     (case e_role e of
        System \<Rightarrow> (case e_content e of [] \<Rightarrow> Inl IndexError | b # _ \<Rightarrow> ebind (block_text b) (\<lambda>t. Inr [role_message ''system'' (PStr t)]))
      | User \<Rightarrow>
          if starts_with_result (e_content e) then emap (tool_message dumps) (results_of (e_content e))
          else (case e_content e of
                  [TextBlock t] \<Rightarrow> Inr [role_message ''user'' (PStr t)]
                | bs \<Rightarrow> Inr [role_message ''user'' (PList (map (PDict \<circ> to_openai_block show) bs))])
      | Assistant \<Rightarrow> Inr [openai_assistant dumps (e_content e)])"

definition to_openai :: "(block \<Rightarrow> string) \<Rightarrow> (py \<Rightarrow> string) \<Rightarrow> chat \<Rightarrow> exc + dict list" where
  "to_openai show dumps c = ebind (emap (to_openai_entry show dumps) (entries c)) (\<lambda>mss. Inr (concat mss))"

section \<open>OpenAI Responses items\<close>

definition ORPHAN_OUTPUT_PLACEHOLDER :: string where
  "ORPHAN_OUTPUT_PLACEHOLDER = ''[synthesized placeholder '' @ em_dash @ '' real tool result was not in context at send time]''"

definition output_item :: "string \<Rightarrow> string \<Rightarrow> dict" where
  "output_item i t = [(''type'', PStr ''function_call_output''), (''call_id'', PStr i), (''output'', PStr t)]"

definition item_is :: "string \<Rightarrow> dict \<Rightarrow> bool" where
  "item_is kind d \<longleftrightarrow> dget d ''type'' = Some (PStr kind)"

text \<open>The call id of an item, where it is a text that is not empty.\<close>

definition call_id_of :: "dict \<Rightarrow> string option" where
  "call_id_of d = (case dget d ''call_id'' of Some (PStr s) \<Rightarrow> if s = [] then None else Some s | _ \<Rightarrow> None)"

definition output_ids :: "dict list \<Rightarrow> string list" where
  "output_ids items = List.map_filter call_id_of (filter (item_is ''function_call_output'') items)"

fun orphan_outputs :: "string list \<Rightarrow> dict list \<Rightarrow> dict list" where
  "orphan_outputs seen [] = []"
| "orphan_outputs seen (d # ds) =
     (if \<not> item_is ''function_call'' d then orphan_outputs seen ds
      else
        (case call_id_of d of
           None \<Rightarrow> orphan_outputs seen ds
         | Some i \<Rightarrow>
             if i \<in> set seen then orphan_outputs seen ds
             else output_item i ORPHAN_OUTPUT_PLACEHOLDER # orphan_outputs (i # seen) ds))"

definition pair_responses_orphan_function_calls :: "dict list \<Rightarrow> dict list" where
  "pair_responses_orphan_function_calls items = items @ orphan_outputs (output_ids items) items"

definition REDACTED_SECRET :: string where "REDACTED_SECRET = ''<REDACTED:secret>''"

definition raw_reasoning :: "dict \<Rightarrow> dict option" where
  "raw_reasoning pd =
     (case dget pd ''openai_responses_reasoning_item'' of
        Some (PDict raw) \<Rightarrow>
          if item_is ''reasoning'' raw \<and>
             (case dget raw ''encrypted_content'' of Some (PStr s) \<Rightarrow> s \<noteq> REDACTED_SECRET | _ \<Rightarrow> False)
          then Some raw else None
      | _ \<Rightarrow> None)"

definition reasoning_item :: "block \<Rightarrow> dict option" where
  "reasoning_item b =
     (case b of
        ThinkingBlock t pd \<Rightarrow>
          (case raw_reasoning pd of
             Some raw \<Rightarrow> Some raw
           | None \<Rightarrow> if t = [] then None
               else Some [(''type'', PStr ''reasoning''),
                 (''summary'', PList [PDict [(''type'', PStr ''summary_text''), (''text'', PStr t)]])])
      | _ \<Rightarrow> None)"

definition responses_call :: "(py \<Rightarrow> string) \<Rightarrow> tool_call \<Rightarrow> dict" where
  "responses_call dumps c =
     [(''type'', PStr ''function_call''), (''call_id'', PStr (tc_id c)), (''name'', PStr (tc_name c)),
      (''arguments'', PStr (dumps (PDict (tc_args c))))]"

definition responses_assistant :: "(py \<Rightarrow> string) \<Rightarrow> block list \<Rightarrow> dict list" where
  "responses_assistant dumps bs =
     List.map_filter reasoning_item bs
     @ (let joined = join_str nl (texts_of bs) in if texts_of bs = [] \<or> joined = [] then [] else [role_message ''assistant'' (PStr joined)])
     @ map (responses_call dumps) (calls_of bs)"

definition responses_entry :: "(py \<Rightarrow> string) \<Rightarrow> chat_entry \<Rightarrow> exc + dict list" where
  "responses_entry dumps e =
     (case e_role e of
        System \<Rightarrow> Inr []
      | User \<Rightarrow>
          if starts_with_result (e_content e)
          then emap (\<lambda>r. ebind (result_text dumps r) (\<lambda>t. Inr (output_item (tr_id r) t))) (results_of (e_content e))
          else Inr [role_message ''user'' (PStr (join_str nl (texts_of (e_content e))))]
      | Assistant \<Rightarrow> Inr (responses_assistant dumps (e_content e)))"

text \<open>\<^verbatim>\<open>to_responses_input\<close> without the replay of raw output items, as the Codex session calls it.\<close>

definition to_responses_input :: "(py \<Rightarrow> string) \<Rightarrow> chat \<Rightarrow> exc + dict list" where
  "to_responses_input dumps c =
     ebind (emap (responses_entry dumps) (entries c)) (\<lambda>iss. Inr (pair_responses_orphan_function_calls (concat iss)))"

section \<open>Gemini turns\<close>

fun to_gemini_block :: "(py \<Rightarrow> string) \<Rightarrow> block \<Rightarrow> exc + dict" where
  "to_gemini_block dumps (TextBlock t) = Inr [(''type'', PStr ''text''), (''text'', PStr t)]"
| "to_gemini_block dumps (ToolCallBlock c) =
     Inr [(''type'', PStr ''function_call''), (''id'', PStr (tc_id c)), (''name'', PStr (tc_name c)), (''arguments'', PDict (tc_args c))]"
| "to_gemini_block dumps (ToolResultBlock r) =
     ebind (result_text dumps r) (\<lambda>t.
       Inr [(''type'', PStr ''function_result''), (''call_id'', PStr (tr_id r)), (''result'', PStr t), (''name'', PStr (tr_name r))])"
| "to_gemini_block dumps (ThinkingBlock t pd) =
     Inr ([(''type'', PStr ''thought'')]
       @ (if t = [] then [] else [(''summary'', PList [PDict [(''type'', PStr ''text''), (''text'', PStr t)]])]))"

definition to_gemini :: "(py \<Rightarrow> string) \<Rightarrow> chat \<Rightarrow> exc + dict list" where
  "to_gemini dumps c =
     emap (\<lambda>e. ebind (block_list (to_gemini_block dumps) (e_content e)) (\<lambda>v.
       Inr (role_message (if e_role e = Assistant then ''model'' else ''user'') v)))
       (filter (\<lambda>e. e_role e \<noteq> System) (entries c))"

section \<open>A settled conversation\<close>

text \<open>Well paired with no call left open, as one recursion.\<close>

fun all_answered :: "chat_entry list \<Rightarrow> bool" where
  "all_answered [] = True"
| "all_answered [e] \<longleftrightarrow> opens e \<and> \<not> has_calls e"
| "all_answered (a # u # es) \<longleftrightarrow> opens a \<and> (if has_calls a then answers a u \<and> all_answered es else all_answered (u # es))"

lemma answers_no_calls: "answers a u \<Longrightarrow> \<not> has_calls u"
  by (auto simp: answers_def is_result_entry_def has_calls_def)

lemma all_answered_iff: "well_paired es \<and> \<not> tail_pending es \<longleftrightarrow> all_answered es"
proof (induction es rule: all_answered.induct)
  case (3 a u es)
  show ?case
  proof (cases "has_calls a")
    case True
    have "answers a u \<Longrightarrow> tail_pending (a # u # es) = tail_pending es"
      using answers_no_calls by (auto simp: tail_pending_def)
    with True "3.IH"(1) show ?thesis by auto
  next
    case False
    have "tail_pending (a # u # es) = tail_pending (u # es)" by (simp add: tail_pending_def)
    with False "3.IH"(2) show ?thesis by auto
  qed
qed (auto simp: tail_pending_def)

lemma settled_answered: "wire_ok c \<Longrightarrow> \<not> has_pending_tool_calls c \<Longrightarrow> all_answered (entries c)"
  by (simp add: wire_ok_def has_pending_tool_calls_def flip: all_answered_iff)

lemma all_answered_Cons: "opens a \<Longrightarrow> \<not> has_calls a \<Longrightarrow> all_answered es \<Longrightarrow> all_answered (a # es)"
  by (cases es) auto

lemma all_answered_filter: "all_answered es \<Longrightarrow> all_answered (filter (\<lambda>e. e_role e \<noteq> System) es)"
proof (induction es rule: all_answered.induct)
  case (3 a u es)
  show ?case
  proof (cases "has_calls a")
    case True
    with "3.prems" have au: "opens a" "answers a u" "all_answered es" by auto
    then have "e_role a \<noteq> System" "e_role u \<noteq> System"
      using True by (auto simp: has_calls_def answers_def is_result_entry_def)
    with au "3.IH"(1) [OF True] True show ?thesis by simp
  next
    case False
    with "3.prems" "3.IH"(2) have "opens a" "all_answered (filter (\<lambda>e. e_role e \<noteq> System) (u # es))" by auto
    with all_answered_Cons False show ?thesis by simp
  qed
qed auto

section \<open>What Anthropic asks of the messages\<close>

text \<open>The ids of the blocks of one type in a message, and the pairing of tool uses with tool results.\<close>

definition typed_id :: "string \<Rightarrow> string \<Rightarrow> dict \<Rightarrow> string option" where
  "typed_id kind key d =
     (if item_is kind d then (case dget d key of Some (PStr s) \<Rightarrow> Some s | _ \<Rightarrow> None) else None)"

definition content_blocks :: "dict \<Rightarrow> dict list" where
  "content_blocks m =
     (case dget m ''content'' of
        Some (PList vs) \<Rightarrow> List.map_filter (\<lambda>v. case v of PDict d \<Rightarrow> Some d | _ \<Rightarrow> None) vs
      | _ \<Rightarrow> [])"

definition uses :: "dict \<Rightarrow> string list" where
  "uses m = List.map_filter (typed_id ''tool_use'' ''id'') (content_blocks m)"

definition returns :: "dict \<Rightarrow> string list" where
  "returns m = List.map_filter (typed_id ''tool_result'' ''tool_use_id'') (content_blocks m)"

definition answers_uses :: "dict \<Rightarrow> dict \<Rightarrow> bool" where
  "answers_uses m n \<longleftrightarrow> dget n ''role'' = Some (PStr ''user'') \<and> set (returns n) = set (uses m) \<and>
     list_all (item_is ''tool_result'') (content_blocks n)"

fun anthropic_paired :: "dict list \<Rightarrow> bool" where
  "anthropic_paired [] = True"
| "anthropic_paired [m] \<longleftrightarrow> uses m = [] \<and> returns m = []"
| "anthropic_paired (m # n # ms) \<longleftrightarrow>
     returns m = [] \<and> (if uses m = [] then anthropic_paired (n # ms) else answers_uses m n \<and> anthropic_paired ms)"

lemma content_blocks_message [simp]: "content_blocks (role_message r (PList (map PDict ds))) = ds"
  "content_blocks (role_message r (PStr t)) = []"
proof -
  have "List.map_filter (\<lambda>v. case v of PDict d \<Rightarrow> Some d | _ \<Rightarrow> None) (map PDict ds) = ds"
    by (induction ds) (auto simp: List.map_filter_def)
  then show "content_blocks (role_message r (PList (map PDict ds))) = ds" "content_blocks (role_message r (PStr t)) = []"
    by (simp_all add: content_blocks_def role_message_def)
qed

lemma message_role [simp]: "dget (role_message r v) ''role'' = Some (PStr r)"
  by (simp add: role_message_def)

lemma anthropic_blocks:
  "emap (to_anthropic_block dumps) bs = Inr ds \<Longrightarrow>
   List.map_filter (typed_id ''tool_use'' ''id'') ds = map tc_id (calls_of bs) \<and>
   List.map_filter (typed_id ''tool_result'' ''tool_use_id'') ds = map tr_id (results_of bs) \<and>
   (list_all is_result bs \<longrightarrow> list_all (item_is ''tool_result'') ds)"
proof (induction bs arbitrary: ds)
  case (Cons b bs)
  then obtain d es where d: "to_anthropic_block dumps b = Inr d" and es: "emap (to_anthropic_block dumps) bs = Inr es" and
    ds: "ds = d # es" by (auto dest!: ebind_eq_InrD)
  note IH = Cons.IH [OF es]
  show ?case
    using IH d
    by (cases b) (auto simp: ds List.map_filter_def calls_of_def results_of_def typed_id_def item_is_def dest!: ebind_eq_InrD)
qed (simp add: List.map_filter_def calls_of_def results_of_def)

lemma anthropic_entry:
  assumes "to_anthropic_entry dumps e = Inr m"
  shows "uses m = map tc_id (calls_of (e_content e))" "returns m = map tr_id (results_of (e_content e))"
    "is_result_entry e \<Longrightarrow> dget m ''role'' = Some (PStr ''user'') \<and> list_all (item_is ''tool_result'') (content_blocks m)"
proof -
  consider t where "e_content e = [TextBlock t]" "m = role_message ''user'' (PStr t)"
  | r ds where "emap (to_anthropic_block dumps) (e_content e) = Inr ds" "m = role_message r (PList (map PDict ds))"
      "e_role e \<noteq> Assistant \<longrightarrow> r = ''user''"
    using assms
    by (auto simp: to_anthropic_entry_def block_list_def split: if_splits list.splits block.splits dest!: ebind_eq_InrD)
  then have "uses m = map tc_id (calls_of (e_content e)) \<and> returns m = map tr_id (results_of (e_content e)) \<and>
    (is_result_entry e \<longrightarrow> dget m ''role'' = Some (PStr ''user'') \<and> list_all (item_is ''tool_result'') (content_blocks m))"
  proof cases
    case 1
    then show ?thesis
      by (simp add: uses_def returns_def calls_of_def results_of_def is_result_entry_def results_only_def List.map_filter_def)
  next
    case 2
    with anthropic_blocks [OF 2(1)] show ?thesis
      by (auto simp: uses_def returns_def is_result_entry_def results_only_def)
  qed
  then show "uses m = map tc_id (calls_of (e_content e))" "returns m = map tr_id (results_of (e_content e))"
    "is_result_entry e \<Longrightarrow> dget m ''role'' = Some (PStr ''user'') \<and> list_all (item_is ''tool_result'') (content_blocks m)"
    by simp_all
qed

lemma anthropic_pairing:
  "all_answered es \<Longrightarrow> emap (to_anthropic_entry dumps) es = Inr ms \<Longrightarrow> anthropic_paired ms"
proof (induction es arbitrary: ms rule: all_answered.induct)
  case (2 e)
  then obtain m where "to_anthropic_entry dumps e = Inr m" "ms = [m]" by (auto dest!: ebind_eq_InrD)
  with 2 anthropic_entry(1,2) show ?case
    by (auto simp: opens_def has_calls_iff)
next
  case (3 a u es)
  then obtain m n ns where m: "to_anthropic_entry dumps a = Inr m" and n: "to_anthropic_entry dumps u = Inr n" and
    ns: "emap (to_anthropic_entry dumps) es = Inr ns" and ms: "ms = m # n # ns" by (auto dest!: ebind_eq_InrD)
  from "3.prems"(1) have opn: "opens a" by simp
  show ?case
  proof (cases "has_calls a")
    case True
    with "3.prems"(1) have au: "answers a u" "all_answered es" by auto
    from "3.IH"(1) [OF True au(2) ns] opn True au(1) anthropic_entry [OF m] anthropic_entry [OF n] show ?thesis
      by (auto simp: ms opens_def has_calls_iff answers_def answers_ids_def answers_uses_def)
  next
    case False
    with "3.prems"(1) have "all_answered (u # es)" by auto
    moreover have "emap (to_anthropic_entry dumps) (u # es) = Inr (n # ns)" using n ns by simp
    ultimately have "anthropic_paired (n # ns)" using "3.IH"(2) False by blast
    with opn False anthropic_entry(1,2) [OF m] show ?thesis by (simp add: ms opens_def)
  qed
qed auto

section \<open>What OpenAI Chat asks of the messages\<close>

definition is_tool_message :: "dict \<Rightarrow> bool" where
  "is_tool_message m \<longleftrightarrow> dget m ''role'' = Some (PStr ''tool'')"

definition asked_ids :: "dict \<Rightarrow> string list" where
  "asked_ids m =
     (case dget m ''tool_calls'' of
        Some (PList vs) \<Rightarrow>
          List.map_filter (\<lambda>v. case v of PDict d \<Rightarrow> (case dget d ''id'' of Some (PStr s) \<Rightarrow> Some s | _ \<Rightarrow> None) | _ \<Rightarrow> None) vs
      | _ \<Rightarrow> [])"

definition tool_ids :: "dict list \<Rightarrow> string list" where
  "tool_ids ms = List.map_filter (\<lambda>m. case dget m ''tool_call_id'' of Some (PStr s) \<Rightarrow> Some s | _ \<Rightarrow> None) ms"

text \<open>A message with calls is followed by the tool messages that answer exactly them, and there are no others.\<close>

function openai_paired :: "dict list \<Rightarrow> bool" where
  "openai_paired [] = True"
| "openai_paired (m # ms) \<longleftrightarrow>
     \<not> is_tool_message m \<and>
     (asked_ids m \<noteq> [] \<longrightarrow> set (tool_ids (takeWhile is_tool_message ms)) = set (asked_ids m)) \<and>
     (if asked_ids m = [] then openai_paired ms else openai_paired (dropWhile is_tool_message ms))"
  by pat_completeness auto
termination by (relation "measure length") (auto simp: le_imp_less_Suc length_dropWhile_le)

lemma asked_assistant [simp]:
  "asked_ids (openai_assistant dumps bs) = map tc_id (calls_of bs)" "\<not> is_tool_message (openai_assistant dumps bs)"
proof -
  have "List.map_filter (\<lambda>v. case v of PDict d \<Rightarrow> (case dget d ''id'' of Some (PStr s) \<Rightarrow> Some s | _ \<Rightarrow> None) | _ \<Rightarrow> None)
    (map (PDict \<circ> openai_call dumps) cs) = map tc_id cs" for cs
    by (induction cs) (auto simp: List.map_filter_def openai_call_def)
  then show "asked_ids (openai_assistant dumps bs) = map tc_id (calls_of bs)" "\<not> is_tool_message (openai_assistant dumps bs)"
    by (auto simp: asked_ids_def openai_assistant_def is_tool_message_def List.map_filter_def)
qed

lemma message_plain [simp]: "asked_ids (role_message r v) = []" "is_tool_message (role_message r v) \<longleftrightarrow> r = ''tool''"
  by (simp_all add: asked_ids_def role_message_def is_tool_message_def)

lemma tool_messages:
  "emap (tool_message dumps) rs = Inr ms \<Longrightarrow> tool_ids ms = map tr_id rs \<and> list_all is_tool_message ms"
proof (induction rs arbitrary: ms)
  case (Cons r rs)
  then obtain m ns where m: "tool_message dumps r = Inr m" "emap (tool_message dumps) rs = Inr ns" "ms = m # ns"
    by (auto dest!: ebind_eq_InrD)
  from m(1) obtain t where "m = [(''role'', PStr ''tool''), (''tool_call_id'', PStr (tr_id r)), (''content'', PStr t)]"
    by (auto simp: tool_message_def dest!: ebind_eq_InrD)
  with Cons.IH [OF m(2)] m(3) show ?case
    by (simp add: tool_ids_def List.map_filter_def is_tool_message_def)
qed (simp add: tool_ids_def List.map_filter_def)

lemma openai_open_entry:
  assumes "opens e" "to_openai_entry show dumps e = Inr ms"
  obtains m where "ms = [m]" "\<not> is_tool_message m" "asked_ids m = (if has_calls e then map tc_id (calls_of (e_content e)) else [])"
proof (cases "e_role e")
  case System
  with assms(2) that show ?thesis
    by (auto simp: to_openai_entry_def has_calls_def split: list.splits dest!: ebind_eq_InrD)
next
  case Assistant
  with assms(2) that show ?thesis by (auto simp: to_openai_entry_def has_calls_iff)
next
  case User
  have "\<not> starts_with_result (e_content e)"
    using assms(1) by (cases "e_content e"; cases "hd (e_content e)")
      (auto simp: opens_def starts_with_result_def results_of_def List.map_filter_def)
  with User assms(2) that show ?thesis
    by (auto simp: to_openai_entry_def has_calls_def split: list.splits block.splits)
qed

lemma openai_answer_entry:
  assumes "is_result_entry u" "to_openai_entry show dumps u = Inr ms"
  shows "tool_ids ms = map tr_id (results_of (e_content u)) \<and> list_all is_tool_message ms"
proof -
  have "starts_with_result (e_content u) \<and> e_role u = User"
    using assms(1) by (cases "e_content u") (auto simp: is_result_entry_def results_only_def starts_with_result_def)
  with assms(2) tool_messages show ?thesis by (simp add: to_openai_entry_def)
qed

lemma openai_no_leading_tool:
  assumes "all_answered es" "emap (to_openai_entry show dumps) es = Inr mss"
  shows "takeWhile is_tool_message (concat mss) = []"
proof (cases es)
  case (Cons e fs)
  with assms(1) have "opens e" by (cases fs) auto
  moreover from assms(2) Cons obtain ms nss where "to_openai_entry show dumps e = Inr ms" "mss = ms # nss"
    by (auto dest!: ebind_eq_InrD)
  ultimately show ?thesis by (auto elim!: openai_open_entry)
qed (use assms in simp)

lemma takeWhile_run: "list_all p xs \<Longrightarrow> takeWhile p ys = [] \<Longrightarrow> takeWhile p (xs @ ys) = xs \<and> dropWhile p (xs @ ys) = ys"
  by (induction xs) (auto simp: takeWhile_eq_Nil_iff dropWhile_eq_self_iff)

lemma openai_pairing:
  "all_answered es \<Longrightarrow> emap (to_openai_entry show dumps) es = Inr mss \<Longrightarrow> openai_paired (concat mss)"
proof (induction es arbitrary: mss rule: all_answered.induct)
  case (2 e)
  then obtain ms where "to_openai_entry show dumps e = Inr ms" "mss = [ms]" by (auto dest!: ebind_eq_InrD)
  with 2 show ?case by (auto elim!: openai_open_entry)
next
  case (3 a u es)
  then obtain ma mu nss where a: "to_openai_entry show dumps a = Inr ma" and u: "to_openai_entry show dumps u = Inr mu" and
    ns: "emap (to_openai_entry show dumps) es = Inr nss" and mss: "mss = ma # mu # nss" by (auto dest!: ebind_eq_InrD)
  from "3.prems"(1) have opn: "opens a" by simp
  then obtain m where m: "ma = [m]" "\<not> is_tool_message m" "asked_ids m = (if has_calls a then map tc_id (calls_of (e_content a)) else [])"
    using a by (rule openai_open_entry)
  show ?case
  proof (cases "has_calls a")
    case True
    with "3.prems"(1) have au: "answers a u" and es: "all_answered es" by auto
    from au u have run: "tool_ids mu = map tr_id (results_of (e_content u))" "list_all is_tool_message mu"
      by (auto simp: answers_def dest: openai_answer_entry)
    from takeWhile_run [OF run(2) openai_no_leading_tool [OF es ns]]
    have cut: "takeWhile is_tool_message (mu @ concat nss) = mu" "dropWhile is_tool_message (mu @ concat nss) = concat nss"
      by simp_all
    from "3.IH"(1) [OF True es ns] m True au run cut show ?thesis
      by (simp add: mss has_calls_iff answers_def answers_ids_def)
  next
    case False
    with "3.prems"(1) have "all_answered (u # es)" by auto
    moreover have "emap (to_openai_entry show dumps) (u # es) = Inr (mu # nss)" using u ns by simp
    ultimately have "openai_paired (concat (mu # nss))" using "3.IH"(2) False by blast
    with m False show ?thesis by (simp add: mss)
  qed
qed auto

section \<open>What the Responses API asks of the items\<close>

definition item_call_ids :: "dict list \<Rightarrow> string list" where
  "item_call_ids items = List.map_filter call_id_of (filter (item_is ''function_call'') items)"

lemma item_call_ids_Nil [simp]: "item_call_ids [] = []"
  by (simp add: item_call_ids_def List.map_filter_def)

lemma item_call_ids_Cons [simp]:
  "item_call_ids (d # ds) = (if item_is ''function_call'' d then (case call_id_of d of None \<Rightarrow> [] | Some i \<Rightarrow> [i]) else []) @ item_call_ids ds"
  by (auto simp: item_call_ids_def List.map_filter_def split: option.splits)

lemma orphan_outputs_ids:
  "\<exists>ids. orphan_outputs seen items = map (\<lambda>i. output_item i ORPHAN_OUTPUT_PLACEHOLDER) ids \<and> distinct ids \<and>
     set ids = set (item_call_ids items) - set seen"
proof (induction seen items rule: orphan_outputs.induct)
  case (2 seen d ds)
  show ?case
  proof (cases "item_is ''function_call'' d \<and> (\<exists>i. call_id_of d = Some i \<and> i \<notin> set seen)")
    case True
    then obtain i where i: "item_is ''function_call'' d" "call_id_of d = Some i" "i \<notin> set seen" by blast
    with "2.IH" obtain ids where ids: "orphan_outputs (i # seen) ds = map (\<lambda>i. output_item i ORPHAN_OUTPUT_PLACEHOLDER) ids"
      "distinct ids" "set ids = set (item_call_ids ds) - set (i # seen)" by auto
    with i show ?thesis
      by (intro exI [of _ "i # ids"]) auto
  next
    case False
    then consider "\<not> item_is ''function_call'' d" | "item_is ''function_call'' d" "call_id_of d = None"
      | i where "item_is ''function_call'' d" "call_id_of d = Some i" "i \<in> set seen" by blast
    then show ?thesis
    proof cases
      case (3 i)
      with "2.IH"(3) obtain ids where "orphan_outputs seen ds = map (\<lambda>i. output_item i ORPHAN_OUTPUT_PLACEHOLDER) ids"
        "distinct ids" "set ids = set (item_call_ids ds) - set seen" by blast
      with 3 show ?thesis by (intro exI [of _ ids]) auto
    qed (use "2.IH" in auto)
  qed
qed (simp add: item_call_ids_def List.map_filter_def)

lemma output_ids_append [simp]: "output_ids (xs @ ys) = output_ids xs @ output_ids ys"
  by (simp add: output_ids_def)

lemma item_call_ids_append [simp]: "item_call_ids (xs @ ys) = item_call_ids xs @ item_call_ids ys"
  by (simp add: item_call_ids_def)

lemma placeholder_ids [simp]:
  "item_call_ids (map (\<lambda>i. output_item i t) ids) = []"
  "output_ids (map (\<lambda>i. output_item i t) ids) = filter (\<lambda>i. i \<noteq> []) ids"
  by (induction ids) (auto simp: item_call_ids_def output_ids_def List.map_filter_def output_item_def item_is_def call_id_of_def)

lemma call_id_not_empty: "call_id_of d = Some i \<Longrightarrow> i \<noteq> []"
  by (auto simp: call_id_of_def split: option.splits py.splits if_splits)

lemma item_call_ids_not_empty: "i \<in> set (item_call_ids items) \<Longrightarrow> i \<noteq> []"
  unfolding item_call_ids_def List.map_filter_def by (auto dest: call_id_not_empty)

lemma paired_items:
  obtains ids where
    "pair_responses_orphan_function_calls items = items @ map (\<lambda>i. output_item i ORPHAN_OUTPUT_PLACEHOLDER) ids"
    "distinct ids" "set ids = set (item_call_ids items) - set (output_ids items)"
  using orphan_outputs_ids [of "output_ids items" items] unfolding pair_responses_orphan_function_calls_def by blast

lemma reasoning_no_call: "reasoning_item b = Some d \<Longrightarrow> \<not> item_is ''function_call'' d"
  by (auto simp: reasoning_item_def raw_reasoning_def item_is_def split: block.splits option.splits py.splits if_splits)

lemma reasoning_ids [simp]: "item_call_ids (List.map_filter reasoning_item bs) = []"
proof (induction bs)
  case (Cons b bs)
  then show ?case by (cases "reasoning_item b") (auto simp: List.map_filter_def dest: reasoning_no_call)
qed (simp add: List.map_filter_def)

lemma message_no_call [simp]: "item_is k (role_message r v) = False"
  by (simp add: item_is_def role_message_def)

lemma responses_calls [simp]: "item_call_ids (map (responses_call dumps) cs) = filter (\<lambda>i. i \<noteq> []) (map tc_id cs)"
  by (induction cs) (auto simp: responses_call_def item_is_def call_id_of_def)

lemma responses_assistant_ids [simp]: "item_call_ids (responses_assistant dumps bs) = filter (\<lambda>i. i \<noteq> []) (map tc_id (calls_of bs))"
  by (simp add: responses_assistant_def Let_def)

lemma responses_outputs:
  "emap (\<lambda>r. ebind (result_text dumps r) (\<lambda>t. Inr (output_item (tr_id r) t))) rs = Inr js \<Longrightarrow>
   output_ids js = filter (\<lambda>i. i \<noteq> []) (map tr_id rs) \<and> item_call_ids js = []"
proof (induction rs arbitrary: js)
  case (Cons r rs)
  then obtain t ns where "emap (\<lambda>r. ebind (result_text dumps r) (\<lambda>t. Inr (output_item (tr_id r) t))) rs = Inr ns"
    "js = output_item (tr_id r) t # ns" by (auto dest!: ebind_eq_InrD)
  with Cons.IH show ?case
    by (auto simp: output_ids_def List.map_filter_def output_item_def item_is_def call_id_of_def)
qed (simp add: output_ids_def List.map_filter_def)

lemma responses_open_entry:
  assumes "opens e" "\<not> has_calls e" "responses_entry dumps e = Inr js"
  shows "item_call_ids js = []"
proof (cases "e_role e")
  case User
  have "\<not> starts_with_result (e_content e)"
    using assms(1) by (cases "e_content e"; cases "hd (e_content e)")
      (auto simp: opens_def starts_with_result_def results_of_def List.map_filter_def)
  with User assms(3) show ?thesis by (auto simp: responses_entry_def)
next
  case Assistant
  with assms show ?thesis by (auto simp: responses_entry_def has_calls_iff)
next
  case System
  with assms(3) show ?thesis by (simp add: responses_entry_def)
qed

lemma responses_answered:
  "all_answered es \<Longrightarrow> emap (responses_entry dumps) es = Inr jss \<Longrightarrow> set (item_call_ids (concat jss)) \<subseteq> set (output_ids (concat jss))"
proof (induction es arbitrary: jss rule: all_answered.induct)
  case (2 e)
  then obtain js where "responses_entry dumps e = Inr js" "jss = [js]" by (auto dest!: ebind_eq_InrD)
  with 2 responses_open_entry show ?case by auto
next
  case (3 a u es)
  then obtain ja ju nss where a: "responses_entry dumps a = Inr ja" and u: "responses_entry dumps u = Inr ju" and
    ns: "emap (responses_entry dumps) es = Inr nss" and jss: "jss = ja # ju # nss" by (auto dest!: ebind_eq_InrD)
  show ?case
  proof (cases "has_calls a")
    case True
    with "3.prems"(1) have au: "answers a u" and es: "all_answered es" by auto
    have ja: "item_call_ids ja = filter (\<lambda>i. i \<noteq> []) (map tc_id (calls_of (e_content a)))"
      using a True by (auto simp: responses_entry_def has_calls_iff)
    have "starts_with_result (e_content u) \<and> e_role u = User"
      using au by (cases "e_content u") (auto simp: answers_def is_result_entry_def results_only_def starts_with_result_def)
    with u have ju: "output_ids ju = filter (\<lambda>i. i \<noteq> []) (map tr_id (results_of (e_content u)))" "item_call_ids ju = []"
      by (auto simp: responses_entry_def dest: responses_outputs)
    have "set (item_call_ids ja) \<subseteq> set (output_ids ju)"
      using au by (auto simp: ja ju answers_def answers_ids_def)
    with "3.IH"(1) [OF True es ns] show ?thesis by (auto simp: jss ju)
  next
    case False
    with "3.prems"(1) have opn: "opens a" and rest: "all_answered (u # es)" by auto
    have "emap (responses_entry dumps) (u # es) = Inr (ju # nss)" using u ns by simp
    from "3.IH"(2) [OF False rest this] responses_open_entry [OF opn False a] show ?thesis by (auto simp: jss)
  qed
qed (simp add: List.map_filter_def)

text \<open>C6: a settled conversation is accepted by the providers. Converted to Anthropic messages, each message with tool uses is
  directly followed by the user message of tool results that returns exactly them, and no tool result stands
  elsewhere; converted to OpenAI Chat messages, each message with tool calls is directly followed by the run of tool
  messages that answer exactly them, and no tool message stands elsewhere. So the pairing the kernel keeps is the one
  the formats ask for, system entries included.\<close>

theorem settled_history_accepted:
  assumes "wire_ok c" "\<not> has_pending_tool_calls c"
  shows "(case to_anthropic dumps c of Inl _ \<Rightarrow> True | Inr ms \<Rightarrow> anthropic_paired ms) \<and>
    (case to_openai show_block dumps c of Inl _ \<Rightarrow> True | Inr ms \<Rightarrow> openai_paired ms)"
proof
  note answered = settled_answered [OF assms]
  show "case to_anthropic dumps c of Inl _ \<Rightarrow> True | Inr ms \<Rightarrow> anthropic_paired ms"
    using anthropic_pairing [OF all_answered_filter [OF answered]] by (auto simp: to_anthropic_def split: sum.split)
  show "case to_openai show_block dumps c of Inl _ \<Rightarrow> True | Inr ms \<Rightarrow> openai_paired ms"
    using openai_pairing [OF answered] by (auto simp: to_openai_def split: sum.split dest!: ebind_eq_InrD)
qed

text \<open>C19: the items for the Responses API leave no call without an output, whatever the conversation: they are those of the
  entries, in order, and behind them one placeholder for each call that has none, and no other; a settled
  conversation gets no placeholder.\<close>

theorem responses_calls_answered:
  assumes "to_responses_input dumps c = Inr items"
  shows "\<exists>jss ids. emap (responses_entry dumps) (entries c) = Inr jss \<and>
     items = concat jss @ map (\<lambda>i. output_item i ORPHAN_OUTPUT_PLACEHOLDER) ids \<and> distinct ids \<and>
     set ids = set (item_call_ids (concat jss)) - set (output_ids (concat jss)) \<and>
     set (item_call_ids items) \<subseteq> set (output_ids items) \<and>
     (if wire_ok c \<and> \<not> has_pending_tool_calls c then ids = [] else True)"
proof -
  from assms obtain jss where jss: "emap (responses_entry dumps) (entries c) = Inr jss" and
    items: "items = pair_responses_orphan_function_calls (concat jss)"
    by (auto simp: to_responses_input_def dest!: ebind_eq_InrD)
  obtain ids where ids: "items = concat jss @ map (\<lambda>i. output_item i ORPHAN_OUTPUT_PLACEHOLDER) ids" "distinct ids"
    "set ids = set (item_call_ids (concat jss)) - set (output_ids (concat jss))"
    unfolding items by (rule paired_items)
  have "set (item_call_ids items) \<subseteq> set (output_ids items)"
    using ids(3) item_call_ids_not_empty by (auto simp: ids(1))
  moreover have "wire_ok c \<Longrightarrow> \<not> has_pending_tool_calls c \<Longrightarrow> ids = []"
  proof -
    assume settled: "wire_ok c" "\<not> has_pending_tool_calls c"
    have "set (item_call_ids (concat jss)) - set (output_ids (concat jss)) = {}"
      unfolding Diff_eq_empty_iff by (rule responses_answered [OF settled_answered [OF settled] jss])
    then have "set ids = {}" by (simp only: ids(3))
    then show "ids = []" by simp
  qed
  ultimately have "set (item_call_ids items) \<subseteq> set (output_ids items) \<and>
     (if wire_ok c \<and> \<not> has_pending_tool_calls c then ids = [] else True)" by presburger
  with jss ids show ?thesis by blast
qed

lemma sample_answered_settled: "wire_ok sample_answered" "\<not> has_pending_tool_calls sample_answered"
  using chat_wire.reach_inv [OF sample_answered_reach]
  by (simp_all add: has_pending_tool_calls_def tail_pending_def sample_answered_entries has_calls_def new_entry_def)

theorem settled_history_accepted_witness:
  "\<exists>ms ns. to_anthropic (\<lambda>_. []) sample_answered = Inr ms \<and> anthropic_paired ms \<and> map uses ms = [[], [''a''], []] \<and>
     to_openai (\<lambda>_. []) (\<lambda>_. []) sample_answered = Inr ns \<and> openai_paired ns \<and> map asked_ids ns = [[], [''a''], []]"
proof -
  obtain ms where ms: "to_anthropic (\<lambda>_. []) sample_answered = Inr ms" "map uses ms = [[], [''a''], []]"
    by (simp add: to_anthropic_def sample_answered_entries sample_asked_entries to_anthropic_entry_def new_entry_def block_list_def
        sample_call_def sample_result_def result_text_def project_tool_result_def uses_def List.map_filter_def typed_id_def
        item_is_def content_blocks_def role_message_def)
  obtain ns where ns: "to_openai (\<lambda>_. []) (\<lambda>_. []) sample_answered = Inr ns" "map asked_ids ns = [[], [''a''], []]"
    by (simp add: to_openai_def sample_answered_entries sample_asked_entries to_openai_entry_def new_entry_def
        sample_call_def sample_result_def result_text_def project_tool_result_def starts_with_result_def results_of_def
        calls_of_def List.map_filter_def tool_message_def asked_ids_def openai_assistant_def openai_call_def role_message_def)
  from settled_history_accepted [OF sample_answered_settled, of "\<lambda>_. []" "\<lambda>_. []"] ms ns show ?thesis by simp
qed

theorem responses_calls_answered_witness:
  "\<exists>items. to_responses_input (\<lambda>_. []) sample_asked = Inr items \<and> item_call_ids items = [''a''] \<and>
     set (item_call_ids items) \<subseteq> set (output_ids items)"
proof -
  obtain items where i: "to_responses_input (\<lambda>_. []) sample_asked = Inr items" "item_call_ids items = [''a'']"
    by (simp add: to_responses_input_def sample_asked_entries responses_entry_def new_entry_def starts_with_result_def
        sample_call_def responses_assistant_def calls_of_def texts_of_def reasoning_item_def List.map_filter_def
        responses_call_def pair_responses_orphan_function_calls_def output_ids_def item_is_def role_message_def call_id_of_def
        output_item_def)
  from responses_calls_answered [OF i(1)] i show ?thesis by blast
qed

section \<open>The projection and back\<close>

lemma dput_same: "dget d k = Some v \<Longrightarrow> dput k v d = d"
  by (induction d) (auto split: if_splits)

lemma dpop_absent: "dget d k = None \<Longrightarrow> dpop k d = d"
  unfolding dpop_def by (induction d) (auto split: if_splits)

lemma dget_dict_setdefault [simp]: "dget (dict_setdefault k v d) j = (if j = k then (case dget d k of None \<Rightarrow> Some v | Some w \<Rightarrow> Some w) else dget d j)"
  by (auto simp: dict_setdefault_def dhas_iff split: option.splits)

lemma move_keys_get:
  "move_keys ks (d, s) = (d', s') \<Longrightarrow> dget d' j = (if j \<in> set ks then None else dget d j)"
proof (induction ks arbitrary: d s)
  case (Cons k ks)
  then show ?case by (cases "dget d k") (auto simp: Cons.IH)
qed auto

lemma move_keys_absent: "\<forall>k\<in>set ks. dget d k = None \<Longrightarrow> move_keys ks (d, s) = (d, s)"
  by (induction ks) auto

lemma move_reconstruction_get:
  "move_reconstruction d s = Inr (d', s') \<Longrightarrow> dget d' j = (if j = ''reconstruction'' then None else dget d j)"
  by (auto simp: move_reconstruction_def split: option.splits py.splits)

lemma fill_axis_get: "j \<noteq> axis \<Longrightarrow> dget (fill_axis local axis moves raw agent) j = dget agent j"
  by (auto simp: fill_axis_def)

lemma fill_axis_again:
  assumes "\<forall>(k, to)\<in>set moves. dget raw' k = None"
    and a: "dget agent' axis = dget (fill_axis local axis moves raw agent) axis"
  shows "fill_axis local axis moves raw' agent' = agent'"
proof -
  have raw': "\<not> list_ex (\<lambda>(k, _). dhas raw' k) moves" using assms(1) by (auto simp: list_ex_iff dhas_iff)
  have keep: "fold (\<lambda>(k, to) n. case dget raw' k of None \<Rightarrow> n | Some v \<Rightarrow> dict_setdefault to v n) moves n = n" for n
    using assms(1) by (induction moves) auto
  show ?thesis
  proof (cases "local \<and> \<not> (dhas agent axis \<or> list_ex (\<lambda>(k, _). dhas raw k) moves)")
    case True
    then have "dget agent' axis = None" using a by (simp add: fill_axis_def)
    with True raw' dpop_absent show ?thesis by (simp add: fill_axis_def dhas_iff)
  next
    case False
    then obtain e where e: "dget agent' axis = Some (PDict e)" using a by (auto simp: fill_axis_def)
    with dput_same show ?thesis by (simp add: fill_axis_def dhas_iff keep dict_at_def)
  qed
qed

lemma normalize_agent_get:
  "dget (normalize_agent raw agent s) ''agent_state'' = Some (PDict s)"
  "dget (normalize_agent raw agent s) ''instruction'' \<noteq> None"
  "j \<notin> {''agent_state'', ''instruction'', ''notifications'', ''guidance''} \<Longrightarrow> dget (normalize_agent raw agent s) j = dget agent j"
  by (auto simp: normalize_agent_def Let_def fill_axis_get split: option.splits)

lemma normalize_agent_again:
  assumes "\<forall>k\<in>{''notifications'', ''notification_persistent'', ''guidance'', ''notification_guidance''}. dget raw' k = None"
  shows "normalize_agent raw' (normalize_agent raw agent s) s = normalize_agent raw agent s" (is "_ = ?a")
proof -
  have keep: "dict_setdefault ''instruction'' (PStr INSTRUCTION) (dput ''agent_state'' (PDict s) ?a) = ?a"
    using normalize_agent_get(1,2) [of raw agent s] dput_same by (simp add: dict_setdefault_def dhas_iff)
  define l where "l = (case dget s ''daemon'' of Some (PDict _) \<Rightarrow> True | _ \<Rightarrow> False)"
  define b where "b = dict_setdefault ''instruction'' (PStr INSTRUCTION) (dput ''agent_state'' (PDict s) agent)"
  have a: "?a = fill_axis l ''guidance'' GUIDANCE_MOVES raw (fill_axis l ''notifications'' NOTIFICATION_MOVES raw b)"
    by (simp add: normalize_agent_def Let_def l_def b_def)
  have "fill_axis l ''notifications'' NOTIFICATION_MOVES raw' ?a = ?a"
    by (rule fill_axis_again [where raw = raw and agent = b])
      (use assms in \<open>auto simp: NOTIFICATION_MOVES_def a fill_axis_get\<close>)
  moreover have "fill_axis l ''guidance'' GUIDANCE_MOVES raw' ?a = ?a"
    by (rule fill_axis_again [where raw = raw and agent = "fill_axis l ''notifications'' NOTIFICATION_MOVES raw b"])
      (use assms in \<open>auto simp: GUIDANCE_MOVES_def a\<close>)
  ultimately show ?thesis
    unfolding normalize_agent_def [of raw' ?a] by (simp add: Let_def keep l_def [symmetric])
qed

lemma normalize_again:
  assumes "normalize_runtime_envelope raw = Inr (Some e)"
  shows "normalize_runtime_envelope (PDict e) = Inr (Some e)"
proof -
  from assms obtain d where d: "raw = PDict d" by (auto simp: normalize_runtime_envelope_def split: py.splits)
  define agent0 where "agent0 = dict_at d ''agent_meta''"
  obtain tool1 s1 where m1: "move_keys TOOL_STATE_KEYS (dict_at d ''tool_meta'', dict_at agent0 ''agent_state'') = (tool1, s1)" by fastforce
  obtain agent1 s2 where m2: "move_keys AGENT_STATE_KEYS (agent0, s1) = (agent1, s2)" by fastforce
  from assms obtain tool2 s3 where m3: "move_reconstruction tool1 s2 = Inr (tool2, s3)"
    and e: "e = (if agent0 = [] \<and> \<not> list_ex (dhas d) AGENT_AXIS then [(''tool_meta'', PDict tool2)]
       else [(''tool_meta'', PDict tool2), (''agent_meta'', PDict (normalize_agent d agent1 s3))])"
    by (auto simp: normalize_runtime_envelope_def d agent0_def [symmetric] m1 m2 split: if_splits dest!: ebind_eq_InrD)
  have tool: "move_keys TOOL_STATE_KEYS (tool2, s) = (tool2, s)" "move_reconstruction tool2 s = Inr (tool2, s)" for s
    using move_keys_get [OF m1] move_reconstruction_get [OF m3]
    by (auto intro!: move_keys_absent simp: TOOL_STATE_KEYS_def move_reconstruction_def)
  show ?thesis
  proof (cases "agent0 = [] \<and> \<not> list_ex (dhas d) AGENT_AXIS")
    case True
    have "move_keys AGENT_STATE_KEYS ([], s) = ([], s)" for s by (rule move_keys_absent) simp
    with True tool show ?thesis
      by (simp add: normalize_runtime_envelope_def e dict_at_def HISTORICAL_ROOTS_def AGENT_AXIS_def dhas_def)
  next
    case False
    let ?ag = "normalize_agent d agent1 s3"
    have ag: "move_keys AGENT_STATE_KEYS (?ag, s) = (?ag, s)" for s
      using move_keys_get [OF m2] by (intro move_keys_absent) (auto simp: AGENT_STATE_KEYS_def normalize_agent_get(3))
    have "normalize_agent e ?ag s3 = ?ag" using False by (intro normalize_agent_again) (simp add: e)
    moreover have "?ag \<noteq> []" using normalize_agent_get(1) [of d agent1 s3] by auto
    moreover have "dict_at ?ag ''agent_state'' = s3" by (simp add: dict_at_def normalize_agent_get(1))
    moreover have "e = [(''tool_meta'', PDict tool2), (''agent_meta'', PDict ?ag)]" using e False by simp
    ultimately show ?thesis
      using tool ag by (simp add: normalize_runtime_envelope_def dict_at_def HISTORICAL_ROOTS_def dhas_def)
  qed
qed

text \<open>What comes back for a content: a dictionary whose only key is \<^verbatim>\<open>result\<close> is taken for a wrapper.\<close>

definition unwrapped :: "py \<Rightarrow> py" where
  "unwrapped v =
     (case v of
        PDict d \<Rightarrow> if dget d ''_meta'' = None \<and> set (dkeys d) = {''result''} then dgetd d ''result'' PNone else v
      | _ \<Rightarrow> v)"

lemma projected_restores:
  assumes p: "project_tool_result r = Inr p" and md: "tr_metadata r \<noteq> []" "normalize_runtime_envelope (PDict (tr_metadata r)) = Inr (Some m)"
  obtains d where "p = PDict d" "has_meta p" "restore_body q d = Inr (unwrapped (tr_content r), m)"
proof -
  consider c where "tr_content r = PDict c" "dget c ''_meta'' = None" "p = PDict (dput ''_meta'' (PDict m) c)"
    | "p = PDict [(''result'', tr_content r), (''_meta'', PDict m)]" "unwrapped (tr_content r) = tr_content r"
    using p md by (cases "tr_content r")
      (auto simp: project_tool_result_def unwrapped_def dhas_iff split: if_splits dest!: ebind_eq_InrD)
  then show ?thesis
  proof cases
    case (1 c)
    have "dpop ''_meta'' (dput ''_meta'' (PDict m) c) = c"
      using 1(2) unfolding dpop_def by (induction c) (auto split: if_splits)
    with 1 show ?thesis
      by (intro that [of "dput ''_meta'' (PDict m) c"])
        (simp_all add: has_meta_def restore_body_def dgetd_def normalize_again [OF md(2)] unwrapped_def Let_def split: if_splits)
  next
    case 2
    then show ?thesis
      by (intro that [of "[(''result'', tr_content r), (''_meta'', PDict m)]"])
        (simp_all add: has_meta_def restore_body_def dgetd_def normalize_again [OF md(2)] dpop_def dkeys_def)
  qed
qed

text \<open>C20: the metadata survives the providers. A result with runtime metadata, projected into its content, is read back with the
  normalized metadata, from the value and from its JSON text alike, and with its content, whether that is a text, a list or a
  dictionary and even when the dictionary has a \<^verbatim>\<open>_meta\<close> of its own. The one exception is a dictionary whose only key is
  \<^verbatim>\<open>result\<close>, which comes back as the value under that key.\<close>

theorem metadata_roundtrip:
  assumes "project_tool_result r = Inr p" "tr_metadata r \<noteq> []"
    and "normalize_runtime_envelope (PDict (tr_metadata r)) = Inr (Some m)" "loads (dumps p) = Some p"
  shows "restore_projected_result loads p = Inr (unwrapped (tr_content r), m) \<and>
    restore_projected_result loads (PStr (dumps p)) = Inr (unwrapped (tr_content r), m) \<and>
    (unwrapped (tr_content r) \<noteq> tr_content r \<longleftrightarrow>
      (\<exists>d. tr_content r = PDict d \<and> dget d ''_meta'' = None \<and> set (dkeys d) = {''result''}))"
proof (intro conjI)
  obtain d where d: "p = PDict d" "has_meta p" "restore_body p d = Inr (unwrapped (tr_content r), m)"
    by (rule projected_restores [OF assms(1-3)])
  then show "restore_projected_result loads p = Inr (unwrapped (tr_content r), m)"
    by (simp add: restore_projected_result_def)
  obtain d' where d': "p = PDict d'" "restore_body (PStr (dumps p)) d' = Inr (unwrapped (tr_content r), m)"
    by (rule projected_restores [OF assms(1-3)])
  then show "restore_projected_result loads (PStr (dumps p)) = Inr (unwrapped (tr_content r), m)"
    using assms(4) d(2) by (simp add: restore_projected_result_def)
  have small: "dgetd d ''result'' PNone \<noteq> PDict d" if "set (dkeys d) = {''result''}" for d
  proof
    assume eq: "dgetd d ''result'' PNone = PDict d"
    from that obtain v where "dget d ''result'' = Some v" by (metis dhas_def dhas_iff dkeys_def insertI1 not_None_eq)
    with eq have "(''result'', PDict d) \<in> set d" by (auto simp: dgetd_def dest: map_of_SomeD)
    then have "size (PDict d) \<le> size_list (size_prod (\<lambda>x. 0) size) d"
      by (auto dest!: size_list_estimation' [where f = "size_prod (\<lambda>x. 0) size" and y = "size (PDict d)"])
    then show False by simp
  qed
  show "unwrapped (tr_content r) \<noteq> tr_content r \<longleftrightarrow>
      (\<exists>d. tr_content r = PDict d \<and> dget d ''_meta'' = None \<and> set (dkeys d) = {''result''})"
    using small by (auto simp: unwrapped_def split: py.splits if_splits)
qed

definition sample_described :: tool_result where
  "sample_described = (sample_result ''a'' ''done'' False)\<lparr>tr_content := PDict [(''result'', PInt 1)],
     tr_metadata := [(''tool_meta'', PDict [(''elapsed_ms'', PInt 5)])]\<rparr>"

theorem metadata_roundtrip_witness:
  "\<exists>p. project_tool_result sample_described = Inr p \<and>
     restore_projected_result (\<lambda>_. Some p) p = Inr (PInt 1, [(''tool_meta'', PDict [(''elapsed_ms'', PInt 5)])])"
proof -
  have md: "normalize_runtime_envelope (PDict (tr_metadata sample_described)) = Inr (Some [(''tool_meta'', PDict [(''elapsed_ms'', PInt 5)])])"
    by code_simp
  obtain p where p: "project_tool_result sample_described = Inr p"
    using md by (simp add: project_tool_result_def sample_described_def dgetd_def normalize_runtime_envelope_def
        [of PNone] dhas_def)
  have "unwrapped (tr_content sample_described) = PInt 1" "tr_metadata sample_described \<noteq> []" by code_simp+
  with metadata_roundtrip [OF p _ md, of "\<lambda>_. Some p" "\<lambda>_. []"] p show ?thesis by simp
qed

end
