(* ===== verification/Spec2Isabelle.thy ===== *)
theory Spec2Isabelle
  imports Loop_Guard Tool_Lifecycle Chat_Properties TC_Inbox Sent_Tracker Turns_Laws Risky_Gate Provider_Admission
    Hook_Registry Tool_Plugin Config_Resolve Overflow_Recovery Send_Rollback Result_Recovery Context_Pressure Wire_Converters
begin

text \<open>
  Verification library of the LingTai agent kernel (\<^verbatim>\<open>src/lingtai/kernel\<close> and the parts of
  \<^verbatim>\<open>src/lingtai/llm\<close> and \<^verbatim>\<open>src/lingtai/tools\<close> it is coupled with). Paths below are relative to
  \<^verbatim>\<open>src/lingtai\<close> where they do not say otherwise. This theory imports all others; each opens with a note of
  its own.

  \<^bold>\<open>The program.\<close> An agent is a loop around a language model. Messages and turns arrive in an inbox; the
  recovery loop takes one, and runs the turn engine on it; the engine sends the conversation to the provider, executes
  the tool calls the reply asks for as a batch, commits their results to the conversation and sends again, until a
  reply asks for nothing. Around that stand: the guards a call passes before its handler is reached, the loop guard that
  stops a turn that calls without end, the stores that keep large results out of the conversation, the recovery of
  results that were lost, the notifications that wake the agent, and the receipts owed to whoever submitted a turn.

  \<^bold>\<open>What the shared vocabulary is.\<close> \<^verbatim>\<open>Prelude\<close> has Python values as a datatype, dictionaries as association lists
  in insertion order, exceptions as values (\<^theory_text>\<open>exc\<close>, an operation that can raise returns \<^theory_text>\<open>exc + 'a\<close>), the
  string operations the code uses, and the locale \<^theory_text>\<open>step_invariant\<close>: an initial state, a step relation and an
  invariant that both keep, from which the invariant of every reachable state follows. It is interpreted on the
  conversation (order of ids, pairing), the turn table, the hook registry and the tool surface.

  \<^bold>\<open>The conversation.\<close>
  \<^item> \<^verbatim>\<open>Chat_Blocks\<close>, \<^verbatim>\<open>Chat_Interface\<close>: \<^verbatim>\<open>kernel/llm/interface.py\<close>, blocks, entries and every
    operation of \<^verbatim>\<open>ChatInterface\<close> on a record of its attributes.
  \<^item> \<^verbatim>\<open>Chat_Laws\<close>, \<^verbatim>\<open>Chat_Properties\<close>: \<^theory_text>\<open>wire_ok\<close>, the invariant all providers ask for, that each entry
    with calls is followed by the entry that answers exactly them; that healing, repair, late results and the
    dictionary form do what they promise.
  \<^item> \<^verbatim>\<open>Wire_Converters\<close>: \<^verbatim>\<open>llm/interface_converters.py\<close>, from the conversation to the message formats of the
    providers; a well-paired conversation becomes messages paired as the formats ask.
  \<^item> \<^verbatim>\<open>TC_Inbox\<close>: \<^verbatim>\<open>kernel/tc_inbox.py\<close>, call/result pairs the kernel splices in; its client is the locale
    \<^theory_text>\<open>wire_chat\<close>, interpreted on the conversation.
  \<^item> \<^verbatim>\<open>Result_Recovery\<close>: \<^verbatim>\<open>kernel/tool_result_recovery.py\<close>. The reverse reader is bounded by 4 MiB and 10000
    events; what it finds is proved to be the newest matching event of the part it may read, whatever the
    chunk size.
  \<^item> \<^verbatim>\<open>Context_Summarize\<close>: \<^verbatim>\<open>tools/system/summarize.py\<close>, the summaries an agent writes over its old results; what it
    asks of a session is the locale \<^theory_text>\<open>tame_session\<close>, interpreted on the hooks every session has and on a Codex session's.
  \<^item> \<^verbatim>\<open>Codex_Boundary\<close>: the part of \<^verbatim>\<open>llm/openai/adapter.py\<close> that rebuilds a Codex session's context at the whole
    window, once per episode, and the warning when that did not help; every run is followed by a trace of
    rebuilds and observed usages.
  \<^item> \<^verbatim>\<open>Context_Pressure\<close>: \<^verbatim>\<open>kernel/reminders/context_pressure.py\<close>, the reminder after three fresh rounds of a
    high usage, proved to be a function of the observed rounds, and its texts.

  \<^bold>\<open>Turns.\<close>
  \<^item> \<^verbatim>\<open>Turns\<close>, \<^verbatim>\<open>Turns_Laws\<close>: \<^verbatim>\<open>kernel/turns.py\<close> as a step relation whose steps are the sections run
    under the turn lock and the publications after them, in any interleaving; receipts exactly once, and all of them
    at shutdown.
  \<^item> \<^verbatim>\<open>AED_Loop\<close>, \<^verbatim>\<open>AED_Laws\<close>: the recovery loop of \<^verbatim>\<open>kernel/base_agent/turn.py\<close> with
    \<^verbatim>\<open>Provider_Failure\<close>, the classes of failure it tells apart. The loop is a \<^theory_text>\<open>partial_function\<close>; that it returns
    is proved, with at most three retries of each kind and the configured number of attempts.
  \<^item> \<^verbatim>\<open>Turn_Engine\<close>, \<^verbatim>\<open>Turn_Engine_Laws\<close>, \<^verbatim>\<open>Turn_Engine_Wire\<close>: \<^verbatim>\<open>_handle_request\<close> and
    \<^verbatim>\<open>_process_response\<close>. Also partial functions; a request is proved to return after at most 10000 dispatched calls and
    10001 sends, the emergency limit of \<^verbatim>\<open>Loop_Guard\<close> (\<^verbatim>\<open>kernel/loop_guard.py\<close>), and to keep the conversation paired.
    The engine is then put into the recovery loop in place of the argument that stood for it.
  \<^item> \<^verbatim>\<open>Overflow_Recovery\<close>, \<^verbatim>\<open>Send_Rollback\<close>: the trim-and-retry of a request that is too long (at most 10 trims, so
    11 requests; \<^verbatim>\<open>kernel/llm/base.py\<close>), the send of \<^verbatim>\<open>llm/anthropic/adapter.py\<close> around it, and what its rollback takes back.
  \<^item> \<^verbatim>\<open>Sent_Tracker\<close>: \<^verbatim>\<open>kernel/sent_message_tracker.py\<close>, duplicate sends and the backoff of polls.

  \<^bold>\<open>Tools.\<close>
  \<^item> \<^verbatim>\<open>Tool_Guard\<close>: \<^verbatim>\<open>kernel/tool_call_guard.py\<close>, with the locale \<^theory_text>\<open>gate_check\<close> of one check of the chain,
    interpreted on the broker and on the risky-action gate.
  \<^item> \<^verbatim>\<open>Risk_Classifier\<close>, \<^verbatim>\<open>Risky_Gate\<close>: \<^verbatim>\<open>kernel/risky_action_gate.py\<close>, the classifier of shell and git
    commands and the approval life cycle as a refinement of an abstract one.
  \<^item> \<^verbatim>\<open>Provider_Admission\<close>: \<^verbatim>\<open>kernel/provider_admission.py\<close>, with the locale \<^theory_text>\<open>admission_gate\<close>.
  \<^item> \<^verbatim>\<open>Tool_Plugin\<close>: \<^verbatim>\<open>kernel/tool_plugin\<close> and \<^verbatim>\<open>kernel/base_agent/tools.py\<close>, declarations, the registrar, the surface.
  \<^item> \<^verbatim>\<open>Tool_Executor\<close>, \<^verbatim>\<open>Tool_Executor_Laws\<close>, \<^verbatim>\<open>Tool_Lifecycle\<close>, \<^verbatim>\<open>Result_Message\<close>: \<^verbatim>\<open>kernel/tool_executor.py\<close>, the
    sequential batch, the parallel batch as a step relation over workers, collector, cancellation and timeout,
    and the message a result becomes.
  \<^item> \<^verbatim>\<open>Result_Artifacts\<close>, \<^verbatim>\<open>Result_Summary\<close>: \<^verbatim>\<open>kernel/tool_result_artifacts.py\<close> and
    \<^verbatim>\<open>kernel/tool_result_summary.py\<close>, what happens to a result that is too long.

  \<^bold>\<open>Surroundings.\<close> \<^verbatim>\<open>Notification_Attention\<close> and \<^verbatim>\<open>Hook_Registry\<close> (\<^verbatim>\<open>kernel/notifications.py\<close>: channels, the
  coherent read, the registry of hooks) and \<^verbatim>\<open>Config_Resolve\<close> (\<^verbatim>\<open>kernel/config_resolve.py\<close>: JSONC and the env file).

  \<^bold>\<open>What stands for code that is not there.\<close> The provider, tool handlers, the clock, random names, tokenizers,
  \<^verbatim>\<open>json\<close>, the file system and hooks of the host are arguments, collected in records of an environment. What the
  theorems ask of them is in named predicates, and each has a concrete instance: that a provider never rejects a request for
  its length and that its replies are well formed (\<^theory_text>\<open>plain_provider\<close> and \<^theory_text>\<open>lawful\<close> in \<^verbatim>\<open>Turn_Engine_Wire\<close>), that the
  outcome of a batch is one the executor's relation allows (\<^theory_text>\<open>follows\<close> in \<^verbatim>\<open>Turn_Engine_Laws\<close>), that the hooks
  of a session only retell the conversation (the locale \<^theory_text>\<open>tame_session\<close> in \<^verbatim>\<open>Context_Summarize\<close>).
  Floats are exact rationals; strings are lists of characters below 256. Sections under a lock are one step.

  \<^bold>\<open>What the proofs brought to light.\<close> Where the code does not do what it, a comment or a doc says, the theory states what
  it does do: a declined rebuild spends the pending summaries, a summary at the
  boundary is reported pending when it is already applied, the rollback of a failed send can take a queued pair's
  result or the previous answers, a result that is a dictionary with the one key
  result loses it on a round trip, a terminal overflow can lose real tool results, the trim can drop the newest system
  prompt, exits of the recovery loop leave the published state stuck, the history file breaks lines at U+0085, an
  unhashable action drops a batch, required git flags count behind the double dash, and a single ampersand does not split a shell line.

  \<^bold>\<open>Not modelled.\<close> Operating-system work with no logic of its own: processes, threads, sockets, SQLite, watchers
  (\<^verbatim>\<open>kernel/daemon_supervisor\<close>, \<^verbatim>\<open>kernel/refresh_watcher\<close>, \<^verbatim>\<open>kernel/services\<close>, \<^verbatim>\<open>adapters\<close>); clients of outside
  services (\<^verbatim>\<open>mcp_servers\<close>, \<^verbatim>\<open>llm\<close> other than the Anthropic adapter's send and the Codex boundary); handlers of the built-in tools, which
  the kernel treats as arbitrary; text assembled for the model (\<^verbatim>\<open>kernel/meta_block.py\<close> apart from the payload helpers,
  prompts, translations); streaming sends; one-shot migrations; and the search sidecar, a Rust program of its own.
  Within modelled files, log records, aliasing of lists a caller keeps, and writers that cannot affect a result are left out.
\<close>

end
